(* ===== verification/Go_Prelude.thy ===== *)
theory Go_Prelude
  imports Complex_Main "HOL-Library.Word" "HOL-Library.AList" "HOL-Library.Sublist"
begin

section \<open>Prelude: the parts of Go the components share\<close>

text \<open>
  What the components use of the Go language and of its standard library, as executable
  definitions: 64-bit integers (signed values are \<open>int\<close> with the wrap-around written out,
  unsigned ones are words), float64, maps, strings, and the functions of package strconv and
  strings that the tracer calls.  The named collections \<open>gomap_simps\<close>, \<open>gostr_simps\<close>
  and \<open>f64_simps\<close> carry the proofs of the components.

  Go strings are byte strings, and so are HOL's: a \<open>char\<close> is a byte.  Loops of the source
  that range over the runes of a string only ever compare them with ASCII characters, which
  never occur inside a multi-byte rune, so ranging over the bytes finds the same positions.
  Case folding is modelled on ASCII letters; every key the tracer folds is a header name.
\<close>

named_theorems gomap_simps
named_theorems gostr_simps
named_theorems f64_simps

type_synonym u64 = "64 word"
type_synonym u32 = "32 word"

subsection \<open>Signed 64-bit arithmetic\<close>

text \<open>Two's complement wrap-around of an int64 result.\<close>

definition wrap64 :: "int \<Rightarrow> int" where
  "wrap64 x = (x + 2 ^ 63) mod 2 ^ 64 - 2 ^ 63"

definition int64_range :: "int \<Rightarrow> bool" where
  "int64_range x \<longleftrightarrow> - (2 ^ 63) \<le> x \<and> x < 2 ^ 63"

lemma wrap64_range [simp]: "int64_range (wrap64 x)"
proof -
  have "0 \<le> (x + 2 ^ 63) mod (2 ^ 64 :: int)" and "(x + 2 ^ 63) mod (2 ^ 64 :: int) < 2 ^ 64"
    by simp_all
  then show ?thesis by (simp add: wrap64_def int64_range_def)
qed

lemma wrap64_id: "int64_range x \<Longrightarrow> wrap64 x = x"
  by (simp add: wrap64_def int64_range_def)

text \<open>Go's integer division and remainder truncate towards zero.\<close>

definition go_div :: "int \<Rightarrow> int \<Rightarrow> int" where
  "go_div a b = sgn a * sgn b * (\<bar>a\<bar> div \<bar>b\<bar>)"

definition go_rem :: "int \<Rightarrow> int \<Rightarrow> int" where
  "go_rem a b = sgn a * (\<bar>a\<bar> mod \<bar>b\<bar>)"

lemma go_rem_nonneg: "0 \<le> a \<Longrightarrow> 0 < b \<Longrightarrow> go_rem a b = a mod b"
  by (cases "a = 0") (simp_all add: go_rem_def)

lemma go_div_nonneg: "0 \<le> a \<Longrightarrow> 0 < b \<Longrightarrow> go_div a b = a div b"
  by (cases "a = 0") (simp_all add: go_div_def)

subsection \<open>float64\<close>

text \<open>
  A float64 is NaN, an infinity or a finite number, kept as the rational it denotes (the two
  zeros are one value: nothing in the tracer tells them apart).  \<open>f64_round\<close> is the rounding
  of IEEE 754, to the nearest representable value with ties to even: 53 bits of precision and
  a smallest exponent of \<open>-1074\<close>; a result of \<open>2 ^ 1024\<close> or more is an infinity.
\<close>

datatype float64 = Fin rat | PInf | NInf | NaN

definition round_even :: "rat \<Rightarrow> int" where
  "round_even q = (let f = \<lfloor>q\<rfloor>; r = q - of_int f in
     if r < 1 / 2 then f else if r > 1 / 2 then f + 1 else if even f then f else f + 1)"

function bit_len :: "int \<Rightarrow> int" where
  "bit_len n = (if n \<le> 0 then 0 else 1 + bit_len (n div 2))"
  by pat_completeness auto
termination
  by (relation "measure nat") auto

declare bit_len.simps [simp del]

definition f64_exp :: "rat \<Rightarrow> int" where
  "f64_exp q = (case quotient_of \<bar>q\<bar> of (n, d) \<Rightarrow>
     let k = bit_len n - bit_len d;
         k' = (if \<bar>q\<bar> < 2 powi k then k - 1 else k)
     in max (- 1074) (k' - 52))"

definition f64_round :: "rat \<Rightarrow> float64" where
  "f64_round q = (if q = 0 then Fin 0 else
     let e = f64_exp q; m = round_even (q / 2 powi e) in
       if e > 971 \<or> (e = 971 \<and> \<bar>m\<bar> \<ge> 2 ^ 53) then (if q > 0 then PInf else NInf)
       else Fin (of_int m * 2 powi e))"

definition f64_of_int :: "int \<Rightarrow> float64" where
  "f64_of_int i = f64_round (of_int i)"

fun f64_is_nan :: "float64 \<Rightarrow> bool" where
  "f64_is_nan NaN = True"
| "f64_is_nan _ = False"

fun f64_lt :: "float64 \<Rightarrow> float64 \<Rightarrow> bool" where
  "f64_lt (Fin a) (Fin b) = (a < b)"
| "f64_lt (Fin a) PInf = True"
| "f64_lt NInf (Fin b) = True"
| "f64_lt NInf PInf = True"
| "f64_lt _ _ = False"

fun f64_eq :: "float64 \<Rightarrow> float64 \<Rightarrow> bool" where
  "f64_eq (Fin a) (Fin b) = (a = b)"
| "f64_eq PInf PInf = True"
| "f64_eq NInf NInf = True"
| "f64_eq _ _ = False"

definition f64_le :: "float64 \<Rightarrow> float64 \<Rightarrow> bool" where
  "f64_le a b = (f64_lt a b \<or> f64_eq a b)"

fun f64_add :: "float64 \<Rightarrow> float64 \<Rightarrow> float64" where
  "f64_add (Fin a) (Fin b) = f64_round (a + b)"
| "f64_add NaN _ = NaN"
| "f64_add _ NaN = NaN"
| "f64_add PInf NInf = NaN"
| "f64_add NInf PInf = NaN"
| "f64_add PInf _ = PInf"
| "f64_add _ PInf = PInf"
| "f64_add NInf _ = NInf"
| "f64_add _ NInf = NInf"

definition f64_neg :: "float64 \<Rightarrow> bool" where
  "f64_neg f = f64_lt f (Fin 0)"

fun f64_div :: "float64 \<Rightarrow> float64 \<Rightarrow> float64" where
  "f64_div (Fin a) (Fin b) = (if b = 0 then (if a = 0 then NaN else if a > 0 then PInf else NInf)
     else f64_round (a / b))"
| "f64_div NaN _ = NaN"
| "f64_div _ NaN = NaN"
| "f64_div (Fin a) _ = Fin 0"
| "f64_div f (Fin b) = (if f64_neg f = (b < 0) then PInf else NInf)"
| "f64_div _ _ = NaN"

text \<open>
  \<open>int(f)\<close> truncates towards zero.  Out of range (and for NaN and the infinities) the Go
  specification leaves the value to the implementation; the model has the value of amd64, the
  smallest int64.
\<close>

definition rat_trunc :: "rat \<Rightarrow> int" where
  "rat_trunc q = (if q \<ge> 0 then \<lfloor>q\<rfloor> else \<lceil>q\<rceil>)"

fun f64_to_int :: "float64 \<Rightarrow> int" where
  "f64_to_int (Fin q) = (if int64_range (rat_trunc q) then rat_trunc q else - (2 ^ 63))"
| "f64_to_int _ = - (2 ^ 63)"

lemma f64_le_Fin [simp, f64_simps]: "f64_le (Fin a) (Fin b) \<longleftrightarrow> a \<le> b"
  by (auto simp: f64_le_def)

lemma round_even_of_int [simp]: "round_even (of_int i) = i"
  by (simp add: round_even_def Let_def)

lemma round_even_mono_int: "q \<le> of_int n \<Longrightarrow> round_even q \<le> n"
proof -
  assume a: "q \<le> of_int n"
  then have f: "\<lfloor>q\<rfloor> \<le> n" by (simp add: floor_le_iff)
  show ?thesis
  proof (cases "\<lfloor>q\<rfloor> = n")
    case True
    with a have "q = of_int n" by (metis floor_correct order_antisym)
    then show ?thesis by simp
  next
    case False
    with f show ?thesis by (auto simp: round_even_def Let_def)
  qed
qed

lemma round_even_nonneg: "0 \<le> q \<Longrightarrow> 0 \<le> round_even q"
  by (auto simp: round_even_def Let_def zero_le_floor)

lemma bit_len_mono: "m \<le> n \<Longrightarrow> bit_len m \<le> bit_len n"
proof (induction n arbitrary: m rule: bit_len.induct)
  case (1 n)
  have nn: "0 \<le> bit_len k" for k
    by (induction k rule: bit_len.induct) (subst bit_len.simps, auto)
  show ?case
  proof (cases "m \<le> 0")
    case True
    then show ?thesis by (simp add: bit_len.simps [of m] nn)
  next
    case False
    with 1 have "bit_len (m div 2) \<le> bit_len (n div 2)" by (simp add: zdiv_mono1)
    with False 1 show ?thesis by (simp add: bit_len.simps [of m] bit_len.simps [of n])
  qed
qed

lemma bit_len_less: "n < 2 ^ k \<Longrightarrow> bit_len n \<le> int k"
proof (induction k arbitrary: n)
  case 0
  then show ?case by (simp add: bit_len.simps)
next
  case (Suc k)
  then have "n div 2 < 2 ^ k" by simp
  then have "bit_len (n div 2) \<le> int k" by (rule Suc.IH)
  then show ?case by (simp add: bit_len.simps [of n])
qed

lemma bit_len_1 [simp]: "bit_len 1 = 1"
  by (simp add: bit_len.simps)

lemma f64_exp_of_int: "\<bar>i\<bar> < 2 ^ 53 \<Longrightarrow> f64_exp (of_int i) \<le> 0"
proof -
  assume a: "\<bar>i\<bar> < 2 ^ 53"
  then have "bit_len \<bar>i\<bar> \<le> int 53" by (rule bit_len_less)
  moreover have "quotient_of \<bar>of_int i :: rat\<bar> = (\<bar>i\<bar>, 1)"
    by (simp flip: of_int_abs add: quotient_of_int)
  ultimately show ?thesis by (auto simp: f64_exp_def Let_def)
qed

lemma f64_exp_le_1: "0 \<le> q \<Longrightarrow> q \<le> 1 \<Longrightarrow> f64_exp q \<le> 0"
proof -
  assume a: "0 \<le> q" "q \<le> 1"
  obtain n d where nd: "quotient_of q = (n, d)" by (cases "quotient_of q")
  then have q: "q = of_int n / of_int d" and d: "0 < d"
    by (auto simp: quotient_of_div quotient_of_denom_pos)
  with a have "n \<le> d" by (simp add: field_simps)
  then have "bit_len n \<le> bit_len d" by (rule bit_len_mono)
  with a nd show ?thesis by (auto simp: f64_exp_def Let_def)
qed

lemma powi_nonpos: "e \<le> 0 \<Longrightarrow> (2::rat) powi e = 1 / of_int (2 ^ nat (- e))"
  by (cases "e = 0") (auto simp: power_int_def divide_simps)

lemma f64_of_int_exact [f64_simps]: "\<bar>i\<bar> < 2 ^ 53 \<Longrightarrow> f64_of_int i = Fin (of_int i)"
proof -
  assume a: "\<bar>i\<bar> < 2 ^ 53"
  show ?thesis
  proof (cases "i = 0")
    case True
    then show ?thesis by (simp add: f64_of_int_def f64_round_def)
  next
    case False
    define m :: int where "m = 2 ^ nat (- f64_exp (of_int i))"
    have m: "m > 0" by (simp add: m_def)
    have p: "(2::rat) powi f64_exp (of_int i) = 1 / of_int m"
      using powi_nonpos [OF f64_exp_of_int [OF a]] by (simp add: m_def)
    have "round_even (of_int i / (1 / of_int m)) = i * m"
      using round_even_of_int [of "i * m"] by simp
    with m p have r: "of_int (round_even (of_int i / 2 powi f64_exp (of_int i)))
        * (2::rat) powi f64_exp (of_int i) = of_int i" by simp
    with False f64_exp_of_int [OF a] show ?thesis
      by (simp add: f64_of_int_def f64_round_def Let_def)
  qed
qed

lemma f64_round_unit: 
  assumes "0 \<le> q" "q \<le> 1"
  shows "\<exists>r. f64_round q = Fin r \<and> 0 \<le> r \<and> r \<le> 1"
proof (cases "q = 0")
  case True
  then show ?thesis by (simp add: f64_round_def)
next
  case False
  define m :: int where "m = 2 ^ nat (- f64_exp q)"
  have m: "m > 0" by (simp add: m_def)
  have p: "(2::rat) powi f64_exp q = 1 / of_int m"
    using powi_nonpos [OF f64_exp_le_1 [OF assms]] by (simp add: m_def)
  have "q * of_int m \<le> of_int m" using assms m by (simp add: mult_left_le_one_le)
  then have u: "round_even (q * of_int m) \<le> m" by (rule round_even_mono_int)
  have l: "0 \<le> round_even (q * of_int m)" using assms m by (intro round_even_nonneg) simp
  define r :: rat where "r = of_int (round_even (q * of_int m)) / of_int m"
  have r: "0 \<le> r" "r \<le> 1" using u l m by (simp_all add: r_def)
  with False p f64_exp_le_1 [OF assms] show ?thesis
    by (auto simp: f64_round_def Let_def r_def)
qed


subsection \<open>Maps\<close>

text \<open>
  A Go map: nil, or a list of its entries in the order in which a \<open>range\<close> loop visits them.
  Go leaves that order open, so nothing is ever assumed of it: a theorem over all entry lists
  holds for every iteration order.  \<open>m_put\<close> is the assignment \<open>m[k] = v\<close> together with the
  \<open>if m == nil { m = make(...) }\<close> that precedes it everywhere in the source.
\<close>

type_synonym ('k, 'v) gomap = "('k \<times> 'v) list option"

fun m_items :: "('k, 'v) gomap \<Rightarrow> ('k \<times> 'v) list" where
  "m_items None = []"
| "m_items (Some xs) = xs"

definition m_get :: "('k, 'v) gomap \<Rightarrow> 'k \<Rightarrow> 'v option" where
  "m_get m k = map_of (m_items m) k"

definition m_put :: "'k \<Rightarrow> 'v \<Rightarrow> ('k, 'v) gomap \<Rightarrow> ('k, 'v) gomap" where
  "m_put k v m = Some (AList.update k v (m_items m))"

definition m_del :: "'k \<Rightarrow> ('k, 'v) gomap \<Rightarrow> ('k, 'v) gomap" where
  "m_del k m = map_option (AList.delete k) m"

definition m_str :: "('k, string) gomap \<Rightarrow> 'k \<Rightarrow> string" where
  "m_str m k = (case m_get m k of None \<Rightarrow> [] | Some v \<Rightarrow> v)"

definition m_wf :: "('k, 'v) gomap \<Rightarrow> bool" where
  "m_wf m \<longleftrightarrow> distinct (map fst (m_items m))"

lemma m_items_del [simp]: "m_items (m_del k m) = AList.delete k (m_items m)"
  by (cases m) (simp_all add: m_del_def)

lemma m_items_put [simp]: "m_items (m_put k v m) = AList.update k v (m_items m)"
  by (simp add: m_put_def)

lemma m_get_put [simp, gomap_simps]: "m_get (m_put k v m) k' = (if k' = k then Some v else m_get m k')"
  by (simp add: m_get_def update_conv')

lemma m_get_del [simp, gomap_simps]: "m_get (m_del k m) k' = (if k' = k then None else m_get m k')"
  by (simp add: m_get_def delete_conv')

lemma m_get_nil [simp, gomap_simps]: "m_get None k = None"
  by (simp add: m_get_def)

lemma m_get_make [simp, gomap_simps]: "m_get (Some []) k = None"
  by (simp add: m_get_def)

lemma m_wf_put [simp, intro]: "m_wf m \<Longrightarrow> m_wf (m_put k v m)"
  by (simp add: m_wf_def distinct_update)

lemma m_wf_del [simp, intro]: "m_wf m \<Longrightarrow> m_wf (m_del k m)"
  by (simp add: m_wf_def distinct_delete)

lemma m_wf_nil [simp, intro]: "m_wf None" "m_wf (Some [])"
  by (simp_all add: m_wf_def)

lemma m_put_not_nil [simp]: "m_put k v m \<noteq> None"
  by (simp add: m_put_def)

lemma m_get_items: "m_wf m \<Longrightarrow> m_get m k = Some v \<longleftrightarrow> (k, v) \<in> set (m_items m)"
  by (simp add: m_get_def m_wf_def)

lemma m_get_dom: "m_get m k = None \<longleftrightarrow> k \<notin> fst ` set (m_items m)"
  by (simp add: m_get_def map_of_eq_None_iff)

lemma in_set_update: "x \<in> set (AList.update k v al) \<Longrightarrow> x = (k, v) \<or> x \<in> set al"
  by (induction al) (auto split: if_splits)

lemma update_fresh: "k \<notin> fst ` set al \<Longrightarrow> AList.update k v al = al @ [(k, v)]"
  by (induction al) auto

subsection \<open>Strings\<close>

definition trim_prefix :: "string \<Rightarrow> string \<Rightarrow> string" where
  "trim_prefix p s = (if prefix p s then drop (length p) s else s)"

definition lower_char :: "char \<Rightarrow> char" where
  "lower_char c = (let n = of_char c :: nat in
     if 65 \<le> n \<and> n \<le> 90 then char_of (n + 32) else c)"

definition to_lower :: "string \<Rightarrow> string" where
  "to_lower s = map lower_char s"

fun split_on :: "char \<Rightarrow> string \<Rightarrow> string list" where
  "split_on c [] = [[]]"
| "split_on c (x # xs) = (if x = c then [] # split_on c xs
     else case split_on c xs of [] \<Rightarrow> [[x]] | w # ws \<Rightarrow> (x # w) # ws)"

fun join_with :: "string \<Rightarrow> string list \<Rightarrow> string" where
  "join_with sep [] = []"
| "join_with sep [w] = w"
| "join_with sep (w # v # ws) = w @ sep @ join_with sep (v # ws)"

lemma trim_prefix_append [simp, gostr_simps]: "trim_prefix p (p @ s) = s"
  by (simp add: trim_prefix_def)

lemma lower_char_idem [simp]: "lower_char (lower_char c) = lower_char c"
proof -
  have "of_char (char_of (n + 32) :: char) = n + 32" if "65 \<le> n" "n \<le> 90" for n :: nat
    using that by simp
  then show ?thesis by (auto simp: lower_char_def Let_def)
qed

lemma to_lower_idem [simp, gostr_simps]: "to_lower (to_lower s) = to_lower s"
  by (simp add: to_lower_def)

lemma to_lower_append [simp, gostr_simps]: "to_lower (a @ b) = to_lower a @ to_lower b"
  by (simp add: to_lower_def)

lemma split_on_not_Nil [simp]: "split_on c s \<noteq> []"
  by (induction s) (auto split: list.splits)

lemma split_on_join: "join_with [c] (split_on c s) = s"
proof (induction s)
  case Nil
  then show ?case by simp
next
  case (Cons x xs)
  obtain w ws where w: "split_on c xs = w # ws" by (cases "split_on c xs") auto
  then show ?case using Cons by (cases ws) auto
qed

lemma split_on_plain: "c \<notin> set w \<Longrightarrow> split_on c w = [w]"
  by (induction w) auto

lemma split_on_sep: "c \<notin> set w \<Longrightarrow> split_on c (w @ c # s) = w # split_on c s"
  by (induction w) auto

lemma split_on_joined:
  "ws \<noteq> [] \<Longrightarrow> (\<And>w. w \<in> set ws \<Longrightarrow> c \<notin> set w) \<Longrightarrow> split_on c (join_with [c] ws) = ws"
  by (induction "[c]" ws rule: join_with.induct) (simp_all add: split_on_plain split_on_sep)

subsection \<open>Formatting and parsing of integers (package strconv)\<close>

definition digit_char :: "int \<Rightarrow> char" where
  "digit_char d = ''0123456789abcdef'' ! nat d"

function fmt_base :: "int \<Rightarrow> int \<Rightarrow> string" where
  "fmt_base b n = (if n < b \<or> b < 2 then [digit_char n]
     else fmt_base b (n div b) @ [digit_char (n mod b)])"
  by pat_completeness auto
termination
proof (relation "measure (\<lambda>(b, n). nat n)")
  fix b n :: int
  assume a: "\<not> (n < b \<or> b < 2)"
  then have "0 < n" by linarith
  with a have "n div b < n" by (simp add: int_div_less_self)
  with \<open>0 < n\<close> show "((b, n div b), (b, n)) \<in> measure (\<lambda>(b, n). nat n)" by simp
qed simp

declare fmt_base.simps [simp del]

definition format_uint :: "u64 \<Rightarrow> int \<Rightarrow> string" where
  "format_uint n b = fmt_base b (uint n)"

definition itoa :: "int \<Rightarrow> string" where
  "itoa i = (if i < 0 then CHR ''-'' # fmt_base 10 (- i) else fmt_base 10 i)"

definition pad_left :: "nat \<Rightarrow> string \<Rightarrow> string" where
  "pad_left n s = replicate (n - length s) CHR ''0'' @ s"

definition digit_val :: "char \<Rightarrow> int option" where
  "digit_val c = (let n = of_char c :: int in
     if 48 \<le> n \<and> n \<le> 57 then Some (n - 48)
     else if 97 \<le> n \<and> n \<le> 122 then Some (n - 97 + 10)
     else if 65 \<le> n \<and> n \<le> 90 then Some (n - 65 + 10)
     else None)"

fun parse_digits :: "int \<Rightarrow> int \<Rightarrow> string \<Rightarrow> int option" where
  "parse_digits b acc [] = Some acc"
| "parse_digits b acc (c # cs) = (case digit_val c of
     None \<Rightarrow> None
   | Some d \<Rightarrow> if d \<ge> b then None else parse_digits b (acc * b + d) cs)"

text \<open>
  \<open>strconv.ParseUint(s, b, 64)\<close>: \<open>None\<close> stands for every error (an empty string, a character
  that is no digit of the base, a value out of range): the source never looks at which it is.
\<close>

definition parse_uint :: "int \<Rightarrow> string \<Rightarrow> u64 option" where
  "parse_uint b s = (if s = [] then None else case parse_digits b 0 s of
     None \<Rightarrow> None
   | Some v \<Rightarrow> if v < 2 ^ 64 then Some (word_of_int v) else None)"

definition parse_magnitude :: "bool \<Rightarrow> string \<Rightarrow> int option" where
  "parse_magnitude neg s = (case parse_uint 10 s of
     None \<Rightarrow> None
   | Some u \<Rightarrow> if neg then (if uint u > 2 ^ 63 then None else Some (- uint u))
       else (if uint u \<ge> 2 ^ 63 then None else Some (uint u)))"

text \<open>\<open>strconv.ParseInt(s, 10, 64)\<close>, which \<open>strconv.Atoi\<close> is on 64-bit platforms.\<close>

definition parse_int :: "string \<Rightarrow> int option" where
  "parse_int s = (case s of
     [] \<Rightarrow> None
   | c # cs \<Rightarrow> if c = CHR ''+'' then parse_magnitude False cs
       else if c = CHR ''-'' then parse_magnitude True cs
       else parse_magnitude False s)"

lemma digit_val_char [simp]: "0 \<le> d \<Longrightarrow> d < 16 \<Longrightarrow> digit_val (digit_char d) = Some d"
proof -
  assume "0 \<le> d" "d < 16"
  then have "d = 0 \<or> d = 1 \<or> d = 2 \<or> d = 3 \<or> d = 4 \<or> d = 5 \<or> d = 6 \<or> d = 7 \<or> d = 8
    \<or> d = 9 \<or> d = 10 \<or> d = 11 \<or> d = 12 \<or> d = 13 \<or> d = 14 \<or> d = 15" by presburger
  then show ?thesis by (auto simp: digit_char_def digit_val_def)
qed

lemma parse_digits_append:
  "parse_digits b acc (xs @ ys) = Option.bind (parse_digits b acc xs) (\<lambda>a. parse_digits b a ys)"
  by (induction xs arbitrary: acc) (auto split: option.splits)

lemma parse_digits_fmt [gostr_simps]:
  "0 \<le> n \<Longrightarrow> 2 \<le> b \<Longrightarrow> b \<le> 16 \<Longrightarrow> parse_digits b 0 (fmt_base b n) = Some n"
proof (induction b n rule: fmt_base.induct)
  case (1 b n)
  show ?case
  proof (cases "n < b")
    case True
    with 1 show ?thesis by (simp add: fmt_base.simps [of b n])
  next
    case False
    with 1 have IH: "parse_digits b 0 (fmt_base b (n div b)) = Some (n div b)"
      by (simp add: pos_imp_zdiv_nonneg_iff)
    have m: "0 \<le> n mod b" "n mod b < b" using 1 by simp_all
    with 1(4) have "n mod b < 16" by linarith
    with m have "digit_val (digit_char (n mod b)) = Some (n mod b)" by simp
    moreover have "\<not> b \<le> n mod b" using m by linarith
    ultimately show ?thesis using False IH 1(3)
      by (simp add: fmt_base.simps [of b n] parse_digits_append)
  qed
qed

lemma parse_digits_zeros: "2 \<le> b \<Longrightarrow> parse_digits b 0 (replicate k CHR ''0'' @ s) = parse_digits b 0 s"
  by (induction k) (auto simp: digit_val_def)

lemma fmt_base_not_Nil [simp]: "fmt_base b n \<noteq> []"
  by (subst fmt_base.simps) simp

lemma fmt_base_digits:
  "0 \<le> n \<Longrightarrow> 2 \<le> b \<Longrightarrow> b \<le> 16 \<Longrightarrow> c \<in> set (fmt_base b n) \<Longrightarrow> c \<in> set ''0123456789abcdef''"
proof (induction b n rule: fmt_base.induct)
  case (1 b n)
  have d: "digit_char d \<in> set ''0123456789abcdef''" if "0 \<le> d" "d < b" for d
    unfolding digit_char_def using that 1(4) by (intro nth_mem) simp
  show ?case
  proof (cases "n < b")
    case True
    with 1 d show ?thesis by (simp add: fmt_base.simps [of b n])
  next
    case False
    with 1 have IH: "c \<in> set (fmt_base b (n div b)) \<Longrightarrow> c \<in> set ''0123456789abcdef''"
      by (simp add: pos_imp_zdiv_nonneg_iff)
    have "fmt_base b n = fmt_base b (n div b) @ [digit_char (n mod b)]"
      using 1(3) False by (subst fmt_base.simps) simp
    then have "c \<in> set (fmt_base b (n div b)) \<or> c = digit_char (n mod b)"
      using 1(5) by auto
    moreover have "0 \<le> n mod b" "n mod b < b" using 1(3) by simp_all
    ultimately show ?thesis using IH d by blast
  qed
qed

lemma fmt_base_length: "0 \<le> n \<Longrightarrow> 2 \<le> b \<Longrightarrow> n < b ^ k \<Longrightarrow> 0 < k \<Longrightarrow> length (fmt_base b n) \<le> k"
proof (induction k arbitrary: n)
  case 0
  then show ?case by simp
next
  case (Suc k)
  show ?case
  proof (cases "n < b")
    case True
    then show ?thesis by (simp add: fmt_base.simps [of b n])
  next
    case False
    with Suc.prems have k: "0 < k" by (cases k) auto
    have "n < b ^ k * b" using Suc.prems by (simp add: mult.commute)
    moreover have "n div b * b \<le> n"
      using Suc.prems minus_mod_eq_div_mult [of n b] pos_mod_sign [of b n] by linarith
    ultimately have "n div b * b < b ^ k * b" by linarith
    then have "n div b < b ^ k" using Suc.prems by simp
    with Suc k have "length (fmt_base b (n div b)) \<le> k"
      by (simp add: pos_imp_zdiv_nonneg_iff)
    with False Suc.prems show ?thesis by (simp add: fmt_base.simps [of b n])
  qed
qed

lemma parse_uint_fmt:
  "2 \<le> b \<Longrightarrow> b \<le> 16 \<Longrightarrow> parse_uint b (replicate k CHR ''0'' @ format_uint n b) = Some n"
  using uint_bounded [of n]
  by (simp add: parse_uint_def format_uint_def parse_digits_zeros parse_digits_fmt)

lemma parse_uint_format [simp, gostr_simps]:
  "parse_uint 10 (format_uint n 10) = Some n" "parse_uint 16 (pad_left k (format_uint n 16)) = Some n"
  using parse_uint_fmt [of 10 0 n] parse_uint_fmt [of 16 _ n] by (simp_all add: pad_left_def)

lemma fmt_base_10_sign: "0 \<le> n \<Longrightarrow> CHR ''-'' \<notin> set (fmt_base 10 n) \<and> CHR ''+'' \<notin> set (fmt_base 10 n)"
  using fmt_base_digits [of n 10] by fastforce

lemma parse_uint_fmt_base: "0 \<le> n \<Longrightarrow> n < 2 ^ 64 \<Longrightarrow> parse_uint 10 (fmt_base 10 n) = Some (word_of_int n)"
  by (simp add: parse_uint_def parse_digits_fmt)

lemma uint_word_of_int_64: "0 \<le> n \<Longrightarrow> n < 2 ^ 64 \<Longrightarrow> uint (word_of_int n :: u64) = n"
  by (simp add: uint_word_of_int)

lemma parse_int_itoa [simp, gostr_simps]: "int64_range i \<Longrightarrow> parse_int (itoa i) = Some i"
proof -
  assume r: "int64_range i"
  show ?thesis
  proof (cases "i < 0")
    case True
    define j where "j = - i"
    with True r have j: "0 < j" "j \<le> 2 ^ 63" "i = - j" by (simp_all add: int64_range_def)
    then show ?thesis
      by (simp add: itoa_def parse_int_def parse_magnitude_def parse_uint_fmt_base uint_word_of_int_64)
  next
    case False
    obtain c cs where c: "fmt_base 10 i = c # cs" by (cases "fmt_base 10 i") auto
    with False fmt_base_10_sign [of i] have "c \<noteq> CHR ''-''" "c \<noteq> CHR ''+''" by auto
    then have "parse_int (itoa i) = parse_magnitude False (fmt_base 10 i)"
      using False c by (simp add: itoa_def parse_int_def)
    moreover have "parse_magnitude False (fmt_base 10 i) = Some i"
      using False r
      by (simp add: parse_magnitude_def parse_uint_fmt_base uint_word_of_int_64 int64_range_def)
    ultimately show ?thesis by simp
  qed
qed

lemma length_format_uint_16: "length (format_uint n 16) \<le> 16"
  unfolding format_uint_def by (rule fmt_base_length) (use uint_bounded [of n] in auto)

lemma format_uint_not_Nil [simp]: "format_uint n b \<noteq> []"
  by (simp add: format_uint_def)

end
