(* ===== verification/Tracer_Util.thy ===== *)
theory Tracer_Util
  imports Go_Prelude
begin

section \<open>ddtrace/tracer/util.go: conversions and the propagated-tags grammar\<close>

text \<open>
  Values of Go's \<open>interface{}\<close> as the tag setters receive them, the conversion of numbers to
  float64, the parsing of identifiers, and the grammar of the propagated trace tags
  (\<open>k1=v1,k2=v2\<close>).  The loop of \<open>parsePropagatableTraceTags\<close> is kept with its indices and its
  mutable variables; \<open>parse_tags_ref\<close> is the reference it is proved equal to.
\<close>

subsection \<open>Dynamic values\<close>

text \<open>
  The dynamic type of an \<open>interface{}\<close> value.  A float32 is the float64 it converts to
  exactly.  \<open>VStringer\<close> carries what calling its \<open>String\<close> method does, \<open>VErr\<close> what the error
  is asked for, \<open>VOther\<close> what \<open>fmt.Sprint\<close> prints of any other value.
\<close>

datatype stringer = SStr string | SNilPanic | SPanic

record goerror =
  e_Error :: string
  e_Type :: string
  e_Details :: "string option"

datatype goval =
    VNil
  | VBool bool
  | VString string
  | VByte int
  | VFloat32 float64
  | VFloat64 float64
  | VInt int
  | VInt8 int
  | VInt16 int
  | VInt32 int
  | VInt64 int
  | VUint int
  | VUint16 int
  | VUint32 int
  | VUint64 int
  | VSamplerName int
  | VStringer stringer
  | VErr goerror
  | VOther string

fun toFloat64 :: "goval \<Rightarrow> float64 option" where
  "toFloat64 (VByte i) = Some (f64_of_int i)"
| "toFloat64 (VFloat32 f) = Some f"
| "toFloat64 (VFloat64 f) = Some f"
| "toFloat64 (VInt i) = Some (f64_of_int i)"
| "toFloat64 (VInt8 i) = Some (f64_of_int i)"
| "toFloat64 (VInt16 i) = Some (f64_of_int i)"
| "toFloat64 (VInt32 i) = Some (f64_of_int i)"
| "toFloat64 (VInt64 i) = (if i > 2 ^ 53 - 1 \<or> i < - (2 ^ 53 - 1) then None else Some (f64_of_int i))"
| "toFloat64 (VUint i) = Some (f64_of_int i)"
| "toFloat64 (VUint16 i) = Some (f64_of_int i)"
| "toFloat64 (VUint32 i) = Some (f64_of_int i)"
| "toFloat64 (VUint64 i) = (if i > 2 ^ 53 - 1 then None else Some (f64_of_int i))"
| "toFloat64 (VSamplerName i) = Some (f64_of_int i)"
| "toFloat64 _ = None"

definition parseUint64 :: "string \<Rightarrow> u64 option" where
  "parseUint64 s = (if prefix ''-'' s
     then (case parse_int s of None \<Rightarrow> None | Some i \<Rightarrow> Some (word_of_int i))
     else parse_uint 10 s)"

subsection \<open>Propagated trace tags\<close>

datatype tag_error = KeyEmpty | KeyInvalidChar char | ValueEmpty | ValueInvalidChar char | InvalidFormat

definition key_char_bad :: "char \<Rightarrow> bool" where
  "key_char_bad c = (let n = of_char c :: nat in
     n < 32 \<or> n > 126 \<or> c = CHR '' '' \<or> c = CHR ''='' \<or> c = CHR '','')"

definition val_char_bad :: "char \<Rightarrow> bool" where
  "val_char_bad c = (let n = of_char c :: nat in
     n < 32 \<or> n > 126 \<or> c = CHR ''='' \<or> c = CHR '','')"

definition isValidPropagatableTag :: "string \<Rightarrow> string \<Rightarrow> tag_error option" where
  "isValidPropagatableTag k v =
    (if k = [] then Some KeyEmpty
     else case find key_char_bad k of
       Some ch \<Rightarrow> Some (KeyInvalidChar ch)
     | None \<Rightarrow>
        if v = [] then Some ValueEmpty
        else case find val_char_bad v of
          Some ch \<Rightarrow> Some (ValueInvalidChar ch)
        | None \<Rightarrow> None)"

text \<open>
  The loop of \<open>parsePropagatableTraceTags\<close>: \<open>rest\<close> is what is left to visit, \<open>i\<close> the index
  of its first byte, and the other arguments are the loop's variables.  A slice
  \<open>s[start:i]\<close> is \<open>take (i - start) (drop start s)\<close>.
\<close>

fun parse_tags_loop ::
  "string \<Rightarrow> string \<Rightarrow> nat \<Rightarrow> bool \<Rightarrow> nat \<Rightarrow> string \<Rightarrow> (string \<times> string) list
    \<Rightarrow> tag_error + (bool \<times> nat \<times> string \<times> (string \<times> string) list)" where
  "parse_tags_loop s [] i searchingKey start key tags = Inr (searchingKey, start, key, tags)"
| "parse_tags_loop s (ch # rest) i searchingKey start key tags =
    (if ch = CHR ''='' then
       if searchingKey then
         if i - start = 0 then Inl InvalidFormat
         else parse_tags_loop s rest (Suc i) False (Suc i) (take (i - start) (drop start s)) tags
       else parse_tags_loop s rest (Suc i) searchingKey start key tags
     else if ch = CHR '','' then
       if searchingKey \<or> i - start = 0 then Inl InvalidFormat
       else parse_tags_loop s rest (Suc i) True (Suc i) key
              (AList.update key (take (i - start) (drop start s)) tags)
     else parse_tags_loop s rest (Suc i) searchingKey start key tags)"

definition parsePropagatableTraceTags :: "string \<Rightarrow> tag_error + (string, string) gomap" where
  "parsePropagatableTraceTags s =
    (if length s = 0 then Inr None
     else case parse_tags_loop s s 0 True 0 [] [] of
       Inl e \<Rightarrow> Inl e
     | Inr (searchingKey, start, key, tags) \<Rightarrow>
         if searchingKey \<or> length s - start = 0 then Inl InvalidFormat
         else Inr (Some (AList.update key (drop start s) tags)))"

subsection \<open>The reference grammar\<close>

definition split_eq :: "string \<Rightarrow> (string \<times> string) option" where
  "split_eq p = (let k = takeWhile (\<lambda>c. c \<noteq> CHR ''='') p; r = dropWhile (\<lambda>c. c \<noteq> CHR ''='') p in
     if k = [] \<or> r = [] \<or> tl r = [] then None else Some (k, tl r))"

fun parse_pieces :: "string list \<Rightarrow> (string \<times> string) list \<Rightarrow> (string \<times> string) list option" where
  "parse_pieces [] tags = Some tags"
| "parse_pieces (p # ps) tags = (case split_eq p of
     None \<Rightarrow> None
   | Some (k, v) \<Rightarrow> parse_pieces ps (AList.update k v tags))"

definition parse_tags_ref :: "string \<Rightarrow> tag_error + (string, string) gomap" where
  "parse_tags_ref s = (if s = [] then Inr None else
     case parse_pieces (split_on CHR '','' s) [] of
       None \<Rightarrow> Inl InvalidFormat
     | Some tags \<Rightarrow> Inr (Some tags))"


subsection \<open>The loop implements the grammar\<close>

text \<open>
  The loop with its slices replaced by the text they hold: \<open>cur\<close> is \<open>s[start:i]\<close>.
\<close>

fun parse_tags_acc ::
  "string \<Rightarrow> bool \<Rightarrow> string \<Rightarrow> string \<Rightarrow> (string \<times> string) list \<Rightarrow> (string \<times> string) list option" where
  "parse_tags_acc [] sk cur key tags =
     (if sk \<or> cur = [] then None else Some (AList.update key cur tags))"
| "parse_tags_acc (ch # rest) sk cur key tags =
    (if ch = CHR ''='' then
       if sk then
         if cur = [] then None else parse_tags_acc rest False [] cur tags
       else parse_tags_acc rest sk (cur @ [ch]) key tags
     else if ch = CHR '','' then
       if sk \<or> cur = [] then None else parse_tags_acc rest True [] key (AList.update key cur tags)
     else parse_tags_acc rest sk (cur @ [ch]) key tags)"

definition parse_tags_finish ::
  "string \<Rightarrow> tag_error + (bool \<times> nat \<times> string \<times> (string \<times> string) list)
    \<Rightarrow> tag_error + (string, string) gomap" where
  "parse_tags_finish s r = (case r of
       Inl e \<Rightarrow> Inl e
     | Inr (searchingKey, start, key, tags) \<Rightarrow>
         if searchingKey \<or> length s - start = 0 then Inl InvalidFormat
         else Inr (Some (AList.update key (drop start s) tags)))"

definition tags_result :: "(string \<times> string) list option \<Rightarrow> tag_error + (string, string) gomap" where
  "tags_result r = (case r of None \<Rightarrow> Inl InvalidFormat | Some t \<Rightarrow> Inr (Some t))"

lemma tags_finish_simps [simp]:
  "parse_tags_finish s (Inl e) = Inl e" "tags_result None = Inl InvalidFormat"
  "tags_result (Some t) = Inr (Some t)"
  by (simp_all add: parse_tags_finish_def tags_result_def)

lemma parse_tags_loop_acc:
  "s = pre @ cur @ rest \<Longrightarrow> start = length pre \<Longrightarrow> i = start + length cur \<Longrightarrow>
    parse_tags_finish s (parse_tags_loop s rest i sk start key tags)
    = tags_result (parse_tags_acc rest sk cur key tags)"
proof (induction rest arbitrary: pre cur i sk start key tags)
  case Nil
  then show ?case by (simp add: parse_tags_finish_def)
next
  case (Cons ch rest)
  have slice: "take (i - start) (drop start s) = cur" and empty: "i - start = 0 \<longleftrightarrow> cur = []"
    using Cons.prems by simp_all
  have reset: "parse_tags_finish s (parse_tags_loop s rest (Suc i) sk' (Suc i) key' tags')
      = tags_result (parse_tags_acc rest sk' [] key' tags')" for sk' key' tags'
    using Cons.prems by (intro Cons.IH [of "pre @ cur @ [ch]"]) simp_all
  have extend: "parse_tags_finish s (parse_tags_loop s rest (Suc i) sk' start key' tags')
      = tags_result (parse_tags_acc rest sk' (cur @ [ch]) key' tags')" for sk' key' tags'
    using Cons.prems by (intro Cons.IH [of pre]) simp_all
  show ?case
    by (simp add: slice empty reset extend del: diff_is_0_eq diff_is_0_eq')
qed

lemma split_eq_no_eq: "CHR ''='' \<notin> set p \<Longrightarrow> split_eq p = None"
proof -
  assume "CHR ''='' \<notin> set p"
  then have "\<forall>c \<in> set p. c \<noteq> CHR ''=''" by blast
  then have "dropWhile (\<lambda>c. c \<noteq> CHR ''='') p = []" by (simp add: dropWhile_eq_Nil_conv)
  then show ?thesis by (simp only: split_eq_def Let_def) simp
qed

lemma split_eq_pair [simp]:
  "CHR ''='' \<notin> set k \<Longrightarrow> split_eq (k @ CHR ''='' # v) = (if k = [] \<or> v = [] then None else Some (k, v))"
proof -
  assume "CHR ''='' \<notin> set k"
  then have a: "c \<in> set k \<Longrightarrow> c \<noteq> CHR ''=''" for c by blast
  have "takeWhile (\<lambda>c. c \<noteq> CHR ''='') (k @ CHR ''='' # v) = k"
    using a by (subst takeWhile_append2) simp_all
  moreover have "dropWhile (\<lambda>c. c \<noteq> CHR ''='') (k @ CHR ''='' # v) = CHR ''='' # v"
    using a by (subst dropWhile_append2) simp_all
  ultimately show ?thesis by (simp only: split_eq_def Let_def) simp
qed

lemma split_eq_nokey: "split_eq (CHR ''='' # v) = None"
  using split_eq_pair [of "[]" v] by simp

lemma parse_tags_acc_ref:
  "(sk \<longrightarrow> CHR ''='' \<notin> set cur) \<Longrightarrow> (\<not> sk \<longrightarrow> key \<noteq> [] \<and> CHR ''='' \<notin> set key) \<Longrightarrow>
    split_on CHR '','' rest = w # ws \<Longrightarrow>
    parse_tags_acc rest sk cur key tags =
      parse_pieces ((if sk then cur @ w else key @ CHR ''='' # cur @ w) # ws) tags"
proof (induction rest arbitrary: sk cur key tags w ws)
  case Nil
  then show ?case by (auto simp: split_eq_no_eq)
next
  case (Cons ch rest)
  obtain u us where u: "split_on CHR '','' rest = u # us" by (cases "split_on CHR '','' rest") auto
  consider (eq) "ch = CHR ''=''" | (comma) "ch = CHR '',''"
    | (other) "ch \<noteq> CHR ''=''" "ch \<noteq> CHR '',''" by blast
  then show ?case
  proof cases
    case eq
    with Cons.prems u have w: "w = ch # u" "ws = us" by simp_all
    with eq Cons.prems u show ?thesis
      using Cons.IH [of False "[]" cur u us tags] Cons.IH [of False "cur @ [ch]" key u us tags]
      by (cases sk; cases "cur = []") (simp_all add: split_eq_nokey)
  next
    case comma
    with Cons.prems u have w: "w = []" "ws = u # us" by simp_all
    with comma Cons.prems u show ?thesis
      using Cons.IH [of True "[]" key u us]
      by (cases sk; cases "cur = []") (simp_all add: split_eq_no_eq)
  next
    case other
    with Cons.prems u have w: "w = ch # u" "ws = us" by simp_all
    with other Cons.prems u show ?thesis
      using Cons.IH [of sk "cur @ [ch]" key u us tags] by (cases sk) simp_all
  qed
qed

lemma parse_tags_ref_equiv: "parsePropagatableTraceTags s = parse_tags_ref s"
proof (cases "s = []")
  case True
  then show ?thesis by (simp add: parsePropagatableTraceTags_def parse_tags_ref_def)
next
  case False
  obtain w ws where w: "split_on CHR '','' s = w # ws" by (cases "split_on CHR '','' s") auto
  from False have "parsePropagatableTraceTags s = parse_tags_finish s (parse_tags_loop s s 0 True 0 [] [])"
    by (simp add: parsePropagatableTraceTags_def parse_tags_finish_def)
  also have "\<dots> = tags_result (parse_tags_acc s True [] [] [])"
    by (rule parse_tags_loop_acc [where pre = "[]"]) simp_all
  also have "\<dots> = tags_result (parse_pieces (split_on CHR '','' s) [])"
    using parse_tags_acc_ref [of True "[]" "[]" s w ws "[]"] w by simp
  also have "\<dots> = parse_tags_ref s"
    using False by (simp add: parse_tags_ref_def tags_result_def)
  finally show ?thesis .
qed

lemma parse_pieces_valid:
  "parse_pieces ps tags = Some t \<Longrightarrow> (k, v) \<in> set t \<Longrightarrow>
    (k, v) \<in> set tags \<or> (k \<noteq> [] \<and> v \<noteq> [] \<and> CHR ''='' \<notin> set k \<and> k @ CHR ''='' # v \<in> set ps)"
proof (induction ps arbitrary: tags)
  case Nil
  then show ?case by simp
next
  case (Cons p ps)
  then obtain k' v' where s: "split_eq p = Some (k', v')" and
    r: "parse_pieces ps (AList.update k' v' tags) = Some t"
    by (auto split: option.splits prod.splits)
  have kv: "k' \<noteq> []" "v' \<noteq> []" "p = k' @ CHR ''='' # v'" "CHR ''='' \<notin> set k'"
  proof -
    let ?P = "\<lambda>c. c \<noteq> CHR ''=''"
    have *: "takeWhile ?P p \<noteq> []" "dropWhile ?P p \<noteq> []" "tl (dropWhile ?P p) \<noteq> []"
      "k' = takeWhile ?P p" "v' = tl (dropWhile ?P p)"
      using s by (auto simp: split_eq_def Let_def split: if_splits)
    then have "hd (dropWhile ?P p) = CHR ''=''" using hd_dropWhile [of ?P p] by simp
    with * have "dropWhile ?P p = CHR ''='' # v'" by (metis list.collapse)
    then have "p = k' @ CHR ''='' # v'" using * takeWhile_dropWhile_id [of ?P p] by simp
    moreover have "CHR ''='' \<notin> set k'" using * set_takeWhileD by fastforce
    ultimately show "k' \<noteq> []" "v' \<noteq> []" "p = k' @ CHR ''='' # v'" "CHR ''='' \<notin> set k'" using * by auto
  qed
  from Cons.IH [OF r Cons.prems(2)] kv show ?case by (auto dest: in_set_update)
qed

lemma parse_pieces_pairs:
  "distinct (map fst (tags @ xs)) \<Longrightarrow>
    (\<And>k v. (k, v) \<in> set xs \<Longrightarrow> k \<noteq> [] \<and> v \<noteq> [] \<and> CHR ''='' \<notin> set k) \<Longrightarrow>
    parse_pieces (map (\<lambda>(k, v). k @ CHR ''='' # v) xs) tags = Some (tags @ xs)"
proof (induction xs arbitrary: tags)
  case Nil
  then show ?case by simp
next
  case (Cons x xs)
  obtain k v where x: "x = (k, v)" by (cases x)
  have "k \<noteq> []" "v \<noteq> []" "CHR ''='' \<notin> set k" using Cons.prems(2) [of k v] x by simp_all
  moreover have "AList.update k v tags = tags @ [(k, v)]"
    using Cons.prems(1) x by (intro update_fresh) auto
  moreover have "parse_pieces (map (\<lambda>(k, v). k @ CHR ''='' # v) xs) (tags @ [(k, v)])
      = Some ((tags @ [(k, v)]) @ xs)"
    using Cons.prems x by (intro Cons.IH) auto
  ultimately show ?case using x by simp
qed

lemma parse_tags_join:
  assumes "xs \<noteq> []" "distinct (map fst xs)"
    and "\<And>k v. (k, v) \<in> set xs \<Longrightarrow> k \<noteq> [] \<and> v \<noteq> [] \<and> CHR ''='' \<notin> set k
          \<and> CHR '','' \<notin> set k \<and> CHR '','' \<notin> set v"
  shows "parsePropagatableTraceTags (join_with '','' (map (\<lambda>(k, v). k @ CHR ''='' # v) xs)) = Inr (Some xs)"
proof -
  let ?ps = "map (\<lambda>(k, v). k @ CHR ''='' # v) xs"
  have "split_on CHR '','' (join_with '','' ?ps) = ?ps"
    using assms by (intro split_on_joined) fastforce+
  moreover have "parse_pieces ?ps [] = Some xs" using parse_pieces_pairs [of "[]" xs] assms by simp
  moreover have "join_with '','' ?ps \<noteq> []"
    using assms by (cases xs; cases "tl xs") auto
  ultimately show ?thesis by (simp add: parse_tags_ref_equiv parse_tags_ref_def)
qed

lemma parseUint64_format [simp]: "parseUint64 (format_uint n 10) = Some n"
proof -
  have "CHR ''-'' \<notin> set (format_uint n 10)"
    using fmt_base_10_sign [of "uint n"] by (simp add: format_uint_def)
  then have "\<not> prefix ''-'' (format_uint n 10)" by (cases "format_uint n 10") auto
  then show ?thesis by (simp add: parseUint64_def)
qed

lemma isValidPropagatableTag_ok:
  "isValidPropagatableTag k v = None \<longleftrightarrow> k \<noteq> [] \<and> v \<noteq> [] \<and> \<not> list_ex key_char_bad k \<and> \<not> list_ex val_char_bad v"
proof -
  have n: "find P xs = None \<longleftrightarrow> \<not> list_ex P xs" for P and xs :: string
    by (auto simp: find_None_iff list_ex_iff)
  show ?thesis
    by (cases "find key_char_bad k"; cases "find val_char_bad v")
      (auto simp: isValidPropagatableTag_def n[symmetric])
qed

lemma isValidPropagatableTag_chars:
  "isValidPropagatableTag k v = None \<Longrightarrow> k \<noteq> [] \<and> v \<noteq> [] \<and> CHR ''='' \<notin> set k \<and> CHR '','' \<notin> set k \<and> CHR '','' \<notin> set v"
  by (auto simp: isValidPropagatableTag_ok list_ex_iff key_char_bad_def val_char_bad_def Let_def)

subsection \<open>Properties\<close>

text \<open>
  C11: the index-based loop of \<open>parsePropagatableTraceTags\<close> accepts exactly the comma separated
  lists of \<open>key=value\<close> pieces with a non-empty key (up to the first \<open>=\<close>) and a non-empty
  value, returns the map of the pieces with the last occurrence of a key winning, rejects
  everything else, and maps the empty string to the nil map.
\<close>

theorem parsePropagatableTraceTags_grammar: "parsePropagatableTraceTags s = parse_tags_ref s"
  by (rule parse_tags_ref_equiv)

text \<open>
  The function \<open>toFloat64\<close> accepts an int64 exactly when its magnitude is below \<open>2 ^ 53\<close>, a uint64
  likewise, and then the float64 is the integer, without any loss.
\<close>

theorem toFloat64_lossless:
  "toFloat64 (VInt64 i) = (if \<bar>i\<bar> < 2 ^ 53 then Some (Fin (of_int i)) else None)
    \<and> toFloat64 (VUint64 (int n)) = (if n < 2 ^ 53 then Some (Fin (of_nat n)) else None)"
proof
  have "(i > 2 ^ 53 - 1 \<or> i < - (2 ^ 53 - 1)) \<longleftrightarrow> \<not> \<bar>i\<bar> < (2 ^ 53 :: int)" by auto
  then show "toFloat64 (VInt64 i) = (if \<bar>i\<bar> < 2 ^ 53 then Some (Fin (of_int i)) else None)"
    by (simp only: toFloat64.simps f64_of_int_exact) (simp add: f64_of_int_exact)
  have "int n > 2 ^ 53 - 1 \<longleftrightarrow> \<not> n < 2 ^ 53" by auto
  then show "toFloat64 (VUint64 (int n)) = (if n < 2 ^ 53 then Some (Fin (of_nat n)) else None)"
    using f64_of_int_exact [of "int n"] by (simp only: toFloat64.simps) auto
qed

text \<open>
  The comment of \<open>toFloat64\<close> says that no integer of magnitude \<open>2 ^ 53\<close> or more is
  converted, to avoid losing precision; the cases for \<open>int\<close> and \<open>uint\<close> have no such check,
  and two different ints become the same float64.
\<close>

theorem toFloat64_int_loses_precision:
  "toFloat64 (VInt (2 ^ 53 + 1)) = Some (Fin (2 ^ 53))
    \<and> toFloat64 (VInt (2 ^ 53)) = Some (Fin (2 ^ 53))
    \<and> toFloat64 (VUint (2 ^ 53 + 1)) = Some (Fin (2 ^ 53))"
  by code_simp

text \<open>
  The function \<open>parseUint64\<close> reads back every identifier, whether it was printed as an unsigned
  64-bit number or as the signed 64-bit number with the same bits.
\<close>

theorem parseUint64_roundtrip:
  "parseUint64 (format_uint n 10) = Some n \<and> parseUint64 (itoa (sint n)) = Some n"
proof
  show "parseUint64 (format_uint n 10) = Some n" by simp
  have r: "int64_range (sint n)" using sint_ge [of n] sint_lt [of n] by (simp add: int64_range_def)
  show "parseUint64 (itoa (sint n)) = Some n"
  proof (cases "sint n < 0")
    case True
    then have "prefix ''-'' (itoa (sint n))" by (simp add: itoa_def)
    with r show ?thesis by (simp add: parseUint64_def)
  next
    case False
    have "CHR ''-'' \<notin> set (fmt_base 10 (sint n))" using fmt_base_10_sign False by simp
    then have "\<not> prefix ''-'' (itoa (sint n))"
      using False by (cases "fmt_base 10 (sint n)") (auto simp: itoa_def)
    moreover have "parse_uint 10 (fmt_base 10 (sint n)) = Some (word_of_int (sint n))"
      using False r by (intro parse_uint_fmt_base) (auto simp: int64_range_def)
    ultimately show ?thesis using False by (simp add: parseUint64_def itoa_def)
  qed
qed

end
