(* ===== verification/Tracer_Types.thy ===== *)
theory Tracer_Types
  imports Tracer_Util
begin

section \<open>The data of package tracer and the store that holds it\<close>

text \<open>
  The structs of ddtrace/tracer as records.  Spans, span contexts, traces and rate limiters
  are shared through pointers in the source (a span points to its context, the context to its
  trace, the trace back to its spans and its root), so they live in an explicit store: a pointer
  is a \<open>nat\<close>, nil is \<open>None\<close>, and \<open>heap\<close> maps every pointer to its object.  Mutexes are
  left out: every method that takes one runs as one step.  Time is nanoseconds since the epoch.

  Third-party code the tracer calls is the record \<open>extlib\<close>, an argument of the operations
  that use it: the token bucket of golang.org/x/time/rate (its answer is a function of the
  limit, of the earlier calls, latest first, and of the time), and the obfuscator of
  datadog-agent.
\<close>

subsection \<open>Tag names and constants\<close>

abbreviation "ext_SamplingPriority \<equiv> ''sampling.priority''"
abbreviation "ext_SpanName \<equiv> ''span.name''"
abbreviation "ext_SpanType \<equiv> ''span.type''"
abbreviation "ext_ServiceName \<equiv> ''service.name''"
abbreviation "ext_Version \<equiv> ''version''"
abbreviation "ext_ResourceName \<equiv> ''resource.name''"
abbreviation "ext_Error \<equiv> ''error''"
abbreviation "ext_ErrorMsg \<equiv> ''error.msg''"
abbreviation "ext_ErrorType \<equiv> ''error.type''"
abbreviation "ext_ErrorStack \<equiv> ''error.stack''"
abbreviation "ext_ErrorDetails \<equiv> ''error.details''"
abbreviation "ext_Environment \<equiv> ''env''"
abbreviation "ext_EventSampleRate \<equiv> ''_dd1.sr.eausr''"
abbreviation "ext_AnalyticsEvent \<equiv> ''analytics.event''"
abbreviation "ext_ManualKeep \<equiv> ''manual.keep''"
abbreviation "ext_ManualDrop \<equiv> ''manual.drop''"
abbreviation "ext_Pid \<equiv> ''system.pid''"
abbreviation "keySamplingPriority \<equiv> ''_sampling_priority_v1''"
abbreviation "keySamplingPriorityRate \<equiv> ''_dd.agent_psr''"
abbreviation "keyDecisionMaker \<equiv> ''_dd.p.dm''"
abbreviation "keyOrigin \<equiv> ''_dd.origin''"
abbreviation "keyHostname \<equiv> ''_dd.hostname''"
abbreviation "keyRulesSamplerAppliedRate \<equiv> ''_dd.rule_psr''"
abbreviation "keyRulesSamplerLimiterRate \<equiv> ''_dd.limit_psr''"
abbreviation "keyMeasured \<equiv> ''_dd.measured''"
abbreviation "keyTopLevel \<equiv> ''_dd.top_level''"
abbreviation "keyPropagationError \<equiv> ''_dd.propagation_error''"
abbreviation "keySpanSamplingMechanism \<equiv> ''_dd.span_sampling.mechanism''"
abbreviation "keySingleSpanSamplingRuleRate \<equiv> ''_dd.span_sampling.rule_rate''"
abbreviation "keySingleSpanSamplingMPS \<equiv> ''_dd.span_sampling.max_per_second''"
abbreviation "keyPropagatedUserID \<equiv> ''_dd.p.usr.id''"
abbreviation "keyUserID \<equiv> ''usr.id''"
abbreviation "sampleRateMetricKey \<equiv> ''_sample_rate''"

abbreviation "PriorityUserReject \<equiv> (-1 :: int)"
abbreviation "PriorityAutoReject \<equiv> (0 :: int)"
abbreviation "PriorityAutoKeep \<equiv> (1 :: int)"
abbreviation "PriorityUserKeep \<equiv> (2 :: int)"

text \<open>Sampler names are int8 constants; the numbers go on the wire.\<close>

datatype SamplerName = Unknown | Default | AgentRate | RemoteRate | RuleRate | Manual | AppSec | RemoteUserRate

fun sampler_code :: "SamplerName \<Rightarrow> int" where
  "sampler_code Unknown = -1"
| "sampler_code Default = 0"
| "sampler_code AgentRate = 1"
| "sampler_code RemoteRate = 2"
| "sampler_code RuleRate = 3"
| "sampler_code Manual = 4"
| "sampler_code AppSec = 5"
| "sampler_code RemoteUserRate = 6"

definition wrap32 :: "int \<Rightarrow> int" where
  "wrap32 x = (x + 2 ^ 31) mod 2 ^ 32 - 2 ^ 31"

subsection \<open>Spans, contexts, traces\<close>

text \<open>A pprof context is the list of the labels it carries.\<close>

type_synonym pprof_ctx = "(string \<times> string) list"

record span =
  s_Name :: string
  s_Service :: string
  s_Resource :: string
  s_Type :: string
  s_Start :: int
  s_Duration :: int
  s_Meta :: "(string, string) gomap"
  s_Metrics :: "(string, float64) gomap"
  s_SpanID :: u64
  s_TraceID :: u64
  s_ParentID :: u64
  s_Error :: int
  s_noDebugStack :: bool
  s_finished :: bool
  s_context :: nat
  s_pprofCtxActive :: "pprof_ctx option"
  s_pprofCtxRestore :: "pprof_ctx option"

record spanContext =
  c_trace :: "nat option"
  c_span :: "nat option"
  c_errors :: int
  c_traceID :: u64
  c_spanID :: u64
  c_baggage :: "(string, string) gomap"
  c_hasBaggage :: bool
  c_origin :: string

datatype samplingDecision = decisionNone | decisionDrop | decisionKeep

record trace =
  t_spans :: "nat list"
  t_tags :: "(string, string) gomap"
  t_propagatingTags :: "(string, string) gomap"
  t_finished :: nat
  t_full :: bool
  t_priority :: "float64 option"
  t_locked :: bool
  t_samplingDecision :: samplingDecision
  t_root :: "nat option"

abbreviation "traceMaxSize \<equiv> (100000 :: nat)"

subsection \<open>Samplers\<close>

record rateSampler =
  rs_rate :: float64

text \<open>A configured sampler: the tracer's rate sampler, or any other implementation of \<open>Sampler\<close>.\<close>

datatype sampler = RateSampler rateSampler | OtherSampler "span \<Rightarrow> bool"

record prioritySampler =
  ps_rates :: "(string, float64) gomap"
  ps_defaultRate :: float64

record rateLimiter =
  l_limit :: float64
  l_calls :: "int list"
  l_prevTime :: int
  l_allowed :: float64
  l_seen :: float64
  l_prevAllowed :: float64
  l_prevSeen :: float64

datatype SamplingRuleType = SamplingRuleTrace | SamplingRuleSpan

text \<open>A compiled regular expression is its \<open>MatchString\<close> method; nil is \<open>None\<close>.\<close>

record SamplingRule =
  sr_Service :: "(string \<Rightarrow> bool) option"
  sr_Name :: "(string \<Rightarrow> bool) option"
  sr_Rate :: float64
  sr_MaxPerSecond :: float64
  sr_ruleType :: SamplingRuleType
  sr_exactService :: string
  sr_exactName :: string
  sr_limiter :: "nat option"

record traceRulesSampler =
  trs_rules :: "SamplingRule list"
  trs_globalRate :: float64
  trs_limiter :: nat

record singleSpanRulesSampler =
  srs_rules :: "SamplingRule list"

record rulesSampler =
  rls_traces :: traceRulesSampler
  rls_spans :: singleSpanRulesSampler

subsection \<open>Stats records\<close>

record aggregation =
  a_Name :: string
  a_Type :: string
  a_Resource :: string
  a_Service :: string
  a_StatusCode :: int
  a_Synthetics :: bool

record aggregableSpan =
  as_key :: aggregation
  as_Start :: int
  as_Duration :: int
  as_Error :: int
  as_TopLevel :: bool

subsection \<open>Configuration, tracer, store\<close>

record agentFeatures =
  af_DropP0s :: bool
  af_Stats :: bool
  af_StatsdPort :: int
  af_featureFlags :: "string list"

record config =
  cf_agent :: agentFeatures
  cf_featureFlags :: "string list"
  cf_serviceName :: string
  cf_universalVersion :: bool
  cf_version :: string
  cf_env :: string
  cf_sampler :: sampler
  cf_serviceMappings :: "(string, string) gomap"
  cf_globalTags :: "(string, goval) gomap"
  cf_hostname :: string
  cf_runtimeMetrics :: bool
  cf_noDebugStack :: bool
  cf_profilerHotspots :: bool
  cf_profilerEndpoints :: bool

record finishedTrace =
  ft_spans :: "nat list"
  ft_decision :: samplingDecision

record tracer =
  tr_config :: config
  tr_statsIn :: "aggregableSpan list"
  tr_out :: "finishedTrace list"
  tr_stopped :: bool
  tr_prioritySampling :: prioritySampler
  tr_rulesSampling :: rulesSampler
  tr_pid :: string
  tr_spansStarted :: u32
  tr_spansFinished :: u32
  tr_tracesDropped :: u32
  tr_droppedP0Traces :: u32
  tr_droppedP0Spans :: u32
  tr_partialTraces :: u32
  tr_obfuscator :: bool

abbreviation "payloadQueueSize \<equiv> (1000 :: nat)"
abbreviation "statsQueueSize \<equiv> (10000 :: nat)"

text \<open>
  \<open>h_active\<close>: the global tracer is this tracer (and not the no-op tracer that \<open>Stop\<close> or a
  mock installs).  \<open>h_labels\<close>: the pprof labels of the running goroutine.
\<close>

record heap =
  h_span :: "nat \<Rightarrow> span"
  h_ctx :: "nat \<Rightarrow> spanContext"
  h_trace :: "nat \<Rightarrow> trace"
  h_lim :: "nat \<Rightarrow> rateLimiter"
  h_next :: nat
  h_tracer :: tracer
  h_active :: bool
  h_labels :: pprof_ctx

record extlib =
  x_allowN :: "float64 \<Rightarrow> int list \<Rightarrow> int \<Rightarrow> bool"
  x_obfuscateSQL :: "string \<Rightarrow> string option"
  x_quantizeRedis :: "string \<Rightarrow> string"

definition upd_span :: "nat \<Rightarrow> (span \<Rightarrow> span) \<Rightarrow> heap \<Rightarrow> heap" where
  "upd_span p f h = h\<lparr>h_span := (h_span h)(p := f (h_span h p))\<rparr>"

definition upd_ctx :: "nat \<Rightarrow> (spanContext \<Rightarrow> spanContext) \<Rightarrow> heap \<Rightarrow> heap" where
  "upd_ctx p f h = h\<lparr>h_ctx := (h_ctx h)(p := f (h_ctx h p))\<rparr>"

definition upd_trace :: "nat \<Rightarrow> (trace \<Rightarrow> trace) \<Rightarrow> heap \<Rightarrow> heap" where
  "upd_trace p f h = h\<lparr>h_trace := (h_trace h)(p := f (h_trace h p))\<rparr>"

definition upd_lim :: "nat \<Rightarrow> (rateLimiter \<Rightarrow> rateLimiter) \<Rightarrow> heap \<Rightarrow> heap" where
  "upd_lim p f h = h\<lparr>h_lim := (h_lim h)(p := f (h_lim h p))\<rparr>"

definition upd_tracer :: "(tracer \<Rightarrow> tracer) \<Rightarrow> heap \<Rightarrow> heap" where
  "upd_tracer f h = h\<lparr>h_tracer := f (h_tracer h)\<rparr>"

lemmas heap_upd_defs = upd_span_def upd_ctx_def upd_trace_def upd_lim_def upd_tracer_def

lemma heap_upd_sel [simp]:
  "h_span (upd_span p f h) = (h_span h)(p := f (h_span h p))"
  "h_ctx (upd_span p f h) = h_ctx h" "h_trace (upd_span p f h) = h_trace h"
  "h_lim (upd_span p f h) = h_lim h" "h_next (upd_span p f h) = h_next h"
  "h_tracer (upd_span p f h) = h_tracer h" "h_active (upd_span p f h) = h_active h"
  "h_labels (upd_span p f h) = h_labels h"
  "h_ctx (upd_ctx q g h) = (h_ctx h)(q := g (h_ctx h q))"
  "h_span (upd_ctx q g h) = h_span h" "h_trace (upd_ctx q g h) = h_trace h"
  "h_lim (upd_ctx q g h) = h_lim h" "h_next (upd_ctx q g h) = h_next h"
  "h_tracer (upd_ctx q g h) = h_tracer h" "h_active (upd_ctx q g h) = h_active h"
  "h_labels (upd_ctx q g h) = h_labels h"
  "h_trace (upd_trace r k h) = (h_trace h)(r := k (h_trace h r))"
  "h_span (upd_trace r k h) = h_span h" "h_ctx (upd_trace r k h) = h_ctx h"
  "h_lim (upd_trace r k h) = h_lim h" "h_next (upd_trace r k h) = h_next h"
  "h_tracer (upd_trace r k h) = h_tracer h" "h_active (upd_trace r k h) = h_active h"
  "h_labels (upd_trace r k h) = h_labels h"
  "h_lim (upd_lim l m h) = (h_lim h)(l := m (h_lim h l))"
  "h_span (upd_lim l m h) = h_span h" "h_ctx (upd_lim l m h) = h_ctx h"
  "h_trace (upd_lim l m h) = h_trace h" "h_next (upd_lim l m h) = h_next h"
  "h_tracer (upd_lim l m h) = h_tracer h" "h_active (upd_lim l m h) = h_active h"
  "h_labels (upd_lim l m h) = h_labels h"
  "h_tracer (upd_tracer n h) = n (h_tracer h)"
  "h_span (upd_tracer n h) = h_span h" "h_ctx (upd_tracer n h) = h_ctx h"
  "h_trace (upd_tracer n h) = h_trace h" "h_lim (upd_tracer n h) = h_lim h"
  "h_next (upd_tracer n h) = h_next h" "h_active (upd_tracer n h) = h_active h"
  "h_labels (upd_tracer n h) = h_labels h"
  by (simp_all add: heap_upd_defs)

text \<open>Zero values of the structs, as \<open>&T{}\<close> makes them.\<close>

definition zero_span :: span where
  "zero_span = \<lparr>s_Name = [], s_Service = [], s_Resource = [], s_Type = [], s_Start = 0,
     s_Duration = 0, s_Meta = None, s_Metrics = None, s_SpanID = 0, s_TraceID = 0,
     s_ParentID = 0, s_Error = 0, s_noDebugStack = False, s_finished = False, s_context = 0,
     s_pprofCtxActive = None, s_pprofCtxRestore = None\<rparr>"

definition zero_ctx :: spanContext where
  "zero_ctx = \<lparr>c_trace = None, c_span = None, c_errors = 0, c_traceID = 0, c_spanID = 0,
     c_baggage = None, c_hasBaggage = False, c_origin = []\<rparr>"

definition newTrace :: trace where
  "newTrace = \<lparr>t_spans = [], t_tags = None, t_propagatingTags = None, t_finished = 0,
     t_full = False, t_priority = None, t_locked = False, t_samplingDecision = decisionNone,
     t_root = None\<rparr>"

definition canComputeStats :: "config \<Rightarrow> bool" where
  "canComputeStats c = (af_Stats (cf_agent c) \<and> ''discovery'' \<in> set (cf_featureFlags c))"

definition canDropP0s :: "config \<Rightarrow> bool" where
  "canDropP0s c = (canComputeStats c \<and> af_DropP0s (cf_agent c))"

end
