(* ===== verification/Rate_Sampler.thy ===== *)
theory Rate_Sampler
  imports Tracer_Types
begin

section \<open>ddtrace/tracer/sampler.go: the rate sampler\<close>

text \<open>
  Sampling by rate: the Knuth hash of an identifier is compared with the rate scaled to 64
  bits.  \<open>math.MaxUint64\<close> as a float64 constant is \<open>2 ^ 64\<close>, and scaling a rate below 1 by a
  power of two is exact, so the product is the rational product.  The conversion of a
  non-negative product to uint64 truncates it; for a negative one Go leaves the result to the
  implementation, and the model has the value of amd64.
\<close>

definition knuthFactor :: u64 where
  "knuthFactor = 1111111111111111111"

fun f64_to_u64 :: "float64 \<Rightarrow> u64" where
  "f64_to_u64 (Fin q) = (if 0 \<le> q \<and> q < 2 ^ 64 then word_of_int \<lfloor>q\<rfloor>
     else word_of_int (f64_to_int (Fin q)))"
| "f64_to_u64 f = word_of_int (f64_to_int f)"

fun f64_scale64 :: "float64 \<Rightarrow> float64" where
  "f64_scale64 (Fin q) = Fin (q * 2 ^ 64)"
| "f64_scale64 f = f"

definition sampledByRate :: "u64 \<Rightarrow> float64 \<Rightarrow> bool" where
  "sampledByRate n rate = (if f64_lt rate (Fin 1)
     then n * knuthFactor < f64_to_u64 (f64_scale64 rate) else True)"

definition NewRateSampler :: "float64 \<Rightarrow> rateSampler" where
  "NewRateSampler rate = \<lparr>rs_rate = rate\<rparr>"

definition NewAllSampler :: rateSampler where
  "NewAllSampler = NewRateSampler (Fin 1)"

definition rateSampler_Rate :: "rateSampler \<Rightarrow> float64" where
  "rateSampler_Rate r = rs_rate r"

definition rateSampler_SetRate :: "float64 \<Rightarrow> rateSampler \<Rightarrow> rateSampler" where
  "rateSampler_SetRate rate r = r\<lparr>rs_rate := rate\<rparr>"

text \<open>The argument is the span, or \<open>None\<close> for a \<open>ddtrace.Span\<close> of another implementation.\<close>

definition rateSampler_Sample :: "rateSampler \<Rightarrow> span option \<Rightarrow> bool" where
  "rateSampler_Sample r spn =
    (if f64_eq (rs_rate r) (Fin 1) then True
     else case spn of None \<Rightarrow> False | Some s \<Rightarrow> sampledByRate (s_TraceID s) (rs_rate r))"

subsection \<open>The hash is a bijection\<close>

lemma knuth_inverse: "knuthFactor * 3396998997810348023 = 1"
  by (simp add: knuthFactor_def)

lemma card_word_less: "card {m :: u64. m < c} = unat c"
proof -
  have "bij_betw unat {m :: u64. m < c} {..<unat c}"
  proof (rule bij_betw_imageI)
    show "inj_on unat {m :: u64. m < c}" by (simp add: inj_on_def word_unat_eq_iff)
    show "unat ` {m :: u64. m < c} = {..<unat c}"
    proof (safe)
      fix x assume x: "x < unat c"
      then have "x < 2 ^ 64" using order.strict_trans [OF x unsigned_less [of c]] by simp
      then have "unat (word_of_nat x :: u64) = x" by (simp add: unsigned_of_nat take_bit_nat_eq_self)
      with x show "x \<in> unat ` {m. m < c}"
        by (intro image_eqI [of _ _ "word_of_nat x"]) (simp_all add: word_less_nat_alt)
    qed (simp add: word_less_nat_alt)
  qed
  then show ?thesis by (simp add: bij_betw_same_card)
qed

lemma card_hash_less: "card {n :: u64. n * knuthFactor < c} = unat c"
proof -
  let ?f = "\<lambda>m :: u64. m * 3396998997810348023"
  have inv: "?f m * knuthFactor = m" for m
    using knuth_inverse by (simp add: mult.assoc mult.commute [of knuthFactor])
  have "bij_betw ?f {m. m < c} {n. n * knuthFactor < c}"
  proof (rule bij_betw_byWitness [where f' = "\<lambda>n. n * knuthFactor"])
    show "\<forall>m \<in> {m. m < c}. ?f m * knuthFactor = m" by (simp add: inv)
    show "\<forall>n \<in> {n. n * knuthFactor < c}. ?f (n * knuthFactor) = n"
      using knuth_inverse by (simp add: mult.assoc)
    show "?f ` {m. m < c} \<subseteq> {n. n * knuthFactor < c}" using inv by auto
    show "(\<lambda>n. n * knuthFactor) ` {n. n * knuthFactor < c} \<subseteq> {m. m < c}" by auto
  qed
  then show ?thesis by (metis bij_betw_same_card card_word_less)
qed

lemma scaled_rate:
  assumes "0 \<le> q" "q < 1"
  shows "f64_to_u64 (f64_scale64 (Fin q)) = word_of_int \<lfloor>q * 2 ^ 64\<rfloor>"
    and "unat (f64_to_u64 (f64_scale64 (Fin q))) = nat \<lfloor>q * 2 ^ 64\<rfloor>"
proof -
  have r: "q * 2 ^ 64 < 2 ^ 64" using assms by simp
  with assms show e: "f64_to_u64 (f64_scale64 (Fin q)) = word_of_int \<lfloor>q * 2 ^ 64\<rfloor>" by simp
  have "0 \<le> \<lfloor>q * 2 ^ 64\<rfloor>" "\<lfloor>q * 2 ^ 64\<rfloor> < 2 ^ 64"
    using assms r by (simp_all add: floor_less_iff)
  then show "unat (f64_to_u64 (f64_scale64 (Fin q))) = nat \<lfloor>q * 2 ^ 64\<rfloor>"
    unfolding e by (simp add: unat_eq_nat_uint uint_word_of_int)
qed

lemma sampledByRate_iff:
  "0 \<le> q \<Longrightarrow> q < 1 \<Longrightarrow> sampledByRate n (Fin q) \<longleftrightarrow> n * knuthFactor < word_of_int \<lfloor>q * 2 ^ 64\<rfloor>"
  by (simp only: sampledByRate_def scaled_rate) simp

lemma sampledByRate_1 [simp]: "1 \<le> q \<Longrightarrow> sampledByRate n (Fin q)"
  by (simp add: sampledByRate_def)

lemma sampledByRate_0 [simp]: "\<not> sampledByRate n (Fin 0)"
  by (simp add: sampledByRate_def)

subsection \<open>Properties\<close>

text \<open>
  C8: a rate \<open>q\<close> between 0 and 1 permits exactly \<open>\<lfloor>q * 2 ^ 64\<rfloor>\<close> of the \<open>2 ^ 64\<close> trace
  identifiers: the hash permutes the identifiers, so a rate of 0.75 permits three quarters.
\<close>

theorem sampledByRate_exact_share:
  assumes "0 \<le> q" "q \<le> 1"
  shows "card {n. sampledByRate n (Fin q)} = nat \<lfloor>q * 2 ^ 64\<rfloor>"
proof (cases "q = 1")
  case True
  have "card (UNIV :: u64 set) = 2 ^ 64" by (simp add: card_word)
  with True show ?thesis by simp
next
  case False
  with assms have "{n. sampledByRate n (Fin q)} = {n. n * knuthFactor < f64_to_u64 (f64_scale64 (Fin q))}"
    by (auto simp: sampledByRate_def)
  moreover have "q < 1" using assms False by simp
  ultimately show ?thesis using scaled_rate(2) [OF assms(1)] by (simp only: card_hash_less)
qed

theorem sampledByRate_exact_share_witness:
  "card {n. sampledByRate n (Fin (3 / 4))} = 13835058055282163712"
  using sampledByRate_exact_share [of "3 / 4"] by simp

text \<open>
  Raising the rate never drops an identifier that was sampled before, so services that
  sample the same trace at different rates keep nested sets of traces; a rate of 0 samples
  nothing and a rate of 1 everything.
\<close>

theorem sampledByRate_monotone:
  assumes "0 \<le> q" "q \<le> r" "r \<le> 1" "sampledByRate n (Fin q)"
  shows "sampledByRate n (Fin r) \<and> q \<noteq> 0"
proof (cases "r = 1")
  case True
  with assms show ?thesis by auto
next
  case False
  with assms have q: "q < 1" "r < 1" by auto
  have le: "\<lfloor>q * 2 ^ 64\<rfloor> \<le> \<lfloor>r * 2 ^ 64\<rfloor>" using assms by (intro floor_mono) simp
  have "f64_to_u64 (f64_scale64 (Fin q)) \<le> f64_to_u64 (f64_scale64 (Fin r))"
    unfolding word_le_nat_alt using assms q le scaled_rate(2) [of q] scaled_rate(2) [of r]
    by (simp only: nat_mono)
  moreover have "n * knuthFactor < f64_to_u64 (f64_scale64 (Fin q))"
    using assms q by (simp add: sampledByRate_def)
  ultimately have "n * knuthFactor < f64_to_u64 (f64_scale64 (Fin r))" by (rule order_less_le_trans [rotated])
  with q assms show ?thesis by (auto simp: sampledByRate_def)
qed

theorem sampledByRate_monotone_witness:
  "sampledByRate 0 (Fin (1 / 2)) \<and> sampledByRate 0 (Fin (3 / 4))"
proof -
  have s: "sampledByRate 0 (Fin (1 / 2))" by (simp add: sampledByRate_def)
  then show ?thesis using sampledByRate_monotone [of "1 / 2" "3 / 4" 0] by simp
qed

end
