(* ===== verification/Span_Ops.thy ===== *)
theory Span_Ops
  imports Rate_Sampler
begin

section \<open>ddtrace/tracer/spancontext.go and span.go: spans, contexts and traces\<close>

text \<open>
  The operations on spans, span contexts and traces, over the store of \<open>Tracer_Types\<close>.  The
  first argument of an operation is the pointer of its receiver.  An operation that can panic
  returns an \<open>option\<close>, with \<open>None\<close> for the panic.
\<close>

subsection \<open>Traces\<close>

definition samplingPriorityLocked :: "trace \<Rightarrow> int option" where
  "samplingPriorityLocked t = (case t_priority t of None \<Rightarrow> None | Some f \<Rightarrow> Some (f64_to_int f))"

definition trace_keep :: "trace \<Rightarrow> trace" where
  "trace_keep t = (if t_samplingDecision t = decisionNone then t\<lparr>t_samplingDecision := decisionKeep\<rparr> else t)"

definition trace_drop :: "trace \<Rightarrow> trace" where
  "trace_drop t = (if t_samplingDecision t = decisionNone then t\<lparr>t_samplingDecision := decisionDrop\<rparr> else t)"

definition trace_setTag :: "string \<Rightarrow> string \<Rightarrow> trace \<Rightarrow> trace" where
  "trace_setTag k v t = t\<lparr>t_tags := m_put k v (t_tags t)\<rparr>"

definition setPropagatingTag :: "string \<Rightarrow> string \<Rightarrow> trace \<Rightarrow> trace" where
  "setPropagatingTag k v t = t\<lparr>t_propagatingTags := m_put k v (t_propagatingTags t)\<rparr>"

definition unsetPropagatingTag :: "string \<Rightarrow> trace \<Rightarrow> trace" where
  "unsetPropagatingTag k t = t\<lparr>t_propagatingTags := m_del k (t_propagatingTags t)\<rparr>"

definition trace_setSamplingPriorityLocked :: "int \<Rightarrow> SamplerName \<Rightarrow> trace \<Rightarrow> trace" where
  "trace_setSamplingPriorityLocked p sampler t =
    (if t_locked t then t
     else
       let t1 = t\<lparr>t_priority := Some (f64_of_int p)\<rparr>;
           ok = (m_get (t_propagatingTags t1) keyDecisionMaker \<noteq> None);
           t2 = (if p > 0 \<and> \<not> ok \<and> sampler \<noteq> Unknown
                 then setPropagatingTag keyDecisionMaker (''-'' @ itoa (sampler_code sampler)) t1 else t1)
       in if p \<le> 0 \<and> ok then unsetPropagatingTag keyDecisionMaker t2 else t2)"

text \<open>
  \<open>push\<close>: the span pointer, the metrics of the span it points to, and the trace; the second
  component says what it adds to the counters of an active tracer.
\<close>

datatype push_count = CountNone | CountStarted | CountDropped

definition trace_push :: "nat \<Rightarrow> span \<Rightarrow> trace \<Rightarrow> trace \<times> push_count" where
  "trace_push p sp t =
    (if t_full t then (t, CountNone)
     else if length (t_spans t) \<ge> traceMaxSize
       then (t\<lparr>t_full := True, t_spans := []\<rparr>, CountDropped)
     else
       let t1 = (case m_get (s_Metrics sp) keySamplingPriority of
                   Some v \<Rightarrow> trace_setSamplingPriorityLocked (f64_to_int v) Unknown t
                 | None \<Rightarrow> t)
       in (t1\<lparr>t_spans := t_spans t1 @ [p]\<rparr>, CountStarted))"

definition count_push :: "push_count \<Rightarrow> tracer \<Rightarrow> tracer" where
  "count_push c tr = (case c of
     CountNone \<Rightarrow> tr
   | CountStarted \<Rightarrow> tr\<lparr>tr_spansStarted := tr_spansStarted tr + 1\<rparr>
   | CountDropped \<Rightarrow> tr\<lparr>tr_tracesDropped := tr_tracesDropped tr + 1\<rparr>)"

definition heap_push :: "nat \<Rightarrow> nat \<Rightarrow> heap \<Rightarrow> heap" where
  "heap_push tp p h =
    (let (t, c) = trace_push p (h_span h p) (h_trace h tp);
         h1 = upd_trace tp (\<lambda>_. t) h
     in if h_active h then upd_tracer (count_push c) h1 else h1)"

subsection \<open>Span contexts\<close>

definition ctx_setBaggageItem :: "string \<Rightarrow> string \<Rightarrow> spanContext \<Rightarrow> spanContext" where
  "ctx_setBaggageItem k v c =
    (let c1 = (if c_baggage c = None then c\<lparr>c_hasBaggage := True\<rparr> else c)
     in c1\<lparr>c_baggage := m_put k v (c_baggage c1)\<rparr>)"

definition ctx_baggageItem :: "spanContext \<Rightarrow> string \<Rightarrow> string" where
  "ctx_baggageItem c k = (if \<not> c_hasBaggage c then [] else m_str (c_baggage c) k)"

text \<open>
  \<open>ForeachBaggageItem\<close> with a handler that returns whether to go on, and a state.
\<close>

fun foreach_items :: "(string \<Rightarrow> string \<Rightarrow> 's \<Rightarrow> 's \<times> bool) \<Rightarrow> (string \<times> string) list \<Rightarrow> 's \<Rightarrow> 's" where
  "foreach_items f [] s = s"
| "foreach_items f ((k, v) # xs) s = (case f k v s of (s', go) \<Rightarrow> if go then foreach_items f xs s' else s')"

definition ForeachBaggageItem :: "spanContext \<Rightarrow> (string \<Rightarrow> string \<Rightarrow> 's \<Rightarrow> 's \<times> bool) \<Rightarrow> 's \<Rightarrow> 's" where
  "ForeachBaggageItem c f s = (if \<not> c_hasBaggage c then s else foreach_items f (m_items (c_baggage c)) s)"

definition ctx_samplingPriority :: "heap \<Rightarrow> nat \<Rightarrow> int option" where
  "ctx_samplingPriority h cp = (case c_trace (h_ctx h cp) of
     None \<Rightarrow> None
   | Some tp \<Rightarrow> samplingPriorityLocked (h_trace h tp))"

definition alloc_trace :: "heap \<Rightarrow> nat \<times> heap" where
  "alloc_trace h = (h_next h, h\<lparr>h_trace := (h_trace h)(h_next h := newTrace), h_next := Suc (h_next h)\<rparr>)"

definition ctx_setSamplingPriority :: "nat \<Rightarrow> int \<Rightarrow> SamplerName \<Rightarrow> heap \<Rightarrow> heap" where
  "ctx_setSamplingPriority cp p sampler h =
    (let (tp, h1) = (case c_trace (h_ctx h cp) of
        Some tp \<Rightarrow> (tp, h)
      | None \<Rightarrow> (case alloc_trace h of (tp, h') \<Rightarrow> (tp, upd_ctx cp (\<lambda>c. c\<lparr>c_trace := Some tp\<rparr>) h')))
     in upd_trace tp (trace_setSamplingPriorityLocked p sampler) h1)"

text \<open>\<open>meta\<close> dereferences the context's span, which is nil in an extracted context: a panic.\<close>

definition ctx_meta :: "heap \<Rightarrow> nat \<Rightarrow> string \<Rightarrow> string option option" where
  "ctx_meta h cp key = (case c_span (h_ctx h cp) of
     None \<Rightarrow> None
   | Some p \<Rightarrow> Some (m_get (s_Meta (h_span h p)) key))"

definition inherit_ctx :: "spanContext \<Rightarrow> spanContext \<Rightarrow> spanContext" where
  "inherit_ctx parent c =
    ForeachBaggageItem parent (\<lambda>k v c. (ctx_setBaggageItem k v c, True))
      (c\<lparr>c_trace := c_trace parent, c_origin := c_origin parent, c_errors := c_errors parent\<rparr>)"

definition newSpanContext :: "nat \<Rightarrow> nat option \<Rightarrow> heap \<Rightarrow> nat \<times> heap" where
  "newSpanContext p parent h =
    (let sp = h_span h p;
         c0 = zero_ctx\<lparr>c_traceID := s_TraceID sp, c_spanID := s_SpanID sp, c_span := Some p\<rparr>;
         c1 = (case parent of None \<Rightarrow> c0 | Some pp \<Rightarrow> inherit_ctx (h_ctx h pp) c0);
         (tp, h1) = (case c_trace c1 of Some tp \<Rightarrow> (tp, h) | None \<Rightarrow> alloc_trace h);
         cp = h_next h1;
         h2 = h1\<lparr>h_ctx := (h_ctx h1)(cp := c1\<lparr>c_trace := Some tp\<rparr>), h_next := Suc cp\<rparr>;
         h3 = (if t_root (h_trace h2 tp) = None then upd_trace tp (\<lambda>t. t\<lparr>t_root := Some p\<rparr>) h2 else h2)
     in (cp, heap_push tp p h3))"

subsection \<open>Setting tags\<close>

definition setMeta :: "string \<Rightarrow> string \<Rightarrow> span \<Rightarrow> span" where
  "setMeta key v s =
    (let s1 = s\<lparr>s_Meta := Some (m_items (s_Meta s)), s_Metrics := m_del key (s_Metrics s)\<rparr>
     in if key = ext_SpanName then s1\<lparr>s_Name := v\<rparr>
        else if key = ext_ServiceName then s1\<lparr>s_Service := v\<rparr>
        else if key = ext_ResourceName then s1\<lparr>s_Resource := v\<rparr>
        else if key = ext_SpanType then s1\<lparr>s_Type := v\<rparr>
        else s1\<lparr>s_Meta := m_put key v (s_Meta s1)\<rparr>)"

text \<open>The start of \<open>setMetric\<close> and the default branch of its switch.\<close>

definition setMetric_pre :: "string \<Rightarrow> span \<Rightarrow> span" where
  "setMetric_pre key s = s\<lparr>s_Metrics := Some (m_items (s_Metrics s)), s_Meta := m_del key (s_Meta s)\<rparr>"

definition setMetric_default :: "string \<Rightarrow> float64 \<Rightarrow> span \<Rightarrow> span" where
  "setMetric_default key v s = (setMetric_pre key s)\<lparr>s_Metrics := m_put key v (s_Metrics (setMetric_pre key s))\<rparr>"

text \<open>
  \<open>setSamplingPriorityLocked\<close> calls \<open>setMetric\<close> with the key \<open>_sampling_priority_v1\<close>, which
  takes the default branch of its switch.
\<close>

definition setSamplingPriorityLocked :: "nat \<Rightarrow> int \<Rightarrow> SamplerName \<Rightarrow> heap \<Rightarrow> heap" where
  "setSamplingPriorityLocked p priority sampler h =
    (if s_finished (h_span h p) then h
     else ctx_setSamplingPriority (s_context (h_span h p)) priority sampler
            (upd_span p (setMetric_default keySamplingPriority (f64_of_int priority)) h))"

definition setMetric :: "nat \<Rightarrow> string \<Rightarrow> float64 \<Rightarrow> heap \<Rightarrow> heap" where
  "setMetric p key v h =
    (let h1 = upd_span p (setMetric_pre key) h
     in if key = ext_ManualKeep then
          (if f64_eq v (f64_of_int (sampler_code AppSec))
           then setSamplingPriorityLocked p PriorityUserKeep AppSec h1 else h1)
        else if key = ext_SamplingPriority then
          setSamplingPriorityLocked p (f64_to_int v) Manual h1
        else upd_span p (\<lambda>s. s\<lparr>s_Metrics := m_put key v (s_Metrics s)\<rparr>) h1)"

definition setTagBool :: "nat \<Rightarrow> string \<Rightarrow> bool \<Rightarrow> heap \<Rightarrow> heap" where
  "setTagBool p key v h =
    (if key = ext_AnalyticsEvent then
       (if v then setMetric p ext_EventSampleRate (Fin 1) h else setMetric p ext_EventSampleRate (Fin 0) h)
     else if key = ext_ManualDrop then
       (if v then setSamplingPriorityLocked p PriorityUserReject Manual h else h)
     else if key = ext_ManualKeep then
       (if v then setSamplingPriorityLocked p PriorityUserKeep Manual h else h)
     else if v then upd_span p (setMeta key ''true'') h
     else upd_span p (setMeta key ''false'') h)"

text \<open>
  A stack trace: the frames of the caller's stack, innermost first, and the formatting loop.
\<close>

record frame =
  f_Function :: string
  f_File :: string
  f_Line :: int

abbreviation "defaultStackLength \<equiv> (32 :: nat)"

fun format_frames :: "nat \<Rightarrow> frame list \<Rightarrow> string" where
  "format_frames i [] = []"
| "format_frames i (f # fs) = (if i \<noteq> 0 then [CHR 0x0A] else []) @ f_Function f @ [CHR 0x0A, CHR 0x09]
     @ f_File f @ '':'' @ itoa (f_Line f) @ format_frames (Suc i) fs"

definition takeStacktrace :: "nat \<Rightarrow> nat \<Rightarrow> frame list \<Rightarrow> string" where
  "takeStacktrace n skip stk =
    (let n' = (if n = 0 then defaultStackLength else n);
         frames = take n' (drop skip stk)
     in if length frames = 0 then [] else format_frames 0 frames)"

record errorConfig =
  ec_noDebugStack :: bool
  ec_stackFrames :: nat
  ec_stackSkip :: nat

definition setError :: "nat \<Rightarrow> bool \<Rightarrow> heap \<Rightarrow> heap" where
  "setError p yes h =
    (let s = h_span h p; cp = s_context s
     in if yes then
          upd_span p (\<lambda>s. s\<lparr>s_Error := 1\<rparr>)
            (if s_Error s = 0 then upd_ctx cp (\<lambda>c. c\<lparr>c_errors := wrap32 (c_errors c + 1)\<rparr>) h else h)
        else
          upd_span p (\<lambda>s. s\<lparr>s_Error := 0\<rparr>)
            (if s_Error s > 0 then upd_ctx cp (\<lambda>c. c\<lparr>c_errors := wrap32 (c_errors c - 1)\<rparr>) h else h))"

definition setTagError :: "nat \<Rightarrow> goval \<Rightarrow> errorConfig \<Rightarrow> frame list \<Rightarrow> heap \<Rightarrow> heap" where
  "setTagError p value cfg stk h =
    (if s_finished (h_span h p) then h
     else case value of
       VBool v \<Rightarrow> setError p v h
     | VErr e \<Rightarrow>
         let h1 = upd_span p (setMeta ext_ErrorMsg (e_Error e)) (setError p True h);
             h2 = upd_span p (setMeta ext_ErrorType (e_Type e)) h1;
             h3 = (if \<not> ec_noDebugStack cfg
                   then upd_span p (setMeta ext_ErrorStack
                          (takeStacktrace (ec_stackFrames cfg) (ec_stackSkip cfg) stk)) h2
                   else h2)
         in (case e_Details e of
               None \<Rightarrow> h3
             | Some d \<Rightarrow> upd_span p (setMeta ext_ErrorDetails d) h3)
     | VNil \<Rightarrow> setError p False h
     | _ \<Rightarrow> setError p True h)"

definition spanResourcePIISafe :: "span \<Rightarrow> bool" where
  "spanResourcePIISafe s = (s_Type s = ''web'' \<or> s_Type s = ''rpc'' \<or> s_Type s = [])"

abbreviation "traceEndpointLabel \<equiv> ''trace endpoint''"

definition withLabels :: "pprof_ctx \<Rightarrow> (string \<times> string) list \<Rightarrow> pprof_ctx" where
  "withLabels ctx ls = fold (\<lambda>(k, v) c. AList.update k v c) ls ctx"

text \<open>What \<open>fmt.Sprint\<close> prints of a value that reaches the last line of \<open>SetTag\<close>.\<close>

fun sprint_rest :: "goval \<Rightarrow> string" where
  "sprint_rest VNil = ''<nil>''"
| "sprint_rest (VInt64 i) = itoa i"
| "sprint_rest (VUint64 i) = itoa i"
| "sprint_rest (VErr e) = e_Error e"
| "sprint_rest (VOther s) = s"
| "sprint_rest _ = []"

definition SetTag :: "nat \<Rightarrow> string \<Rightarrow> goval \<Rightarrow> frame list \<Rightarrow> heap \<Rightarrow> heap option" where
  "SetTag p key value stk h =
    (if s_finished (h_span h p) then Some h
     else if key = ext_Error then
       Some (setTagError p value
         \<lparr>ec_noDebugStack = s_noDebugStack (h_span h p), ec_stackFrames = 0, ec_stackSkip = 0\<rparr> stk h)
     else case value of
       VBool v \<Rightarrow> Some (setTagBool p key v h)
     | VString v \<Rightarrow>
         let s = h_span h p;
             h1 = (case s_pprofCtxActive s of
                 Some a \<Rightarrow> if key = ext_ResourceName \<and> spanResourcePIISafe s
                   then let a' = withLabels a [(traceEndpointLabel, v)]
                        in (upd_span p (\<lambda>s. s\<lparr>s_pprofCtxActive := Some a'\<rparr>) h)\<lparr>h_labels := a'\<rparr>
                   else h
               | None \<Rightarrow> h)
         in Some (upd_span p (setMeta key v) h1)
     | _ \<Rightarrow> (case toFloat64 value of
         Some f \<Rightarrow> Some (setMetric p key f h)
       | None \<Rightarrow> (case value of
           VStringer (SStr v) \<Rightarrow> Some (upd_span p (setMeta key v) h)
         | VStringer SNilPanic \<Rightarrow> Some (upd_span p (setMeta key ''<nil>'') h)
         | VStringer SPanic \<Rightarrow> None
         | _ \<Rightarrow> Some (upd_span p (setMeta key (sprint_rest value)) h))))"

definition setSamplingPriority :: "nat \<Rightarrow> int \<Rightarrow> SamplerName \<Rightarrow> float64 \<Rightarrow> heap \<Rightarrow> heap" where
  "setSamplingPriority p priority sampler rate h = setSamplingPriorityLocked p priority sampler h"

definition SetOperationName :: "nat \<Rightarrow> string \<Rightarrow> heap \<Rightarrow> heap" where
  "SetOperationName p name h =
    (if s_finished (h_span h p) then h else upd_span p (\<lambda>s. s\<lparr>s_Name := name\<rparr>) h)"

definition SetBaggageItem :: "nat \<Rightarrow> string \<Rightarrow> string \<Rightarrow> heap \<Rightarrow> heap" where
  "SetBaggageItem p key val h = upd_ctx (s_context (h_span h p)) (ctx_setBaggageItem key val) h"

definition BaggageItem :: "heap \<Rightarrow> nat \<Rightarrow> string \<Rightarrow> string" where
  "BaggageItem h p key = ctx_baggageItem (h_ctx h (s_context (h_span h p))) key"


subsection \<open>What the setters leave alone\<close>

named_theorems span_frame

lemma setMeta_frame [simp, span_frame]:
  "s_finished (setMeta k v s) = s_finished s" "s_context (setMeta k v s) = s_context s"
  "s_SpanID (setMeta k v s) = s_SpanID s" "s_TraceID (setMeta k v s) = s_TraceID s"
  "s_ParentID (setMeta k v s) = s_ParentID s" "s_Start (setMeta k v s) = s_Start s"
  "s_Duration (setMeta k v s) = s_Duration s" "s_Error (setMeta k v s) = s_Error s"
  by (simp_all add: setMeta_def Let_def)

lemma setMetric_pre_frame [simp, span_frame]:
  "s_finished (setMetric_pre k s) = s_finished s" "s_context (setMetric_pre k s) = s_context s"
  "s_SpanID (setMetric_pre k s) = s_SpanID s" "s_TraceID (setMetric_pre k s) = s_TraceID s"
  "s_ParentID (setMetric_pre k s) = s_ParentID s" "s_Service (setMetric_pre k s) = s_Service s"
  "s_Name (setMetric_pre k s) = s_Name s" "s_Error (setMetric_pre k s) = s_Error s"
  by (simp_all add: setMetric_pre_def)

lemma setMetric_default_frame [simp, span_frame]:
  "s_finished (setMetric_default k v s) = s_finished s" "s_context (setMetric_default k v s) = s_context s"
  "s_SpanID (setMetric_default k v s) = s_SpanID s" "s_TraceID (setMetric_default k v s) = s_TraceID s"
  "s_ParentID (setMetric_default k v s) = s_ParentID s" "s_Service (setMetric_default k v s) = s_Service s"
  "s_Name (setMetric_default k v s) = s_Name s" "s_Error (setMetric_default k v s) = s_Error s"
  by (simp_all add: setMetric_default_def)

lemma trace_setSamplingPriorityLocked_frame [simp, span_frame]:
  "t_spans (trace_setSamplingPriorityLocked p n t) = t_spans t"
  "t_finished (trace_setSamplingPriorityLocked p n t) = t_finished t"
  "t_full (trace_setSamplingPriorityLocked p n t) = t_full t"
  "t_root (trace_setSamplingPriorityLocked p n t) = t_root t"
  "t_locked (trace_setSamplingPriorityLocked p n t) = t_locked t"
  "t_samplingDecision (trace_setSamplingPriorityLocked p n t) = t_samplingDecision t"
  "t_tags (trace_setSamplingPriorityLocked p n t) = t_tags t"
  by (simp_all add: trace_setSamplingPriorityLocked_def setPropagatingTag_def unsetPropagatingTag_def Let_def)

lemma setMetric_plain:
  "key \<noteq> ext_ManualKeep \<Longrightarrow> key \<noteq> ext_SamplingPriority \<Longrightarrow>
    setMetric p key v h = upd_span p (setMetric_default key v) h"
  by (simp add: setMetric_def Let_def upd_span_def setMetric_default_def)

text \<open>
  A string tag and a metric never share a key: each setter deletes the key from the other map.
\<close>

definition span_maps_ok :: "span \<Rightarrow> bool" where
  "span_maps_ok s \<longleftrightarrow> m_wf (s_Meta s) \<and> m_wf (s_Metrics s)
     \<and> (\<forall>k \<in> set (map fst (m_items (s_Meta s))). m_get (s_Metrics s) k = None)"

lemma span_maps_ok_alt:
  "span_maps_ok s \<longleftrightarrow> m_wf (s_Meta s) \<and> m_wf (s_Metrics s)
     \<and> (\<forall>k. m_get (s_Meta s) k = None \<or> m_get (s_Metrics s) k = None)"
  by (auto simp: span_maps_ok_def m_get_dom image_iff) (metis fst_conv)+

lemma m_get_ensure [simp]: "m_get (Some (m_items m)) k = m_get m k"
  by (simp add: m_get_def)

lemma m_wf_ensure [simp]: "m_wf (Some (m_items m)) = m_wf m"
  by (simp add: m_wf_def)

lemma setMeta_maps_ok: "span_maps_ok s \<Longrightarrow> span_maps_ok (setMeta k v s)"
  by (auto simp: span_maps_ok_alt setMeta_def Let_def)

lemma setMetric_pre_maps_ok: "span_maps_ok s \<Longrightarrow> span_maps_ok (setMetric_pre k s)"
  by (auto simp: span_maps_ok_alt setMetric_pre_def)

lemma setMetric_default_maps_ok: "span_maps_ok s \<Longrightarrow> span_maps_ok (setMetric_default k v s)"
  by (auto simp: span_maps_ok_alt setMetric_default_def setMetric_pre_def)

end
