(* ===== verification/Span_Finish.thy ===== *)
theory Span_Finish
  imports Span_Ops
begin

section \<open>span.go and spancontext.go: finishing a span, flushing its trace, user tags\<close>

text \<open>
  \<open>Finish\<close> and what it sets off: the statistics summary of the span, the decision to keep its
  trace, and \<open>finishedOne\<close>, which hands the spans of a completed trace to the tracer.  The
  context of a span always has a trace and a span (\<open>newSpanContext\<close> sets both), so the
  branches for nil in \<open>span_finish\<close> and \<open>ctx_finish\<close> are never taken.
\<close>

subsection \<open>Statistics summary\<close>

definition status_code :: "span \<Rightarrow> int" where
  "status_code s = (case m_get (s_Meta s) ''http.status_code'' of
     None \<Rightarrow> 0
   | Some sc \<Rightarrow> if sc \<noteq> [] then (case parse_int sc of
         Some c \<Rightarrow> if c > 0 \<and> c \<le> 2 ^ 31 - 1 then c else 0
       | None \<Rightarrow> 0) else 0)"

definition textNonParsable :: string where
  "textNonParsable = ''Non-parsable SQL query''"

definition obfuscatedResource :: "extlib \<Rightarrow> bool \<Rightarrow> string \<Rightarrow> string \<Rightarrow> string" where
  "obfuscatedResource x o' typ resource =
    (if \<not> o' then resource
     else if typ = ''sql'' \<or> typ = ''cassandra'' then
       (case x_obfuscateSQL x resource of None \<Rightarrow> textNonParsable | Some q \<Rightarrow> q)
     else if typ = ''redis'' then x_quantizeRedis x resource
     else resource)"

definition metric_is_1 :: "span \<Rightarrow> string \<Rightarrow> bool" where
  "metric_is_1 s k = (case m_get (s_Metrics s) k of None \<Rightarrow> False | Some v \<Rightarrow> f64_eq v (Fin 1))"

definition newAggregableSpan :: "extlib \<Rightarrow> bool \<Rightarrow> span \<Rightarrow> aggregableSpan" where
  "newAggregableSpan x obfuscator s =
    \<lparr>as_key = \<lparr>a_Name = s_Name s, a_Type = s_Type s,
        a_Resource = obfuscatedResource x obfuscator (s_Type s) (s_Resource s),
        a_Service = s_Service s, a_StatusCode = status_code s,
        a_Synthetics = prefix ''synthetics'' (m_str (s_Meta s) keyOrigin)\<rparr>,
     as_Start = s_Start s, as_Duration = s_Duration s, as_Error = s_Error s,
     as_TopLevel = metric_is_1 s keyTopLevel\<rparr>"

definition shouldComputeStats :: "span \<Rightarrow> bool" where
  "shouldComputeStats s =
    (if metric_is_1 s keyMeasured then True else if metric_is_1 s keyTopLevel then True else False)"

definition shouldKeep :: "heap \<Rightarrow> nat \<Rightarrow> bool" where
  "shouldKeep h p =
    (let s = h_span h p; cp = s_context s
     in if (case ctx_samplingPriority h cp of Some pr \<Rightarrow> pr > 0 | None \<Rightarrow> False) then True
        else if c_errors (h_ctx h cp) > 0 then True
        else case m_get (s_Metrics s) ext_EventSampleRate of
          Some v \<Rightarrow> sampledByRate (s_TraceID s) v
        | None \<Rightarrow> False)"

subsection \<open>Handing a finished trace to the tracer\<close>

definition pushTrace :: "finishedTrace \<Rightarrow> tracer \<Rightarrow> tracer" where
  "pushTrace ft tr =
    (if tr_stopped tr then tr
     else if length (tr_out tr) < payloadQueueSize then tr\<lparr>tr_out := tr_out tr @ [ft]\<rparr>
     else tr)"

definition lock_priority :: "nat \<Rightarrow> nat \<Rightarrow> heap \<Rightarrow> heap" where
  "lock_priority tp p h =
    (case (t_root (h_trace h tp), t_priority (h_trace h tp)) of
       (Some r, Some pr) \<Rightarrow> if p = r
         then upd_trace tp (\<lambda>t. t\<lparr>t_locked := True\<rparr>) (setMetric r keySamplingPriority pr h) else h
     | _ \<Rightarrow> h)"

definition set_chunk_tags :: "trace \<Rightarrow> span \<Rightarrow> span" where
  "set_chunk_tags t s =
    fold (\<lambda>(k, v). setMeta k v) (m_items (t_propagatingTags t))
      (fold (\<lambda>(k, v). setMeta k v) (m_items (t_tags t)) s)"

definition flush_trace :: "nat \<Rightarrow> heap \<Rightarrow> heap" where
  "flush_trace tp h =
    (let t = h_trace h tp;
         h1 = (if h_active h
               then upd_tracer (\<lambda>tr. pushTrace \<lparr>ft_spans = t_spans t, ft_decision = t_samplingDecision t\<rparr>
                      (tr\<lparr>tr_spansFinished := tr_spansFinished tr + word_of_nat (length (t_spans t))\<rparr>)) h
               else h)
     in upd_trace tp (\<lambda>t. t\<lparr>t_spans := [], t_finished := 0\<rparr>) h1)"

definition finishedOne :: "nat \<Rightarrow> nat \<Rightarrow> heap \<Rightarrow> heap" where
  "finishedOne tp p h =
    (if t_full (h_trace h tp) then h
     else
       let h1 = lock_priority tp p (upd_trace tp (\<lambda>t. t\<lparr>t_finished := Suc (t_finished t)\<rparr>) h);
           t = h_trace h1 tp;
           h2 = (case t_spans t of
               [] \<Rightarrow> h1
             | f # _ \<Rightarrow> if p = f then upd_span p (set_chunk_tags t) h1 else h1)
       in if length (t_spans t) \<noteq> t_finished t then h2 else flush_trace tp h2)"

definition ctx_finish :: "nat \<Rightarrow> heap \<Rightarrow> heap" where
  "ctx_finish cp h = (case (c_trace (h_ctx h cp), c_span (h_ctx h cp)) of
     (Some tp, Some p) \<Rightarrow> finishedOne tp p h
   | _ \<Rightarrow> h)"

subsection \<open>Finish\<close>

definition send_stats :: "extlib \<Rightarrow> nat \<Rightarrow> heap \<Rightarrow> heap" where
  "send_stats x p h =
    (let tr = h_tracer h
     in if canComputeStats (tr_config tr) \<and> shouldComputeStats (h_span h p)
          \<and> length (tr_statsIn tr) < statsQueueSize
        then upd_tracer (\<lambda>tr. tr\<lparr>tr_statsIn := tr_statsIn tr @ [newAggregableSpan x (tr_obfuscator tr) (h_span h p)]\<rparr>) h
        else h)"

definition close_span :: "int \<Rightarrow> span \<Rightarrow> span" where
  "close_span finishTime s =
    (let d = (if s_Duration s = 0 then wrap64 (finishTime - s_Start s) else s_Duration s);
         d' = (if d < 0 then 0 else d)
     in s\<lparr>s_Duration := d', s_finished := True\<rparr>)"

definition span_finish :: "extlib \<Rightarrow> nat \<Rightarrow> int \<Rightarrow> heap \<Rightarrow> heap" where
  "span_finish x p finishTime h =
    (if s_finished (h_span h p) then h
     else
       let h1 = upd_span p (close_span finishTime) h;
           h2 = (if h_active h then send_stats x p h1 else h1);
           keep = (if h_active h \<and> canDropP0s (tr_config (h_tracer h)) then shouldKeep h2 p else True);
           cp = s_context (h_span h p);
           h3 = (if keep then (case c_trace (h_ctx h2 cp) of
                     Some tp \<Rightarrow> upd_trace tp trace_keep h2 | None \<Rightarrow> h2) else h2)
       in ctx_finish cp h3)"

record FinishConfig =
  fc_FinishTime :: "int option"
  fc_Error :: "goerror option"
  fc_NoDebugStack :: bool
  fc_StackFrames :: nat
  fc_SkipStackFrames :: nat

definition Finish :: "extlib \<Rightarrow> nat \<Rightarrow> int \<Rightarrow> (FinishConfig \<Rightarrow> FinishConfig) list \<Rightarrow> frame list \<Rightarrow> heap \<Rightarrow> heap" where
  "Finish x p now opts stk h =
    (let cfg = fold (\<lambda>fn c. fn c) opts
          \<lparr>fc_FinishTime = None, fc_Error = None, fc_NoDebugStack = s_noDebugStack (h_span h p),
           fc_StackFrames = 0, fc_SkipStackFrames = 0\<rparr>;
         t = (if opts \<noteq> [] then (case fc_FinishTime cfg of None \<Rightarrow> now | Some ft \<Rightarrow> ft) else now);
         h1 = (if opts \<noteq> [] then (case fc_Error cfg of
                 None \<Rightarrow> h
               | Some e \<Rightarrow> setTagError p (VErr e)
                   \<lparr>ec_noDebugStack = fc_NoDebugStack cfg, ec_stackFrames = fc_StackFrames cfg,
                    ec_stackSkip = fc_SkipStackFrames cfg\<rparr> stk h) else h);
         h2 = span_finish x p t h1
     in case s_pprofCtxRestore (h_span h2 p) of
          None \<Rightarrow> h2
        | Some r \<Rightarrow> h2\<lparr>h_labels := r\<rparr>)"

subsection \<open>User tags\<close>

text \<open>\<open>base64.StdEncoding\<close>.\<close>

definition b64_char :: "nat \<Rightarrow> char" where
  "b64_char n = ''ABCDEFGHIJKLMNOPQRSTUVWXYZabcdefghijklmnopqrstuvwxyz0123456789+/'' ! n"

fun base64_encode :: "string \<Rightarrow> string" where
  "base64_encode [] = []"
| "base64_encode [a] = (let n = of_char a * 65536 in
     [b64_char (n div 262144), b64_char (n div 4096 mod 64), CHR ''='', CHR ''=''])"
| "base64_encode [a, b] = (let n = of_char a * 65536 + of_char b * 256 in
     [b64_char (n div 262144), b64_char (n div 4096 mod 64), b64_char (n div 64 mod 64), CHR ''=''])"
| "base64_encode (a # b # c # r) = (let n = of_char a * 65536 + of_char b * 256 + of_char c in
     [b64_char (n div 262144), b64_char (n div 4096 mod 64), b64_char (n div 64 mod 64),
      b64_char (n mod 64)] @ base64_encode r)"

record UserMonitoringConfig =
  u_PropagateID :: bool
  u_Email :: string
  u_Name :: string
  u_Scope :: string
  u_Role :: string
  u_SessionID :: string

definition user_tags :: "UserMonitoringConfig \<Rightarrow> (string \<times> string) list" where
  "user_tags cfg = [(''usr.email'', u_Email cfg), (''usr.name'', u_Name cfg),
     (''usr.scope'', u_Scope cfg), (''usr.role'', u_Role cfg), (''usr.session_id'', u_SessionID cfg)]"

definition SetUser :: "nat \<Rightarrow> string \<Rightarrow> (UserMonitoringConfig \<Rightarrow> UserMonitoringConfig) list \<Rightarrow> heap \<Rightarrow> heap option" where
  "SetUser p uid opts h =
    (let cfg = fold (\<lambda>fn c. fn c) opts \<lparr>u_PropagateID = False, u_Email = [], u_Name = [],
           u_Scope = [], u_Role = [], u_SessionID = []\<rparr>
     in case c_trace (h_ctx h (s_context (h_span h p))) of
          None \<Rightarrow> None
        | Some tp \<Rightarrow> (case t_root (h_trace h tp) of
            None \<Rightarrow> None
          | Some rp \<Rightarrow> (case c_trace (h_ctx h (s_context (h_span h rp))) of
              None \<Rightarrow> None
            | Some rt \<Rightarrow>
                let h1 = (if u_PropagateID cfg
                    then upd_trace rt (setPropagatingTag keyPropagatedUserID (base64_encode uid))
                           (upd_span rp (\<lambda>s. s\<lparr>s_Meta := m_del keyUserID (s_Meta s)\<rparr>) h)
                    else upd_span rp (\<lambda>s. setMeta keyUserID uid (s\<lparr>s_Meta := m_del keyPropagatedUserID (s_Meta s)\<rparr>))
                           (upd_trace rt (unsetPropagatingTag keyPropagatedUserID) h))
                in Some (upd_span rp (fold (\<lambda>(k, v) s. if v \<noteq> [] then setMeta k v s else s) (user_tags cfg)) h1))))"

end
