(* ===== verification/Samplers.thy ===== *)
theory Samplers
  imports Span_Finish
begin

section \<open>sampler.go and rules_sampler.go: priority sampling and user-defined rules\<close>

text \<open>
  The priority sampler, whose rates the agent sends; the rate limiter that wraps the token
  bucket of golang.org/x/time/rate; and the rules samplers for traces and for single spans.
  JSON documents come in decoded, and \<open>strconv.ParseFloat\<close> is an argument of the functions
  that call it.
\<close>

subsection \<open>The priority sampler\<close>

abbreviation "defaultRateKey \<equiv> ''service:,env:''"

definition newPrioritySampler :: prioritySampler where
  "newPrioritySampler = \<lparr>ps_rates = Some [], ps_defaultRate = Fin 1\<rparr>"

text \<open>\<open>decoded\<close> is the \<open>rate_by_service\<close> object of the response, \<open>None\<close> when it does not decode.\<close>

definition readRatesJSON :: "(string, float64) gomap option \<Rightarrow> prioritySampler \<Rightarrow> bool \<times> prioritySampler" where
  "readRatesJSON decoded ps = (case decoded of
     None \<Rightarrow> (False, ps)
   | Some rates \<Rightarrow>
       let ps1 = ps\<lparr>ps_rates := rates\<rparr>
       in (True, (case m_get (ps_rates ps1) defaultRateKey of
            Some v \<Rightarrow> ps1\<lparr>ps_defaultRate := v, ps_rates := m_del defaultRateKey (ps_rates ps1)\<rparr>
          | None \<Rightarrow> ps1)))"

definition getRate :: "prioritySampler \<Rightarrow> span \<Rightarrow> float64" where
  "getRate ps s =
    (let key = ''service:'' @ s_Service s @ '',env:'' @ m_str (s_Meta s) ext_Environment
     in case m_get (ps_rates ps) key of Some rate \<Rightarrow> rate | None \<Rightarrow> ps_defaultRate ps)"

text \<open>A metric under a key that is neither an error, a boolean nor a string tag: \<open>SetTag\<close> of a float64.\<close>

definition SetTag_float :: "nat \<Rightarrow> string \<Rightarrow> float64 \<Rightarrow> heap \<Rightarrow> heap" where
  "SetTag_float p key f h = (case SetTag p key (VFloat64 f) [] h of Some h' \<Rightarrow> h' | None \<Rightarrow> h)"

definition prioritySampler_apply :: "prioritySampler \<Rightarrow> nat \<Rightarrow> heap \<Rightarrow> heap" where
  "prioritySampler_apply ps p h =
    (let rate = getRate ps (h_span h p);
         h1 = (if sampledByRate (s_TraceID (h_span h p)) rate
               then setSamplingPriority p PriorityAutoKeep AgentRate rate h
               else setSamplingPriority p PriorityAutoReject AgentRate rate h)
     in SetTag_float p keySamplingPriorityRate rate h1)"

subsection \<open>The rate limiter\<close>

abbreviation "time_Second \<equiv> (1000000000 :: int)"

definition reset_period :: "int \<Rightarrow> rateLimiter \<Rightarrow> rateLimiter" where
  "reset_period now r =
    (let d = now - l_prevTime r
     in if d \<ge> time_Second then
          let r1 = (if d - d mod time_Second = time_Second \<and> f64_lt (Fin 0) (l_seen r)
                    then r\<lparr>l_prevAllowed := l_allowed r, l_prevSeen := l_seen r\<rparr>
                    else r\<lparr>l_prevAllowed := Fin 0, l_prevSeen := Fin 0\<rparr>)
          in r1\<lparr>l_prevTime := now, l_allowed := Fin 0, l_seen := Fin 0\<rparr>
        else r)"

definition allowOne :: "extlib \<Rightarrow> int \<Rightarrow> rateLimiter \<Rightarrow> bool \<times> float64 \<times> rateLimiter" where
  "allowOne x now r =
    (let r1 = reset_period now r;
         r2 = r1\<lparr>l_seen := f64_add (l_seen r1) (Fin 1)\<rparr>;
         sampled = x_allowN x (l_limit r2) (l_calls r2) now;
         r3 = r2\<lparr>l_calls := now # l_calls r2\<rparr>;
         r4 = (if sampled then r3\<lparr>l_allowed := f64_add (l_allowed r3) (Fin 1)\<rparr> else r3);
         er = f64_div (f64_add (l_prevAllowed r4) (l_allowed r4)) (f64_add (l_prevSeen r4) (l_seen r4))
     in (sampled, er, r4))"

definition new_limiter :: "float64 \<Rightarrow> int \<Rightarrow> rateLimiter" where
  "new_limiter limit now = \<lparr>l_limit = limit, l_calls = [], l_prevTime = now, l_allowed = Fin 0,
     l_seen = Fin 0, l_prevAllowed = Fin 0, l_prevSeen = Fin 0\<rparr>"

definition defaultRateLimit :: float64 where
  "defaultRateLimit = Fin 100"

definition newRateLimiter :: "(string \<Rightarrow> float64 option) \<Rightarrow> string \<Rightarrow> int \<Rightarrow> rateLimiter" where
  "newRateLimiter parseFloat env now =
    (let limit = (if env \<noteq> [] then (case parseFloat env of
             None \<Rightarrow> defaultRateLimit
           | Some l \<Rightarrow> if f64_lt l (Fin 0) then defaultRateLimit else l)
         else defaultRateLimit)
     in new_limiter limit now)"

definition maxFloat64 :: float64 where
  "maxFloat64 = Fin (of_int ((2 ^ 53 - 1) * 2 ^ 971))"

definition newSingleSpanRateLimiter :: "float64 \<Rightarrow> int \<Rightarrow> rateLimiter" where
  "newSingleSpanRateLimiter mps now = new_limiter (if f64_lt (Fin 0) mps then mps else maxFloat64) now"

subsection \<open>Sampling rules\<close>

text \<open>
  \<open>globMatch\<close> quotes the pattern and turns \<open>?\<close> into \<open>.\<close> and \<open>*\<close> into \<open>.*\<close>, anchored at
  both ends; a dot does not match a line feed.  The matcher below is what that expression
  matches, on strings of ASCII characters.
\<close>

fun glob :: "string \<Rightarrow> string \<Rightarrow> bool" where
  "glob [] s = (s = [])"
| "glob (c # p) [] = (c = CHR ''*'' \<and> glob p [])"
| "glob (c # p) (x # xs) =
    (if c = CHR ''*'' then glob p (x # xs) \<or> (x \<noteq> CHR 0x0A \<and> glob (c # p) xs)
     else (if c = CHR ''?'' then x \<noteq> CHR 0x0A else x = c) \<and> glob p xs)"

definition globMatch :: "string \<Rightarrow> string \<Rightarrow> bool" where
  "globMatch pattern = (if pattern = [] then glob ''*'' else glob pattern)"

definition rule_match :: "SamplingRule \<Rightarrow> span \<Rightarrow> bool" where
  "rule_match sr s =
    (if (case sr_Service sr of Some re \<Rightarrow> \<not> re (s_Service s) | None \<Rightarrow> False) then False
     else if sr_exactService sr \<noteq> [] \<and> sr_exactService sr \<noteq> s_Service s then False
     else if (case sr_Name sr of Some re \<Rightarrow> \<not> re (s_Name s) | None \<Rightarrow> False) then False
     else if sr_exactName sr \<noteq> [] \<and> sr_exactName sr \<noteq> s_Name s then False
     else True)"

definition zero_rule :: SamplingRule where
  "zero_rule = \<lparr>sr_Service = None, sr_Name = None, sr_Rate = Fin 0, sr_MaxPerSecond = Fin 0,
     sr_ruleType = SamplingRuleTrace, sr_exactService = [], sr_exactName = [], sr_limiter = None\<rparr>"

definition ServiceRule :: "string \<Rightarrow> float64 \<Rightarrow> SamplingRule" where
  "ServiceRule service rate = zero_rule\<lparr>sr_exactService := service, sr_Rate := rate\<rparr>"

definition NameRule :: "string \<Rightarrow> float64 \<Rightarrow> SamplingRule" where
  "NameRule name rate = zero_rule\<lparr>sr_exactName := name, sr_Rate := rate\<rparr>"

definition NameServiceRule :: "string \<Rightarrow> string \<Rightarrow> float64 \<Rightarrow> SamplingRule" where
  "NameServiceRule name service rate =
     zero_rule\<lparr>sr_exactService := service, sr_exactName := name, sr_Rate := rate\<rparr>"

definition RateRule :: "float64 \<Rightarrow> SamplingRule" where
  "RateRule rate = zero_rule\<lparr>sr_Rate := rate\<rparr>"

text \<open>The rules that own a limiter take the pointer of the limiter that was allocated for them.\<close>

definition SpanNameServiceRule :: "string \<Rightarrow> string \<Rightarrow> float64 \<Rightarrow> nat \<Rightarrow> SamplingRule" where
  "SpanNameServiceRule name service rate lp =
     zero_rule\<lparr>sr_Service := Some (globMatch service), sr_Name := Some (globMatch name), sr_Rate := rate,
       sr_ruleType := SamplingRuleSpan, sr_exactName := name, sr_limiter := Some lp\<rparr>"

definition SpanNameServiceMPSRule :: "string \<Rightarrow> string \<Rightarrow> float64 \<Rightarrow> float64 \<Rightarrow> nat \<Rightarrow> SamplingRule" where
  "SpanNameServiceMPSRule name service rate limit lp =
     zero_rule\<lparr>sr_Service := Some (globMatch service), sr_Name := Some (globMatch name),
       sr_MaxPerSecond := limit, sr_Rate := rate,
       sr_ruleType := SamplingRuleSpan, sr_exactName := name, sr_limiter := Some lp\<rparr>"

definition globalSampleRate :: "(string \<Rightarrow> float64 option) \<Rightarrow> string \<Rightarrow> float64" where
  "globalSampleRate parseFloat v =
    (if v = [] then NaN
     else case parseFloat v of
       None \<Rightarrow> NaN
     | Some r \<Rightarrow> if f64_le (Fin 0) r \<and> f64_le r (Fin 1) then r else NaN)"

definition traceRules_enabled :: "traceRulesSampler \<Rightarrow> bool" where
  "traceRules_enabled rs = (length (trs_rules rs) > 0 \<or> \<not> f64_is_nan (trs_globalRate rs))"

definition applyRule :: "extlib \<Rightarrow> traceRulesSampler \<Rightarrow> nat \<Rightarrow> float64 \<Rightarrow> int \<Rightarrow> heap \<Rightarrow> heap" where
  "applyRule x rs p rate now h =
    (let h1 = SetTag_float p keyRulesSamplerAppliedRate rate h
     in if \<not> sampledByRate (s_TraceID (h_span h1 p)) rate
        then setSamplingPriority p PriorityUserReject RuleRate rate h1
        else
          let (sampled, er, l) = allowOne x now (h_lim h1 (trs_limiter rs));
              h2 = upd_lim (trs_limiter rs) (\<lambda>_. l) h1;
              h3 = (if sampled then setSamplingPriority p PriorityUserKeep RuleRate er h2
                    else setSamplingPriority p PriorityUserReject RuleRate er h2)
          in SetTag_float p keyRulesSamplerLimiterRate er h3)"

definition traceRules_rate :: "traceRulesSampler \<Rightarrow> span \<Rightarrow> bool \<times> float64" where
  "traceRules_rate rs s = (case find (\<lambda>r. rule_match r s) (trs_rules rs) of
     Some rule \<Rightarrow> (True, sr_Rate rule)
   | None \<Rightarrow> (False, trs_globalRate rs))"

definition traceRules_apply :: "extlib \<Rightarrow> traceRulesSampler \<Rightarrow> nat \<Rightarrow> int \<Rightarrow> heap \<Rightarrow> bool \<times> heap" where
  "traceRules_apply x rs p now h =
    (if \<not> traceRules_enabled rs then (False, h)
     else
       let (matched, rate) = traceRules_rate rs (h_span h p)
       in if \<not> matched \<and> f64_is_nan rate then (False, h)
          else (True, applyRule x rs p rate now h))"

definition traceRules_limit :: "traceRulesSampler \<Rightarrow> heap \<Rightarrow> float64 \<times> bool" where
  "traceRules_limit rs h = (if traceRules_enabled rs then (l_limit (h_lim h (trs_limiter rs)), True) else (NaN, False))"

definition spanRules_enabled :: "singleSpanRulesSampler \<Rightarrow> bool" where
  "spanRules_enabled rs = (length (srs_rules rs) > 0)"

definition keep_single_span :: "SamplingRule \<Rightarrow> float64 \<Rightarrow> nat \<Rightarrow> heap \<Rightarrow> heap" where
  "keep_single_span rule rate p h =
    (let h1 = setSamplingPriority p PriorityUserKeep RuleRate rate h;
         h2 = setMetric p keySpanSamplingMechanism (Fin 8) h1;
         h3 = setMetric p keySingleSpanSamplingRuleRate rate h2
     in if \<not> f64_eq (sr_MaxPerSecond rule) (Fin 0)
        then setMetric p keySingleSpanSamplingMPS (sr_MaxPerSecond rule) h3 else h3)"

fun spanRules_loop :: "extlib \<Rightarrow> SamplingRule list \<Rightarrow> nat \<Rightarrow> int \<Rightarrow> heap \<Rightarrow> bool \<times> heap" where
  "spanRules_loop x [] p now h = (False, h)"
| "spanRules_loop x (rule # rules) p now h =
    (if rule_match rule (h_span h p) then
       let rate = sr_Rate rule;
           h1 = setMetric p keyRulesSamplerAppliedRate rate h
       in if \<not> sampledByRate (s_SpanID (h_span h1 p)) rate
          then (False, setSamplingPriority p PriorityUserReject RuleRate rate h1)
          else (case sr_limiter rule of
              None \<Rightarrow> (True, keep_single_span rule rate p h1)
            | Some lp \<Rightarrow>
                let (sampled, er, l) = allowOne x now (h_lim h1 lp);
                    h2 = upd_lim lp (\<lambda>_. l) h1
                in if \<not> sampled then (False, h2) else (True, keep_single_span rule er p h2))
     else spanRules_loop x rules p now h)"

definition spanRules_apply :: "extlib \<Rightarrow> singleSpanRulesSampler \<Rightarrow> nat \<Rightarrow> int \<Rightarrow> heap \<Rightarrow> bool \<times> heap" where
  "spanRules_apply x rs p now h = spanRules_loop x (srs_rules rs) p now h"

subsection \<open>Rules from the environment\<close>

text \<open>
  A rule as it comes out of the JSON decoder; the rate is a \<open>json.Number\<close>, the text of the
  number.  A rule of the result that needs a limiter names it by its index, and the second
  list holds the limiters' \<open>max_per_second\<close> settings in that order.
\<close>

record jsonRule =
  j_Service :: string
  j_Name :: string
  j_Rate :: string
  j_MaxPerSecond :: float64

datatype rule_error = RateNotProvided nat | RateInvalid nat | RateOutOfRange nat | NoServiceAndName nat

definition unmarshal_rule ::
  "(string \<Rightarrow> float64 option) \<Rightarrow> SamplingRuleType \<Rightarrow> nat \<Rightarrow> nat \<Rightarrow> jsonRule \<Rightarrow> rule_error + SamplingRule list" where
  "unmarshal_rule parseFloat typ i lp v =
    (if j_Rate v = [] then Inl (RateNotProvided i)
     else case parseFloat (j_Rate v) of
       None \<Rightarrow> Inl (RateInvalid i)
     | Some rate \<Rightarrow>
         if f64_lt rate (Fin 0) \<or> f64_lt (Fin 1) rate then Inl (RateOutOfRange i)
         else (case typ of
           SamplingRuleSpan \<Rightarrow>
             if j_Service v = [] \<and> j_Name v = [] then Inl (NoServiceAndName i)
             else Inr [zero_rule\<lparr>sr_Service := Some (globMatch (j_Service v)),
                    sr_Name := Some (globMatch (j_Name v)), sr_Rate := rate,
                    sr_MaxPerSecond := j_MaxPerSecond v, sr_limiter := Some lp,
                    sr_ruleType := SamplingRuleSpan\<rparr>]
         | SamplingRuleTrace \<Rightarrow>
             if j_Service v \<noteq> [] \<and> j_Name v \<noteq> [] then Inr [NameServiceRule (j_Name v) (j_Service v) rate]
             else if j_Service v \<noteq> [] then Inr [ServiceRule (j_Service v) rate]
             else if j_Name v \<noteq> [] then Inr [NameRule (j_Name v) rate]
             else Inr []))"

fun unmarshal_loop ::
  "(string \<Rightarrow> float64 option) \<Rightarrow> SamplingRuleType \<Rightarrow> nat \<Rightarrow> jsonRule list
    \<Rightarrow> SamplingRule list \<Rightarrow> rule_error list \<Rightarrow> SamplingRule list \<times> rule_error list" where
  "unmarshal_loop pf typ i [] rules errs = (rules, errs)"
| "unmarshal_loop pf typ i (v # vs) rules errs = (case unmarshal_rule pf typ i i v of
     Inl e \<Rightarrow> unmarshal_loop pf typ (Suc i) vs rules (errs @ [e])
   | Inr rs \<Rightarrow> unmarshal_loop pf typ (Suc i) vs (rules @ rs) errs)"

text \<open>
  \<open>unmarshalSamplingRules\<close> of a text: \<open>decode\<close> is the JSON decoder, \<open>None\<close> its error.  The
  result is the rules (\<open>None\<close> is the nil slice, which the caller tells from an empty one)
  and, when there is an error, what it lists.
\<close>

datatype rules_error = BadJSON | BadRules "rule_error list" | BadFile

definition unmarshalSamplingRules ::
  "(string \<Rightarrow> jsonRule list option) \<Rightarrow> (string \<Rightarrow> float64 option) \<Rightarrow> string \<Rightarrow> SamplingRuleType
    \<Rightarrow> SamplingRule list option \<times> rules_error option" where
  "unmarshalSamplingRules decode pf b typ =
    (if b = [] then (None, None)
     else case decode b of
       None \<Rightarrow> (None, Some BadJSON)
     | Some jsonRules \<Rightarrow>
         (case unmarshal_loop pf typ 0 jsonRules [] [] of (rules, errs) \<Rightarrow>
            if errs \<noteq> [] then (Some rules, Some (BadRules errs)) else (Some rules, None)))"

text \<open>
  \<open>samplingRulesFromEnv\<close>: the three variables are arguments, with the file variable as the
  file's content when it can be read.  A file that cannot be read adds an error, and its empty
  content is unmarshalled like the empty text.
\<close>

definition samplingRulesFromEnv ::
  "(string \<Rightarrow> jsonRule list option) \<Rightarrow> (string \<Rightarrow> float64 option) \<Rightarrow> string \<Rightarrow> string \<Rightarrow> string option option
    \<Rightarrow> SamplingRule list option \<times> SamplingRule list option \<times> rules_error list" where
  "samplingRulesFromEnv decode pf traceEnv spanEnv file =
    (let (trace, e1) = (if traceEnv \<noteq> [] then unmarshalSamplingRules decode pf traceEnv SamplingRuleTrace else (None, None));
         (span, e2) = unmarshalSamplingRules decode pf spanEnv SamplingRuleSpan;
         errs = (case e1 of Some e \<Rightarrow> [e] | None \<Rightarrow> []) @ (case e2 of Some e \<Rightarrow> [e] | None \<Rightarrow> [])
     in if span \<noteq> None \<and> span \<noteq> Some [] then (trace, span, errs)
        else (case file of
            None \<Rightarrow> (trace, span, errs)
          | Some content \<Rightarrow>
              let errs1 = (case content of None \<Rightarrow> errs @ [BadFile] | Some _ \<Rightarrow> errs);
                  (span', e3) = unmarshalSamplingRules decode pf (case content of None \<Rightarrow> [] | Some c \<Rightarrow> c) SamplingRuleSpan
              in (trace, span', errs1 @ (case e3 of Some e \<Rightarrow> [e] | None \<Rightarrow> []))))"

end
