(* ===== verification/Tracer_Core.thy ===== *)
theory Tracer_Core
  imports Samplers
begin

section \<open>ddtrace/tracer/tracer.go: starting spans and sampling traces\<close>

text \<open>
  \<open>StartSpan\<close> with everything it calls, the sampling of a new trace, and the single-span
  sampling of a finished one.  The clock and the random source are arguments.
\<close>

unbundle bit_operations_syntax

record StartSpanConfig =
  sc_Parent :: "nat option"
  sc_StartTime :: "int option"
  sc_SpanID :: u64
  sc_Tags :: "(string, goval) gomap"
  sc_Context :: "pprof_ctx option"

definition generateSpanID :: "u64 \<Rightarrow> int \<Rightarrow> u64" where
  "generateSpanID rnd startTime = rnd XOR word_of_int startTime"

definition sampler_Sample :: "sampler \<Rightarrow> span \<Rightarrow> bool" where
  "sampler_Sample sm s = (case sm of RateSampler r \<Rightarrow> rateSampler_Sample r (Some s) | OtherSampler f \<Rightarrow> f s)"

definition sample_rate_tag :: "sampler \<Rightarrow> nat \<Rightarrow> heap \<Rightarrow> heap" where
  "sample_rate_tag sm p h = (case sm of
     RateSampler r \<Rightarrow> if f64_lt (rateSampler_Rate r) (Fin 1)
       then setMetric p sampleRateMetricKey (rateSampler_Rate r) h else h
   | OtherSampler _ \<Rightarrow> h)"

definition tracer_sample :: "extlib \<Rightarrow> nat \<Rightarrow> int \<Rightarrow> heap \<Rightarrow> heap" where
  "tracer_sample x p now h =
    (let cp = s_context (h_span h p); tr = h_tracer h; sm = cf_sampler (tr_config tr)
     in if ctx_samplingPriority h cp \<noteq> None then h
        else if \<not> sampler_Sample sm (h_span h p) then
          (case c_trace (h_ctx h cp) of Some tp \<Rightarrow> upd_trace tp trace_drop h | None \<Rightarrow> h)
        else
          let h1 = sample_rate_tag sm p h
          in (case traceRules_apply x (rls_traces (tr_rulesSampling tr)) p now h1 of
                (True, h2) \<Rightarrow> h2
              | (False, h2) \<Rightarrow> prioritySampler_apply (tr_prioritySampling tr) p h2))"

definition pprof_labels :: "config \<Rightarrow> span \<Rightarrow> span option \<Rightarrow> (string \<times> string) list" where
  "pprof_labels c s localRoot =
    (if cf_profilerHotspots c then [(''span id'', format_uint (s_SpanID s) 10)] else [])
    @ (case localRoot of
         None \<Rightarrow> []
       | Some r \<Rightarrow>
           (if cf_profilerHotspots c then [(''local root span id'', format_uint (s_SpanID r) 10)] else [])
           @ (if cf_profilerEndpoints c \<and> spanResourcePIISafe r then [(traceEndpointLabel, s_Resource r)] else []))"

definition applyPPROFLabels :: "pprof_ctx \<Rightarrow> nat \<Rightarrow> heap \<Rightarrow> heap" where
  "applyPPROFLabels ctx p h =
    (let localRoot = (case c_trace (h_ctx h (s_context (h_span h p))) of
           None \<Rightarrow> None
         | Some tp \<Rightarrow> map_option (h_span h) (t_root (h_trace h tp)));
         labels = pprof_labels (tr_config (h_tracer h)) (h_span h p) localRoot
     in if length labels > 0
        then (upd_span p (\<lambda>s. s\<lparr>s_pprofCtxRestore := Some ctx,
                 s_pprofCtxActive := Some (withLabels ctx labels)\<rparr>) h)\<lparr>h_labels := withLabels ctx labels\<rparr>
        else h)"

fun set_tags :: "nat \<Rightarrow> (string \<times> goval) list \<Rightarrow> frame list \<Rightarrow> heap \<Rightarrow> heap option" where
  "set_tags p [] stk h = Some h"
| "set_tags p ((k, v) # kvs) stk h = (case SetTag p k v stk h of
     None \<Rightarrow> None
   | Some h' \<Rightarrow> set_tags p kvs stk h')"

definition map_service :: "config \<Rightarrow> span \<Rightarrow> span" where
  "map_service c s = (case m_get (cf_serviceMappings c) (s_Service s) of
     Some newSvc \<Rightarrow> s\<lparr>s_Service := newSvc\<rparr> | None \<Rightarrow> s)"

text \<open>The span as the literal and the \<open>if context != nil\<close> block make it.\<close>

definition init_span :: "config \<Rightarrow> string \<Rightarrow> u64 \<Rightarrow> int \<Rightarrow> span" where
  "init_span c operationName sid startTime =
    (let s0 = zero_span\<lparr>s_Name := operationName, s_Service := cf_serviceName c,
           s_Resource := operationName, s_SpanID := sid, s_TraceID := sid, s_Start := startTime,
           s_noDebugStack := cf_noDebugStack c\<rparr>
     in if cf_hostname c \<noteq> [] then setMeta keyHostname (cf_hostname c) s0 else s0)"

definition child_span :: "heap \<Rightarrow> nat option \<Rightarrow> span \<Rightarrow> span" where
  "child_span h parent s = (case parent of
     None \<Rightarrow> s
   | Some cp \<Rightarrow>
       let c = h_ctx h cp;
           s1 = s\<lparr>s_TraceID := c_traceID c, s_ParentID := c_spanID c\<rparr>;
           s2 = (case ctx_samplingPriority h cp of
                   Some pr \<Rightarrow> setMetric_default keySamplingPriority (f64_of_int pr) s1
                 | None \<Rightarrow> s1)
       in (case c_span c of
             Some q \<Rightarrow> s2\<lparr>s_Service := s_Service (h_span h q)\<rparr>
           | None \<Rightarrow> if c_origin c \<noteq> [] then setMeta keyOrigin (c_origin c) s2 else s2))"

definition parent_span :: "heap \<Rightarrow> nat option \<Rightarrow> nat option" where
  "parent_span h parent = (case parent of None \<Rightarrow> None | Some cp \<Rightarrow> c_span (h_ctx h cp))"

text \<open>Allocating the span and its context; the result is the pointer of the span.\<close>

definition alloc_span :: "span \<Rightarrow> nat option \<Rightarrow> heap \<Rightarrow> nat \<times> heap" where
  "alloc_span s parent h =
    (let p = h_next h;
         h1 = h\<lparr>h_span := (h_span h)(p := s), h_next := Suc p\<rparr>;
         (cp, h2) = newSpanContext p parent h1
     in (p, upd_span p (\<lambda>s. s\<lparr>s_context := cp\<rparr>) h2))"

definition local_root_tags :: "config \<Rightarrow> string \<Rightarrow> bool \<Rightarrow> span \<Rightarrow> span" where
  "local_root_tags c pid hasServiceTag s =
    (let s1 = setMeta ext_Pid pid s
     in if \<not> hasServiceTag \<and> cf_runtimeMetrics c then setMeta ''language'' ''go'' s1 else s1)"

definition top_level :: "heap \<Rightarrow> nat option \<Rightarrow> span \<Rightarrow> bool" where
  "top_level h pspan s = (case pspan of None \<Rightarrow> True | Some q \<Rightarrow> s_Service (h_span h q) \<noteq> s_Service s)"

definition mark_top_level :: "nat \<Rightarrow> heap \<Rightarrow> heap" where
  "mark_top_level p h =
     upd_span p (\<lambda>s. s\<lparr>s_Metrics := m_del keyMeasured (s_Metrics s)\<rparr>) (setMetric p keyTopLevel (Fin 1) h)"

definition version_env_tags :: "config \<Rightarrow> span \<Rightarrow> span" where
  "version_env_tags c s =
    (let s1 = (if cf_version c \<noteq> [] then
           (if cf_universalVersion c \<or> (\<not> cf_universalVersion c \<and> s_Service s = cf_serviceName c)
            then setMeta ext_Version (cf_version c) s else s)
         else s)
     in if cf_env c \<noteq> [] then setMeta ext_Environment (cf_env c) s1 else s1)"

definition finish_start :: "extlib \<Rightarrow> StartSpanConfig \<Rightarrow> pprof_ctx \<Rightarrow> nat \<Rightarrow> int \<Rightarrow> heap \<Rightarrow> heap" where
  "finish_start x opts pprofContext p now h =
    (let c = tr_config (h_tracer h);
         h1 = upd_span p (map_service c) h;
         h2 = (if top_level h1 (parent_span h1 (sc_Parent opts)) (h_span h1 p) then mark_top_level p h1 else h1);
         h3 = upd_span p (version_env_tags c) h2;
         h4 = (if ctx_samplingPriority h3 (s_context (h_span h3 p)) = None then tracer_sample x p now h3 else h3);
         h5 = (if cf_profilerHotspots c \<or> cf_profilerEndpoints c then applyPPROFLabels pprofContext p h4 else h4)
     in upd_span p (map_service c) h5)"

definition pprof_parent :: "StartSpanConfig \<Rightarrow> heap \<Rightarrow> pprof_ctx" where
  "pprof_parent opts h = (case sc_Context opts of
     Some c \<Rightarrow> c
   | None \<Rightarrow> (case parent_span h (sc_Parent opts) of
       Some q \<Rightarrow> (case s_pprofCtxActive (h_span h q) of Some a \<Rightarrow> a | None \<Rightarrow> [])
     | None \<Rightarrow> []))"

text \<open>The span up to the tags every local root gets, then the whole of \<open>StartSpan\<close>.\<close>

definition new_span :: "string \<Rightarrow> StartSpanConfig \<Rightarrow> int \<Rightarrow> u64 \<Rightarrow> heap \<Rightarrow> span" where
  "new_span operationName opts now rnd h =
    (let startTime = (case sc_StartTime opts of None \<Rightarrow> now | Some t \<Rightarrow> t);
         sid = (if sc_SpanID opts = 0 then generateSpanID rnd startTime else sc_SpanID opts)
     in child_span h (sc_Parent opts) (init_span (tr_config (h_tracer h)) operationName sid startTime))"

definition start_alloc :: "span \<Rightarrow> StartSpanConfig \<Rightarrow> heap \<Rightarrow> nat \<times> heap" where
  "start_alloc s opts h =
    (case alloc_span s (sc_Parent opts) h of (p, h1) \<Rightarrow>
      (p, if parent_span h (sc_Parent opts) = None
          then upd_span p (local_root_tags (tr_config (h_tracer h)) (tr_pid (h_tracer h))
                 (m_get (sc_Tags opts) ext_ServiceName \<noteq> None)) h1
          else h1))"

definition StartSpan ::
  "extlib \<Rightarrow> string \<Rightarrow> StartSpanConfig \<Rightarrow> int \<Rightarrow> u64 \<Rightarrow> frame list \<Rightarrow> heap \<Rightarrow> (nat \<times> heap) option" where
  "StartSpan x operationName opts now rnd stk h =
    (case start_alloc (new_span operationName opts now rnd h) opts h of (p, h2) \<Rightarrow>
      (case set_tags p (m_items (sc_Tags opts)) stk h2 of
         None \<Rightarrow> None
       | Some h3 \<Rightarrow> (case set_tags p (m_items (cf_globalTags (tr_config (h_tracer h)))) stk h3 of
           None \<Rightarrow> None
         | Some h4 \<Rightarrow> Some (p, finish_start x opts (pprof_parent opts h) p now h4))))"

subsection \<open>Single-span sampling of a finished trace\<close>

fun sample_spans :: "extlib \<Rightarrow> singleSpanRulesSampler \<Rightarrow> (nat \<Rightarrow> int) \<Rightarrow> nat \<Rightarrow> nat list \<Rightarrow> heap \<Rightarrow> nat list \<times> heap" where
  "sample_spans x rs clock i [] h = ([], h)"
| "sample_spans x rs clock i (p # ps) h =
    (case spanRules_apply x rs p (clock i) h of (keep, h1) \<Rightarrow>
       (case sample_spans x rs clock (Suc i) ps h1 of (kept, h2) \<Rightarrow>
          (if keep then p # kept else kept, h2)))"

definition sampleFinishedTrace :: "extlib \<Rightarrow> (nat \<Rightarrow> int) \<Rightarrow> finishedTrace \<Rightarrow> heap \<Rightarrow> finishedTrace \<times> heap" where
  "sampleFinishedTrace x clock info h =
    (if ft_decision info = decisionKeep then (info, h)
     else
       let rs = rls_spans (tr_rulesSampling (h_tracer h));
           (kept, h1) = (if spanRules_enabled rs then sample_spans x rs clock 0 (ft_spans info) h else ([], h));
           h2 = (if spanRules_enabled rs \<and> length kept > 0 \<and> length kept < length (ft_spans info)
                 then upd_tracer (\<lambda>tr. tr\<lparr>tr_partialTraces := tr_partialTraces tr + 1\<rparr>) h1 else h1);
           h3 = (if length kept = 0
                 then upd_tracer (\<lambda>tr. tr\<lparr>tr_droppedP0Traces := tr_droppedP0Traces tr + 1\<rparr>) h2 else h2);
           h4 = upd_tracer (\<lambda>tr. tr\<lparr>tr_droppedP0Spans := tr_droppedP0Spans tr
                  + word_of_nat (length (ft_spans info) - length kept)\<rparr>) h3
       in (info\<lparr>ft_spans := kept\<rparr>, h4))"

subsection \<open>The worker\<close>

text \<open>
  One trace received from the channel \<open>out\<close>, and the loop that drains the channel after \<open>Stop\<close>.
  The writer is its \<open>add\<close> method and its state.
\<close>

definition worker_trace ::
  "extlib \<Rightarrow> (nat \<Rightarrow> int) \<Rightarrow> (nat list \<Rightarrow> heap \<Rightarrow> 'w \<Rightarrow> 'w) \<Rightarrow> finishedTrace \<Rightarrow> heap \<Rightarrow> 'w \<Rightarrow> heap \<times> 'w" where
  "worker_trace x clock add ft h w =
    (case sampleFinishedTrace x clock ft h of (ft', h') \<Rightarrow>
       (h', if length (ft_spans ft') \<noteq> 0 then add (ft_spans ft') h' w else w))"

definition receive_out :: "heap \<Rightarrow> (finishedTrace \<times> heap) option" where
  "receive_out h = (case tr_out (h_tracer h) of
     [] \<Rightarrow> None
   | ft # rest \<Rightarrow> Some (ft, upd_tracer (\<lambda>tr. tr\<lparr>tr_out := rest\<rparr>) h))"

fun worker_drain ::
  "nat \<Rightarrow> extlib \<Rightarrow> (nat \<Rightarrow> int) \<Rightarrow> (nat list \<Rightarrow> heap \<Rightarrow> 'w \<Rightarrow> 'w) \<Rightarrow> heap \<Rightarrow> 'w \<Rightarrow> (heap \<times> 'w) option" where
  "worker_drain 0 x clock add h w = None"
| "worker_drain (Suc fuel) x clock add h w = (case receive_out h of
     None \<Rightarrow> Some (h, w)
   | Some (ft, h1) \<Rightarrow> (case worker_trace x clock add ft h1 w of (h2, w2) \<Rightarrow>
       worker_drain fuel x clock add h2 w2))"

definition tracer_Stop :: "heap \<Rightarrow> heap" where
  "tracer_Stop h = upd_tracer (\<lambda>tr. tr\<lparr>tr_stopped := True\<rparr>) h"

end
