(* ===== verification/Trace_Spec.thy ===== *)
theory Trace_Spec
  imports Main
begin

section \<open>The life of a trace, abstractly\<close>

text \<open>
  What the tracer promises about traces, without tags, priorities or samplers: a trace buffers
  its spans, counts the finished ones, and hands the buffer on when all of them are finished.
  \<open>Trace_Refine\<close> shows that the operations of spancontext.go and span.go do exactly this.

  The fields: the trace of every started span; which spans are finished; per trace the buffer,
  the counter and the overflow flag; the chunks in the channel to the worker; whether a tracer
  takes chunks.
\<close>

record tstate =
  a_tr :: "nat \<Rightarrow> nat option"
  a_fin :: "nat \<Rightarrow> bool"
  a_buf :: "nat \<Rightarrow> nat list"
  a_cnt :: "nat \<Rightarrow> nat"
  a_full :: "nat \<Rightarrow> bool"
  a_out :: "nat list list"
  a_open :: bool

definition abs_new_trace :: "nat \<Rightarrow> tstate \<Rightarrow> tstate" where
  "abs_new_trace tp \<sigma> = \<sigma>\<lparr>a_buf := (a_buf \<sigma>)(tp := []), a_cnt := (a_cnt \<sigma>)(tp := 0),
     a_full := (a_full \<sigma>)(tp := False)\<rparr>"

definition abs_push :: "nat \<Rightarrow> nat \<Rightarrow> nat \<Rightarrow> tstate \<Rightarrow> tstate" where
  "abs_push cap tp p \<sigma> =
    (if a_full \<sigma> tp then \<sigma>
     else if cap \<le> length (a_buf \<sigma> tp)
       then \<sigma>\<lparr>a_full := (a_full \<sigma>)(tp := True), a_buf := (a_buf \<sigma>)(tp := [])\<rparr>
     else \<sigma>\<lparr>a_buf := (a_buf \<sigma>)(tp := a_buf \<sigma> tp @ [p])\<rparr>)"

definition abs_start :: "nat \<Rightarrow> nat \<Rightarrow> nat \<Rightarrow> tstate \<Rightarrow> tstate" where
  "abs_start cap tp p \<sigma> =
     abs_push cap tp p (\<sigma>\<lparr>a_tr := (a_tr \<sigma>)(p := Some tp), a_fin := (a_fin \<sigma>)(p := False)\<rparr>)"

definition abs_flush :: "nat \<Rightarrow> nat \<Rightarrow> tstate \<Rightarrow> tstate" where
  "abs_flush qcap tp \<sigma> = \<sigma>\<lparr>
     a_out := (if a_open \<sigma> \<and> length (a_out \<sigma>) < qcap then a_out \<sigma> @ [a_buf \<sigma> tp] else a_out \<sigma>),
     a_buf := (a_buf \<sigma>)(tp := []), a_cnt := (a_cnt \<sigma>)(tp := 0)\<rparr>"

definition abs_finished_one :: "nat \<Rightarrow> nat \<Rightarrow> tstate \<Rightarrow> tstate" where
  "abs_finished_one qcap tp \<sigma> =
    (if a_full \<sigma> tp then \<sigma>
     else
       let \<sigma>1 = \<sigma>\<lparr>a_cnt := (a_cnt \<sigma>)(tp := Suc (a_cnt \<sigma> tp))\<rparr>
       in if length (a_buf \<sigma>1 tp) \<noteq> a_cnt \<sigma>1 tp then \<sigma>1 else abs_flush qcap tp \<sigma>1)"

definition abs_finish :: "nat \<Rightarrow> nat \<Rightarrow> tstate \<Rightarrow> tstate" where
  "abs_finish qcap p \<sigma> =
    (if a_fin \<sigma> p then \<sigma>
     else case a_tr \<sigma> p of
       None \<Rightarrow> \<sigma>\<lparr>a_fin := (a_fin \<sigma>)(p := True)\<rparr>
     | Some tp \<Rightarrow> abs_finished_one qcap tp (\<sigma>\<lparr>a_fin := (a_fin \<sigma>)(p := True)\<rparr>))"

subsection \<open>The invariant\<close>

text \<open>
  \<open>w\<close> is what the worker has handed to the trace writer so far.  The buffers are disjoint and
  hold only spans of their trace; as long as a trace has not overflowed, its counter is the
  number of finished spans in the buffer, every open span is in the buffer and a non-empty
  buffer has an open span; no span is sent twice, and what is sent is finished.
\<close>

definition buf_ok :: "nat \<Rightarrow> tstate \<Rightarrow> nat \<Rightarrow> bool" where
  "buf_ok cap \<sigma> tp \<longleftrightarrow>
     distinct (a_buf \<sigma> tp) \<and> length (a_buf \<sigma> tp) \<le> cap
   \<and> (\<forall>p \<in> set (a_buf \<sigma> tp). a_tr \<sigma> p = Some tp)
   \<and> (if a_full \<sigma> tp then a_buf \<sigma> tp = []
      else a_cnt \<sigma> tp = length (filter (a_fin \<sigma>) (a_buf \<sigma> tp))
         \<and> (a_buf \<sigma> tp \<noteq> [] \<longrightarrow> (\<exists>p \<in> set (a_buf \<sigma> tp). \<not> a_fin \<sigma> p))
         \<and> (\<forall>p. a_tr \<sigma> p = Some tp \<and> \<not> a_fin \<sigma> p \<longrightarrow> p \<in> set (a_buf \<sigma> tp)))"

definition sent_ok :: "tstate \<Rightarrow> nat list \<Rightarrow> bool" where
  "sent_ok \<sigma> w \<longleftrightarrow> distinct (w @ concat (a_out \<sigma>))
   \<and> (\<forall>p \<in> set (w @ concat (a_out \<sigma>)). a_fin \<sigma> p \<and> a_tr \<sigma> p \<noteq> None \<and> (\<forall>tp. p \<notin> set (a_buf \<sigma> tp)))"

definition trace_inv :: "nat \<Rightarrow> tstate \<Rightarrow> nat list \<Rightarrow> bool" where
  "trace_inv cap \<sigma> w \<longleftrightarrow> (\<forall>tp. buf_ok cap \<sigma> tp) \<and> sent_ok \<sigma> w"

lemma trace_invI [intro?]: "(\<And>tp. buf_ok cap \<sigma> tp) \<Longrightarrow> sent_ok \<sigma> w \<Longrightarrow> trace_inv cap \<sigma> w"
  by (simp add: trace_inv_def)

lemma trace_invD [dest?]: "trace_inv cap \<sigma> w \<Longrightarrow> buf_ok cap \<sigma> tp" "trace_inv cap \<sigma> w \<Longrightarrow> sent_ok \<sigma> w"
  by (simp_all add: trace_inv_def)

lemma buf_in_tr: "buf_ok cap \<sigma> tp \<Longrightarrow> p \<in> set (a_buf \<sigma> tp) \<Longrightarrow> a_tr \<sigma> p = Some tp"
  by (simp add: buf_ok_def)

lemma abs_new_trace_inv:
  assumes inv: "trace_inv cap \<sigma> w" and fresh: "\<And>p. a_tr \<sigma> p \<noteq> Some tp"
  shows "trace_inv cap (abs_new_trace tp \<sigma>) w"
proof
  show "buf_ok cap (abs_new_trace tp \<sigma>) t" for t
    using trace_invD(1)[OF inv, of t] fresh
    by (cases "t = tp") (simp_all add: buf_ok_def abs_new_trace_def)
  show "sent_ok (abs_new_trace tp \<sigma>) w"
    using trace_invD(2)[OF inv] by (simp add: sent_ok_def abs_new_trace_def)
qed

lemma filter_fin_upd: "p \<notin> set xs \<Longrightarrow> filter (f(p := b)) xs = filter f xs"
  by (rule filter_cong) auto

lemma filter_fin_upd': "p \<notin> set xs \<Longrightarrow> filter (\<lambda>x. x \<noteq> p \<longrightarrow> f x) xs = filter f xs"
  "p \<notin> set xs \<Longrightarrow> filter (\<lambda>x. x \<noteq> p \<and> f x) xs = filter f xs"
  by (auto intro: filter_cong)

lemma sent_ok_mono:
  assumes "sent_ok \<sigma> w" "a_out \<tau> = a_out \<sigma>"
    "\<And>p. a_fin \<sigma> p \<Longrightarrow> a_tr \<sigma> p \<noteq> None \<Longrightarrow> a_fin \<tau> p \<and> a_tr \<tau> p \<noteq> None"
    "\<And>p tp. p \<in> set (a_buf \<tau> tp) \<Longrightarrow> p \<in> set (a_buf \<sigma> tp) \<or> \<not> a_fin \<tau> p"
  shows "sent_ok \<tau> w"
proof -
  have "a_fin \<tau> p \<and> a_tr \<tau> p \<noteq> None \<and> (\<forall>tp. p \<notin> set (a_buf \<tau> tp))"
    if "p \<in> set (w @ concat (a_out \<sigma>))" for p
    using that assms(1,3,4) by (metis sent_ok_def)
  then show ?thesis using assms(1,2) by (simp add: sent_ok_def)
qed

lemma buf_ok_cong:
  assumes ok: "buf_ok cap \<sigma> t"
    and same: "a_buf \<tau> t = a_buf \<sigma> t" "a_full \<tau> t = a_full \<sigma> t" "a_cnt \<tau> t = a_cnt \<sigma> t"
    and tr: "\<And>q. a_tr \<tau> q = Some t \<longleftrightarrow> a_tr \<sigma> q = Some t"
    and fin: "\<And>q. a_tr \<sigma> q = Some t \<Longrightarrow> a_fin \<tau> q = a_fin \<sigma> q"
  shows "buf_ok cap \<tau> t"
proof -
  have b: "a_fin \<tau> q = a_fin \<sigma> q" if "q \<in> set (a_buf \<sigma> t)" for q
    using that ok fin buf_in_tr by blast
  have "filter (a_fin \<tau>) (a_buf \<sigma> t) = filter (a_fin \<sigma>) (a_buf \<sigma> t)"
    using b by (rule filter_cong[OF refl])
  then show ?thesis using ok b fin by (auto simp: buf_ok_def same tr)
qed

lemma abs_start_simps:
  "a_tr (abs_start cap tp p \<sigma>) = (a_tr \<sigma>)(p := Some tp)"
  "a_fin (abs_start cap tp p \<sigma>) = (a_fin \<sigma>)(p := False)"
  "a_cnt (abs_start cap tp p \<sigma>) = a_cnt \<sigma>"
  "a_out (abs_start cap tp p \<sigma>) = a_out \<sigma>"
  "a_full (abs_start cap tp p \<sigma>) t = (a_full \<sigma> t \<or> (t = tp \<and> cap \<le> length (a_buf \<sigma> tp)))"
  "a_buf (abs_start cap tp p \<sigma>) t = (if t \<noteq> tp \<or> a_full \<sigma> tp then a_buf \<sigma> t
     else if cap \<le> length (a_buf \<sigma> tp) then [] else a_buf \<sigma> tp @ [p])"
  by (simp_all add: abs_start_def abs_push_def)

lemma abs_start_inv:
  assumes inv: "trace_inv cap \<sigma> w" and fresh: "a_tr \<sigma> p = None"
  shows "trace_inv cap (abs_start cap tp p \<sigma>) w"
proof
  fix t
  have ok: "buf_ok cap \<sigma> t" using inv by (rule trace_invD)
  then have nb: "p \<notin> set (a_buf \<sigma> t)" using fresh by (auto simp: buf_ok_def)
  show "buf_ok cap (abs_start cap tp p \<sigma>) t"
  proof (cases "t = tp")
    case False
    then show ?thesis
      by (intro buf_ok_cong[OF ok]) (use fresh in \<open>auto simp: abs_start_simps\<close>)
  next
    case True
    then show ?thesis using ok nb
      by (cases "a_full \<sigma> tp"; cases "cap \<le> length (a_buf \<sigma> tp)")
        (simp_all add: buf_ok_def abs_start_simps filter_fin_upd)
  qed
next
  show "sent_ok (abs_start cap tp p \<sigma>) w"
  proof (rule sent_ok_mono[OF trace_invD(2)[OF inv]])
    show "q \<in> set (a_buf \<sigma> t) \<or> \<not> a_fin (abs_start cap tp p \<sigma>) q"
      if "q \<in> set (a_buf (abs_start cap tp p \<sigma>) t)" for q t
      using that by (auto simp: abs_start_simps split: if_splits)
  qed (use fresh in \<open>auto simp: abs_start_simps\<close>)
qed

text \<open>Finishing a span of a trace that has not overflowed: the buffer count, and the flush.\<close>

lemma count_finish:
  assumes "distinct xs" "p \<in> set xs" "\<not> f p"
  shows "length (filter (f(p := True)) xs) = Suc (length (filter f xs))"
  using assms
proof (induction xs)
  case (Cons x xs)
  then show ?case by (cases "x = p") (auto simp: filter_fin_upd')
qed simp

lemma all_filter_length: "length xs = length (filter P xs) \<longleftrightarrow> (\<forall>x \<in> set xs. P x)"
  by (metis filter_True filter_id_conv length_filter_less less_irrefl)

text \<open>The states between the parts of \<open>abs_finish\<close>: the span is marked, the count is not yet up.\<close>

lemma abs_finish_simps:
  assumes "\<not> a_fin \<sigma> p" "a_tr \<sigma> p = Some tp"
  shows "a_full \<sigma> tp \<Longrightarrow> abs_finish q p \<sigma> = \<sigma>\<lparr>a_fin := (a_fin \<sigma>)(p := True)\<rparr>"
    "\<not> a_full \<sigma> tp \<Longrightarrow> length (a_buf \<sigma> tp) \<noteq> Suc (a_cnt \<sigma> tp) \<Longrightarrow> abs_finish q p \<sigma> =
       \<sigma>\<lparr>a_fin := (a_fin \<sigma>)(p := True), a_cnt := (a_cnt \<sigma>)(tp := Suc (a_cnt \<sigma> tp))\<rparr>"
    "\<not> a_full \<sigma> tp \<Longrightarrow> length (a_buf \<sigma> tp) = Suc (a_cnt \<sigma> tp) \<Longrightarrow> abs_finish q p \<sigma> =
       abs_flush q tp (\<sigma>\<lparr>a_fin := (a_fin \<sigma>)(p := True), a_cnt := (a_cnt \<sigma>)(tp := Suc (a_cnt \<sigma> tp))\<rparr>)"
  using assms by (simp_all add: abs_finish_def abs_finished_one_def Let_def)

lemma buf_ok_count:
  assumes ok: "buf_ok cap \<sigma> tp" and more: "\<not> a_full \<sigma> tp" "length (a_buf \<sigma> tp) \<noteq> Suc (a_cnt \<sigma> tp)"
    and p: "\<not> a_fin \<sigma> p" "a_tr \<sigma> p = Some tp"
  shows "buf_ok cap (\<sigma>\<lparr>a_fin := (a_fin \<sigma>)(p := True), a_cnt := (a_cnt \<sigma>)(tp := Suc (a_cnt \<sigma> tp))\<rparr>) tp"
proof -
  have c: "length (filter ((a_fin \<sigma>)(p := True)) (a_buf \<sigma> tp)) = Suc (a_cnt \<sigma> tp)"
    using ok more p by (subst count_finish) (auto simp: buf_ok_def)
  have "\<exists>q \<in> set (a_buf \<sigma> tp). \<not> ((a_fin \<sigma>)(p := True)) q"
    using more(2) c all_filter_length[of "a_buf \<sigma> tp" "(a_fin \<sigma>)(p := True)"] by auto
  then show ?thesis using ok more p c by (auto simp: buf_ok_def)
qed

lemma flush_all_finished:
  assumes ok: "buf_ok cap \<sigma> tp" and full: "\<not> a_full \<sigma> tp" "length (a_buf \<sigma> tp) = Suc (a_cnt \<sigma> tp)"
    and p: "\<not> a_fin \<sigma> p" "a_tr \<sigma> p = Some tp"
  shows "\<forall>q \<in> set (a_buf \<sigma> tp). q \<noteq> p \<longrightarrow> a_fin \<sigma> q"
proof -
  have "length (filter ((a_fin \<sigma>)(p := True)) (a_buf \<sigma> tp)) = Suc (a_cnt \<sigma> tp)"
    using ok full p by (subst count_finish) (auto simp: buf_ok_def)
  then show ?thesis using full(2) all_filter_length[of "a_buf \<sigma> tp" "(a_fin \<sigma>)(p := True)"] by auto
qed

lemma abs_flush_sent:
  assumes inv: "trace_inv cap \<sigma> w" and fin: "\<And>q. a_fin \<sigma> q \<Longrightarrow> f q"
    and all: "\<And>q. q \<in> set (a_buf \<sigma> tp) \<Longrightarrow> f q"
  shows "sent_ok (abs_flush qcap tp (\<sigma>\<lparr>a_fin := f, a_cnt := c\<rparr>)) w"
proof -
  note ok = trace_invD(1)[OF inv] and sent = trace_invD(2)[OF inv, unfolded sent_ok_def]
  have d: "distinct (w @ concat (a_out \<sigma>) @ a_buf \<sigma> tp)"
    using sent ok[of tp] unfolding buf_ok_def by (subst append_assoc[symmetric], subst distinct_append) blast
  have other: "q \<notin> set (a_buf \<sigma> t)" if "q \<in> set (a_buf \<sigma> tp)" "t \<noteq> tp" for q t
    using buf_in_tr[OF ok, of q tp] buf_in_tr[OF ok, of q t] that by auto
  have tr: "a_tr \<sigma> q \<noteq> None" if "q \<in> set (a_buf \<sigma> tp)" for q
    using buf_in_tr[OF ok that] by simp
  have "f q \<and> a_tr \<sigma> q \<noteq> None \<and> (\<forall>t. q \<notin> set (((a_buf \<sigma>)(tp := [])) t))"
    if "q \<in> set (w @ concat (a_out \<sigma>) @ a_buf \<sigma> tp)" for q
  proof (cases "q \<in> set (a_buf \<sigma> tp)")
    case True
    then show ?thesis using all other tr by auto
  next
    case False
    then have "q \<in> set (w @ concat (a_out \<sigma>))" using that by simp
    then have "a_fin \<sigma> q \<and> a_tr \<sigma> q \<noteq> None \<and> (\<forall>t. q \<notin> set (a_buf \<sigma> t))"
      using sent by blast
    then show ?thesis using fin by simp
  qed
  note each = this
  let ?\<tau> = "abs_flush qcap tp (\<sigma>\<lparr>a_fin := f, a_cnt := c\<rparr>)"
  have fields: "a_fin ?\<tau> = f" "a_tr ?\<tau> = a_tr \<sigma>" "a_buf ?\<tau> = (a_buf \<sigma>)(tp := [])"
    by (simp_all add: abs_flush_def)
  have "w @ concat (a_out ?\<tau>) = w @ concat (a_out \<sigma>) \<or>
      w @ concat (a_out ?\<tau>) = w @ concat (a_out \<sigma>) @ a_buf \<sigma> tp"
    by (simp add: abs_flush_def)
  then show ?thesis
  proof
    assume e: "w @ concat (a_out ?\<tau>) = w @ concat (a_out \<sigma>)"
    have "set (w @ concat (a_out \<sigma>)) \<subseteq> set (w @ concat (a_out \<sigma>) @ a_buf \<sigma> tp)" by auto
    then show ?thesis unfolding sent_ok_def fields e using sent each by blast
  next
    assume e: "w @ concat (a_out ?\<tau>) = w @ concat (a_out \<sigma>) @ a_buf \<sigma> tp"
    show ?thesis unfolding sent_ok_def fields e using d each by blast
  qed
qed

lemma abs_finish_inv:
  assumes inv: "trace_inv cap \<sigma> w" and started: "a_tr \<sigma> p = Some tp"
  shows "trace_inv cap (abs_finish q p \<sigma>) w"
proof (cases "a_fin \<sigma> p")
  case True
  then show ?thesis using inv by (simp add: abs_finish_def)
next
  case open_p: False
  let ?\<tau> = "abs_finish q p \<sigma>"
  have ok: "buf_ok cap \<sigma> t" for t using inv by (rule trace_invD)
  have fin: "a_fin ?\<tau> = (a_fin \<sigma>)(p := True)" and tr: "a_tr ?\<tau> = a_tr \<sigma>"
    and full: "a_full ?\<tau> = a_full \<sigma>"
    using open_p started
    by (simp_all add: abs_finish_def abs_finished_one_def abs_flush_def Let_def)
  have others: "buf_ok cap ?\<tau> t" if "t \<noteq> tp" for t
    by (rule buf_ok_cong[OF ok])
      (use open_p started that in \<open>auto simp: abs_finish_def abs_finished_one_def abs_flush_def Let_def\<close>)
  have sent: "sent_ok ?\<tau> w" if "a_out ?\<tau> = a_out \<sigma>" "\<And>t. set (a_buf ?\<tau> t) \<subseteq> set (a_buf \<sigma> t)"
    by (rule sent_ok_mono[OF trace_invD(2)[OF inv] that(1)]) (use fin tr that(2) in auto)
  have combine: "trace_inv cap ?\<tau> w" if "buf_ok cap ?\<tau> tp" "sent_ok ?\<tau> w"
    using others that by (metis trace_invI)
  consider (full) "a_full \<sigma> tp" | (more) "\<not> a_full \<sigma> tp" "length (a_buf \<sigma> tp) \<noteq> Suc (a_cnt \<sigma> tp)"
    | (flush) "\<not> a_full \<sigma> tp" "length (a_buf \<sigma> tp) = Suc (a_cnt \<sigma> tp)" by blast
  then show ?thesis
  proof cases
    case full
    note e = abs_finish_simps(1)[OF open_p started full, of q]
    have "buf_ok cap ?\<tau> tp" using ok[of tp] full by (simp add: buf_ok_def e)
    then show ?thesis by (rule combine) (rule sent; simp add: e)
  next
    case more
    note e = abs_finish_simps(2)[OF open_p started more, of q]
    have "buf_ok cap ?\<tau> tp" unfolding e using ok[of tp] more open_p started by (rule buf_ok_count)
    then show ?thesis by (rule combine) (rule sent; simp add: e)
  next
    case flush
    note e = abs_finish_simps(3)[OF open_p started flush, of q]
    have fs: "\<forall>q \<in> set (a_buf \<sigma> tp). q \<noteq> p \<longrightarrow> a_fin \<sigma> q"
      using ok flush open_p started by (rule flush_all_finished)
    have all_in: "r \<in> set (a_buf \<sigma> tp)" if "a_tr \<sigma> r = Some tp" "\<not> a_fin \<sigma> r" for r
      using ok[of tp] flush(1) that by (simp add: buf_ok_def)
    show ?thesis
    proof (rule combine)
      show "buf_ok cap ?\<tau> tp" using flush(1) fs all_in by (auto simp: buf_ok_def e abs_flush_def)
      show "sent_ok ?\<tau> w" unfolding e
        by (rule abs_flush_sent[OF inv]) (use fs in auto)
    qed
  qed
qed

text \<open>The worker takes the first chunk and hands some of its spans on.\<close>

lemma abs_receive_inv:
  assumes inv: "trace_inv cap \<sigma> w" and out: "a_out \<sigma> = c # rest"
    and kept: "distinct kept" "set kept \<subseteq> set c"
  shows "trace_inv cap (\<sigma>\<lparr>a_out := rest\<rparr>) (w @ kept)"
proof
  show "buf_ok cap (\<sigma>\<lparr>a_out := rest\<rparr>) t" for t
    using trace_invD(1)[OF inv, of t] by (simp add: buf_ok_def)
  have sent: "sent_ok \<sigma> w" using inv by (rule trace_invD)
  then have "distinct (w @ c @ concat rest)" by (simp add: sent_ok_def out)
  then have d: "distinct ((w @ kept) @ concat rest)" using kept by auto
  have "set ((w @ kept) @ concat rest) \<subseteq> set (w @ concat (a_out \<sigma>))"
    using kept by (auto simp: out)
  moreover have "a_fin (\<sigma>\<lparr>a_out := rest\<rparr>) = a_fin \<sigma>" "a_tr (\<sigma>\<lparr>a_out := rest\<rparr>) = a_tr \<sigma>"
    "a_buf (\<sigma>\<lparr>a_out := rest\<rparr>) = a_buf \<sigma>" "a_out (\<sigma>\<lparr>a_out := rest\<rparr>) = rest"
    by simp_all
  ultimately show "sent_ok (\<sigma>\<lparr>a_out := rest\<rparr>) (w @ kept)"
    using sent d by (metis (no_types, lifting) sent_ok_def subset_iff)
qed

lemma abs_finish_fin: "a_fin (abs_finish q p \<sigma>) = (a_fin \<sigma>)(p := True)"
  by (auto simp: abs_finish_def abs_finished_one_def abs_flush_def Let_def fun_upd_idem split: option.split)

lemma abs_finish_tr: "a_tr (abs_finish q p \<sigma>) = a_tr \<sigma>"
  by (simp add: abs_finish_def abs_finished_one_def abs_flush_def Let_def split: option.split)

end
