(* ===== verification/Trace_Refine.thy ===== *)
theory Trace_Refine
  imports Tracer_Core Trace_Spec
begin

section \<open>The store refines the abstract life of a trace\<close>

text \<open>
  \<open>abs_state\<close> reads the abstract state off the store.  The setters of a span leave it alone
  (\<open>frame\<close>), \<open>alloc_span\<close> is \<open>abs_start\<close>, \<open>span_finish\<close> is \<open>abs_finish\<close>.
\<close>

definition is_span :: "heap \<Rightarrow> nat \<Rightarrow> bool" where
  "is_span h p \<longleftrightarrow> p < h_next h \<and> s_context (h_span h p) < h_next h
     \<and> c_span (h_ctx h (s_context (h_span h p))) = Some p"

definition span_trace :: "heap \<Rightarrow> nat \<Rightarrow> nat option" where
  "span_trace h p = (if is_span h p then c_trace (h_ctx h (s_context (h_span h p))) else None)"

definition abs_state :: "heap \<Rightarrow> tstate" where
  "abs_state h = \<lparr>a_tr = span_trace h, a_fin = (\<lambda>p. s_finished (h_span h p)),
     a_buf = (\<lambda>t. t_spans (h_trace h t)), a_cnt = (\<lambda>t. t_finished (h_trace h t)),
     a_full = (\<lambda>t. t_full (h_trace h t)), a_out = map ft_spans (tr_out (h_tracer h)),
     a_open = (h_active h \<and> \<not> tr_stopped (h_tracer h))\<rparr>"

lemma abs_state_sel [simp]:
  "a_tr (abs_state h) = span_trace h" "a_fin (abs_state h) p = s_finished (h_span h p)"
  "a_buf (abs_state h) t = t_spans (h_trace h t)" "a_cnt (abs_state h) t = t_finished (h_trace h t)"
  "a_full (abs_state h) t = t_full (h_trace h t)" "a_out (abs_state h) = map ft_spans (tr_out (h_tracer h))"
  "a_open (abs_state h) = (h_active h \<and> \<not> tr_stopped (h_tracer h))"
  by (simp_all add: abs_state_def)

text \<open>
  Pointers are allocated: nothing points past \<open>h_next\<close>, and an unallocated context has no span.
\<close>

definition heap_wf :: "heap \<Rightarrow> bool" where
  "heap_wf h \<longleftrightarrow> (\<forall>c \<ge> h_next h. c_span (h_ctx h c) = None)
     \<and> (\<forall>c q. c_span (h_ctx h c) = Some q \<longrightarrow> q < h_next h)
     \<and> (\<forall>c tp. c_trace (h_ctx h c) = Some tp \<longrightarrow> tp < h_next h)
     \<and> (\<forall>p. is_span h p \<longrightarrow> span_trace h p \<noteq> None)"

subsection \<open>Steps that do not touch the life cycle\<close>

abbreviation "span_ids s \<equiv> (s_SpanID s, s_TraceID s, s_ParentID s)"

definition frame :: "heap \<Rightarrow> heap \<Rightarrow> bool" where
  "frame h h' \<longleftrightarrow>
     (\<forall>p. s_context (h_span h' p) = s_context (h_span h p) \<and> s_finished (h_span h' p) = s_finished (h_span h p)
        \<and> span_ids (h_span h' p) = span_ids (h_span h p))
   \<and> (\<forall>c. c_trace (h_ctx h' c) = c_trace (h_ctx h c) \<and> c_span (h_ctx h' c) = c_span (h_ctx h c))
   \<and> (\<forall>t. t_spans (h_trace h' t) = t_spans (h_trace h t) \<and> t_finished (h_trace h' t) = t_finished (h_trace h t)
        \<and> t_full (h_trace h' t) = t_full (h_trace h t) \<and> t_root (h_trace h' t) = t_root (h_trace h t))
   \<and> h_next h' = h_next h \<and> tr_out (h_tracer h') = tr_out (h_tracer h)
   \<and> tr_stopped (h_tracer h') = tr_stopped (h_tracer h) \<and> h_active h' = h_active h
   \<and> tr_config (h_tracer h') = tr_config (h_tracer h)"

lemma frame_refl [simp, intro]: "frame h h"
  by (simp add: frame_def)

lemma frame_trans [trans]: "frame h h1 \<Longrightarrow> frame h1 h2 \<Longrightarrow> frame h h2"
  by (simp add: frame_def)

lemma frame_sel:
  assumes "frame h h'"
  shows "s_context (h_span h' p) = s_context (h_span h p)" "s_finished (h_span h' p) = s_finished (h_span h p)"
    "c_trace (h_ctx h' c) = c_trace (h_ctx h c)" "c_span (h_ctx h' c) = c_span (h_ctx h c)"
    "t_spans (h_trace h' t) = t_spans (h_trace h t)" "t_finished (h_trace h' t) = t_finished (h_trace h t)"
    "t_full (h_trace h' t) = t_full (h_trace h t)" "t_root (h_trace h' t) = t_root (h_trace h t)"
    "h_next h' = h_next h" "tr_out (h_tracer h') = tr_out (h_tracer h)"
    "tr_stopped (h_tracer h') = tr_stopped (h_tracer h)" "h_active h' = h_active h"
    "tr_config (h_tracer h') = tr_config (h_tracer h)" "span_ids (h_span h' p) = span_ids (h_span h p)"
  using assms by (simp_all add: frame_def)

lemma frame_is_span: "frame h h' \<Longrightarrow> is_span h' p = is_span h p"
  by (simp add: is_span_def frame_sel)

lemma frame_span_trace: "frame h h' \<Longrightarrow> span_trace h' = span_trace h"
  by (rule ext) (simp add: span_trace_def frame_is_span frame_sel)

lemma frame_abs: "frame h h' \<Longrightarrow> abs_state h' = abs_state h"
  by (simp add: abs_state_def frame_span_trace frame_sel)

lemma frame_wf: "frame h h' \<Longrightarrow> heap_wf h' = heap_wf h"
  by (simp add: heap_wf_def frame_span_trace frame_is_span frame_sel)

lemma frame_upd_span:
  assumes "s_context (f (h_span h p)) = s_context (h_span h p)" "s_finished (f (h_span h p)) = s_finished (h_span h p)"
    "span_ids (f (h_span h p)) = span_ids (h_span h p)"
  shows "frame h (upd_span p f h)"
  using assms by (simp add: frame_def)

lemma frame_upd_ctx:
  assumes "c_trace (f (h_ctx h p)) = c_trace (h_ctx h p)" "c_span (f (h_ctx h p)) = c_span (h_ctx h p)"
  shows "frame h (upd_ctx p f h)"
  using assms by (simp add: frame_def)

lemma frame_upd_trace:
  assumes "t_spans (f (h_trace h p)) = t_spans (h_trace h p)" "t_finished (f (h_trace h p)) = t_finished (h_trace h p)"
    "t_full (f (h_trace h p)) = t_full (h_trace h p)" "t_root (f (h_trace h p)) = t_root (h_trace h p)"
  shows "frame h (upd_trace p f h)"
  using assms by (simp add: frame_def)

lemma frame_upd_lim: "frame h (upd_lim l f h)"
  by (simp add: frame_def)

lemma frame_upd_tracer:
  assumes "tr_out (f (h_tracer h)) = tr_out (h_tracer h)" "tr_stopped (f (h_tracer h)) = tr_stopped (h_tracer h)"
    "tr_config (f (h_tracer h)) = tr_config (h_tracer h)"
  shows "frame h (upd_tracer f h)"
  using assms by (simp add: frame_def)

lemma frame_labels: "frame h (h\<lparr>h_labels := l\<rparr>)"
  by (simp add: frame_def)

lemmas frame_upds = frame_upd_span frame_upd_ctx frame_upd_trace frame_upd_lim frame_upd_tracer frame_labels

text \<open>The span's own context has a trace: then no setter allocates one.\<close>

definition has_trace :: "heap \<Rightarrow> nat \<Rightarrow> bool" where
  "has_trace h p \<longleftrightarrow> c_trace (h_ctx h (s_context (h_span h p))) \<noteq> None"

lemma frame_has_trace: "frame h h' \<Longrightarrow> has_trace h' p = has_trace h p"
  by (simp add: has_trace_def frame_sel)

lemma has_trace_span: "heap_wf h \<Longrightarrow> is_span h p \<Longrightarrow> has_trace h p"
  by (auto simp: heap_wf_def has_trace_def span_trace_def)

lemma ctx_setSamplingPriority_frame:
  "c_trace (h_ctx h c) \<noteq> None \<Longrightarrow> frame h (ctx_setSamplingPriority c pr n h)"
  by (auto simp: ctx_setSamplingPriority_def intro!: frame_upd_trace)

lemma setSamplingPriorityLocked_frame: "has_trace h p \<Longrightarrow> frame h (setSamplingPriorityLocked p pr n h)"
  unfolding setSamplingPriorityLocked_def
  by (auto simp: has_trace_def intro: frame_trans[OF frame_upd_span ctx_setSamplingPriority_frame])

lemma setMetric_frame: "has_trace h p \<Longrightarrow> frame h (setMetric p k v h)"
proof -
  assume t: "has_trace h p"
  let ?h1 = "upd_span p (setMetric_pre k) h"
  have f: "frame h ?h1" by (rule frame_upd_span) simp_all
  then have "has_trace ?h1 p" using t by (simp add: frame_has_trace)
  then have "frame ?h1 (setSamplingPriorityLocked p pr n ?h1)" for pr n
    by (rule setSamplingPriorityLocked_frame)
  moreover have "frame ?h1 (upd_span p (\<lambda>s. s\<lparr>s_Metrics := m_put k v (s_Metrics s)\<rparr>) ?h1)"
    by (rule frame_upd_span) simp_all
  ultimately show ?thesis using f by (auto simp: setMetric_def Let_def intro: frame_trans)
qed

lemma setMeta_upd_frame: "frame h (upd_span p (setMeta k v) h)"
  by (rule frame_upd_span) simp_all

lemma setTagBool_frame: "has_trace h p \<Longrightarrow> frame h (setTagBool p k v h)"
  by (auto simp: setTagBool_def setMetric_frame setSamplingPriorityLocked_frame setMeta_upd_frame)

lemma setError_frame: "frame h (setError p b h)"
proof -
  have c: "frame h (upd_ctx c (\<lambda>c. c\<lparr>c_errors := f c\<rparr>) h)" for c f by (rule frame_upd_ctx) simp_all
  have s: "frame h' (upd_span p (\<lambda>s. s\<lparr>s_Error := e\<rparr>) h')" for h' e by (rule frame_upd_span) simp_all
  show ?thesis by (auto simp: setError_def Let_def intro: s frame_trans[OF c s])
qed

lemma setTagError_frame: "frame h (setTagError p v cfg stk h)"
  unfolding setTagError_def Let_def
  by (auto split: goval.split option.split intro!: setError_frame
      intro: frame_trans[OF _ setMeta_upd_frame])

lemma SetTag_frame:
  assumes "has_trace h p" "SetTag p k v stk h = Some h'"
  shows "frame h h'"
proof -
  have l: "frame h ((upd_span p (\<lambda>s. s\<lparr>s_pprofCtxActive := a\<rparr>) h)\<lparr>h_labels := b\<rparr>)" for a b
    by (rule frame_trans[OF frame_upd_span frame_labels]) simp_all
  show ?thesis using assms
    by (auto simp: SetTag_def Let_def setTagError_frame setTagBool_frame setMetric_frame setMeta_upd_frame
        intro: frame_trans[OF l setMeta_upd_frame]
        split: if_splits goval.splits option.splits stringer.splits)
qed

lemma SetTag_float_frame: "has_trace h p \<Longrightarrow> frame h (SetTag_float p k v h)"
  unfolding SetTag_float_def by (auto split: option.split intro: SetTag_frame)

lemma setSamplingPriority_frame: "has_trace h p \<Longrightarrow> frame h (setSamplingPriority p pr n r h)"
  by (simp add: setSamplingPriority_def setSamplingPriorityLocked_frame)

lemma SetOperationName_frame: "frame h (SetOperationName p n h)"
  by (auto simp: SetOperationName_def intro!: frame_upd_span)

lemma SetBaggageItem_frame: "frame h (SetBaggageItem p k v h)"
  by (auto simp: SetBaggageItem_def ctx_setBaggageItem_def Let_def intro!: frame_upd_ctx)

lemma fold_setMeta_frame [simp]:
  "s_context (fold (\<lambda>(k, v) s. if b v then setMeta k v s else s) kvs s) = s_context s"
  "s_finished (fold (\<lambda>(k, v) s. if b v then setMeta k v s else s) kvs s) = s_finished s"
  "s_SpanID (fold (\<lambda>(k, v) s. if b v then setMeta k v s else s) kvs s) = s_SpanID s"
  "s_TraceID (fold (\<lambda>(k, v) s. if b v then setMeta k v s else s) kvs s) = s_TraceID s"
  "s_ParentID (fold (\<lambda>(k, v) s. if b v then setMeta k v s else s) kvs s) = s_ParentID s"
  by (induction kvs arbitrary: s) (auto split: if_splits)

lemma trace_tag_frame:
  "frame h (upd_trace t (setPropagatingTag k v) h)" "frame h (upd_trace t (unsetPropagatingTag k) h)"
  by (rule frame_upd_trace; simp add: setPropagatingTag_def unsetPropagatingTag_def)+

lemma SetUser_frame:
  assumes "SetUser p uid opts h = Some h'"
  shows "frame h h'"
proof -
  have del: "frame h (upd_span r (\<lambda>s. s\<lparr>s_Meta := m_del k (s_Meta s)\<rparr>) h)" for h k r
    by (rule frame_upd_span) simp_all
  have uid: "frame h (upd_span r (\<lambda>s. setMeta k' v (s\<lparr>s_Meta := m_del k (s_Meta s)\<rparr>)) h)" for h k k' v r
    by (rule frame_upd_span) simp_all
  have tags: "frame h (upd_span r (fold (\<lambda>(k, v) s. if v \<noteq> [] then setMeta k v s else s) kvs) h)" for h r kvs
    by (rule frame_upd_span) simp_all
  show ?thesis using assms unfolding SetUser_def Let_def
    by (auto split: option.splits if_splits intro: tags frame_trans[OF _ tags]
        frame_trans[OF frame_trans[OF del trace_tag_frame(1)] tags]
        frame_trans[OF frame_trans[OF trace_tag_frame(2) uid] tags])
qed

subsection \<open>Finishing a span\<close>

lemma fold_setMeta_all [simp]:
  "s_context (fold (\<lambda>(k, v). setMeta k v) kvs s) = s_context s"
  "s_finished (fold (\<lambda>(k, v). setMeta k v) kvs s) = s_finished s"
  "s_SpanID (fold (\<lambda>(k, v). setMeta k v) kvs s) = s_SpanID s"
  "s_TraceID (fold (\<lambda>(k, v). setMeta k v) kvs s) = s_TraceID s"
  "s_ParentID (fold (\<lambda>(k, v). setMeta k v) kvs s) = s_ParentID s"
  by (induction kvs arbitrary: s) (simp_all add: case_prod_beta)

lemma set_chunk_tags_frame [simp]:
  "s_context (set_chunk_tags t s) = s_context s" "s_finished (set_chunk_tags t s) = s_finished s"
  "s_SpanID (set_chunk_tags t s) = s_SpanID s" "s_TraceID (set_chunk_tags t s) = s_TraceID s"
  "s_ParentID (set_chunk_tags t s) = s_ParentID s"
  unfolding set_chunk_tags_def by simp_all

lemma trace_decision_frame [simp]:
  "t_spans (trace_keep t) = t_spans t" "t_finished (trace_keep t) = t_finished t"
  "t_full (trace_keep t) = t_full t" "t_root (trace_keep t) = t_root t"
  "t_spans (trace_drop t) = t_spans t" "t_finished (trace_drop t) = t_finished t"
  "t_full (trace_drop t) = t_full t" "t_root (trace_drop t) = t_root t"
  by (simp_all add: trace_keep_def trace_drop_def)

lemma lock_priority_frame: "frame h (lock_priority tp p h)"
proof -
  have lock: "frame h (upd_trace tp (\<lambda>t. t\<lparr>t_locked := True\<rparr>) h)" for h
    by (rule frame_upd_trace) simp_all
  have "frame h (setMetric r keySamplingPriority pr h)" for r pr
    unfolding setMetric_plain[of keySamplingPriority, simplified] by (rule frame_upd_span) simp_all
  then have "frame h (upd_trace tp (\<lambda>t. t\<lparr>t_locked := True\<rparr>) (setMetric r keySamplingPriority pr h))" for r pr
    using lock by (rule frame_trans)
  then show ?thesis by (simp add: lock_priority_def split: option.split)
qed

lemma send_stats_frame: "frame h (send_stats x p h)"
  by (auto simp: send_stats_def Let_def intro!: frame_upd_tracer)

lemma flush_trace_abs: "abs_state (flush_trace tp h) = abs_flush payloadQueueSize tp (abs_state h)"
proof -
  have s: "is_span (flush_trace tp h) p = is_span h p" for p
    by (simp add: is_span_def flush_trace_def Let_def)
  have "span_trace (flush_trace tp h) = span_trace h"
    by (rule ext) (simp add: span_trace_def s, simp add: flush_trace_def Let_def)
  then show ?thesis
    by (auto simp: abs_state_def abs_flush_def flush_trace_def pushTrace_def Let_def fun_eq_iff)
qed

lemma count_up_abs:
  "abs_state (upd_trace tp (\<lambda>t. t\<lparr>t_finished := Suc (t_finished t)\<rparr>) h)
     = (abs_state h)\<lparr>a_cnt := (a_cnt (abs_state h))(tp := Suc (a_cnt (abs_state h) tp))\<rparr>"
  by (auto simp: abs_state_def span_trace_def is_span_def fun_eq_iff)

lemma finishedOne_abs:
  "abs_state (finishedOne tp p h) = abs_finished_one payloadQueueSize tp (abs_state h)"
proof (cases "t_full (h_trace h tp)")
  case True
  then show ?thesis by (simp add: finishedOne_def abs_finished_one_def)
next
  case False
  let ?hc = "upd_trace tp (\<lambda>t. t\<lparr>t_finished := Suc (t_finished t)\<rparr>) h"
  let ?h1 = "lock_priority tp p ?hc"
  let ?t = "h_trace ?h1 tp"
  define h2 where "h2 = (case t_spans ?t of [] \<Rightarrow> ?h1
    | f # _ \<Rightarrow> if p = f then upd_span p (set_chunk_tags ?t) ?h1 else ?h1)"
  have "frame ?h1 h2" by (auto simp: h2_def intro!: frame_upd_span split: list.split)
  then have f: "frame ?hc h2" using lock_priority_frame by (rule frame_trans[rotated])
  have "finishedOne tp p h = (if length (t_spans ?t) \<noteq> t_finished ?t then h2 else flush_trace tp h2)"
    using False by (simp only: finishedOne_def h2_def Let_def if_False)
  moreover have "t_spans ?t = t_spans (h_trace h tp)" "t_finished ?t = Suc (t_finished (h_trace h tp))"
    using frame_sel(5,6)[OF lock_priority_frame[of ?hc tp p], of tp] by simp_all
  ultimately show ?thesis using False
    by (simp add: abs_finished_one_def Let_def flush_trace_abs frame_abs[OF f] count_up_abs)
qed

lemma close_span_sel [simp]:
  "s_finished (close_span t s)" "s_context (close_span t s) = s_context s"
  by (simp_all add: close_span_def Let_def)

text \<open>\<open>span_finish\<close> on a started span is the abstract step.\<close>

lemma span_finish_abs:
  assumes wf: "heap_wf h" and sp: "is_span h p"
  shows "abs_state (span_finish x p t h) = abs_finish payloadQueueSize p (abs_state h)"
proof (cases "s_finished (h_span h p)")
  case True
  then show ?thesis by (simp add: span_finish_def abs_finish_def)
next
  case False
  let ?cp = "s_context (h_span h p)"
  from wf sp obtain tp where tp: "c_trace (h_ctx h ?cp) = Some tp"
    by (auto simp: heap_wf_def span_trace_def)
  have cs: "c_span (h_ctx h ?cp) = Some p" using sp by (simp add: is_span_def)
  let ?h1 = "upd_span p (close_span t) h"
  define h2 where "h2 = (if h_active h then send_stats x p ?h1 else ?h1)"
  have f12: "frame ?h1 h2" by (simp add: h2_def send_stats_frame)
  define h3 where "h3 = (if (if h_active h \<and> canDropP0s (tr_config (h_tracer h)) then shouldKeep h2 p else True)
    then upd_trace tp trace_keep h2 else h2)"
  have f23: "frame h2 h3" by (simp add: h3_def frame_upd_trace)
  have f: "frame ?h1 h3" using f12 f23 by (rule frame_trans)
  have ctr: "c_trace (h_ctx h2 ?cp) = Some tp" using frame_sel(3)[OF f12, of ?cp] tp by simp
  have "span_finish x p t h = ctx_finish ?cp h3"
    using False ctr by (simp only: span_finish_def Let_def h2_def[symmetric] option.case h3_def if_False)
  also have "\<dots> = finishedOne tp p h3"
    using frame_sel(3,4)[OF f, of ?cp] tp cs by (simp add: ctx_finish_def)
  finally have e: "span_finish x p t h = finishedOne tp p h3" .
  have "abs_state ?h1 = (abs_state h)\<lparr>a_fin := (a_fin (abs_state h))(p := True)\<rparr>"
    by (auto simp: abs_state_def span_trace_def is_span_def fun_eq_iff)
  then show ?thesis using False tp sp
    by (simp add: e finishedOne_abs frame_abs[OF f] abs_finish_def span_trace_def)
qed

end
