(* ===== verification/Trace_Start.thy ===== *)
theory Trace_Start
  imports Trace_Refine
begin

section \<open>Starting a span, on the store\<close>

text \<open>
  \<open>alloc_span\<close> is the abstract start step, on the trace of the parent or on a new one, and the
  rest of \<open>StartSpan\<close> leaves the life cycle alone.
\<close>

definition parent_trace :: "heap \<Rightarrow> nat option \<Rightarrow> nat option" where
  "parent_trace h parent = (case parent of None \<Rightarrow> None | Some pp \<Rightarrow> c_trace (h_ctx h pp))"

lemma foreach_setBaggage [simp]:
  "c_trace (foreach_items (\<lambda>k v c. (ctx_setBaggageItem k v c, True)) kvs c) = c_trace c"
  "c_span (foreach_items (\<lambda>k v c. (ctx_setBaggageItem k v c, True)) kvs c) = c_span c"
  "c_traceID (foreach_items (\<lambda>k v c. (ctx_setBaggageItem k v c, True)) kvs c) = c_traceID c"
  "c_spanID (foreach_items (\<lambda>k v c. (ctx_setBaggageItem k v c, True)) kvs c) = c_spanID c"
  by (induction "\<lambda>k v c. (ctx_setBaggageItem k v c, True)" kvs c rule: foreach_items.induct)
    (simp_all add: ctx_setBaggageItem_def Let_def)

lemma inherit_ctx_sel [simp]:
  "c_trace (inherit_ctx pc c) = c_trace pc" "c_span (inherit_ctx pc c) = c_span c"
  "c_traceID (inherit_ctx pc c) = c_traceID c" "c_spanID (inherit_ctx pc c) = c_spanID c"
  by (simp_all add: inherit_ctx_def ForeachBaggageItem_def)

text \<open>The trace of the new span, and its pointer when it is new.\<close>

definition start_trace :: "nat option \<Rightarrow> heap \<Rightarrow> nat \<times> heap" where
  "start_trace parent h = (case parent_trace h parent of Some tp \<Rightarrow> (tp, h) | None \<Rightarrow> alloc_trace h)"

definition start_ctx :: "nat \<Rightarrow> nat option \<Rightarrow> heap \<Rightarrow> spanContext" where
  "start_ctx p parent h =
    (let c0 = zero_ctx\<lparr>c_traceID := s_TraceID (h_span h p), c_spanID := s_SpanID (h_span h p), c_span := Some p\<rparr>
     in case parent of None \<Rightarrow> c0 | Some pp \<Rightarrow> inherit_ctx (h_ctx h pp) c0)"

lemma start_ctx_sel [simp]:
  "c_span (start_ctx p parent h) = Some p" "c_trace (start_ctx p parent h) = parent_trace h parent"
  "c_traceID (start_ctx p parent h) = s_TraceID (h_span h p)"
  "c_spanID (start_ctx p parent h) = s_SpanID (h_span h p)"
  by (simp_all add: start_ctx_def parent_trace_def zero_ctx_def Let_def split: option.split)

lemma newSpanContext_eq:
  "newSpanContext p parent h =
    (let (tp, h1) = start_trace parent h; cp = h_next h1;
         h2 = h1\<lparr>h_ctx := (h_ctx h1)(cp := (start_ctx p parent h)\<lparr>c_trace := Some tp\<rparr>), h_next := Suc cp\<rparr>;
         h3 = (if t_root (h_trace h2 tp) = None then upd_trace tp (\<lambda>t. t\<lparr>t_root := Some p\<rparr>) h2 else h2)
     in (cp, heap_push tp p h3))"
proof -
  have c: "(case parent of None \<Rightarrow> zero_ctx\<lparr>c_traceID := s_TraceID (h_span h p), c_spanID := s_SpanID (h_span h p), c_span := Some p\<rparr>
      | Some pp \<Rightarrow> inherit_ctx (h_ctx h pp) (zero_ctx\<lparr>c_traceID := s_TraceID (h_span h p), c_spanID := s_SpanID (h_span h p), c_span := Some p\<rparr>))
     = start_ctx p parent h"
    by (simp add: start_ctx_def Let_def)
  have t: "(case parent_trace h parent of None \<Rightarrow> alloc_trace h | Some tp \<Rightarrow> (tp, h)) = start_trace parent h"
    by (simp add: start_trace_def split: option.split)
  show ?thesis unfolding newSpanContext_def Let_def c start_ctx_sel t ..
qed

text \<open>What \<open>push\<close> does to the buffer of its trace, and that it does nothing else.\<close>

lemma trace_push_sel:
  "t_full (fst (trace_push p sp t)) = (t_full t \<or> traceMaxSize \<le> length (t_spans t))"
  "t_finished (fst (trace_push p sp t)) = t_finished t"
  "t_root (fst (trace_push p sp t)) = t_root t"
  "t_spans (fst (trace_push p sp t)) = (if t_full t then t_spans t
     else if traceMaxSize \<le> length (t_spans t) then [] else t_spans t @ [p])"
  by (auto simp: trace_push_def Let_def split: option.split)

lemma heap_push_sel [simp]:
  "h_span (heap_push tp p h) = h_span h" "h_ctx (heap_push tp p h) = h_ctx h"
  "h_trace (heap_push tp p h) = (h_trace h)(tp := fst (trace_push p (h_span h p) (h_trace h tp)))"
  "h_next (heap_push tp p h) = h_next h" "h_active (heap_push tp p h) = h_active h"
  "tr_out (h_tracer (heap_push tp p h)) = tr_out (h_tracer h)"
  "tr_stopped (h_tracer (heap_push tp p h)) = tr_stopped (h_tracer h)"
  "tr_config (h_tracer (heap_push tp p h)) = tr_config (h_tracer h)"
  by (auto simp: heap_push_def count_push_def Let_def split: prod.split push_count.split)

text \<open>The pointers \<open>alloc_span\<close> uses: the trace, and the context (the last it allocates).\<close>

definition new_tp :: "nat option \<Rightarrow> heap \<Rightarrow> nat" where
  "new_tp parent h = (case parent_trace h parent of Some tp \<Rightarrow> tp | None \<Rightarrow> Suc (h_next h))"

definition new_cp :: "nat option \<Rightarrow> heap \<Rightarrow> nat" where
  "new_cp parent h = (case parent_trace h parent of Some tp \<Rightarrow> Suc (h_next h) | None \<Rightarrow> Suc (Suc (h_next h)))"

definition base_trace :: "nat option \<Rightarrow> heap \<Rightarrow> trace" where
  "base_trace parent h = (case parent_trace h parent of Some tp \<Rightarrow> h_trace h tp | None \<Rightarrow> newTrace)"

definition rooted :: "nat \<Rightarrow> trace \<Rightarrow> trace" where
  "rooted p t = (if t_root t = None then t\<lparr>t_root := Some p\<rparr> else t)"

lemma rooted_sel [simp]:
  "t_spans (rooted p t) = t_spans t" "t_finished (rooted p t) = t_finished t"
  "t_full (rooted p t) = t_full t" "t_priority (rooted p t) = t_priority t"
  "t_root (rooted p t) = (case t_root t of None \<Rightarrow> Some p | Some r \<Rightarrow> Some r)"
  by (auto simp: rooted_def)

lemma alloc_span_sel:
  fixes h s parent
  defines "h' \<equiv> snd (alloc_span s parent h)"
  shows "fst (alloc_span s parent h) = h_next h"
    "h_span h' = (h_span h)(h_next h := s\<lparr>s_context := new_cp parent h\<rparr>)"
    "\<exists>c. c_span c = Some (h_next h) \<and> c_trace c = Some (new_tp parent h) \<and> c_traceID c = s_TraceID s
       \<and> c_spanID c = s_SpanID s \<and> h_ctx h' = (h_ctx h)(new_cp parent h := c)"
    "h_trace h' = (h_trace h)(new_tp parent h :=
       fst (trace_push (h_next h) s (rooted (h_next h) (base_trace parent h))))"
    "h_next h' = Suc (new_cp parent h)" "h_active h' = h_active h"
    "tr_out (h_tracer h') = tr_out (h_tracer h)" "tr_stopped (h_tracer h') = tr_stopped (h_tracer h)"
    "tr_config (h_tracer h') = tr_config (h_tracer h)"
proof -
  let ?h1 = "h\<lparr>h_span := (h_span h)(h_next h := s), h_next := Suc (h_next h)\<rparr>"
  have pt: "parent_trace ?h1 parent = parent_trace h parent"
    by (simp add: parent_trace_def split: option.split)
  let ?c = "(start_ctx (h_next h) parent ?h1)\<lparr>c_trace := Some (new_tp parent h)\<rparr>"
  note defs = h'_def alloc_span_def newSpanContext_eq start_trace_def pt alloc_trace_def
    new_tp_def new_cp_def base_trace_def rooted_def
  show "fst (alloc_span s parent h) = h_next h"
    by (simp add: alloc_span_def Let_def split: prod.split)
  show "h_span h' = (h_span h)(h_next h := s\<lparr>s_context := new_cp parent h\<rparr>)"
    by (simp add: defs Let_def split: option.split)
  have "h_ctx h' = (h_ctx h)(new_cp parent h := ?c)"
    by (simp add: defs Let_def split: option.split)
  then show "\<exists>c. c_span c = Some (h_next h) \<and> c_trace c = Some (new_tp parent h) \<and> c_traceID c = s_TraceID s
       \<and> c_spanID c = s_SpanID s \<and> h_ctx h' = (h_ctx h)(new_cp parent h := c)"
    by (intro exI[of _ ?c]) simp
  show "h_trace h' = (h_trace h)(new_tp parent h :=
       fst (trace_push (h_next h) s (rooted (h_next h) (base_trace parent h))))"
    by (simp add: defs Let_def split: option.split)
  show "h_next h' = Suc (new_cp parent h)" "h_active h' = h_active h"
    "tr_out (h_tracer h') = tr_out (h_tracer h)" "tr_stopped (h_tracer h') = tr_stopped (h_tracer h)"
    "tr_config (h_tracer h') = tr_config (h_tracer h)"
    by (simp_all add: defs Let_def split: option.split)
qed

lemma new_ptrs:
  "heap_wf h \<Longrightarrow> new_tp parent h < new_cp parent h"
  "h_next h < new_cp parent h" "h_next h \<le> new_cp parent h"
  by (auto simp: heap_wf_def new_tp_def new_cp_def parent_trace_def less_SucI split: option.split)

lemma alloc_span_is_span:
  assumes wf: "heap_wf h"
  shows "is_span (snd (alloc_span s parent h)) q \<longleftrightarrow> q = h_next h \<or> is_span h q"
    and "span_trace (snd (alloc_span s parent h)) q =
      (if q = h_next h then Some (new_tp parent h) else span_trace h q)"
proof -
  let ?h' = "snd (alloc_span s parent h)"
  obtain c where c: "c_span c = Some (h_next h)" "c_trace c = Some (new_tp parent h)"
      "h_ctx ?h' = (h_ctx h)(new_cp parent h := c)"
    using alloc_span_sel(3) by blast
  note sel = alloc_span_sel(2,5)[of s parent h] c new_ptrs(2,3)[of h parent]
  have garbage: "c_span (h_ctx h d) = None" if "h_next h \<le> d" for d
    using wf that by (simp add: heap_wf_def)
  show "is_span ?h' q \<longleftrightarrow> q = h_next h \<or> is_span h q"
  proof (cases "q = h_next h")
    case True
    then show ?thesis by (simp add: is_span_def sel less_SucI)
  next
    case False
    have "q < h_next h" if "c_span (h_ctx h d) = Some q" for d
      using wf that by (simp add: heap_wf_def)
    moreover have "a < Suc (new_cp parent h)" if "a < h_next h" for a
      using that new_ptrs(3)[of h parent] by simp
    moreover have "s_context (h_span h q) \<noteq> new_cp parent h" if "s_context (h_span h q) < h_next h"
      using that new_ptrs(3)[of h parent] by simp
    ultimately show ?thesis using False
      by (cases "s_context (h_span h q) < h_next h") (auto simp: is_span_def sel garbage)
  qed
  then show "span_trace ?h' q = (if q = h_next h then Some (new_tp parent h) else span_trace h q)"
    using new_ptrs(2,3)[of h parent]
    by (cases "q = h_next h") (auto simp: span_trace_def is_span_def sel less_Suc_eq_le)
qed

text \<open>The abstract step of a start: on the trace of the parent, or on a new trace.\<close>

definition abs_alloc :: "nat option \<Rightarrow> heap \<Rightarrow> tstate \<Rightarrow> tstate" where
  "abs_alloc parent h \<sigma> = abs_start traceMaxSize (new_tp parent h) (h_next h)
     (case parent_trace h parent of Some tp \<Rightarrow> \<sigma> | None \<Rightarrow> abs_new_trace (Suc (h_next h)) \<sigma>)"

lemma abs_start_full:
  "abs_start cap tp p \<sigma> = \<sigma>\<lparr>a_tr := (a_tr \<sigma>)(p := Some tp), a_fin := (a_fin \<sigma>)(p := False),
     a_full := (a_full \<sigma>)(tp := (a_full \<sigma> tp \<or> cap \<le> length (a_buf \<sigma> tp))),
     a_buf := (a_buf \<sigma>)(tp := (if a_full \<sigma> tp then a_buf \<sigma> tp
       else if cap \<le> length (a_buf \<sigma> tp) then [] else a_buf \<sigma> tp @ [p]))\<rparr>"
  by (auto simp: abs_start_def abs_push_def fun_upd_idem)

lemma alloc_span_abs:
  assumes wf: "heap_wf h" and "\<not> s_finished s"
  shows "abs_state (snd (alloc_span s parent h)) = abs_alloc parent h (abs_state h)"
proof -
  have tr: "span_trace (snd (alloc_span s parent h)) = (span_trace h)(h_next h := Some (new_tp parent h))"
    by (rule ext) (simp add: alloc_span_is_span(2)[OF wf])
  show ?thesis using assms(2)
    by (auto simp: abs_alloc_def abs_state_def tr alloc_span_sel trace_push_sel abs_start_full
        abs_new_trace_def new_tp_def base_trace_def newTrace_def fun_eq_iff split: option.split)
qed

lemma alloc_span_wf:
  assumes wf: "heap_wf h"
  shows "heap_wf (snd (alloc_span s parent h))"
proof -
  let ?h' = "snd (alloc_span s parent h)"
  obtain c where c: "c_span c = Some (h_next h)" "c_trace c = Some (new_tp parent h)"
      "h_ctx ?h' = (h_ctx h)(new_cp parent h := c)"
    using alloc_span_sel(3) by blast
  have lt: "a < Suc (new_cp parent h)" if "a < h_next h" for a
    using that new_ptrs(3)[of h parent] by simp
  have "\<forall>p. is_span ?h' p \<longrightarrow> span_trace ?h' p \<noteq> None"
    using wf by (simp add: alloc_span_is_span[OF wf] heap_wf_def)
  moreover have "\<forall>d \<ge> Suc (new_cp parent h). c_span ((if d = new_cp parent h then c else h_ctx h d)) = None"
    using wf new_ptrs(3)[of h parent] by (simp add: heap_wf_def)
  moreover have "\<forall>d q. c_span (h_ctx h d) = Some q \<longrightarrow> q < Suc (new_cp parent h)"
    "\<forall>d q. c_trace (h_ctx h d) = Some q \<longrightarrow> q < Suc (new_cp parent h)"
    using wf lt unfolding heap_wf_def by blast+
  ultimately show ?thesis using new_ptrs(1)[OF wf, of parent] new_ptrs(2)[of h parent]
    by (simp add: heap_wf_def c alloc_span_sel(5) less_SucI)
qed

subsection \<open>The rest of StartSpan\<close>

lemma init_child_finished [simp]:
  "\<not> s_finished (child_span h parent (init_span c nm sid t))"
  by (auto simp: child_span_def init_span_def zero_span_def Let_def split: option.split)

lemma set_tags_frame:
  "has_trace h p \<Longrightarrow> set_tags p kvs stk h = Some h' \<Longrightarrow> frame h h'"
proof (induction p kvs stk h rule: set_tags.induct)
  case (2 p k v kvs stk h)
  then obtain h1 where h1: "SetTag p k v stk h = Some h1" "set_tags p kvs stk h1 = Some h'"
    by (auto split: option.splits)
  then have "frame h h1" using 2 by (blast intro: SetTag_frame)
  then show ?case using 2 h1 by (auto intro: frame_trans simp: frame_has_trace)
qed simp

lemma map_service_sel [simp]:
  "s_context (map_service c s) = s_context s" "s_finished (map_service c s) = s_finished s"
  "s_SpanID (map_service c s) = s_SpanID s" "s_TraceID (map_service c s) = s_TraceID s" "s_ParentID (map_service c s) = s_ParentID s"
  by (simp_all add: map_service_def split: option.split)

lemma version_env_tags_sel [simp]:
  "s_context (version_env_tags c s) = s_context s" "s_finished (version_env_tags c s) = s_finished s"
  "s_SpanID (version_env_tags c s) = s_SpanID s" "s_TraceID (version_env_tags c s) = s_TraceID s" "s_ParentID (version_env_tags c s) = s_ParentID s"
  by (simp_all add: version_env_tags_def Let_def)

lemma local_root_tags_sel [simp]:
  "s_context (local_root_tags c pid b s) = s_context s" "s_finished (local_root_tags c pid b s) = s_finished s"
  "s_SpanID (local_root_tags c pid b s) = s_SpanID s" "s_TraceID (local_root_tags c pid b s) = s_TraceID s" "s_ParentID (local_root_tags c pid b s) = s_ParentID s"
  by (simp_all add: local_root_tags_def Let_def)

lemma mark_top_level_frame: "has_trace h p \<Longrightarrow> frame h (mark_top_level p h)"
  unfolding mark_top_level_def by (rule frame_trans[OF setMetric_frame frame_upd_span]) simp_all

lemma frame_then:
  assumes "has_trace h p" "frame h h'"
  shows "frame h (setSamplingPriority p pr n r h')" "frame h (SetTag_float p k v h')" "frame h (setMetric p k v h')"
  using assms by (meson frame_has_trace frame_trans setSamplingPriority_frame SetTag_float_frame setMetric_frame)+

lemma applyRule_frame: "has_trace h p \<Longrightarrow> frame h (applyRule x rs p rate now h)"
proof -
  assume t: "has_trace h p"
  let ?h1 = "SetTag_float p keyRulesSamplerAppliedRate rate h"
  have f1: "frame h ?h1" using t by (rule SetTag_float_frame)
  have lim: "frame h (upd_lim l f ?h1)" for l f by (rule frame_trans[OF f1 frame_upd_lim])
  show ?thesis by (simp add: applyRule_def Let_def frame_then[OF t] lim f1 split: prod.split)
qed

lemma traceRules_apply_frame: "has_trace h p \<Longrightarrow> frame h (snd (traceRules_apply x rs p now h))"
  by (simp add: traceRules_apply_def applyRule_frame split: prod.split)

lemma prioritySampler_apply_frame: "has_trace h p \<Longrightarrow> frame h (prioritySampler_apply ps p h)"
  by (simp add: prioritySampler_apply_def Let_def frame_then setSamplingPriority_frame)

lemma sample_rate_tag_frame: "has_trace h p \<Longrightarrow> frame h (sample_rate_tag sm p h)"
  by (simp add: sample_rate_tag_def setMetric_frame split: sampler.split)

lemma tracer_sample_frame:
  assumes t: "has_trace h p"
  shows "frame h (tracer_sample x p now h)"
proof -
  let ?tr = "h_tracer h"
  let ?h1 = "sample_rate_tag (cf_sampler (tr_config ?tr)) p h"
  have f1: "frame h ?h1" using t by (rule sample_rate_tag_frame)
  then have t1: "has_trace ?h1 p" using t by (simp add: frame_has_trace)
  obtain b h2 where ap: "traceRules_apply x (rls_traces (tr_rulesSampling ?tr)) p now ?h1 = (b, h2)" by fastforce
  have f2: "frame h h2" using frame_trans[OF f1 traceRules_apply_frame[OF t1]] ap by (metis snd_conv)
  then have "frame h (prioritySampler_apply ps p h2)" for ps
    using t by (meson frame_has_trace frame_trans prioritySampler_apply_frame)
  then show ?thesis using f2
    by (auto simp: tracer_sample_def Let_def ap intro!: frame_upd_trace split: option.split bool.split)
qed

lemma applyPPROFLabels_frame: "frame h (applyPPROFLabels ctx p h)"
proof -
  have "frame h ((upd_span p (\<lambda>s. s\<lparr>s_pprofCtxRestore := a, s_pprofCtxActive := b\<rparr>) h)\<lparr>h_labels := l\<rparr>)" for a b l
    by (rule frame_trans[OF frame_upd_span frame_labels]) simp_all
  then show ?thesis by (simp add: applyPPROFLabels_def Let_def)
qed

lemma finish_start_frame:
  assumes t: "has_trace h p"
  shows "frame h (finish_start x opts ctx p now h)"
proof -
  have ms: "frame h' (upd_span p (map_service c) h')" for h' c by (rule frame_upd_span) simp_all
  have ve: "frame h' (upd_span p (version_env_tags c) h')" for h' c by (rule frame_upd_span) simp_all
  have mt: "frame h (mark_top_level p h')" if "frame h h'" for h'
    using t that by (meson frame_has_trace frame_trans mark_top_level_frame)
  have sa: "frame h (tracer_sample x p now h')" if "frame h h'" for h'
    using t that by (meson frame_has_trace frame_trans tracer_sample_frame)
  have pp: "frame h (applyPPROFLabels ctx p h')" if "frame h h'" for h'
    using that applyPPROFLabels_frame by (rule frame_trans)
  have ms': "frame h (upd_span p (map_service c) h')" if "frame h h'" for h' c
    using that ms by (rule frame_trans)
  have ve': "frame h (upd_span p (version_env_tags c) h')" if "frame h h'" for h' c
    using that ve by (rule frame_trans)
  have br: "frame h (if b then h1 else h2)" if "frame h h1" "frame h h2" for b h1 h2
    using that by simp
  show ?thesis unfolding finish_start_def Let_def
    by (intro ms' br pp sa ve' mt frame_refl)
qed

lemma start_alloc_frame:
  "fst (start_alloc s opts h) = h_next h"
  "frame (snd (alloc_span s (sc_Parent opts) h)) (snd (start_alloc s opts h))"
  by (simp_all add: start_alloc_def case_prod_beta alloc_span_sel(1) frame_upd_span)

lemma StartSpan_frame:
  assumes "StartSpan x nm opts now rnd stk h = Some (p, h')"
  defines "s \<equiv> new_span nm opts now rnd h"
  shows "p = h_next h"
    "has_trace (snd (alloc_span s (sc_Parent opts) h)) p \<Longrightarrow> frame (snd (alloc_span s (sc_Parent opts) h)) h'"
proof -
  let ?h1 = "snd (alloc_span s (sc_Parent opts) h)" and ?p = "h_next h"
  obtain p2 h2 where e: "start_alloc s opts h = (p2, h2)" by fastforce
  have p2: "p2 = h_next h" and f2: "frame ?h1 h2" using start_alloc_frame[of s opts h] by (simp_all add: e)
  note eq = assms(1)[unfolded StartSpan_def, folded s_def, unfolded e prod.case p2]
  obtain h3 where h3: "set_tags ?p (m_items (sc_Tags opts)) stk h2 = Some h3"
    using eq by (cases "set_tags ?p (m_items (sc_Tags opts)) stk h2") (simp_all only: option.case option.distinct)
  obtain h4 where h4: "set_tags ?p (m_items (cf_globalTags (tr_config (h_tracer h)))) stk h3 = Some h4"
    using eq[unfolded h3 option.case]
    by (cases "set_tags ?p (m_items (cf_globalTags (tr_config (h_tracer h)))) stk h3")
      (simp_all only: option.case option.distinct)
  have p: "p = ?p" and h': "h' = finish_start x opts (pprof_parent opts h) ?p now h4"
    using eq[unfolded h3 h4 option.case option.inject prod.inject] by blast+
  have "frame ?h1 h'" if t: "has_trace ?h1 p"
  proof -
    have "frame h2 h3" using set_tags_frame[OF _ h3] t p by (simp add: frame_has_trace[OF f2])
    with f2 have f3: "frame ?h1 h3" by (rule frame_trans)
    then have "frame h3 h4" using set_tags_frame[OF _ h4] t p by (simp add: frame_has_trace[OF f3])
    with f3 have f4: "frame ?h1 h4" by (rule frame_trans)
    then have "frame h4 h'" using t p h' by (simp add: finish_start_frame frame_has_trace[OF f4])
    with f4 show ?thesis by (rule frame_trans)
  qed
  then show "p = h_next h" "has_trace ?h1 p \<Longrightarrow> frame ?h1 h'" using p by auto
qed

lemma StartSpan_split:
  assumes "StartSpan x nm opts now rnd stk h = Some (p, h')"
  obtains s where "\<not> s_finished s" "p = h_next h"
    "has_trace (snd (alloc_span s (sc_Parent opts) h)) p \<longrightarrow> frame (snd (alloc_span s (sc_Parent opts) h)) h'"
  using that[of "new_span nm opts now rnd h"] StartSpan_frame[OF assms] by (simp add: new_span_def Let_def)

text \<open>\<open>StartSpan\<close> is the abstract start step and keeps the store well formed.\<close>

lemma StartSpan_abs:
  assumes wf: "heap_wf h" and st: "StartSpan x nm opts now rnd stk h = Some (p, h')"
  shows "p = h_next h" "abs_state h' = abs_alloc (sc_Parent opts) h (abs_state h)" "heap_wf h'" "is_span h' p"
proof -
  obtain s where s: "\<not> s_finished s" "p = h_next h"
    "has_trace (snd (alloc_span s (sc_Parent opts) h)) p \<longrightarrow> frame (snd (alloc_span s (sc_Parent opts) h)) h'"
    using st by (rule StartSpan_split)
  let ?h1 = "snd (alloc_span s (sc_Parent opts) h)"
  have wf1: "heap_wf ?h1" using wf by (rule alloc_span_wf)
  have sp: "is_span ?h1 p" using s(2) by (simp add: alloc_span_is_span[OF wf])
  have f: "frame ?h1 h'" using has_trace_span[OF wf1 sp] s(3) by blast
  show "p = h_next h" by (rule s(2))
  show "abs_state h' = abs_alloc (sc_Parent opts) h (abs_state h)"
    using frame_abs[OF f] alloc_span_abs[OF wf s(1)] by simp
  show "heap_wf h'" "is_span h' p" using f wf1 sp by (simp_all add: frame_wf frame_is_span)
qed

text \<open>No later step of \<open>StartSpan\<close> changes the ids the span was made with.\<close>

lemma StartSpan_ids:
  assumes wf: "heap_wf h" and st: "StartSpan x nm opts now rnd stk h = Some (p, h')"
  shows "span_ids (h_span h' p) = span_ids (new_span nm opts now rnd h)"
proof -
  let ?s = "new_span nm opts now rnd h"
  let ?h1 = "snd (alloc_span ?s (sc_Parent opts) h)"
  have "is_span ?h1 p" using StartSpan_frame(1)[OF st] by (simp add: alloc_span_is_span[OF wf])
  then have "frame ?h1 h'" using StartSpan_frame(2)[OF st] has_trace_span[OF alloc_span_wf[OF wf]] by blast
  then have "span_ids (h_span h' p) = span_ids (h_span ?h1 p)" by (rule frame_sel)
  also have "\<dots> = span_ids ?s" using StartSpan_frame(1)[OF st] alloc_span_sel(2)[where s = ?s] by simp
  finally show ?thesis .
qed

end
