(* ===== verification/Text_Map.thy ===== *)
theory Text_Map
  imports Span_Ops "HOL-Library.Multiset"
begin

section \<open>ddtrace/tracer/textmap.go: propagation of span contexts through carriers\<close>

text \<open>
  The carriers, the Datadog and the B3 propagator and the chain of propagators.  A carrier that
  exists is a map that was made; a Go map is iterated in no fixed order, so \<open>ForeachKey\<close> runs
  the handler over a list of the carrier's entries, and the theorems hold for every order.
  A context being injected is its record with the trace it points to; a context being extracted
  is built the same way.
\<close>

datatype propagation_error =
  ErrInvalidCarrier | ErrInvalidSpanContext | ErrSpanContextCorrupted | ErrSpanContextNotFound

subsection \<open>Carriers\<close>

type_synonym TextMapCarrier = "(string \<times> string) list"
type_synonym HTTPHeadersCarrier = "(string \<times> string list) list"

definition TextMapCarrier_Set :: "string \<Rightarrow> string \<Rightarrow> TextMapCarrier \<Rightarrow> TextMapCarrier" where
  "TextMapCarrier_Set key val c = AList.update key val c"

definition TextMapCarrier_entries :: "TextMapCarrier \<Rightarrow> (string \<times> string) list" where
  "TextMapCarrier_entries c = c"

text \<open>
  \<open>http.Header.Set\<close> files a value under the canonical key: a letter is upper case at the start
  and after a hyphen and lower case elsewhere, and a key with a byte that is not allowed in a
  header name stays as it is.
\<close>

definition upper_char :: "char \<Rightarrow> char" where
  "upper_char c = (let n = of_char c :: nat in if 97 \<le> n \<and> n \<le> 122 then char_of (n - 32) else c)"

definition header_byte :: "char \<Rightarrow> bool" where
  "header_byte c = (let n = of_char c :: nat in
     (48 \<le> n \<and> n \<le> 57) \<or> (65 \<le> n \<and> n \<le> 90) \<or> (97 \<le> n \<and> n \<le> 122)
     \<or> c \<in> set ''!#$%&'' \<or> n = 39 \<or> c \<in> set ''*+-.^_`|~'')"

fun canon_from :: "bool \<Rightarrow> string \<Rightarrow> string" where
  "canon_from up [] = []"
| "canon_from up (c # cs) = (if up then upper_char c else lower_char c) # canon_from (c = CHR ''-'') cs"

definition canonical_key :: "string \<Rightarrow> string" where
  "canonical_key k = (if list_all header_byte k then canon_from True k else k)"

definition HTTPHeadersCarrier_Set :: "string \<Rightarrow> string \<Rightarrow> HTTPHeadersCarrier \<Rightarrow> HTTPHeadersCarrier" where
  "HTTPHeadersCarrier_Set key val c = AList.update (canonical_key key) [val] c"

definition HTTPHeadersCarrier_entries :: "HTTPHeadersCarrier \<Rightarrow> (string \<times> string) list" where
  "HTTPHeadersCarrier_entries c = concat (map (\<lambda>(k, vals). map (\<lambda>v. (k, v)) vals) c)"

text \<open>\<open>ForeachKey\<close> stops at the first error of the handler.\<close>

fun ForeachKey :: "(string \<Rightarrow> string \<Rightarrow> 's \<Rightarrow> propagation_error + 's) \<Rightarrow> (string \<times> string) list \<Rightarrow> 's
    \<Rightarrow> propagation_error + 's" where
  "ForeachKey handler [] s = Inr s"
| "ForeachKey handler ((k, v) # kvs) s = (case handler k v s of
     Inl err \<Rightarrow> Inl err
   | Inr s' \<Rightarrow> ForeachKey handler kvs s')"

text \<open>The \<open>carrier interface{}\<close> argument: one of the two carriers, or a value that is neither.\<close>

datatype carrier = CTextMap TextMapCarrier | CHeaders HTTPHeadersCarrier | COther

subsection \<open>Configuration\<close>

abbreviation "DefaultBaggageHeaderPrefix \<equiv> ''ot-baggage-''"
abbreviation "DefaultTraceIDHeader \<equiv> ''x-datadog-trace-id''"
abbreviation "DefaultParentIDHeader \<equiv> ''x-datadog-parent-id''"
abbreviation "DefaultPriorityHeader \<equiv> ''x-datadog-sampling-priority''"
abbreviation "originHeader \<equiv> ''x-datadog-origin''"
abbreviation "traceTagsHeader \<equiv> ''x-datadog-tags''"
abbreviation "propagationExtractMaxSize \<equiv> (512 :: nat)"
abbreviation "defaultMaxTagsHeaderLen \<equiv> (128 :: int)"
abbreviation "b3TraceIDHeader \<equiv> ''x-b3-traceid''"
abbreviation "b3SpanIDHeader \<equiv> ''x-b3-spanid''"
abbreviation "b3SampledHeader \<equiv> ''x-b3-sampled''"

record PropagatorConfig =
  pc_BaggagePrefix :: string
  pc_TraceHeader :: string
  pc_ParentHeader :: string
  pc_PriorityHeader :: string
  pc_MaxTagsHeaderLen :: int
  pc_B3 :: bool

definition fill_config :: "PropagatorConfig option \<Rightarrow> PropagatorConfig" where
  "fill_config cfg =
    (let c0 = (case cfg of Some c \<Rightarrow> c | None \<Rightarrow>
           \<lparr>pc_BaggagePrefix = [], pc_TraceHeader = [], pc_ParentHeader = [], pc_PriorityHeader = [],
            pc_MaxTagsHeaderLen = 0, pc_B3 = False\<rparr>);
         c1 = (if pc_BaggagePrefix c0 = [] then c0\<lparr>pc_BaggagePrefix := DefaultBaggageHeaderPrefix\<rparr> else c0);
         c2 = (if pc_TraceHeader c1 = [] then c1\<lparr>pc_TraceHeader := DefaultTraceIDHeader\<rparr> else c1);
         c3 = (if pc_ParentHeader c2 = [] then c2\<lparr>pc_ParentHeader := DefaultParentIDHeader\<rparr> else c2)
     in if pc_PriorityHeader c3 = [] then c3\<lparr>pc_PriorityHeader := DefaultPriorityHeader\<rparr> else c3)"

text \<open>The propagators of a chain: the two of this package, and any other implementation.\<close>

type_synonym ectx = "spanContext \<times> trace option"

datatype Propagator = propagator PropagatorConfig | propagatorB3
  | OtherPropagator "spanContext option \<Rightarrow> trace option \<Rightarrow> carrier \<Rightarrow> propagation_error option \<times> trace option \<times> carrier"
      "carrier \<Rightarrow> propagation_error + ectx"

record chainedPropagator =
  cp_injectors :: "Propagator list"
  cp_extractors :: "Propagator list"

fun style_list :: "PropagatorConfig \<Rightarrow> string list \<Rightarrow> Propagator list" where
  "style_list cfg [] = []"
| "style_list cfg (v # vs) =
    (if to_lower v = ''datadog'' then [propagator cfg]
     else if to_lower v = ''b3'' then (if \<not> pc_B3 cfg then [propagatorB3] else [])
     else []) @ style_list cfg vs"

definition getPropagators :: "PropagatorConfig \<Rightarrow> string \<Rightarrow> Propagator list" where
  "getPropagators cfg ps =
    (let defaultPs = [propagator cfg] @ (if pc_B3 cfg then [propagatorB3] else [])
     in if ps = [] then defaultPs
        else
          let l = (if pc_B3 cfg then [propagatorB3] else []) @ style_list cfg (split_on CHR '','' ps)
          in if length l = 0 then defaultPs else l)"

definition NewPropagator ::
  "PropagatorConfig option \<Rightarrow> Propagator list \<Rightarrow> string \<Rightarrow> string \<Rightarrow> chainedPropagator" where
  "NewPropagator cfg propagators injectEnv extractEnv =
    (let c = fill_config cfg
     in if length propagators > 0 then \<lparr>cp_injectors = propagators, cp_extractors = propagators\<rparr>
        else \<lparr>cp_injectors = getPropagators c injectEnv, cp_extractors = getPropagators c extractEnv\<rparr>)"

subsection \<open>The Datadog propagator: injection\<close>

fun marshal_loop :: "int \<Rightarrow> (string \<times> string) list \<Rightarrow> string \<Rightarrow> trace \<Rightarrow> string \<times> trace" where
  "marshal_loop mx [] sb t = (sb, t)"
| "marshal_loop mx ((k, v) # kvs) sb t =
    (if isValidPropagatableTag k v \<noteq> None
     then marshal_loop mx kvs sb (trace_setTag keyPropagationError ''encoding_error'' t)
     else if int (length sb + length k + length v) > mx
     then ([], trace_setTag keyPropagationError ''inject_max_size'' t)
     else marshal_loop mx kvs ((if length sb > 0 then sb @ '','' else sb) @ k @ ''='' @ v) t)"

definition marshalPropagatingTags :: "PropagatorConfig \<Rightarrow> trace option \<Rightarrow> string \<times> trace option" where
  "marshalPropagatingTags cfg trace = (case trace of
     None \<Rightarrow> ([], None)
   | Some t \<Rightarrow> (case marshal_loop (pc_MaxTagsHeaderLen cfg) (m_items (t_propagatingTags t)) [] t of
       (s, t') \<Rightarrow> (s, Some t')))"

text \<open>
  What is written before the trace tags, in the order of the calls of \<open>Set\<close>.
\<close>

definition inject_headers :: "PropagatorConfig \<Rightarrow> spanContext \<Rightarrow> trace option \<Rightarrow> (string \<times> string) list" where
  "inject_headers cfg ctx trace =
     [(pc_TraceHeader cfg, format_uint (c_traceID ctx) 10), (pc_ParentHeader cfg, format_uint (c_spanID ctx) 10)]
     @ (case Option.bind trace samplingPriorityLocked of
          Some sp \<Rightarrow> [(pc_PriorityHeader cfg, itoa sp)] | None \<Rightarrow> [])
     @ (if c_origin ctx \<noteq> [] then [(originHeader, c_origin ctx)] else [])
     @ map (\<lambda>(k, v). (pc_BaggagePrefix cfg @ k, v)) (m_items (c_baggage ctx))"

definition write_all :: "(string \<Rightarrow> string \<Rightarrow> 'c \<Rightarrow> 'c) \<Rightarrow> (string \<times> string) list \<Rightarrow> 'c \<Rightarrow> 'c" where
  "write_all setf kvs w = fold (\<lambda>(k, v). setf k v) kvs w"

text \<open>\<open>spanCtx\<close> is \<open>None\<close> when it is not a context of this package.  The trace may get an error tag.\<close>

definition injectTextMap ::
  "PropagatorConfig \<Rightarrow> (string \<Rightarrow> string \<Rightarrow> 'c \<Rightarrow> 'c) \<Rightarrow> spanContext option \<Rightarrow> trace option \<Rightarrow> 'c
    \<Rightarrow> propagation_error option \<times> trace option \<times> 'c" where
  "injectTextMap cfg setf spanCtx trace w = (case spanCtx of
     None \<Rightarrow> (Some ErrInvalidSpanContext, trace, w)
   | Some ctx \<Rightarrow>
       if c_traceID ctx = 0 \<or> c_spanID ctx = 0 then (Some ErrInvalidSpanContext, trace, w)
       else
         let w1 = write_all setf (inject_headers cfg ctx trace) w
         in if pc_MaxTagsHeaderLen cfg \<le> 0 then (None, trace, w1)
            else (case marshalPropagatingTags cfg trace of (s, trace') \<Rightarrow>
              (None, trace', if length s > 0 then setf traceTagsHeader s w1 else w1)))"

subsection \<open>The Datadog propagator: extraction\<close>

definition ectx_setSamplingPriority :: "int \<Rightarrow> ectx \<Rightarrow> ectx" where
  "ectx_setSamplingPriority pr e =
    (let t = (case snd e of None \<Rightarrow> newTrace | Some t \<Rightarrow> t)
     in (fst e, Some (trace_setSamplingPriorityLocked pr Unknown t)))"

definition unmarshalPropagatingTags :: "string \<Rightarrow> ectx \<Rightarrow> ectx" where
  "unmarshalPropagatingTags v e =
    (let t = (case snd e of None \<Rightarrow> newTrace | Some t \<Rightarrow> t)
     in if length v > propagationExtractMaxSize
        then (fst e, Some (trace_setTag keyPropagationError ''extract_max_size'' t))
        else (case parsePropagatableTraceTags v of
           Inr tags \<Rightarrow> (fst e, Some (t\<lparr>t_propagatingTags := tags\<rparr>))
         | Inl _ \<Rightarrow> (fst e, Some (trace_setTag keyPropagationError ''decoding_error'' (t\<lparr>t_propagatingTags := None\<rparr>)))))"

definition extract_key :: "PropagatorConfig \<Rightarrow> string \<Rightarrow> string \<Rightarrow> ectx \<Rightarrow> propagation_error + ectx" where
  "extract_key cfg k v e =
    (let key = to_lower k
     in if key = pc_TraceHeader cfg then
          (case parseUint64 v of None \<Rightarrow> Inl ErrSpanContextCorrupted
           | Some i \<Rightarrow> Inr ((fst e)\<lparr>c_traceID := i\<rparr>, snd e))
        else if key = pc_ParentHeader cfg then
          (case parseUint64 v of None \<Rightarrow> Inl ErrSpanContextCorrupted
           | Some i \<Rightarrow> Inr ((fst e)\<lparr>c_spanID := i\<rparr>, snd e))
        else if key = pc_PriorityHeader cfg then
          (case parse_int v of None \<Rightarrow> Inl ErrSpanContextCorrupted
           | Some pr \<Rightarrow> Inr (ectx_setSamplingPriority pr e))
        else if key = originHeader then Inr ((fst e)\<lparr>c_origin := v\<rparr>, snd e)
        else if key = traceTagsHeader then Inr (unmarshalPropagatingTags v e)
        else if prefix (pc_BaggagePrefix cfg) key then
          Inr (ctx_setBaggageItem (trim_prefix (pc_BaggagePrefix cfg) key) v (fst e), snd e)
        else Inr e)"

definition extractTextMap :: "PropagatorConfig \<Rightarrow> (string \<times> string) list \<Rightarrow> propagation_error + ectx" where
  "extractTextMap cfg entries = (case ForeachKey (extract_key cfg) entries (zero_ctx, None) of
     Inl err \<Rightarrow> Inl err
   | Inr e \<Rightarrow> if c_traceID (fst e) = 0 \<or> (c_spanID (fst e) = 0 \<and> c_origin (fst e) \<noteq> ''synthetics'')
       then Inl ErrSpanContextNotFound else Inr e)"

subsection \<open>The B3 propagator\<close>

definition b3_headers :: "spanContext \<Rightarrow> trace option \<Rightarrow> (string \<times> string) list" where
  "b3_headers ctx trace =
     [(b3TraceIDHeader, pad_left 16 (format_uint (c_traceID ctx) 16)),
      (b3SpanIDHeader, pad_left 16 (format_uint (c_spanID ctx) 16))]
     @ (case Option.bind trace samplingPriorityLocked of
          Some p \<Rightarrow> [(b3SampledHeader, if p \<ge> PriorityAutoKeep then ''1'' else ''0'')] | None \<Rightarrow> [])"

definition b3_injectTextMap ::
  "(string \<Rightarrow> string \<Rightarrow> 'c \<Rightarrow> 'c) \<Rightarrow> spanContext option \<Rightarrow> trace option \<Rightarrow> 'c \<Rightarrow> propagation_error option \<times> 'c" where
  "b3_injectTextMap setf spanCtx trace w = (case spanCtx of
     None \<Rightarrow> (Some ErrInvalidSpanContext, w)
   | Some ctx \<Rightarrow>
       if c_traceID ctx = 0 \<or> c_spanID ctx = 0 then (Some ErrInvalidSpanContext, w)
       else (None, write_all setf (b3_headers ctx trace) w))"

definition b3_extract_key :: "string \<Rightarrow> string \<Rightarrow> ectx \<Rightarrow> propagation_error + ectx" where
  "b3_extract_key k v e =
    (let key = to_lower k
     in if key = b3TraceIDHeader then
          (case parse_uint 16 (if length v > 16 then drop (length v - 16) v else v) of
             None \<Rightarrow> Inl ErrSpanContextCorrupted
           | Some i \<Rightarrow> Inr ((fst e)\<lparr>c_traceID := i\<rparr>, snd e))
        else if key = b3SpanIDHeader then
          (case parse_uint 16 v of
             None \<Rightarrow> Inl ErrSpanContextCorrupted
           | Some i \<Rightarrow> Inr ((fst e)\<lparr>c_spanID := i\<rparr>, snd e))
        else if key = b3SampledHeader then
          (case parse_int v of None \<Rightarrow> Inl ErrSpanContextCorrupted
           | Some pr \<Rightarrow> Inr (ectx_setSamplingPriority pr e))
        else Inr e)"

definition b3_extractTextMap :: "(string \<times> string) list \<Rightarrow> propagation_error + ectx" where
  "b3_extractTextMap entries = (case ForeachKey b3_extract_key entries (zero_ctx, None) of
     Inl err \<Rightarrow> Inl err
   | Inr e \<Rightarrow> if c_traceID (fst e) = 0 \<or> c_spanID (fst e) = 0 then Inl ErrSpanContextNotFound else Inr e)"

subsection \<open>Propagators and chains\<close>

definition propagator_Inject ::
  "PropagatorConfig \<Rightarrow> spanContext option \<Rightarrow> trace option \<Rightarrow> carrier \<Rightarrow> propagation_error option \<times> trace option \<times> carrier" where
  "propagator_Inject cfg spanCtx trace carrier = (case carrier of
     CTextMap w \<Rightarrow> (case injectTextMap cfg TextMapCarrier_Set spanCtx trace w of (e, t, w') \<Rightarrow> (e, t, CTextMap w'))
   | CHeaders w \<Rightarrow> (case injectTextMap cfg HTTPHeadersCarrier_Set spanCtx trace w of (e, t, w') \<Rightarrow> (e, t, CHeaders w'))
   | COther \<Rightarrow> (Some ErrInvalidCarrier, trace, carrier))"

definition propagatorB3_Inject ::
  "spanContext option \<Rightarrow> trace option \<Rightarrow> carrier \<Rightarrow> propagation_error option \<times> trace option \<times> carrier" where
  "propagatorB3_Inject spanCtx trace carrier = (case carrier of
     CTextMap w \<Rightarrow> (case b3_injectTextMap TextMapCarrier_Set spanCtx trace w of (e, w') \<Rightarrow> (e, trace, CTextMap w'))
   | CHeaders w \<Rightarrow> (case b3_injectTextMap HTTPHeadersCarrier_Set spanCtx trace w of (e, w') \<Rightarrow> (e, trace, CHeaders w'))
   | COther \<Rightarrow> (Some ErrInvalidCarrier, trace, carrier))"

definition carrier_entries :: "carrier \<Rightarrow> (string \<times> string) list option" where
  "carrier_entries c = (case c of
     CTextMap w \<Rightarrow> Some (TextMapCarrier_entries w)
   | CHeaders w \<Rightarrow> Some (HTTPHeadersCarrier_entries w)
   | COther \<Rightarrow> None)"

definition propagator_Extract :: "PropagatorConfig \<Rightarrow> carrier \<Rightarrow> propagation_error + ectx" where
  "propagator_Extract cfg c = (case carrier_entries c of
     Some es \<Rightarrow> extractTextMap cfg es | None \<Rightarrow> Inl ErrInvalidCarrier)"

definition propagatorB3_Extract :: "carrier \<Rightarrow> propagation_error + ectx" where
  "propagatorB3_Extract c = (case carrier_entries c of
     Some es \<Rightarrow> b3_extractTextMap es | None \<Rightarrow> Inl ErrInvalidCarrier)"

definition Inject ::
  "Propagator \<Rightarrow> spanContext option \<Rightarrow> trace option \<Rightarrow> carrier \<Rightarrow> propagation_error option \<times> trace option \<times> carrier" where
  "Inject p spanCtx trace c = (case p of
     propagator cfg \<Rightarrow> propagator_Inject cfg spanCtx trace c
   | propagatorB3 \<Rightarrow> propagatorB3_Inject spanCtx trace c
   | OtherPropagator i x \<Rightarrow> i spanCtx trace c)"

definition Extract :: "Propagator \<Rightarrow> carrier \<Rightarrow> propagation_error + ectx" where
  "Extract p c = (case p of
     propagator cfg \<Rightarrow> propagator_Extract cfg c
   | propagatorB3 \<Rightarrow> propagatorB3_Extract c
   | OtherPropagator i x \<Rightarrow> x c)"

fun chained_Inject ::
  "Propagator list \<Rightarrow> spanContext option \<Rightarrow> trace option \<Rightarrow> carrier \<Rightarrow> propagation_error option \<times> trace option \<times> carrier" where
  "chained_Inject [] spanCtx trace c = (None, trace, c)"
| "chained_Inject (v # vs) spanCtx trace c = (case Inject v spanCtx trace c of
     (Some err, t', c') \<Rightarrow> (Some err, t', c')
   | (None, t', c') \<Rightarrow> chained_Inject vs spanCtx t' c')"

fun chained_Extract :: "Propagator list \<Rightarrow> carrier \<Rightarrow> propagation_error + ectx" where
  "chained_Extract [] c = Inl ErrSpanContextNotFound"
| "chained_Extract (v # vs) c = (case Extract v c of
     Inr ctx \<Rightarrow> Inr ctx
   | Inl err \<Rightarrow> if err = ErrSpanContextNotFound then chained_Extract vs c else Inl err)"

end
