(* ===== verification/Text_Map_Laws.thy ===== *)
theory Text_Map_Laws
  imports Text_Map
begin

section \<open>What goes into a carrier comes out of it\<close>

text \<open>
  The contract of a carrier as a locale, with both carriers as its instances, and the round
  trips of the two propagators through any carrier that meets the contract.
\<close>

subsection \<open>The contract of a carrier\<close>

definition lower_entries :: "(string \<times> string) list \<Rightarrow> (string \<times> string) list" where
  "lower_entries es = map (\<lambda>(k, v). (to_lower k, v)) es"

lemma lower_entries_simps [simp]:
  "lower_entries [] = []" "lower_entries ((k, v) # es) = (to_lower k, v) # lower_entries es"
  "lower_entries (xs @ ys) = lower_entries xs @ lower_entries ys"
  by (simp_all add: lower_entries_def)

lemma fst_lower_entries: "fst ` set (lower_entries es) = to_lower ` fst ` set es"
  by (force simp: lower_entries_def)

locale text_map_carrier =
  fixes setf :: "string \<Rightarrow> string \<Rightarrow> 'c \<Rightarrow> 'c"
    and entries :: "'c \<Rightarrow> (string \<times> string) list"
    and fresh :: 'c
  assumes entries_fresh: "entries fresh = []"
    and set_new: "to_lower k \<notin> fst ` set (lower_entries (entries c)) \<Longrightarrow>
      mset (lower_entries (entries (setf k v c))) = add_mset (to_lower k, v) (mset (lower_entries (entries c)))"
    and set_again: "entries (setf k v (setf k u c)) = entries (setf k v c)"
begin

lemma write_all_entries:
  "distinct (map fst (lower_entries (entries c) @ lower_entries kvs)) \<Longrightarrow>
    mset (lower_entries (entries (write_all setf kvs c))) = mset (lower_entries (entries c) @ lower_entries kvs)"
proof (induction kvs arbitrary: c)
  case Nil
  then show ?case by (simp add: write_all_def)
next
  case (Cons x kvs)
  obtain k v where x: "x = (k, v)" by (cases x)
  let ?c = "setf k v c"
  have e: "mset (lower_entries (entries ?c)) = mset (lower_entries (entries c) @ [(to_lower k, v)])"
    using Cons.prems x by (simp add: set_new)
  then have m: "mset (map fst (lower_entries (entries ?c))) = mset (map fst (lower_entries (entries c) @ [(to_lower k, v)]))"
    by (metis mset_map)
  have "distinct (map fst (lower_entries (entries ?c) @ lower_entries kvs))"
    using Cons.prems x mset_eq_imp_distinct_iff[OF m] mset_eq_setD[OF m] by auto
  then have "mset (lower_entries (entries (write_all setf kvs ?c)))
      = mset (lower_entries (entries ?c) @ lower_entries kvs)"
    by (rule Cons.IH)
  then show ?case using e by (simp add: write_all_def x)
qed

lemma write_all_fresh:
  "distinct (map fst (lower_entries kvs)) \<Longrightarrow>
    mset (lower_entries (entries (write_all setf kvs fresh))) = mset (lower_entries kvs)"
  using write_all_entries[of fresh kvs] by (simp add: entries_fresh)

end

lemma upper_lower_char [simp]: "lower_char (upper_char c) = lower_char c"
proof (cases "97 \<le> (of_char c :: nat) \<and> (of_char c :: nat) \<le> 122")
  case True
  then have "(of_char (char_of (of_char c - 32 :: nat) :: char) :: nat) = of_char c - 32"
    by (subst of_char_of) (auto intro: mod_less)
  with True show ?thesis by (auto simp: lower_char_def upper_char_def Let_def)
next
  case False
  then have "upper_char c = c" unfolding upper_char_def Let_def by (rule if_not_P)
  then show ?thesis by simp
qed

lemma to_lower_canon [simp]: "to_lower (canon_from b k) = to_lower k"
  by (induction b k rule: canon_from.induct) (simp_all add: to_lower_def)

lemma to_lower_canonical [simp]: "to_lower (canonical_key k) = to_lower k"
  by (simp add: canonical_key_def)

interpretation tm: text_map_carrier TextMapCarrier_Set TextMapCarrier_entries "[]"
proof
  fix k v c
  assume "to_lower k \<notin> fst ` set (lower_entries (TextMapCarrier_entries c))"
  then have "k \<notin> fst ` set c" by (auto simp: fst_lower_entries TextMapCarrier_entries_def)
  then show "mset (lower_entries (TextMapCarrier_entries (TextMapCarrier_Set k v c)))
      = add_mset (to_lower k, v) (mset (lower_entries (TextMapCarrier_entries c)))"
    by (simp add: TextMapCarrier_entries_def TextMapCarrier_Set_def update_fresh)
qed (simp_all add: TextMapCarrier_entries_def TextMapCarrier_Set_def)

lemma HTTPHeadersCarrier_entries_simps [simp]:
  "HTTPHeadersCarrier_entries [] = []"
  "HTTPHeadersCarrier_entries ((k, vs) # c) = map (\<lambda>v. (k, v)) vs @ HTTPHeadersCarrier_entries c"
  by (simp_all add: HTTPHeadersCarrier_entries_def)

lemma header_update_entries:
  "k \<notin> fst ` set (HTTPHeadersCarrier_entries c) \<Longrightarrow>
    mset (HTTPHeadersCarrier_entries (AList.update k [v] c)) = add_mset (k, v) (mset (HTTPHeadersCarrier_entries c))"
proof (induction c)
  case (Cons x c)
  obtain k' vs where x: "x = (k', vs)" by (cases x)
  show ?case
  proof (cases "k' = k")
    case True
    then have "vs = []" using Cons.prems x by (cases vs) auto
    then show ?thesis using True x by simp
  next
    case False
    then show ?thesis using Cons x by (simp add: image_Un)
  qed
qed simp

lemma mset_lower_entries: "mset (lower_entries es) = image_mset (\<lambda>(k, v). (to_lower k, v)) (mset es)"
  by (simp add: lower_entries_def)

interpretation hc: text_map_carrier HTTPHeadersCarrier_Set HTTPHeadersCarrier_entries "[]"
proof
  fix k v c
  assume "to_lower k \<notin> fst ` set (lower_entries (HTTPHeadersCarrier_entries c))"
  then have "canonical_key k \<notin> fst ` set (HTTPHeadersCarrier_entries c)"
    unfolding fst_lower_entries by (metis imageI to_lower_canonical)
  then show "mset (lower_entries (HTTPHeadersCarrier_entries (HTTPHeadersCarrier_Set k v c)))
      = add_mset (to_lower k, v) (mset (lower_entries (HTTPHeadersCarrier_entries c)))"
    by (simp add: mset_lower_entries HTTPHeadersCarrier_Set_def header_update_entries)
qed (simp_all add: HTTPHeadersCarrier_Set_def)

subsection \<open>Extraction, one entry after another\<close>

text \<open>A handler that fails on no entry is a fold; a field that only one key writes is that key's value.\<close>

lemma ForeachKey_fold:
  "(\<And>k v e. (k, v) \<in> set es \<Longrightarrow> handler k v e = Inr (step (k, v) e)) \<Longrightarrow>
    ForeachKey handler es e = Inr (fold step es e)"
  by (induction handler es e rule: ForeachKey.induct) simp_all

lemma fold_field:
  assumes "distinct (map fst es)" "I e"
    and "\<And>k v e. (k, v) \<in> set es \<Longrightarrow> I e \<Longrightarrow> I (step (k, v) e)"
    and "\<And>k v e. (k, v) \<in> set es \<Longrightarrow> I e \<Longrightarrow> proj (step (k, v) e) = (if k = K then g v else proj e)"
  shows "proj (fold step es e) = (case map_of es K of Some v \<Rightarrow> g v | None \<Rightarrow> proj e)"
  using assms
proof (induction es arbitrary: e)
  case (Cons x es)
  obtain k v where x: "x = (k, v)" by (cases x)
  have "I (step x e)" using Cons.prems(2,3) x by simp
  then have "proj (fold step es (step x e)) = (case map_of es K of Some v \<Rightarrow> g v | None \<Rightarrow> proj (step x e))"
    using Cons.prems by (intro Cons.IH) auto
  moreover have "proj (step x e) = (if k = K then g v else proj e)" using Cons.prems(2,4) x by simp
  moreover have "map_of es K = None" if "k = K" using Cons.prems(1) x that by (simp add: map_of_eq_None_iff)
  ultimately show ?case using x by (auto split: option.split)
qed simp

lemma map_of_mset:
  assumes "mset xs = mset ys" "distinct (map fst ys)"
  shows "map_of xs = map_of ys"
proof -
  have "distinct (map fst xs)" using assms by (metis mset_eq_imp_distinct_iff mset_map)
  then show ?thesis using assms by (metis map_of_inject_set set_mset_mset)
qed

lemma ForeachKey_lower:
  assumes "\<And>k v e. handler (to_lower k) v e = handler k v e"
  shows "ForeachKey handler (lower_entries es) e = ForeachKey handler es e"
  using assms by (induction handler es e rule: ForeachKey.induct) (simp_all split: sum.split)

text \<open>Headers that do not collide.\<close>

definition cfg_ok :: "PropagatorConfig \<Rightarrow> bool" where
  "cfg_ok cfg \<longleftrightarrow>
    (let hs = [pc_TraceHeader cfg, pc_ParentHeader cfg, pc_PriorityHeader cfg, originHeader, traceTagsHeader]
     in distinct hs \<and> (\<forall>x \<in> set hs. to_lower x = x \<and> \<not> prefix (pc_BaggagePrefix cfg) x)
        \<and> to_lower (pc_BaggagePrefix cfg) = pc_BaggagePrefix cfg)"

lemma cfg_ok_default: "cfg_ok (fill_config None)"
  by code_simp

definition ext_step :: "PropagatorConfig \<Rightarrow> string \<times> string \<Rightarrow> ectx \<Rightarrow> ectx" where
  "ext_step cfg kv e = (case extract_key cfg (fst kv) (snd kv) e of Inr e' \<Rightarrow> e' | Inl _ \<Rightarrow> e)"

text \<open>Values that parse under the three numeric headers.\<close>

definition entry_ok :: "PropagatorConfig \<Rightarrow> string \<Rightarrow> string \<Rightarrow> bool" where
  "entry_ok cfg k v \<longleftrightarrow>
     (k = pc_TraceHeader cfg \<or> k = pc_ParentHeader cfg \<longrightarrow> parseUint64 v \<noteq> None)
   \<and> (k = pc_PriorityHeader cfg \<longrightarrow> parse_int v \<noteq> None)"

lemma extract_key_ok:
  "cfg_ok cfg \<Longrightarrow> entry_ok cfg (to_lower k) v \<Longrightarrow> extract_key cfg k v e = Inr (ext_step cfg (k, v) e)"
  by (auto simp: ext_step_def extract_key_def entry_ok_def Let_def split: option.split)

lemma extract_key_lower: "extract_key cfg (to_lower k) v e = extract_key cfg k v e"
  by (simp add: extract_key_def)

text \<open>The headers of a good configuration, and the baggage keys, one by one.\<close>

lemma cfg_okD:
  assumes "cfg_ok cfg"
  shows "pc_TraceHeader cfg \<noteq> pc_ParentHeader cfg" "pc_TraceHeader cfg \<noteq> pc_PriorityHeader cfg"
    "pc_ParentHeader cfg \<noteq> pc_PriorityHeader cfg"
    "originHeader \<noteq> pc_TraceHeader cfg" "originHeader \<noteq> pc_ParentHeader cfg" "originHeader \<noteq> pc_PriorityHeader cfg"
    "traceTagsHeader \<noteq> pc_TraceHeader cfg" "traceTagsHeader \<noteq> pc_ParentHeader cfg" "traceTagsHeader \<noteq> pc_PriorityHeader cfg"
    "pc_TraceHeader cfg \<noteq> pc_BaggagePrefix cfg @ b" "pc_ParentHeader cfg \<noteq> pc_BaggagePrefix cfg @ b"
    "pc_PriorityHeader cfg \<noteq> pc_BaggagePrefix cfg @ b" "originHeader \<noteq> pc_BaggagePrefix cfg @ b"
    "traceTagsHeader \<noteq> pc_BaggagePrefix cfg @ b"
    "to_lower (pc_TraceHeader cfg) = pc_TraceHeader cfg" "to_lower (pc_ParentHeader cfg) = pc_ParentHeader cfg"
    "to_lower (pc_PriorityHeader cfg) = pc_PriorityHeader cfg"
    "to_lower (pc_BaggagePrefix cfg) = pc_BaggagePrefix cfg"
  using assms unfolding cfg_ok_def Let_def by (auto simp: prefix_def)

lemma setBaggage_sel [simp]:
  "c_traceID (ctx_setBaggageItem k v c) = c_traceID c" "c_spanID (ctx_setBaggageItem k v c) = c_spanID c"
  "c_origin (ctx_setBaggageItem k v c) = c_origin c"
  "m_get (c_baggage (ctx_setBaggageItem k v c)) b = (if b = k then Some v else m_get (c_baggage c) b)"
  by (simp_all add: ctx_setBaggageItem_def Let_def)

lemma ectx_trace_ops_fst [simp]:
  "fst (ectx_setSamplingPriority pr e) = fst e" "fst (unmarshalPropagatingTags v e) = fst e"
  by (simp_all add: ectx_setSamplingPriority_def unmarshalPropagatingTags_def Let_def split: sum.split)

text \<open>The step on each kind of key.\<close>

lemma ext_step_cases:
  assumes "cfg_ok cfg" "to_lower k = k" "entry_ok cfg k v"
  obtains (trace) i where "k = pc_TraceHeader cfg" "parseUint64 v = Some i"
      "ext_step cfg (k, v) e = ((fst e)\<lparr>c_traceID := i\<rparr>, snd e)"
  | (parent) i where "k = pc_ParentHeader cfg" "parseUint64 v = Some i"
      "ext_step cfg (k, v) e = ((fst e)\<lparr>c_spanID := i\<rparr>, snd e)"
  | (priority) pr where "k = pc_PriorityHeader cfg" "parse_int v = Some pr"
      "ext_step cfg (k, v) e = ectx_setSamplingPriority pr e"
  | (origin) "k = originHeader" "ext_step cfg (k, v) e = ((fst e)\<lparr>c_origin := v\<rparr>, snd e)"
  | (tags) "k = traceTagsHeader" "ext_step cfg (k, v) e = unmarshalPropagatingTags v e"
  | (baggage) b where "k = pc_BaggagePrefix cfg @ b"
      "ext_step cfg (k, v) e = (ctx_setBaggageItem b v (fst e), snd e)"
  | (other) "k \<notin> {pc_TraceHeader cfg, pc_ParentHeader cfg, pc_PriorityHeader cfg, originHeader, traceTagsHeader}"
      "\<not> prefix (pc_BaggagePrefix cfg) k" "ext_step cfg (k, v) e = e"
proof -
  note ex = ext_step_def extract_key_def Let_def cfg_okD[OF assms(1)]
  note ne = cfg_okD[OF assms(1)] cfg_okD(1-14)[OF assms(1), symmetric]
  consider "k = pc_TraceHeader cfg" | "k = pc_ParentHeader cfg" | "k = pc_PriorityHeader cfg"
    | "k = originHeader" | "k = traceTagsHeader" | b where "k = pc_BaggagePrefix cfg @ b"
    | "k \<notin> {pc_TraceHeader cfg, pc_ParentHeader cfg, pc_PriorityHeader cfg, originHeader, traceTagsHeader}"
      "\<not> prefix (pc_BaggagePrefix cfg) k"
    by (auto simp: prefix_def)
  then show thesis
  proof cases
    case 1
    then show thesis using trace assms(2,3) by (auto simp: entry_ok_def ex)
  next
    case 2
    then show thesis using parent assms(2,3) ne by (auto simp: entry_ok_def ex)
  next
    case 3
    then show thesis using priority assms(2,3) ne by (auto simp: entry_ok_def ex)
  next
    case 4
    then show thesis using origin assms(2) ne by (simp add: ex)
  next
    case 5
    then show thesis using tags assms(2) ne by (simp add: ex)
  next
    case (6 b)
    then show thesis using baggage[of b] assms(2) ne by (simp add: ex)
  next
    case 7
    then show thesis using other assms(2) by (simp add: ex)
  qed
qed

lemma ext_step_ids:
  assumes ok: "cfg_ok cfg" "to_lower k = k" "entry_ok cfg k v"
  shows "c_traceID (fst (ext_step cfg (k, v) e)) =
      (if k = pc_TraceHeader cfg then the (parseUint64 v) else c_traceID (fst e))"
    "c_spanID (fst (ext_step cfg (k, v) e)) =
      (if k = pc_ParentHeader cfg then the (parseUint64 v) else c_spanID (fst e))"
    "c_origin (fst (ext_step cfg (k, v) e)) = (if k = originHeader then v else c_origin (fst e))"
    "m_get (c_baggage (fst (ext_step cfg (k, v) e))) b =
      (if k = pc_BaggagePrefix cfg @ b then Some v else m_get (c_baggage (fst e)) b)"
proof -
  note ne = cfg_okD[OF ok(1)] cfg_okD(1-14)[OF ok(1), symmetric]
  have pre: "k \<noteq> pc_BaggagePrefix cfg @ b" if "\<not> prefix (pc_BaggagePrefix cfg) k" for b
    using that by auto
  show "c_traceID (fst (ext_step cfg (k, v) e)) =
      (if k = pc_TraceHeader cfg then the (parseUint64 v) else c_traceID (fst e))"
    "c_spanID (fst (ext_step cfg (k, v) e)) =
      (if k = pc_ParentHeader cfg then the (parseUint64 v) else c_spanID (fst e))"
    "c_origin (fst (ext_step cfg (k, v) e)) = (if k = originHeader then v else c_origin (fst e))"
    "m_get (c_baggage (fst (ext_step cfg (k, v) e))) b =
      (if k = pc_BaggagePrefix cfg @ b then Some v else m_get (c_baggage (fst e)) b)"
    by (rule ext_step_cases[OF ok, of e]; simp add: ne pre)+
qed

text \<open>
  The trace of an extracted context.  The priority header may take the decision maker out of tags
  that were already read, so the fields are independent of the order only when the tags agree
  with the priority.
\<close>

definition tags_agree :: "int option \<Rightarrow> (string, string) gomap \<Rightarrow> bool" where
  "tags_agree pr tags \<longleftrightarrow> (case pr of None \<Rightarrow> True | Some p \<Rightarrow> 0 < p \<or> m_get tags keyDecisionMaker = None)"

definition ectx_inv :: "(string, string) gomap \<Rightarrow> ectx \<Rightarrow> bool" where
  "ectx_inv tags e \<longleftrightarrow> (\<forall>t. snd e = Some t \<longrightarrow>
     \<not> t_locked t \<and> (t_propagatingTags t = None \<or> t_propagatingTags t = tags))"

definition tags_entry_ok :: "PropagatorConfig \<Rightarrow> int option \<Rightarrow> (string, string) gomap \<Rightarrow> string \<Rightarrow> string \<Rightarrow> bool" where
  "tags_entry_ok cfg pr tags k v \<longleftrightarrow>
     (k = pc_PriorityHeader cfg \<longrightarrow> parse_int v = pr)
   \<and> (k = traceTagsHeader \<longrightarrow> length v \<le> propagationExtractMaxSize \<and> parsePropagatableTraceTags v = Inr tags)"

lemma setSamplingPriority_agree:
  assumes "\<not> t_locked t" "tags_agree (Some pr) tags" "t_propagatingTags t = None \<or> t_propagatingTags t = tags"
  shows "trace_setSamplingPriorityLocked pr Unknown t = t\<lparr>t_priority := Some (f64_of_int pr)\<rparr>"
  using assms by (auto simp: trace_setSamplingPriorityLocked_def tags_agree_def Let_def)

lemma newTrace_sel [simp]:
  "\<not> t_locked newTrace" "t_propagatingTags newTrace = None" "t_priority newTrace = None" "t_spans newTrace = []"
  "t_finished newTrace = 0" "\<not> t_full newTrace" "t_root newTrace = None"
  by (simp_all add: newTrace_def)

lemma ext_step_trace:
  assumes ok: "cfg_ok cfg" "to_lower k = k" "entry_ok cfg k v"
    and tags: "tags_entry_ok cfg pr tags k v" "tags_agree pr tags" and inv: "ectx_inv tags e"
  shows "ectx_inv tags (ext_step cfg (k, v) e)"
    "Option.bind (snd (ext_step cfg (k, v) e)) t_priority =
      (if k = pc_PriorityHeader cfg then Some (f64_of_int (the (parse_int v))) else Option.bind (snd e) t_priority)"
    "Option.bind (snd (ext_step cfg (k, v) e)) t_propagatingTags =
      (if k = traceTagsHeader then tags else Option.bind (snd e) t_propagatingTags)"
proof -
  note ne = cfg_okD[OF ok(1)] cfg_okD(1-14)[OF ok(1), symmetric]
  have prio: "snd (ectx_setSamplingPriority p e) =
      Some ((case snd e of None \<Rightarrow> newTrace | Some t \<Rightarrow> t)\<lparr>t_priority := Some (f64_of_int p)\<rparr>)"
    if "pr = Some p" for p
    using inv tags(2) that
    by (cases "snd e") (auto simp: ectx_setSamplingPriority_def ectx_inv_def Let_def intro!: setSamplingPriority_agree)
  have tag: "snd (unmarshalPropagatingTags v e) =
      Some ((case snd e of None \<Rightarrow> newTrace | Some t \<Rightarrow> t)\<lparr>t_propagatingTags := tags\<rparr>)"
    if "k = traceTagsHeader"
    using tags(1) that by (simp add: tags_entry_ok_def unmarshalPropagatingTags_def Let_def)
  have pr: "pr = Some p" if "k = pc_PriorityHeader cfg" "parse_int v = Some p" for p
    using tags(1) that by (simp add: tags_entry_ok_def)
  show "ectx_inv tags (ext_step cfg (k, v) e)"
    by (rule ext_step_cases[OF ok, of e]; use inv prio pr tag in \<open>simp add: ectx_inv_def split: option.splits\<close>)
  show "Option.bind (snd (ext_step cfg (k, v) e)) t_priority =
      (if k = pc_PriorityHeader cfg then Some (f64_of_int (the (parse_int v))) else Option.bind (snd e) t_priority)"
    by (rule ext_step_cases[OF ok, of e]; use prio pr tag in \<open>simp add: ne split: option.split\<close>)
  show "Option.bind (snd (ext_step cfg (k, v) e)) t_propagatingTags =
      (if k = traceTagsHeader then tags else Option.bind (snd e) t_propagatingTags)"
    by (rule ext_step_cases[OF ok, of e]; use prio pr tag in \<open>simp add: ne split: option.split\<close>)
qed

text \<open>The whole of a loop over entries with distinct lower-case keys that parse.\<close>

lemma extract_fields:
  fixes es tags cfg
  defines "e \<equiv> fold (ext_step cfg) es (zero_ctx, None)"
  assumes cfg: "cfg_ok cfg" and d: "distinct (map fst es)"
    and each: "\<And>k v. (k, v) \<in> set es \<Longrightarrow> to_lower k = k \<and> entry_ok cfg k v \<and> tags_entry_ok cfg pr tags k v"
    and agree: "tags_agree pr tags"
  shows "ForeachKey (extract_key cfg) es (zero_ctx, None) = Inr e"
    "c_traceID (fst e) = (case map_of es (pc_TraceHeader cfg) of Some v \<Rightarrow> the (parseUint64 v) | None \<Rightarrow> 0)"
    "c_spanID (fst e) = (case map_of es (pc_ParentHeader cfg) of Some v \<Rightarrow> the (parseUint64 v) | None \<Rightarrow> 0)"
    "c_origin (fst e) = (case map_of es originHeader of Some v \<Rightarrow> v | None \<Rightarrow> [])"
    "m_get (c_baggage (fst e)) b = map_of es (pc_BaggagePrefix cfg @ b)"
    "Option.bind (snd e) t_priority = (case map_of es (pc_PriorityHeader cfg) of
       Some v \<Rightarrow> Some (f64_of_int (the (parse_int v))) | None \<Rightarrow> None)"
    "Option.bind (snd e) t_propagatingTags = (case map_of es traceTagsHeader of Some _ \<Rightarrow> tags | None \<Rightarrow> None)"
proof -
  have z: "c_traceID zero_ctx = 0" "c_spanID zero_ctx = 0" "c_origin zero_ctx = []" "c_baggage zero_ctx = None"
    by (simp_all add: zero_ctx_def)
  have inv0: "ectx_inv tags (zero_ctx, None)" by (simp add: ectx_inv_def)
  note field = fold_field[where step = "ext_step cfg" and es = es and e = "(zero_ctx, None)", OF d]
  show "ForeachKey (extract_key cfg) es (zero_ctx, None) = Inr e"
    unfolding e_def by (rule ForeachKey_fold) (use each cfg in \<open>simp add: extract_key_ok\<close>)
  show "c_traceID (fst e) = (case map_of es (pc_TraceHeader cfg) of Some v \<Rightarrow> the (parseUint64 v) | None \<Rightarrow> 0)"
    unfolding e_def by (subst field[where I = "\<lambda>_. True" and g = "\<lambda>v. the (parseUint64 v)"])
      (use each ext_step_ids(1)[OF cfg] z in \<open>auto split: option.split\<close>)
  show "c_spanID (fst e) = (case map_of es (pc_ParentHeader cfg) of Some v \<Rightarrow> the (parseUint64 v) | None \<Rightarrow> 0)"
    unfolding e_def by (subst field[where I = "\<lambda>_. True" and g = "\<lambda>v. the (parseUint64 v)"])
      (use each ext_step_ids(2)[OF cfg] z in \<open>auto split: option.split\<close>)
  show "c_origin (fst e) = (case map_of es originHeader of Some v \<Rightarrow> v | None \<Rightarrow> [])"
    unfolding e_def by (subst field[where I = "\<lambda>_. True" and g = "\<lambda>v. v"])
      (use each ext_step_ids(3)[OF cfg] z in \<open>auto split: option.split\<close>)
  have "m_get (c_baggage (fst e)) b = (case map_of es (pc_BaggagePrefix cfg @ b) of Some v \<Rightarrow> Some v | None \<Rightarrow> None)"
    unfolding e_def by (subst field[where I = "\<lambda>_. True" and g = Some and proj = "\<lambda>e. m_get (c_baggage (fst e)) b"])
      (use each ext_step_ids(4)[OF cfg] z in \<open>auto split: option.split\<close>)
  then show "m_get (c_baggage (fst e)) b = map_of es (pc_BaggagePrefix cfg @ b)" by (simp split: option.splits)
  show "Option.bind (snd e) t_priority = (case map_of es (pc_PriorityHeader cfg) of
       Some v \<Rightarrow> Some (f64_of_int (the (parse_int v))) | None \<Rightarrow> None)"
    unfolding e_def by (subst field[where I = "ectx_inv tags" and proj = "\<lambda>e. Option.bind (snd e) t_priority"
        and K = "pc_PriorityHeader cfg" and g = "\<lambda>v. Some (f64_of_int (the (parse_int v)))"])
      (use each ext_step_trace(1,2)[OF cfg _ _ _ agree] inv0 in \<open>auto split: option.split\<close>)
  show "Option.bind (snd e) t_propagatingTags = (case map_of es traceTagsHeader of Some _ \<Rightarrow> tags | None \<Rightarrow> None)"
    unfolding e_def by (subst field[where I = "ectx_inv tags" and proj = "\<lambda>e. Option.bind (snd e) t_propagatingTags"
        and K = traceTagsHeader and g = "\<lambda>_. tags"])
      (use each ext_step_trace(1,3)[OF cfg _ _ _ agree] inv0 in \<open>auto split: option.split\<close>)
qed

subsection \<open>What injection writes\<close>

definition tag_pieces :: "(string, string) gomap \<Rightarrow> string list" where
  "tag_pieces tags = map (\<lambda>(k, v). k @ CHR ''='' # v) (m_items tags)"

text \<open>The header is the list of all tags when every tag is valid and the list fits.\<close>

lemma marshal_loop_all:
  assumes "\<And>k v. (k, v) \<in> set kvs \<Longrightarrow> isValidPropagatableTag k v = None"
    and "int (length (join_with '','' ((if sb = [] then [] else [sb]) @ map (\<lambda>(k, v). k @ CHR ''='' # v) kvs))) \<le> mx"
  shows "marshal_loop mx kvs sb t =
    (join_with '','' ((if sb = [] then [] else [sb]) @ map (\<lambda>(k, v). k @ CHR ''='' # v) kvs), t)"
  using assms
proof (induction kvs arbitrary: sb)
  case (Cons x kvs)
  obtain k v where x: "x = (k, v)" by (cases x)
  let ?sb = "(if sb = [] then [] else sb @ '','') @ k @ CHR ''='' # v"
  let ?ps = "map (\<lambda>(k, v). k @ CHR ''='' # v) kvs"
  have j: "join_with '','' ((if sb = [] then [] else [sb]) @ (k @ CHR ''='' # v) # ?ps) = join_with '','' (?sb # ?ps)"
    by (cases "?ps") auto
  have "length ?sb \<le> length (join_with '','' (?sb # ?ps))" by (cases "?ps") auto
  then have fits: "\<not> mx < int (length sb + length k + length v)" using Cons.prems(2) j x by (auto split: if_splits)
  have "marshal_loop mx kvs ?sb t = (join_with '','' (?sb # ?ps), t)"
    using Cons.IH[of ?sb] Cons.prems j x by auto
  then show ?case using Cons.prems(1)[of k v] fits j x by auto
qed (auto)

definition written :: "PropagatorConfig \<Rightarrow> spanContext \<Rightarrow> trace option \<Rightarrow> (string \<times> string) list" where
  "written cfg ctx trace = inject_headers cfg ctx trace
     @ (case Option.bind trace t_propagatingTags of
          None \<Rightarrow> [] | Some [] \<Rightarrow> []
        | Some kvs \<Rightarrow> [(traceTagsHeader, join_with '','' (tag_pieces (Some kvs)))])"

text \<open>A context that can be sent: ids, lower-case baggage keys, valid tags that fit, an exact priority.\<close>

definition sendable :: "PropagatorConfig \<Rightarrow> spanContext \<Rightarrow> trace option \<Rightarrow> bool" where
  "sendable cfg ctx trace \<longleftrightarrow>
     c_traceID ctx \<noteq> 0 \<and> c_spanID ctx \<noteq> 0
   \<and> m_wf (c_baggage ctx) \<and> (\<forall>k \<in> fst ` set (m_items (c_baggage ctx)). to_lower k = k)
   \<and> (let tags = Option.bind trace t_propagatingTags; pr = Option.bind trace samplingPriorityLocked
      in m_wf tags \<and> (\<forall>(k, v) \<in> set (m_items tags). isValidPropagatableTag k v = None)
         \<and> int (length (join_with '','' (tag_pieces tags))) \<le> min (pc_MaxTagsHeaderLen cfg) (int propagationExtractMaxSize)
         \<and> tags_agree pr tags \<and> (case pr of None \<Rightarrow> True | Some p \<Rightarrow> \<bar>p\<bar> < 2 ^ 53))"

lemma join_tags_Nil: "join_with '','' (tag_pieces tags) = [] \<longleftrightarrow> m_items tags = []"
  by (cases "m_items tags"; cases "tl (m_items tags)") (auto simp: tag_pieces_def)

lemma inject_written:
  assumes ok: "sendable cfg ctx trace" and mx: "0 < pc_MaxTagsHeaderLen cfg"
  shows "injectTextMap cfg setf (Some ctx) trace w = (None, trace, write_all setf (written cfg ctx trace) w)"
proof -
  have valid: "isValidPropagatableTag k v = None" if "trace = Some t" "(k, v) \<in> set (m_items (t_propagatingTags t))" for t k v
    using ok that by (auto simp: sendable_def Let_def)
  have m: "marshalPropagatingTags cfg (Some t) = (join_with '','' (tag_pieces (t_propagatingTags t)), Some t)"
    if "trace = Some t" for t
    using marshal_loop_all[of "m_items (t_propagatingTags t)" "[]" "pc_MaxTagsHeaderLen cfg" t] valid[OF that] ok that
    by (simp add: marshalPropagatingTags_def sendable_def Let_def tag_pieces_def)
  have add: "write_all setf (xs @ [(k, v)]) w = setf k v (write_all setf xs w)" for xs k v w
    by (simp add: write_all_def)
  show ?thesis
  proof (cases trace)
    case None
    then show ?thesis using ok mx
      by (simp add: injectTextMap_def sendable_def Let_def marshalPropagatingTags_def written_def)
  next
    case (Some t)
    then show ?thesis using ok mx m[OF Some] join_tags_Nil[of "t_propagatingTags t"]
      by (cases "t_propagatingTags t")
        (auto simp: injectTextMap_def sendable_def Let_def written_def add split: list.split)
  qed
qed

lemma baggage_keys: "(\<And>b. K \<noteq> p @ b) \<Longrightarrow> K \<notin> fst ` set (map (\<lambda>(k, v). (p @ k, v)) kvs)"
  by (induction kvs) fastforce+

lemma baggage_map_of:
  "map_of (map (\<lambda>(k, v). (p @ k, v)) kvs) (p @ b) = map_of kvs b"
  "(\<And>b. K \<noteq> p @ b) \<Longrightarrow> map_of (map (\<lambda>(k, v). (p @ k, v)) kvs) K = None"
  by (induction kvs) (auto simp only: map_of_eq_None_iff baggage_keys, auto)

lemma written_map_of:
  assumes cfg: "cfg_ok cfg"
  shows "map_of (written cfg ctx trace) (pc_TraceHeader cfg) = Some (format_uint (c_traceID ctx) 10)"
    "map_of (written cfg ctx trace) (pc_ParentHeader cfg) = Some (format_uint (c_spanID ctx) 10)"
    "map_of (written cfg ctx trace) (pc_PriorityHeader cfg) = map_option itoa (Option.bind trace samplingPriorityLocked)"
    "map_of (written cfg ctx trace) originHeader = (if c_origin ctx = [] then None else Some (c_origin ctx))"
    "map_of (written cfg ctx trace) (pc_BaggagePrefix cfg @ b) = m_get (c_baggage ctx) b"
    "map_of (written cfg ctx trace) traceTagsHeader = (case Option.bind trace t_propagatingTags of
       None \<Rightarrow> None | Some [] \<Rightarrow> None | Some kvs \<Rightarrow> Some (join_with '','' (tag_pieces (Some kvs))))"
proof -
  note ne = cfg_okD[OF cfg] cfg_okD(1-14)[OF cfg, symmetric]
  note bm = baggage_map_of(2)[of _ "pc_BaggagePrefix cfg" "m_items (c_baggage ctx)"]
  show "map_of (written cfg ctx trace) (pc_TraceHeader cfg) = Some (format_uint (c_traceID ctx) 10)"
    "map_of (written cfg ctx trace) (pc_ParentHeader cfg) = Some (format_uint (c_spanID ctx) 10)"
    "map_of (written cfg ctx trace) (pc_PriorityHeader cfg) = map_option itoa (Option.bind trace samplingPriorityLocked)"
    "map_of (written cfg ctx trace) originHeader = (if c_origin ctx = [] then None else Some (c_origin ctx))"
    by (simp_all add: written_def inject_headers_def ne bm map_add_def split: option.split list.split)
  show "map_of (written cfg ctx trace) (pc_BaggagePrefix cfg @ b) = m_get (c_baggage ctx) b"
    by (simp add: written_def inject_headers_def ne baggage_map_of(1) map_add_def m_get_def split: option.split list.split)
  show "map_of (written cfg ctx trace) traceTagsHeader = (case Option.bind trace t_propagatingTags of
       None \<Rightarrow> None | Some [] \<Rightarrow> None | Some kvs \<Rightarrow> Some (join_with '','' (tag_pieces (Some kvs))))"
    by (simp add: written_def inject_headers_def ne bm map_add_def split: option.split list.split)
qed

lemma disjoint5: "a \<notin> B \<Longrightarrow> b \<notin> B \<Longrightarrow> c \<notin> B \<Longrightarrow> d \<notin> B \<Longrightarrow> e \<notin> B \<Longrightarrow> {a, b, c, d, e} \<inter> B = {}"
  by blast

lemma written_distinct:
  assumes cfg: "cfg_ok cfg" and ok: "sendable cfg ctx trace"
  shows "distinct (map fst (written cfg ctx trace))" "lower_entries (written cfg ctx trace) = written cfg ctx trace"
proof -
  note ne = cfg_okD[OF cfg] cfg_okD(1-14)[OF cfg, symmetric]
  let ?bs = "map (\<lambda>(k, v). (pc_BaggagePrefix cfg @ k, v)) (m_items (c_baggage ctx))"
  have "map fst ?bs = map (\<lambda>k. pc_BaggagePrefix cfg @ k) (map fst (m_items (c_baggage ctx)))"
    by (simp add: case_prod_beta)
  then have d: "distinct (map fst ?bs)"
    using ok by (simp add: sendable_def m_wf_def distinct_map inj_on_def)
  have nb: "K \<notin> fst ` set ?bs" if "\<And>b. K \<noteq> pc_BaggagePrefix cfg @ b" for K
    using that by (rule baggage_keys)
  define hs where "hs = [(pc_TraceHeader cfg, format_uint (c_traceID ctx) 10), (pc_ParentHeader cfg, format_uint (c_spanID ctx) 10)]
     @ (case Option.bind trace samplingPriorityLocked of Some sp \<Rightarrow> [(pc_PriorityHeader cfg, itoa sp)] | None \<Rightarrow> [])
     @ (if c_origin ctx \<noteq> [] then [(originHeader, c_origin ctx)] else [])"
  define ts where "ts = (case Option.bind trace t_propagatingTags of None \<Rightarrow> [] | Some [] \<Rightarrow> []
     | Some kvs \<Rightarrow> [(traceTagsHeader, join_with '','' (tag_pieces (Some kvs)))])"
  have w: "written cfg ctx trace = hs @ ?bs @ ts" by (simp add: written_def inject_headers_def hs_def ts_def)
  have hs: "distinct (map fst hs)"
    "set (map fst hs) \<subseteq> {pc_TraceHeader cfg, pc_ParentHeader cfg, pc_PriorityHeader cfg, originHeader}"
    by (simp add: hs_def ne split: option.split)
      (cases "Option.bind trace samplingPriorityLocked"; cases "c_origin ctx = []"; simp add: hs_def)
  have "ts = [] \<or> (\<exists>v. ts = [(traceTagsHeader, v)])"
    by (simp add: ts_def split: option.split list.split)
  then have ts: "distinct (map fst ts)" "set (map fst ts) \<subseteq> {traceTagsHeader}" by auto
  define B where "B = set (map fst ?bs)"
  have "K \<notin> B" if "\<And>b. K \<noteq> pc_BaggagePrefix cfg @ b" for K
    using nb[OF that] unfolding B_def list.set_map .
  from this[OF ne(10)] this[OF ne(11)] this[OF ne(12)] this[OF ne(13)] this[OF ne(14)]
  have "{pc_TraceHeader cfg, pc_ParentHeader cfg, pc_PriorityHeader cfg, originHeader, traceTagsHeader} \<inter> B = {}"
    by (rule disjoint5)
  then have "set (map fst hs) \<inter> B = {}" "set (map fst ts) \<inter> B = {}"
    using hs(2) ts(2) by blast+
  then have "set (map fst hs) \<inter> set (map fst ?bs) = {}" "set (map fst ts) \<inter> set (map fst ?bs) = {}"
    unfolding B_def .
  moreover have "traceTagsHeader \<notin> {pc_TraceHeader cfg, pc_ParentHeader cfg, pc_PriorityHeader cfg, originHeader}"
    using ne(7,8,9) by simp
  then have "set (map fst hs) \<inter> set (map fst ts) = {}" using hs(2) ts(2) by blast
  ultimately show "distinct (map fst (written cfg ctx trace))"
    unfolding w map_append distinct_append set_append using d hs(1) ts(1) by blast
  have lb: "lower_entries ?bs = ?bs"
    using ok ne by (auto simp: sendable_def lower_entries_def)
  have "to_lower originHeader = originHeader" "to_lower traceTagsHeader = traceTagsHeader" by code_simp+
  then show "lower_entries (written cfg ctx trace) = written cfg ctx trace"
    using lb ne by (simp add: written_def inject_headers_def split: option.split list.split)
qed

lemma lower_entries_id: "lower_entries xs = xs \<Longrightarrow> (k, v) \<in> set xs \<Longrightarrow> to_lower k = k"
  by (induction xs) auto

lemma rat_trunc_of_int [simp]: "rat_trunc (of_int p) = p"
  by (simp add: rat_trunc_def)

text \<open>Every entry that was written parses.\<close>

lemma written_entries_ok:
  assumes cfg: "cfg_ok cfg" and ok: "sendable cfg ctx trace" and kv: "(k, v) \<in> set (written cfg ctx trace)"
  shows "to_lower k = k \<and> entry_ok cfg k v
    \<and> tags_entry_ok cfg (Option.bind trace samplingPriorityLocked) (Option.bind trace t_propagatingTags) k v"
proof -
  let ?tags = "Option.bind trace t_propagatingTags" and ?pr = "Option.bind trace samplingPriorityLocked"
  note wd = written_distinct[OF cfg ok] and m = written_map_of[OF cfg, of ctx trace]
  have mo: "map_of (written cfg ctx trace) k = Some v" using wd(1) kv by (rule map_of_is_SomeI)
  have low: "to_lower k = k" using wd(2) kv by (rule lower_entries_id)
  have ids: "parseUint64 v \<noteq> None" if "k = pc_TraceHeader cfg \<or> k = pc_ParentHeader cfg"
    using mo m(1,2) that by auto
  have prio: "?pr = Some p \<and> int64_range p \<and> v = itoa p" if "k = pc_PriorityHeader cfg" "?pr = Some p" for p
    using mo m(3) that ok by (auto simp: sendable_def Let_def int64_range_def)
  have "parse_int v = ?pr" if "k = pc_PriorityHeader cfg"
    using mo m(3) that prio by (cases ?pr) auto
  moreover have "length v \<le> propagationExtractMaxSize \<and> parsePropagatableTraceTags v = Inr ?tags" if k: "k = traceTagsHeader"
  proof -
    obtain kvs where kvs: "?tags = Some kvs" "kvs \<noteq> []" "v = join_with '','' (tag_pieces ?tags)"
      using mo m(6) k by (auto split: option.splits list.splits)
    have "parsePropagatableTraceTags (join_with '','' (map (\<lambda>(k, v). k @ CHR ''='' # v) kvs)) = Inr (Some kvs)"
      using ok kvs by (intro parse_tags_join)
        (auto simp: sendable_def Let_def m_wf_def dest!: bspec isValidPropagatableTag_chars)
    then show ?thesis using ok kvs by (simp add: sendable_def Let_def tag_pieces_def)
  qed
  moreover have "parse_int v \<noteq> None" if "k = pc_PriorityHeader cfg"
    using mo m(3) that prio by (cases ?pr) auto
  ultimately show ?thesis using low ids unfolding entry_ok_def tags_entry_ok_def by blast
qed

text \<open>Extraction from entries that are, up to the case of the keys and their order, what was written.\<close>

lemma extract_written:
  assumes cfg: "cfg_ok cfg" and ok: "sendable cfg ctx trace"
    and es: "mset (lower_entries es) = mset (written cfg ctx trace)"
  shows "\<exists>c t. extractTextMap cfg es = Inr (c, t)
    \<and> c_traceID c = c_traceID ctx \<and> c_spanID c = c_spanID ctx \<and> c_origin c = c_origin ctx
    \<and> (\<forall>k. m_get (c_baggage c) k = m_get (c_baggage ctx) k)
    \<and> Option.bind t samplingPriorityLocked = Option.bind trace samplingPriorityLocked
    \<and> (\<forall>k. m_get (Option.bind t t_propagatingTags) k = m_get (Option.bind trace t_propagatingTags) k)"
proof -
  let ?tags = "Option.bind trace t_propagatingTags" and ?pr = "Option.bind trace samplingPriorityLocked"
  let ?ls = "lower_entries es"
  note wd = written_distinct[OF cfg ok]
  have mo: "map_of ?ls = map_of (written cfg ctx trace)" using es wd(1) by (rule map_of_mset)
  have d: "distinct (map fst ?ls)" using es wd(1) by (metis mset_eq_imp_distinct_iff mset_map)
  have each: "to_lower k = k \<and> entry_ok cfg k v \<and> tags_entry_ok cfg ?pr ?tags k v" if "(k, v) \<in> set ?ls" for k v
    using that es by (intro written_entries_ok[OF cfg ok]) (metis set_mset_mset)
  have agree: "tags_agree ?pr ?tags" using ok by (simp add: sendable_def Let_def)
  define e where "e = fold (ext_step cfg) ?ls (zero_ctx, None)"
  note f = extract_fields[OF cfg d each agree, folded e_def, unfolded mo]
  note m = written_map_of[OF cfg, of ctx trace]
  have "ForeachKey (extract_key cfg) es (zero_ctx, None) = Inr e"
    using f(1) ForeachKey_lower[of "extract_key cfg" es "(zero_ctx, None)"] by (simp add: extract_key_lower)
  moreover have "c_traceID (fst e) = c_traceID ctx" "c_spanID (fst e) = c_spanID ctx" "c_origin (fst e) = c_origin ctx"
    "\<forall>k. m_get (c_baggage (fst e)) k = m_get (c_baggage ctx) k"
    using f(2-5) by (simp_all add: m)
  moreover have "Option.bind (snd e) samplingPriorityLocked = ?pr"
  proof (cases ?pr)
    case None
    then have "Option.bind (snd e) t_priority = None" using f(6) by (simp add: m)
    then show ?thesis using None by (cases "snd e") (simp_all add: samplingPriorityLocked_def)
  next
    case (Some p)
    then have p: "\<bar>p\<bar> < 2 ^ 53" using ok by (simp add: sendable_def Let_def)
    then have r: "int64_range p" by (auto simp: int64_range_def)
    then have "Option.bind (snd e) t_priority = Some (Fin (of_int p))"
      using f(6) Some p r by (simp add: m f64_of_int_exact)
    then show ?thesis using Some r
      by (cases "snd e") (simp_all add: samplingPriorityLocked_def)
  qed
  moreover have "m_get (Option.bind (snd e) t_propagatingTags) k = m_get ?tags k" for k
    using f(7) by (simp add: m split: option.splits list.splits)
  ultimately show ?thesis using ok
    by (intro exI[of _ "fst e"] exI[of _ "snd e"]) (simp add: extractTextMap_def sendable_def)
qed

subsection \<open>Round trips\<close>

context text_map_carrier
begin

lemma datadog_roundtrip:
  assumes cfg: "cfg_ok cfg" and mx: "0 < pc_MaxTagsHeaderLen cfg" and ok: "sendable cfg ctx trace"
    and inj: "injectTextMap cfg setf (Some ctx) trace fresh = (err, trace', w)"
    and es: "mset es = mset (entries w)"
  shows "err = None \<and> trace' = trace \<and> (\<exists>c t. extractTextMap cfg es = Inr (c, t)
    \<and> c_traceID c = c_traceID ctx \<and> c_spanID c = c_spanID ctx \<and> c_origin c = c_origin ctx
    \<and> (\<forall>k. m_get (c_baggage c) k = m_get (c_baggage ctx) k)
    \<and> Option.bind t samplingPriorityLocked = Option.bind trace samplingPriorityLocked
    \<and> (\<forall>k. m_get (Option.bind t t_propagatingTags) k = m_get (Option.bind trace t_propagatingTags) k))"
proof -
  have w: "err = None" "trace' = trace" "w = write_all setf (written cfg ctx trace) fresh"
    using inject_written[OF ok mx, of setf fresh] inj by simp_all
  have "mset (lower_entries es) = mset (lower_entries (entries w))"
    using es by (simp add: mset_lower_entries)
  also have "\<dots> = mset (written cfg ctx trace)"
    using write_all_fresh[of "written cfg ctx trace"] written_distinct[OF cfg ok] by (simp add: w(3))
  finally show ?thesis using extract_written[OF cfg ok] w(1,2) by blast
qed

end

text \<open>B3: three keys, and the sampling priority only as kept or not.\<close>

definition b3_sampled :: "int \<Rightarrow> int" where
  "b3_sampled p = (if p \<ge> PriorityAutoKeep then 1 else 0)"

lemma parse_hex16 [simp]: "parse_uint 16 (pad_left 16 (format_uint n 16)) = Some n"
proof -
  have "parse_digits 16 0 (pad_left 16 (format_uint n 16)) = parse_digits 16 0 (format_uint n 16)"
    by (simp add: pad_left_def parse_digits_zeros)
  then have "parse_uint 16 (pad_left 16 (format_uint n 16)) = parse_uint 16 (format_uint n 16)"
    by (simp add: parse_uint_def pad_left_def)
  then show ?thesis by simp
qed

lemma length_hex16 [simp]: "length (pad_left 16 (format_uint n 16)) = 16"
  using length_format_uint_16[of n] by (simp add: pad_left_def)

lemma b3_sampled_parse:
  "parse_int (if p \<ge> PriorityAutoKeep then ''1'' else ''0'') = Some (b3_sampled p)"
proof -
  have "parse_int ''1'' = Some 1" "parse_int ''0'' = Some 0" by code_simp+
  then show ?thesis by (simp add: b3_sampled_def)
qed

lemma b3_lower: "b3_extract_key (to_lower k) v e = b3_extract_key k v e"
  by (simp add: b3_extract_key_def)

lemma b3_keys: "to_lower b3TraceIDHeader = b3TraceIDHeader" "to_lower b3SpanIDHeader = b3SpanIDHeader"
  "to_lower b3SampledHeader = b3SampledHeader"
  by code_simp+

lemma b3_steps:
  "b3_extract_key b3TraceIDHeader (pad_left 16 (format_uint n 16)) e = Inr ((fst e)\<lparr>c_traceID := n\<rparr>, snd e)"
  "b3_extract_key b3SpanIDHeader (pad_left 16 (format_uint n 16)) e = Inr ((fst e)\<lparr>c_spanID := n\<rparr>, snd e)"
  "b3_extract_key b3SampledHeader (if p \<ge> PriorityAutoKeep then ''1'' else ''0'') e
     = Inr (ectx_setSamplingPriority (b3_sampled p) e)"
  by (simp_all only: b3_extract_key_def Let_def b3_keys length_hex16 parse_hex16 b3_sampled_parse option.case) simp_all

text \<open>The orders of two or three entries.\<close>

lemma mset_two: "mset es = {#a, b#} \<Longrightarrow> es = [a, b] \<or> es = [b, a]"
proof -
  assume m: "mset es = {#a, b#}"
  then have "length es = 2" by (metis size_mset size_add_mset size_empty Suc_1 One_nat_def)
  then obtain x y where "es = [x, y]" by (metis length_0_conv length_Suc_conv numeral_2_eq_2)
  with m show ?thesis by (auto simp: add_eq_conv_ex)
qed

lemma mset_three:
  "mset es = {#a, b, c#} \<Longrightarrow> es \<in> {[a, b, c], [a, c, b], [b, a, c], [b, c, a], [c, a, b], [c, b, a]}"
proof -
  assume m: "mset es = {#a, b, c#}"
  then obtain x r where x: "es = x # r" by (cases es) auto
  from m x consider "x = a" "mset r = {#b, c#}" | "x = b" "mset r = {#a, c#}" | "x = c" "mset r = {#a, b#}"
    by (auto simp: add_eq_conv_ex)
  then show ?thesis
    using x mset_two[of r b c] mset_two[of r a c] mset_two[of r a b] by cases auto
qed

lemma b3_extract_written:
  assumes ids: "c_traceID ctx \<noteq> 0" "c_spanID ctx \<noteq> 0"
    and es: "mset (lower_entries es) = mset (b3_headers ctx trace)"
  shows "\<exists>c t. b3_extractTextMap es = Inr (c, t) \<and> c_traceID c = c_traceID ctx \<and> c_spanID c = c_spanID ctx
    \<and> Option.bind t samplingPriorityLocked = map_option b3_sampled (Option.bind trace samplingPriorityLocked)"
proof -
  let ?T = "(b3TraceIDHeader, pad_left 16 (format_uint (c_traceID ctx) 16))"
  let ?S = "(b3SpanIDHeader, pad_left 16 (format_uint (c_spanID ctx) 16))"
  have f: "ForeachKey b3_extract_key es (zero_ctx, None) = ForeachKey b3_extract_key (lower_entries es) (zero_ctx, None)"
    by (rule ForeachKey_lower[symmetric]) (rule b3_lower)
  have pr: "samplingPriorityLocked (trace_setSamplingPriorityLocked (b3_sampled p) Unknown newTrace) = Some (b3_sampled p)" for p
    by (simp add: setSamplingPriority_agree[where tags = None] tags_agree_def samplingPriorityLocked_def
        b3_sampled_def f64_of_int_exact int64_range_def rat_trunc_def)
  show ?thesis
  proof (cases "Option.bind trace samplingPriorityLocked")
    case None
    then have "lower_entries es = [?T, ?S] \<or> lower_entries es = [?S, ?T]"
      using es by (intro mset_two) (simp add: b3_headers_def)
    then show ?thesis using ids None
      by (elim disjE; simp only: b3_extractTextMap_def f ForeachKey.simps b3_steps sum.case) simp_all
  next
    case (Some p)
    let ?P = "(b3SampledHeader, if p \<ge> PriorityAutoKeep then ''1'' else ''0'')"
    have "lower_entries es \<in> {[?T, ?S, ?P], [?T, ?P, ?S], [?S, ?T, ?P], [?S, ?P, ?T], [?P, ?T, ?S], [?P, ?S, ?T]}"
      using es Some by (intro mset_three) (simp add: b3_headers_def)
    then show ?thesis using ids Some
      by (elim insertE emptyE; simp only: b3_extractTextMap_def f ForeachKey.simps b3_steps sum.case)
        (simp_all add: ectx_setSamplingPriority_def pr)
  qed
qed

context text_map_carrier
begin

lemma b3_roundtrip:
  assumes ids: "c_traceID ctx \<noteq> 0" "c_spanID ctx \<noteq> 0"
    and inj: "b3_injectTextMap setf (Some ctx) trace fresh = (err, w)" and es: "mset es = mset (entries w)"
  shows "err = None \<and> (\<exists>c t. b3_extractTextMap es = Inr (c, t)
    \<and> c_traceID c = c_traceID ctx \<and> c_spanID c = c_spanID ctx
    \<and> Option.bind t samplingPriorityLocked = map_option b3_sampled (Option.bind trace samplingPriorityLocked))"
proof -
  have w: "err = None" "w = write_all setf (b3_headers ctx trace) fresh"
    using inj ids by (simp_all add: b3_injectTextMap_def)
  have low: "lower_entries (b3_headers ctx trace) = b3_headers ctx trace"
    by (simp add: b3_headers_def b3_keys split: option.split)
  have "distinct (map fst (b3_headers ctx trace))"
    by (cases "Option.bind trace samplingPriorityLocked") (simp_all add: b3_headers_def)
  then have "mset (lower_entries (entries w)) = mset (b3_headers ctx trace)"
    using write_all_fresh[of "b3_headers ctx trace"] by (simp add: low w(2))
  then have "mset (lower_entries es) = mset (b3_headers ctx trace)"
    using es by (simp add: mset_lower_entries)
  then show ?thesis using b3_extract_written[OF ids] w(1) by blast
qed

end

subsection \<open>The trace tags header\<close>

lemma marshal_loop_length:
  assumes "0 \<le> mx" "int (length sb) \<le> mx + 2"
  shows "int (length (fst (marshal_loop mx kvs sb t))) \<le> mx + 2"
  using assms by (induction mx kvs sb t rule: marshal_loop.induct) auto

subsection \<open>Properties\<close>


definition sample_cfg :: PropagatorConfig where
  "sample_cfg = (fill_config None)\<lparr>pc_MaxTagsHeaderLen := 128\<rparr>"

definition sample_ctx :: spanContext where
  "sample_ctx = zero_ctx\<lparr>c_traceID := 7, c_spanID := 9, c_origin := ''synthetics'',
     c_baggage := Some [(''user'', ''Bob'')], c_hasBaggage := True\<rparr>"

definition sample_trace :: trace where
  "sample_trace = newTrace\<lparr>t_priority := Some (Fin 2), t_propagatingTags := Some [(''_dd.p.dm'', ''-4'')]\<rparr>"

definition sample_headers :: HTTPHeadersCarrier where
  "sample_headers = [(''X-Datadog-Trace-Id'', [''7'']), (''X-Datadog-Parent-Id'', [''9'']),
     (''X-Datadog-Sampling-Priority'', [''2'']), (''X-Datadog-Origin'', [''synthetics'']),
     (''Ot-Baggage-User'', [''Bob'']), (''X-Datadog-Tags'', [''_dd.p.dm=-4''])]"

lemma sample_inject:
  "propagator_Inject sample_cfg (Some sample_ctx) (Some sample_trace) (CHeaders [])
     = (None, Some sample_trace, CHeaders sample_headers)"
  by code_simp

lemma sample_sendable: "sendable sample_cfg sample_ctx (Some sample_trace)"
  by code_simp


text \<open>
  C7: injecting a context with the B3 headers into an empty carrier of either kind and extracting
  it again, in any order, gives back the 64-bit trace and span id and the sampling priority cut
  down to 1 for a kept trace and 0 for a rejected one.
\<close>

theorem b3_roundtrip_carriers:
  assumes "c_traceID ctx \<noteq> 0" "c_spanID ctx \<noteq> 0"
    and "propagatorB3_Inject (Some ctx) trace c0 = (err, trace', c1)" "c0 \<in> {CTextMap [], CHeaders []}"
    and "carrier_entries c1 = Some es'" "mset es = mset es'"
  shows "err = None \<and> (\<exists>c t. b3_extractTextMap es = Inr (c, t)
    \<and> c_traceID c = c_traceID ctx \<and> c_spanID c = c_spanID ctx
    \<and> Option.bind t samplingPriorityLocked = map_option b3_sampled (Option.bind trace samplingPriorityLocked))"
proof (cases "c0 = CTextMap []")
  case True
  then obtain w where "b3_injectTextMap TextMapCarrier_Set (Some ctx) trace [] = (err, w)" "c1 = CTextMap w"
    using assms(3) by (auto simp: propagatorB3_Inject_def split: prod.splits)
  then show ?thesis using tm.b3_roundtrip[OF assms(1,2)] assms(5,6) by (simp add: carrier_entries_def)
next
  case False
  then obtain w where "b3_injectTextMap HTTPHeadersCarrier_Set (Some ctx) trace [] = (err, w)" "c1 = CHeaders w"
    using assms(3,4) by (auto simp: propagatorB3_Inject_def split: prod.splits)
  then show ?thesis using hc.b3_roundtrip[OF assms(1,2)] assms(5,6) by (simp add: carrier_entries_def)
qed

definition sample_b3 :: TextMapCarrier where
  "sample_b3 = [(''x-b3-traceid'', ''0000000000000007''), (''x-b3-spanid'', ''0000000000000009''), (''x-b3-sampled'', ''1'')]"

theorem b3_roundtrip_witness:
  "\<exists>c t. b3_extractTextMap (rev sample_b3) = Inr (c, t) \<and> c_traceID c = 7 \<and> c_spanID c = 9
    \<and> Option.bind t samplingPriorityLocked = Some 1"
proof -
  have i: "propagatorB3_Inject (Some sample_ctx) (Some sample_trace) (CTextMap []) = (None, Some sample_trace, CTextMap sample_b3)"
    "map_option b3_sampled (Option.bind (Some sample_trace) samplingPriorityLocked) = Some 1"
    by code_simp+
  have ids: "c_traceID sample_ctx \<noteq> 0" "c_spanID sample_ctx \<noteq> 0" by code_simp+
  have m: "CTextMap [] \<in> {CTextMap [], CHeaders []}" "carrier_entries (CTextMap sample_b3) = Some sample_b3"
    "mset (rev sample_b3) = mset sample_b3"
    by (simp_all add: carrier_entries_def TextMapCarrier_entries_def)
  from b3_roundtrip_carriers[OF ids i(1) m] i(2) show ?thesis by (simp add: sample_ctx_def del: map_option_eq_Some)
qed

lemma marshalPropagatingTags_length:
  assumes "0 \<le> pc_MaxTagsHeaderLen cfg"
  shows "int (length (fst (marshalPropagatingTags cfg trace))) \<le> pc_MaxTagsHeaderLen cfg + 2"
proof (cases trace)
  case None
  then show ?thesis using assms by (simp add: marshalPropagatingTags_def)
next
  case (Some t)
  then show ?thesis using marshal_loop_length[OF assms, of "[]" "m_items (t_propagatingTags t)" t] assms
    by (simp add: marshalPropagatingTags_def case_prod_beta)
qed

text \<open>
  C12: the trace tags header is at most two bytes longer than the configured maximum: the check
  before a tag is added counts the key and the value but neither the comma nor the equals sign.
\<close>

theorem marshalPropagatingTags_bound:
  assumes "0 \<le> pc_MaxTagsHeaderLen cfg"
  shows "int (length (fst (marshalPropagatingTags cfg trace))) \<le> pc_MaxTagsHeaderLen cfg + 2"
  by (rule marshalPropagatingTags_length[OF assms])

theorem marshalPropagatingTags_bound_witness:
  "length (fst (marshalPropagatingTags sample_cfg (Some sample_trace))) \<le> 130"
  using marshalPropagatingTags_bound[of sample_cfg "Some sample_trace"] by (simp add: sample_cfg_def fill_config_def)

text \<open>The bound is reached: one more byte than the limit, and two.\<close>

lemma marshal_over_limit:
  "marshalPropagatingTags (sample_cfg\<lparr>pc_MaxTagsHeaderLen := 4\<rparr>) (Some (newTrace\<lparr>t_propagatingTags := Some [(''ab'', ''cd'')]\<rparr>))
     = (''ab=cd'', Some (newTrace\<lparr>t_propagatingTags := Some [(''ab'', ''cd'')]\<rparr>))"
  "length (fst (marshalPropagatingTags (sample_cfg\<lparr>pc_MaxTagsHeaderLen := 7\<rparr>)
     (Some (newTrace\<lparr>t_propagatingTags := Some [(''a'', ''b''), (''cd'', ''ef'')]\<rparr>)))) = 9"
  by code_simp+

text \<open>The maximum stays 0 when no configuration is given, so that no tags are propagated.\<close>

lemma NewPropagator_default_max:
  "pc_MaxTagsHeaderLen (fill_config None) = 0"
  "\<exists>cfg. cp_injectors (NewPropagator None [] [] []) = [propagator cfg] \<and> pc_MaxTagsHeaderLen cfg = 0"
  by (simp_all add: fill_config_def NewPropagator_def getPropagators_def Let_def)

text \<open>
  A trace header configured with an upper-case letter is written by \<open>Inject\<close> and never read
  by \<open>Extract\<close>, which compares it with the key in lower case: no carrier yields a context.
\<close>

theorem upper_case_header_never_extracted:
  assumes "to_lower (pc_TraceHeader cfg) \<noteq> pc_TraceHeader cfg"
  shows "\<not> (\<exists>e. extractTextMap cfg es = Inr e)"
proof -
  have step: "c_traceID (fst e') = c_traceID (fst e)" if "extract_key cfg k v e = Inr e'" for k v e e'
  proof -
    have "to_lower k \<noteq> pc_TraceHeader cfg" using assms by (metis to_lower_idem)
    then show ?thesis using that by (auto simp: extract_key_def Let_def split: if_splits option.splits)
  qed
  have "c_traceID (fst e') = c_traceID (fst e)" if "ForeachKey (extract_key cfg) es e = Inr e'" for e e'
    using that
  proof (induction "extract_key cfg" es e rule: ForeachKey.induct)
    case (2 k v kvs s)
    then show ?case using step by (auto split: sum.splits)
  qed simp
  from this[of "(zero_ctx, None)"] show ?thesis
    by (auto simp: extractTextMap_def zero_ctx_def split: sum.splits if_splits)
qed

theorem upper_case_header_witness:
  "\<not> (\<exists>e. extractTextMap (sample_cfg\<lparr>pc_TraceHeader := ''X-Trace''\<rparr>) [(''X-Trace'', ''7''), (''x-datadog-parent-id'', ''9'')] = Inr e)"
proof -
  have "to_lower (pc_TraceHeader (sample_cfg\<lparr>pc_TraceHeader := ''X-Trace''\<rparr>)) \<noteq> pc_TraceHeader (sample_cfg\<lparr>pc_TraceHeader := ''X-Trace''\<rparr>)"
    by code_simp
  then show ?thesis by (rule upper_case_header_never_extracted)
qed

end
