(* ===== verification/Trace_Machine.thy ===== *)
theory Trace_Machine
  imports Trace_Start Text_Map_Laws
begin

section \<open>The tracer as a state machine\<close>

text \<open>
  A run of the program is a sequence of calls of the tracer's operations, in any order and from
  any goroutine (each call is one step), interleaved with the worker that receives finished
  traces.  The state is the store and the spans the worker has handed to the trace writer so far.
\<close>

subsection \<open>Extracted contexts in the store\<close>

definition install_ctx :: "ectx \<Rightarrow> heap \<Rightarrow> nat \<times> heap" where
  "install_ctx e h = (case snd e of
     None \<Rightarrow> (h_next h, h\<lparr>h_ctx := (h_ctx h)(h_next h := (fst e)\<lparr>c_trace := None\<rparr>), h_next := Suc (h_next h)\<rparr>)
   | Some t \<Rightarrow>
       let tp = h_next h; cp = Suc tp
       in (cp, h\<lparr>h_trace := (h_trace h)(tp := t), h_ctx := (h_ctx h)(cp := (fst e)\<lparr>c_trace := Some tp\<rparr>), h_next := Suc cp\<rparr>))"

definition ectx_new :: "ectx \<Rightarrow> bool" where
  "ectx_new e \<longleftrightarrow> c_span (fst e) = None \<and> (case snd e of None \<Rightarrow> True
     | Some t \<Rightarrow> t_spans t = [] \<and> t_finished t = 0 \<and> \<not> t_full t \<and> t_root t = None)"

lemma ectx_new_ops:
  assumes "ectx_new e"
  shows "ectx_new (ectx_setSamplingPriority pr e)" "ectx_new (unmarshalPropagatingTags v e)"
    "ectx_new ((fst e)\<lparr>c_traceID := i\<rparr>, snd e)" "ectx_new ((fst e)\<lparr>c_spanID := i\<rparr>, snd e)"
    "ectx_new ((fst e)\<lparr>c_origin := v\<rparr>, snd e)" "ectx_new (ctx_setBaggageItem k v (fst e), snd e)"
  using assms
  by (auto simp: ectx_new_def ectx_setSamplingPriority_def unmarshalPropagatingTags_def trace_setTag_def
      ctx_setBaggageItem_def Let_def split: option.splits sum.splits)

lemma ForeachKey_inv:
  assumes "ForeachKey f es e = Inr e'" "I e"
    and "\<And>k v e e'. I e \<Longrightarrow> f k v e = Inr e' \<Longrightarrow> I e'"
  shows "I e'"
  using assms by (induction f es e rule: ForeachKey.induct) (auto split: sum.splits)

lemma extract_new:
  "extractTextMap cfg es = Inr e \<Longrightarrow> ectx_new e" "b3_extractTextMap es = Inr e \<Longrightarrow> ectx_new e"
proof -
  have z: "ectx_new (zero_ctx, None)" by (simp add: ectx_new_def zero_ctx_def)
  have d: "ectx_new e'" if "ectx_new e" "extract_key cfg k v e = Inr e'" for k v e e'
    using that ectx_new_ops[OF that(1)] by (auto simp: extract_key_def Let_def split: if_splits option.splits)
  have b: "ectx_new e'" if "ectx_new e" "b3_extract_key k v e = Inr e'" for k v e e'
    using that ectx_new_ops[OF that(1)] by (auto simp: b3_extract_key_def Let_def split: if_splits option.splits)
  show "extractTextMap cfg es = Inr e \<Longrightarrow> ectx_new e"
    using ForeachKey_inv[of "extract_key cfg" es "(zero_ctx, None)" e ectx_new] z d
    by (auto simp: extractTextMap_def split: sum.splits if_splits)
  show "b3_extractTextMap es = Inr e \<Longrightarrow> ectx_new e"
    using ForeachKey_inv[of b3_extract_key es "(zero_ctx, None)" e ectx_new] z b
    by (auto simp: b3_extractTextMap_def split: sum.splits if_splits)
qed

text \<open>A new context without a span adds no span; its trace is new and empty.\<close>

lemma add_ctx_is_span:
  assumes wf: "heap_wf h" and new: "h_next h \<le> cp" "cp < n" "c_span c = None"
    and h': "h_span h' = h_span h" "h_ctx h' = (h_ctx h)(cp := c)" "h_next h' = n"
  shows "is_span h' p = is_span h p" "span_trace h' = span_trace h"
proof -
  have garbage: "c_span (h_ctx h d) = None" if "h_next h \<le> d" for d using wf that by (simp add: heap_wf_def)
  have own: "q < h_next h" if "c_span (h_ctx h d) = Some q" for d q using wf that by (simp add: heap_wf_def)
  have i: "is_span h' q = is_span h q" for q
    using new garbage[of "s_context (h_span h q)"] own[of "s_context (h_span h q)" q]
    by (cases "s_context (h_span h q) < h_next h") (auto simp: is_span_def h')
  then show "is_span h' p = is_span h p" .
  show "span_trace h' = span_trace h"
  proof (rule ext)
    fix q
    have "s_context (h_span h q) \<noteq> cp" if "is_span h q" using that new by (simp add: is_span_def)
    then show "span_trace h' q = span_trace h q" by (simp add: span_trace_def i h')
  qed
qed

lemma install_ctx_sel:
  assumes "ectx_new e"
  shows "\<exists>cp c n. h_next h \<le> cp \<and> cp < n \<and> c_span c = None \<and> (\<forall>tp. c_trace c = Some tp \<longrightarrow> tp < n)
    \<and> h_ctx (snd (install_ctx e h)) = (h_ctx h)(cp := c) \<and> h_next (snd (install_ctx e h)) = n"
proof (cases "snd e")
  case None
  then show ?thesis using assms
    by (intro exI[of _ "h_next h"] exI[of _ "(fst e)\<lparr>c_trace := None\<rparr>"] exI[of _ "Suc (h_next h)"])
      (simp add: install_ctx_def ectx_new_def)
next
  case (Some t)
  then show ?thesis using assms
    by (intro exI[of _ "Suc (h_next h)"] exI[of _ "(fst e)\<lparr>c_trace := Some (h_next h)\<rparr>"] exI[of _ "Suc (Suc (h_next h))"])
      (simp add: install_ctx_def ectx_new_def Let_def)
qed

lemma install_ctx_wf:
  assumes wf: "heap_wf h" and e: "ectx_new e"
  shows "heap_wf (snd (install_ctx e h))" "span_trace (snd (install_ctx e h)) = span_trace h"
proof -
  let ?h' = "snd (install_ctx e h)"
  obtain cp c n where c: "h_next h \<le> cp" "cp < n" "c_span c = None" "\<forall>tp. c_trace c = Some tp \<longrightarrow> tp < n"
    "h_ctx ?h' = (h_ctx h)(cp := c)" "h_next ?h' = n"
    using install_ctx_sel[OF e, of h] by blast
  have sp: "h_span ?h' = h_span h" by (simp add: install_ctx_def Let_def split: option.split)
  note i = add_ctx_is_span[OF wf c(1-3) sp c(5,6)]
  show "span_trace ?h' = span_trace h" by (rule i(2))
  have lt: "a < n" if "a < h_next h" for a using that c(1,2) by simp
  have "\<forall>d \<ge> n. c_span (((h_ctx h)(cp := c)) d) = None" using wf c(1-3) by (simp add: heap_wf_def)
  moreover have "\<forall>d q. c_span (((h_ctx h)(cp := c)) d) = Some q \<longrightarrow> q < n"
    using wf c(3) lt by (simp add: heap_wf_def)
  moreover have "\<forall>d q. c_trace (((h_ctx h)(cp := c)) d) = Some q \<longrightarrow> q < n"
    using wf c(4) lt by (simp add: heap_wf_def)
  moreover have "\<forall>p. is_span h p \<longrightarrow> span_trace h p \<noteq> None" using wf by (simp add: heap_wf_def)
  ultimately show "heap_wf ?h'" unfolding heap_wf_def i c(5,6) by blast
qed

lemma install_ctx_inv:
  assumes wf: "heap_wf h" and inv: "trace_inv cap (abs_state h) w" and e: "ectx_new e"
  shows "trace_inv cap (abs_state (snd (install_ctx e h))) w"
proof -
  note tr = install_ctx_wf(2)[OF wf e]
  have "abs_state (snd (install_ctx e h)) = (case snd e of None \<Rightarrow> abs_state h | Some _ \<Rightarrow> abs_new_trace (h_next h) (abs_state h))"
    unfolding abs_state_def abs_new_trace_def tr using e
    by (auto simp: install_ctx_def ectx_new_def Let_def fun_eq_iff split: option.splits)
  moreover have "a_tr (abs_state h) p \<noteq> Some (h_next h)" for p
    using wf by (auto simp: heap_wf_def span_trace_def)
  ultimately show ?thesis using inv abs_new_trace_inv[OF inv] by (simp split: option.split)
qed

subsection \<open>Finishing keeps the shape of the store\<close>

definition shape :: "heap \<Rightarrow> heap \<Rightarrow> bool" where
  "shape h h' \<longleftrightarrow> (\<forall>p. s_context (h_span h' p) = s_context (h_span h p))
     \<and> (\<forall>c. c_trace (h_ctx h' c) = c_trace (h_ctx h c) \<and> c_span (h_ctx h' c) = c_span (h_ctx h c))
     \<and> h_next h' = h_next h"

lemma shape_trans [trans]: "shape h h1 \<Longrightarrow> shape h1 h2 \<Longrightarrow> shape h h2"
  by (simp add: shape_def)

lemma frame_shape: "frame h h' \<Longrightarrow> shape h h'"
  by (simp add: frame_def shape_def)

lemma shape_wf:
  assumes "shape h h'"
  shows "heap_wf h' = heap_wf h" "is_span h' p = is_span h p"
proof -
  have i: "is_span h' q = is_span h q" for q using assms by (simp add: is_span_def shape_def)
  have "span_trace h' = span_trace h" by (rule ext) (use assms in \<open>simp add: span_trace_def i shape_def\<close>)
  then show "heap_wf h' = heap_wf h" using assms i by (simp add: heap_wf_def shape_def)
  show "is_span h' p = is_span h p" by (rule i)
qed

lemma finishedOne_shape: "shape h (finishedOne tp p h)"
proof (cases "t_full (h_trace h tp)")
  case True
  then show ?thesis by (simp add: finishedOne_def shape_def)
next
  case False
  let ?hc = "upd_trace tp (\<lambda>t. t\<lparr>t_finished := Suc (t_finished t)\<rparr>) h"
  let ?h1 = "lock_priority tp p ?hc"
  have c: "shape h ?hc" by (simp add: shape_def)
  have l: "shape h ?h1" using c frame_shape[OF lock_priority_frame] by (rule shape_trans)
  have t: "shape h (upd_span p (set_chunk_tags t) ?h1)" for t
    using l by (simp add: shape_def)
  have f: "shape h (flush_trace tp h')" if "shape h h'" for h'
    using that by (simp add: shape_def flush_trace_def Let_def)
  show ?thesis using False l t f by (simp add: finishedOne_def Let_def split: list.split)
qed

lemma span_finish_shape: "shape h (span_finish x p t h)"
proof (cases "s_finished (h_span h p)")
  case True
  then show ?thesis by (simp add: span_finish_def shape_def)
next
  case False
  let ?h1 = "upd_span p (close_span t) h"
  define h2 where "h2 = (if h_active h then send_stats x p ?h1 else ?h1)"
  have "shape h ?h1" by (simp add: shape_def)
  moreover have "shape ?h1 h2" by (rule frame_shape) (simp add: h2_def send_stats_frame)
  ultimately have s2: "shape h h2" by (rule shape_trans)
  have keep: "shape h (upd_trace tp trace_keep h2)" for tp
    using s2 frame_shape[OF frame_upd_trace] by (rule shape_trans) simp_all
  have fin: "shape h (ctx_finish c h3)" if "shape h h3" for c h3
    using that finishedOne_shape by (auto simp: ctx_finish_def intro: shape_trans split: option.split)
  show ?thesis unfolding span_finish_def Let_def h2_def[symmetric]
    using False by (simp add: fin keep s2 split: option.split)
qed

text \<open>\<open>Finish\<close> is the abstract finish step: its error tag and the labels do not matter.\<close>

lemma Finish_split:
  obtains h1 t where "frame h h1" "frame (span_finish x p t h1) (Finish x p now opts stk h)"
proof -
  define cfg where "cfg = fold (\<lambda>fn c. fn c) opts
    \<lparr>fc_FinishTime = None, fc_Error = None, fc_NoDebugStack = s_noDebugStack (h_span h p),
     fc_StackFrames = 0, fc_SkipStackFrames = 0\<rparr>"
  define t where "t = (if opts \<noteq> [] then (case fc_FinishTime cfg of None \<Rightarrow> now | Some ft \<Rightarrow> ft) else now)"
  define h1 where "h1 = (if opts \<noteq> [] then (case fc_Error cfg of None \<Rightarrow> h
    | Some e \<Rightarrow> setTagError p (VErr e) \<lparr>ec_noDebugStack = fc_NoDebugStack cfg,
        ec_stackFrames = fc_StackFrames cfg, ec_stackSkip = fc_SkipStackFrames cfg\<rparr> stk h) else h)"
  have "frame h h1" by (simp add: h1_def setTagError_frame split: option.split)
  moreover have "Finish x p now opts stk h = (case s_pprofCtxRestore (h_span (span_finish x p t h1) p) of
      None \<Rightarrow> span_finish x p t h1 | Some r \<Rightarrow> (span_finish x p t h1)\<lparr>h_labels := r\<rparr>)"
    unfolding Finish_def Let_def cfg_def[symmetric] t_def[symmetric] h1_def[symmetric] ..
  then have "frame (span_finish x p t h1) (Finish x p now opts stk h)"
    by (simp add: frame_labels split: option.split)
  ultimately show ?thesis by (rule that)
qed

lemma Finish_abs:
  assumes wf: "heap_wf h" and sp: "is_span h p"
  shows "abs_state (Finish x p now opts stk h) = abs_finish payloadQueueSize p (abs_state h)"
    "heap_wf (Finish x p now opts stk h)"
proof -
  obtain h1 t where f: "frame h h1" "frame (span_finish x p t h1) (Finish x p now opts stk h)"
    by (rule Finish_split)
  have wf1: "heap_wf h1" "is_span h1 p" using wf sp by (simp_all add: frame_wf[OF f(1)] frame_is_span[OF f(1)])
  show "abs_state (Finish x p now opts stk h) = abs_finish payloadQueueSize p (abs_state h)"
    using frame_abs[OF f(2)] span_finish_abs[OF wf1] frame_abs[OF f(1)] by simp
  show "heap_wf (Finish x p now opts stk h)"
    using shape_wf(1)[OF shape_trans[OF span_finish_shape frame_shape[OF f(2)]]] wf1(1) by simp
qed

subsection \<open>The worker keeps the life cycle\<close>

lemma keep_single_span_frame: "has_trace h p \<Longrightarrow> frame h (keep_single_span rule rate p h)"
  by (simp add: keep_single_span_def Let_def frame_then setSamplingPriority_frame)

lemma spanRules_frame:
  assumes t: "has_trace h p"
  shows "frame h (snd (spanRules_apply x rs p now h))"
proof -
  have "frame h (snd (spanRules_loop x rules p now h))" for rules
  proof (induction rules)
    case (Cons rule rules)
    let ?h1 = "setMetric p keyRulesSamplerAppliedRate (sr_Rate rule) h"
    have f1: "frame h ?h1" using t by (rule setMetric_frame)
    have lim: "frame h (upd_lim l f ?h1)" for l f by (rule frame_trans[OF f1 frame_upd_lim])
    have keep: "frame h (keep_single_span r a p h')" if "frame h h'" for h' r a
      using that keep_single_span_frame frame_has_trace[OF that] t by (blast intro: frame_trans)
    show ?case using Cons
      by (simp add: Let_def frame_then[OF t] f1 lim keep split: option.split prod.split)
  qed simp
  then show ?thesis by (simp add: spanRules_apply_def)
qed

lemma sample_spans_frame:
  assumes "\<And>p. p \<in> set ps \<Longrightarrow> has_trace h p" "sample_spans x rs clock i ps h = (kept, h')"
  shows "frame h h' \<and> subseq kept ps"
  using assms
proof (induction ps arbitrary: i h kept)
  case (Cons p ps)
  obtain keep h1 where a: "spanRules_apply x rs p (clock i) h = (keep, h1)" by fastforce
  obtain k2 where b: "sample_spans x rs clock (Suc i) ps h1 = (k2, h')" "kept = (if keep then p # k2 else k2)"
    using Cons.prems(2) a by (auto split: prod.splits)
  have f: "frame h h1" using spanRules_frame[of h p x rs "clock i"] Cons.prems(1) a by simp
  have "frame h1 h' \<and> subseq k2 ps"
    using Cons.prems(1) by (intro Cons.IH[OF _ b(1)]) (simp add: frame_has_trace[OF f])
  then show ?case using f b(2) by (auto intro: frame_trans)
qed simp

lemma sampleFinishedTrace_frame:
  assumes "\<And>p. p \<in> set (ft_spans ft) \<Longrightarrow> has_trace h p" "sampleFinishedTrace x clock ft h = (ft', h')"
  shows "frame h h' \<and> subseq (ft_spans ft') (ft_spans ft)"
proof (cases "ft_decision ft = decisionKeep")
  case True
  then show ?thesis using assms(2) by (simp add: sampleFinishedTrace_def)
next
  case False
  let ?rs = "rls_spans (tr_rulesSampling (h_tracer h))"
  obtain kept h1 where s: "(if spanRules_enabled ?rs then sample_spans x ?rs clock 0 (ft_spans ft) h else ([], h)) = (kept, h1)"
    by fastforce
  have f: "frame h h1 \<and> subseq kept (ft_spans ft)"
    using s sample_spans_frame[OF assms(1), of "ft_spans ft" x ?rs clock 0 kept h1] by (auto split: if_splits)
  have u: "frame h (upd_tracer g h2)" if "frame h h2" "\<And>t. tr_out (g t) = tr_out t \<and> tr_stopped (g t) = tr_stopped t \<and> tr_config (g t) = tr_config t" for h2 g
    using that frame_upd_tracer[of g h2] by (auto intro: frame_trans)
  show ?thesis using assms(2) False f
    by (auto simp: sampleFinishedTrace_def Let_def s intro!: u)
qed

subsection \<open>Steps\<close>

inductive tstep :: "extlib \<Rightarrow> heap \<times> nat list \<Rightarrow> heap \<times> nat list \<Rightarrow> bool" for x where
  start: "StartSpan x nm opts now rnd stk h = Some (p, h') \<Longrightarrow> tstep x (h, w) (h', w)"
| tag: "is_span h p \<Longrightarrow> SetTag p k v stk h = Some h' \<Longrightarrow> tstep x (h, w) (h', w)"
| opname: "is_span h p \<Longrightarrow> tstep x (h, w) (SetOperationName p nm h, w)"
| baggage: "is_span h p \<Longrightarrow> tstep x (h, w) (SetBaggageItem p k b h, w)"
| prio: "is_span h p \<Longrightarrow> tstep x (h, w) (setSamplingPriority p pr sn rate h, w)"
| user: "is_span h p \<Longrightarrow> SetUser p uid uopts h = Some h' \<Longrightarrow> tstep x (h, w) (h', w)"
| fin: "is_span h p \<Longrightarrow> tstep x (h, w) (Finish x p now fopts stk h, w)"
| extracted: "pg = propagator cfg \<or> pg = propagatorB3 \<Longrightarrow> Extract pg c = Inr e \<Longrightarrow>
    tstep x (h, w) (snd (install_ctx e h), w)"
| worker: "receive_out h = Some (ft, h1) \<Longrightarrow>
    worker_trace x clock (\<lambda>spans h w. w @ spans) ft h1 w = (h2, w2) \<Longrightarrow> tstep x (h, w) (h2, w2)"
| stop: "tstep x (h, w) (tracer_Stop h, w)"
| swap: "tstep x (h, w) (h\<lparr>h_active := b\<rparr>, w)"

inductive_cases tstepE: "tstep x s s'"

definition init_heap :: "tracer \<Rightarrow> heap \<Rightarrow> bool" where
  "init_heap tr h \<longleftrightarrow> h_next h = 0 \<and> h_ctx h = (\<lambda>_. zero_ctx) \<and> h_trace h = (\<lambda>_. newTrace)
     \<and> h_tracer h = tr \<and> tr_out tr = []"

inductive treach :: "extlib \<Rightarrow> tracer \<Rightarrow> heap \<times> nat list \<Rightarrow> bool" for x tr where
  init: "init_heap tr h \<Longrightarrow> treach x tr (h, [])"
| step: "treach x tr s \<Longrightarrow> tstep x s s' \<Longrightarrow> treach x tr s'"

subsection \<open>The invariant\<close>

definition machine_inv :: "heap \<times> nat list \<Rightarrow> bool" where
  "machine_inv s \<longleftrightarrow> heap_wf (fst s) \<and> trace_inv traceMaxSize (abs_state (fst s)) (snd s)"

lemma machine_inv_frame: "machine_inv (h, w) \<Longrightarrow> frame h h' \<Longrightarrow> machine_inv (h', w)"
  by (simp add: machine_inv_def frame_wf frame_abs)

lemma trace_inv_open: "trace_inv cap (\<sigma>\<lparr>a_open := b\<rparr>) w = trace_inv cap \<sigma> w"
  by (simp add: trace_inv_def buf_ok_def sent_ok_def)

lemma abs_alloc_inv:
  assumes wf: "heap_wf h" and inv: "trace_inv traceMaxSize (abs_state h) w"
  shows "trace_inv traceMaxSize (abs_alloc parent h (abs_state h)) w"
proof -
  have fresh: "a_tr (abs_state h) p \<noteq> Some (Suc (h_next h))" for p
    using wf by (auto simp: heap_wf_def span_trace_def) (metis Suc_lessD less_irrefl)
  have "a_tr (abs_state h) (h_next h) = None" by (simp add: span_trace_def is_span_def)
  then show ?thesis
    using inv abs_new_trace_inv[OF inv fresh]
    by (auto simp: abs_alloc_def abs_new_trace_def intro!: abs_start_inv split: option.split)
qed

lemma subseq_keeps: "subseq xs ys \<Longrightarrow> set xs \<subseteq> set ys \<and> (distinct ys \<longrightarrow> distinct xs)"
  by (induction rule: list_emb.induct) auto

lemma worker_inv:
  assumes inv: "machine_inv (h, w)" and r: "receive_out h = Some (ft, h1)"
    and t: "worker_trace x clock (\<lambda>spans h w. w @ spans) ft h1 w = (h2, w2)"
  shows "machine_inv (h2, w2)"
proof -
  obtain rest where out: "tr_out (h_tracer h) = ft # rest" and h1: "h1 = upd_tracer (\<lambda>tr. tr\<lparr>tr_out := rest\<rparr>) h"
    using r by (auto simp: receive_out_def split: list.splits)
  obtain ft' where s: "sampleFinishedTrace x clock ft h1 = (ft', h2)" and w2: "w2 = w @ ft_spans ft'"
    using t by (auto simp: worker_trace_def split: prod.splits if_splits)
  have wf: "heap_wf h" and ti: "trace_inv traceMaxSize (abs_state h) w" using inv by (simp_all add: machine_inv_def)
  have sh: "shape h h1" by (simp add: h1 shape_def)
  have a1: "abs_state h1 = (abs_state h)\<lparr>a_out := map ft_spans rest\<rparr>"
    by (simp add: h1 abs_state_def span_trace_def is_span_def fun_eq_iff)
  have sent: "distinct (ft_spans ft)" "\<And>p. p \<in> set (ft_spans ft) \<Longrightarrow> span_trace h p \<noteq> None"
    using trace_invD(2)[OF ti] out by (auto simp: sent_ok_def)
  have "has_trace h1 p" if "p \<in> set (ft_spans ft)" for p
    using sent(2)[OF that] sh by (auto simp: has_trace_def span_trace_def shape_def split: if_splits)
  then have f: "frame h1 h2" "subseq (ft_spans ft') (ft_spans ft)"
    using sampleFinishedTrace_frame[OF _ s] by blast+
  have "trace_inv traceMaxSize ((abs_state h)\<lparr>a_out := map ft_spans rest\<rparr>) (w @ ft_spans ft')"
    by (rule abs_receive_inv[OF ti]) (use out subseq_keeps[OF f(2)] sent(1) in auto)
  then show ?thesis using wf shape_wf(1)[OF sh] frame_wf[OF f(1)] frame_abs[OF f(1)] a1 w2
    by (simp add: machine_inv_def)
qed

lemma tstep_inv: "tstep x s s' \<Longrightarrow> machine_inv s \<Longrightarrow> machine_inv s'"
proof (induction rule: tstep.induct)
  case (start nm opts now rnd stk h p h' w)
  then show ?case using StartSpan_abs[OF _ start(1)] abs_alloc_inv by (simp add: machine_inv_def)
next
  case (tag h p k v stk h' w)
  then have "has_trace h p" using has_trace_span by (simp add: machine_inv_def)
  then have "frame h h'" using tag(2) by (rule SetTag_frame)
  then show ?case using tag machine_inv_frame by blast
next
  case (opname h p w nm)
  then show ?case using machine_inv_frame SetOperationName_frame by blast
next
  case (baggage h p w k b)
  then show ?case using machine_inv_frame SetBaggageItem_frame by blast
next
  case (prio h p w pr sn rate)
  then have "has_trace h p" using has_trace_span by (simp add: machine_inv_def)
  then show ?case using prio machine_inv_frame setSamplingPriority_frame by blast
next
  case (user h p uid uopts h' w)
  then show ?case using machine_inv_frame SetUser_frame by blast
next
  case (fin h p w now fopts stk)
  then have wf: "heap_wf h" by (simp add: machine_inv_def)
  then obtain tp where "span_trace h p = Some tp" using fin(1) by (auto simp: heap_wf_def)
  then show ?case using fin Finish_abs[OF wf fin(1)] abs_finish_inv[of traceMaxSize "abs_state h" w p tp]
    by (simp add: machine_inv_def)
next
  case (extracted pg cfg c e h w)
  then have "ectx_new e"
    by (auto simp: Extract_def propagator_Extract_def propagatorB3_Extract_def split: option.splits intro: extract_new)
  then show ?case using extracted install_ctx_wf(1) install_ctx_inv by (simp add: machine_inv_def)
next
  case (worker h ft h1 clock w h2 w2)
  then show ?case by (blast intro: worker_inv)
next
  case (stop h w)
  have "shape h (tracer_Stop h)" by (simp add: shape_def tracer_Stop_def)
  moreover have "abs_state (tracer_Stop h) = (abs_state h)\<lparr>a_open := False\<rparr>"
    by (simp add: tracer_Stop_def abs_state_def span_trace_def is_span_def fun_eq_iff)
  ultimately show ?case using stop shape_wf(1) by (simp add: machine_inv_def trace_inv_open)
next
  case (swap h w b)
  have "shape h (h\<lparr>h_active := b\<rparr>)" by (simp add: shape_def)
  moreover have "abs_state (h\<lparr>h_active := b\<rparr>) = (abs_state h)\<lparr>a_open := (b \<and> \<not> tr_stopped (h_tracer h))\<rparr>"
    by (simp add: abs_state_def span_trace_def is_span_def fun_eq_iff)
  ultimately show ?case using swap shape_wf(1) by (simp add: machine_inv_def trace_inv_open)
qed

lemma init_inv: "init_heap tr h \<Longrightarrow> machine_inv (h, [])"
  by (auto simp: init_heap_def machine_inv_def heap_wf_def trace_inv_def buf_ok_def sent_ok_def
      abs_state_def span_trace_def is_span_def zero_ctx_def)

lemma treach_inv: "treach x tr s \<Longrightarrow> machine_inv s"
  by (induction rule: treach.induct) (auto intro: init_inv tstep_inv)

end
