(* ===== verification/Trace_Props.thy ===== *)
theory Trace_Props
  imports Trace_Machine
begin

section \<open>What holds in every run of the tracer\<close>

text \<open>
  The properties of the life of spans and traces, drawn from the invariant of the state machine
  and from the refinement lemmas, with a concrete run as witness.
\<close>

subsection \<open>A concrete run\<close>

definition sample_config :: config where
  "sample_config = \<lparr>cf_agent = \<lparr>af_DropP0s = False, af_Stats = False, af_StatsdPort = 0, af_featureFlags = []\<rparr>, cf_featureFlags = [], cf_serviceName = ''svc'',
     cf_universalVersion = False, cf_version = [], cf_env = [], cf_sampler = RateSampler NewAllSampler,
     cf_serviceMappings = None, cf_globalTags = None, cf_hostname = [], cf_runtimeMetrics = False,
     cf_noDebugStack = True, cf_profilerHotspots = False, cf_profilerEndpoints = False\<rparr>"

definition sample_tracer :: tracer where
  "sample_tracer = \<lparr>tr_config = sample_config, tr_statsIn = [], tr_out = [], tr_stopped = False,
     tr_prioritySampling = newPrioritySampler,
     tr_rulesSampling = \<lparr>rls_traces = \<lparr>trs_rules = [], trs_globalRate = NaN, trs_limiter = 0\<rparr>, rls_spans = \<lparr>srs_rules = []\<rparr>\<rparr>,
     tr_pid = ''1'', tr_spansStarted = 0, tr_spansFinished = 0, tr_tracesDropped = 0, tr_droppedP0Traces = 0,
     tr_droppedP0Spans = 0, tr_partialTraces = 0, tr_obfuscator = False\<rparr>"

definition sample_heap :: heap where
  "sample_heap = \<lparr>h_span = (\<lambda>_. zero_span), h_ctx = (\<lambda>_. zero_ctx), h_trace = (\<lambda>_. newTrace),
     h_lim = (\<lambda>_. new_limiter (Fin 100) 0), h_next = 0, h_tracer = sample_tracer, h_active = True, h_labels = []\<rparr>"

definition sample_ext :: extlib where
  "sample_ext = \<lparr>x_allowN = (\<lambda>_ _ _. True), x_obfuscateSQL = Some, x_quantizeRedis = (\<lambda>s. s)\<rparr>"

definition start_opts :: "nat option \<Rightarrow> StartSpanConfig" where
  "start_opts parent = \<lparr>sc_Parent = parent, sc_StartTime = Some 10, sc_SpanID = 0, sc_Tags = None, sc_Context = None\<rparr>"

text \<open>A root span and a child of it, finished in turn.\<close>

definition run1 :: heap where
  "run1 = snd (the (StartSpan sample_ext ''web.request'' (start_opts None) 10 5 [] sample_heap))"

definition run2 :: heap where
  "run2 = snd (the (StartSpan sample_ext ''db.query'' (start_opts (Some (s_context (h_span run1 0)))) 11 6 [] run1))"

definition run3 :: heap where "run3 = Finish sample_ext 0 20 [] [] run2"

definition run4 :: heap where
  "run4 = Finish sample_ext (h_next run1) 30 [] [] run3"

lemma StartSpan_untagged:
  assumes "sc_Tags opts = None" "cf_globalTags (tr_config (h_tracer h)) = None" "heap_wf h"
  shows "StartSpan x nm opts now rnd stk h = Some (h_next h, snd (the (StartSpan x nm opts now rnd stk h)))"
proof -
  obtain p h' where s: "StartSpan x nm opts now rnd stk h = Some (p, h')"
    using assms(1,2) by (cases "start_alloc (new_span nm opts now rnd h) opts h") (auto simp: StartSpan_def)
  then show ?thesis using StartSpan_abs(1)[OF assms(3) s] by simp
qed

lemma sample_init: "init_heap sample_tracer sample_heap" "heap_wf sample_heap"
  using init_inv[of sample_tracer sample_heap]
  by (simp_all add: init_heap_def machine_inv_def sample_heap_def sample_tracer_def)

lemma StartSpan_sel:
  assumes wf: "heap_wf h" and st: "StartSpan x nm opts now rnd stk h = Some (p, h')"
  shows "h_next h' = Suc (new_cp (sc_Parent opts) h)" "tr_config (h_tracer h') = tr_config (h_tracer h)"
    "s_context (h_span h' p) = new_cp (sc_Parent opts) h"
proof -
  obtain s where s: "\<not> s_finished s" "p = h_next h"
    "has_trace (snd (alloc_span s (sc_Parent opts) h)) p \<longrightarrow> frame (snd (alloc_span s (sc_Parent opts) h)) h'"
    using st by (rule StartSpan_split)
  have "has_trace (snd (alloc_span s (sc_Parent opts) h)) p"
    by (rule has_trace_span[OF alloc_span_wf[OF wf]]) (simp add: alloc_span_is_span[OF wf] s(2))
  then have "frame (snd (alloc_span s (sc_Parent opts) h)) h'" using s(3) by blast
  from frame_sel[OF this] s(2) show "h_next h' = Suc (new_cp (sc_Parent opts) h)"
    "tr_config (h_tracer h') = tr_config (h_tracer h)" "s_context (h_span h' p) = new_cp (sc_Parent opts) h"
    by (simp_all add: alloc_span_sel)
qed

lemma run1:
  "StartSpan sample_ext ''web.request'' (start_opts None) 10 5 [] sample_heap = Some (0, run1)"
  "heap_wf run1" "is_span run1 0" "h_next run1 = 3" "s_context (h_span run1 0) = 2"
  "tr_config (h_tracer run1) = sample_config"
  "abs_state run1 = abs_alloc None sample_heap (abs_state sample_heap)"
proof -
  show s: "StartSpan sample_ext ''web.request'' (start_opts None) 10 5 [] sample_heap = Some (0, run1)"
    unfolding run1_def
    by (subst StartSpan_untagged) (simp_all add: start_opts_def sample_init, simp_all add: sample_heap_def sample_tracer_def sample_config_def)
  note a = StartSpan_abs[OF sample_init(2) s] and b = StartSpan_sel[OF sample_init(2) s]
  show "heap_wf run1" "is_span run1 0" "h_next run1 = 3" "s_context (h_span run1 0) = 2"
    "tr_config (h_tracer run1) = sample_config" "abs_state run1 = abs_alloc None sample_heap (abs_state sample_heap)"
    using a b by (simp_all add: start_opts_def new_cp_def parent_trace_def sample_heap_def sample_tracer_def)
qed

lemma run1_parent: "parent_trace run1 (Some 2) = Some 1" "span_trace run1 0 = Some 1"
proof -
  have t: "a_tr (abs_state run1) 0 = Some 1"
    unfolding run1(7) abs_alloc_def abs_start_simps by (simp add: new_tp_def parent_trace_def sample_heap_def)
  then show "span_trace run1 0 = Some 1" by simp
  then show "parent_trace run1 (Some 2) = Some 1"
    using run1(3,5) by (simp add: parent_trace_def span_trace_def)
qed

lemma run2:
  "StartSpan sample_ext ''db.query'' (start_opts (Some 2)) 11 6 [] run1 = Some (3, run2)"
  "heap_wf run2" "is_span run2 3" "is_span run2 0"
  "abs_state run2 = abs_start traceMaxSize 1 3 (abs_state run1)"
proof -
  have e: "run2 = snd (the (StartSpan sample_ext ''db.query'' (start_opts (Some 2)) 11 6 [] run1))"
    by (simp only: run2_def run1(5))
  show s: "StartSpan sample_ext ''db.query'' (start_opts (Some 2)) 11 6 [] run1 = Some (3, run2)"
    unfolding e run1(4)[symmetric]
    by (rule StartSpan_untagged) (simp_all add: start_opts_def run1, simp add: sample_config_def)
  note a = StartSpan_abs[OF run1(2) s]
  show "heap_wf run2" "is_span run2 3" using a by simp_all
  show abs: "abs_state run2 = abs_start traceMaxSize 1 3 (abs_state run1)"
    using a(2) run1_parent run1(4) by (simp add: abs_alloc_def start_opts_def new_tp_def)
  have "a_tr (abs_state run2) 0 = Some 1" unfolding abs abs_start_simps using run1_parent by simp
  then show "is_span run2 0" by (simp add: span_trace_def split: if_splits)
qed

lemma run3: "abs_state run3 = abs_finish payloadQueueSize 0 (abs_state run2)" "heap_wf run3" "span_trace run3 0 = Some 1"
proof -
  show a: "abs_state run3 = abs_finish payloadQueueSize 0 (abs_state run2)" "heap_wf run3"
    unfolding run3_def by (rule Finish_abs[OF run2(2,4)])+
  have "a_tr (abs_state run3) 0 = Some 1"
    unfolding a abs_finish_tr run2(5) abs_start_simps using run1_parent by simp
  then show "span_trace run3 0 = Some 1" by simp
qed

lemma run_reach: "treach sample_ext sample_tracer (run3, [])"
  "treach sample_ext sample_tracer (run4, [])" "is_span run3 3"
proof -
  have "treach sample_ext sample_tracer (run1, [])"
    using treach.init[OF sample_init(1)] tstep.start[OF run1(1)] by (rule treach.step)
  then have "treach sample_ext sample_tracer (run2, [])" using tstep.start[OF run2(1)] by (rule treach.step)
  then show r3: "treach sample_ext sample_tracer (run3, [])"
    unfolding run3_def using tstep.fin[OF run2(4)] by (rule treach.step)
  have t2: "a_tr (abs_state run2) 3 = Some 1" unfolding run2(5) abs_start_simps by simp
  have "a_tr (abs_state run3) 3 = Some 1" unfolding run3(1) using t2 by (simp only: abs_finish_tr)
  then show sp: "is_span run3 3" by (simp add: span_trace_def split: if_splits)
  then show "treach sample_ext sample_tracer (run4, [])"
    unfolding run4_def run1(4) using r3 tstep.fin by (blast intro: treach.step)
qed

text \<open>The abstract states of the run.\<close>

lemma run_abs:
  "t_spans (h_trace run3 1) = [0, 3]" "\<not> t_full (h_trace run3 1)" "s_finished (h_span run3 0)"
  "\<not> s_finished (h_span run3 3)" "span_trace run3 3 = Some 1" "tr_out (h_tracer run3) = []"
  "h_active run3 \<and> \<not> tr_stopped (h_tracer run3)" "map ft_spans (tr_out (h_tracer run4)) = [[0, 3]]"
proof -
  have z: "abs_state sample_heap = \<lparr>a_tr = (\<lambda>_. None), a_fin = (\<lambda>_. False), a_buf = (\<lambda>_. []), a_cnt = (\<lambda>_. 0),
      a_full = (\<lambda>_. False), a_out = [], a_open = True\<rparr>"
    by (simp add: abs_state_def span_trace_def is_span_def sample_heap_def sample_tracer_def zero_span_def newTrace_def fun_eq_iff)
  have p: "parent_trace sample_heap None = None" "new_tp None sample_heap = 1" "h_next sample_heap = 0"
    by (simp_all add: parent_trace_def new_tp_def sample_heap_def)
  have a4: "abs_state run4 = abs_finish payloadQueueSize 3 (abs_state run3)"
    unfolding run4_def run1(4) by (rule Finish_abs(1)[OF run3(2) run_reach(3)])
  note defs = abs_alloc_def abs_start_full abs_new_trace_def abs_finish_def abs_finished_one_def abs_flush_def
  have c3: "abs_state run3 = \<lparr>a_tr = (\<lambda>_. None)(0 := Some 1, 3 := Some 1), a_fin = (\<lambda>_. False)(0 := True),
      a_buf = (\<lambda>_. [])(1 := [0, 3]), a_cnt = (\<lambda>_. 0)(1 := 1), a_full = (\<lambda>_. False), a_out = [], a_open = True\<rparr>"
    unfolding run3(1) run2(5) run1(7) z defs p Let_def by (simp add: fun_eq_iff)
  note eq = arg_cong[OF c3, of "\<lambda>\<sigma>. a_buf \<sigma> 1"] arg_cong[OF c3, of "\<lambda>\<sigma>. a_full \<sigma> 1"] arg_cong[OF c3, of "\<lambda>\<sigma>. a_fin \<sigma> 0"]
    arg_cong[OF c3, of "\<lambda>\<sigma>. a_fin \<sigma> 3"] arg_cong[OF c3, of "\<lambda>\<sigma>. a_tr \<sigma> 3"] arg_cong[OF c3, of a_out] arg_cong[OF c3, of a_open]
  show "t_spans (h_trace run3 1) = [0, 3]" "\<not> t_full (h_trace run3 1)" "s_finished (h_span run3 0)"
    "\<not> s_finished (h_span run3 3)" "span_trace run3 3 = Some 1" "tr_out (h_tracer run3) = []"
    "h_active run3 \<and> \<not> tr_stopped (h_tracer run3)"
    using eq by simp_all
  have "a_out (abs_state run4) = [[0, 3]]" unfolding a4 c3 defs Let_def by simp
  then show "map ft_spans (tr_out (h_tracer run4)) = [[0, 3]]" by simp
qed

subsection \<open>Draining the channel\<close>

text \<open>Setters and samplers of single spans never touch the tracer.\<close>

lemma setters_tracer [simp]:
  "h_tracer (ctx_setSamplingPriority c pr n h) = h_tracer h"
  "h_tracer (setSamplingPriorityLocked p pr n h) = h_tracer h"
  "h_tracer (setSamplingPriority p pr n r h) = h_tracer h"
  "h_tracer (setMetric p k v h) = h_tracer h"
proof -
  show c: "h_tracer (ctx_setSamplingPriority c pr n h) = h_tracer h" for c pr n h
    by (simp add: ctx_setSamplingPriority_def alloc_trace_def split: option.split)
  show l: "h_tracer (setSamplingPriorityLocked p pr n h) = h_tracer h" for p pr n h
    by (simp add: setSamplingPriorityLocked_def c)
  show "h_tracer (setSamplingPriority p pr n r h) = h_tracer h" by (simp add: setSamplingPriority_def l)
  show "h_tracer (setMetric p k v h) = h_tracer h" by (simp add: setMetric_def Let_def l)
qed

lemma spanRules_tracer [simp]: "h_tracer (snd (spanRules_apply x rs p now h)) = h_tracer h"
proof -
  have k: "h_tracer (keep_single_span rule rate p h) = h_tracer h" for rule rate h
    by (simp add: keep_single_span_def Let_def)
  have "h_tracer (snd (spanRules_loop x rules p now h)) = h_tracer h" for rules
    by (induction rules) (simp_all add: Let_def k split: option.split prod.split)
  then show ?thesis by (simp add: spanRules_apply_def)
qed

lemma sample_spans_tracer: "h_tracer (snd (sample_spans x rs clock i ps h)) = h_tracer h"
proof (induction ps arbitrary: i h)
  case (Cons p ps)
  obtain keep h1 where a: "spanRules_apply x rs p (clock i) h = (keep, h1)" by fastforce
  then have "h_tracer h1 = h_tracer h" using spanRules_tracer[of x rs p "clock i" h] by simp
  then show ?case using Cons[of "Suc i" h1] a by (auto split: prod.split)
qed simp

lemma sampleFinishedTrace_out:
  "tr_out (h_tracer (snd (sampleFinishedTrace x clock ft h))) = tr_out (h_tracer h)"
  using sample_spans_tracer[of x "rls_spans (tr_rulesSampling (h_tracer h))" clock 0 "ft_spans ft" h]
  by (auto simp: sampleFinishedTrace_def Let_def split: prod.split)

lemma worker_drain_empties:
  assumes "length (tr_out (h_tracer h)) < fuel"
  shows "\<exists>h' w'. worker_drain fuel x clock (\<lambda>spans h w. w @ spans) h w = Some (h', w') \<and> tr_out (h_tracer h') = []
    \<and> ((\<forall>ft \<in> set (tr_out (h_tracer h)). ft_decision ft = decisionKeep)
        \<longrightarrow> w' = w @ concat (map ft_spans (tr_out (h_tracer h))))"
  using assms
proof (induction fuel arbitrary: h w)
  case (Suc fuel)
  show ?case
  proof (cases "tr_out (h_tracer h)")
    case Nil
    then show ?thesis by (simp add: receive_out_def)
  next
    case (Cons ft rest)
    let ?h1 = "upd_tracer (\<lambda>tr. tr\<lparr>tr_out := rest\<rparr>) h"
    have r: "receive_out h = Some (ft, ?h1)" using Cons by (simp add: receive_out_def)
    obtain ft' h2 where s: "sampleFinishedTrace x clock ft ?h1 = (ft', h2)" by fastforce
    have out: "tr_out (h_tracer h2) = rest" using sampleFinishedTrace_out[of x clock ft ?h1] s by simp
    define w2 where "w2 = (if length (ft_spans ft') \<noteq> 0 then w @ ft_spans ft' else w)"
    have w2: "w2 = w @ ft_spans ft'" by (simp add: w2_def)
    have wt: "worker_trace x clock (\<lambda>spans h w. w @ spans) ft ?h1 w = (h2, w2)"
      by (simp add: worker_trace_def s w2_def)
    have keep: "ft_decision ft = decisionKeep \<Longrightarrow> ft' = ft" using s by (simp add: sampleFinishedTrace_def)
    have "length (tr_out (h_tracer h2)) < fuel" using Suc.prems Cons out by simp
    from Suc.IH[OF this, of w2] show ?thesis using r wt out w2 keep Cons by auto
  qed
qed simp

subsection \<open>Spans that have finished\<close>

lemma finished_frozen:
  assumes "s_finished (h_span h p)"
  shows "SetTag p k v stk h = Some h" "SetOperationName p nm h = h" "setSamplingPriority p pr n r h = h"
    "setTagError p v cfg stk h = h" "span_finish x p t h = h"
  using assms by (simp_all add: SetTag_def SetOperationName_def setSamplingPriority_def
      setSamplingPriorityLocked_def setTagError_def span_finish_def)

subsection \<open>Properties\<close>

text \<open>
  C1: in every reachable state, no span has been handed over twice: the spans the worker gave to
  the trace writer and the spans of the chunks still in the channel are pairwise distinct, and
  all of them are finished.
\<close>

theorem spans_sent_once_and_finished:
  assumes "treach x tr (h, w)"
  shows "distinct (w @ concat (map ft_spans (tr_out (h_tracer h))))
    \<and> (\<forall>p \<in> set (w @ concat (map ft_spans (tr_out (h_tracer h)))). s_finished (h_span h p))"
  using treach_inv[OF assms] by (auto simp: machine_inv_def trace_inv_def sent_ok_def)

theorem spans_sent_once_witness:
  "distinct ([] @ concat (map ft_spans (tr_out (h_tracer run4)))) \<and> map ft_spans (tr_out (h_tracer run4)) = [[0, 3]]
    \<and> s_finished (h_span run4 3)"
  using spans_sent_once_and_finished[OF run_reach(2)] run_abs(8) by simp

text \<open>
  C3: in every reachable state, the buffer of a trace holds distinct spans of that trace and at
  most \<open>traceMaxSize\<close> of them; a trace that overflowed has an empty buffer; and in any other the
  counter is the number of finished spans in the buffer, a buffer that is not empty waits for an
  open span, and every open span of the trace is in the buffer.
\<close>

theorem trace_buffer_invariant:
  assumes "treach x tr (h, w)"
  shows "distinct (t_spans (h_trace h tp)) \<and> length (t_spans (h_trace h tp)) \<le> traceMaxSize
    \<and> (\<forall>p \<in> set (t_spans (h_trace h tp)). span_trace h p = Some tp)
    \<and> (if t_full (h_trace h tp) then t_spans (h_trace h tp) = []
       else t_finished (h_trace h tp) = length (filter (\<lambda>p. s_finished (h_span h p)) (t_spans (h_trace h tp)))
         \<and> (t_spans (h_trace h tp) \<noteq> [] \<longrightarrow> (\<exists>p \<in> set (t_spans (h_trace h tp)). \<not> s_finished (h_span h p)))
         \<and> (\<forall>p. span_trace h p = Some tp \<and> \<not> s_finished (h_span h p) \<longrightarrow> p \<in> set (t_spans (h_trace h tp))))"
proof -
  have f: "a_fin (abs_state h) = (\<lambda>p. s_finished (h_span h p))" by (simp add: fun_eq_iff)
  have "buf_ok traceMaxSize (abs_state h) tp"
    using treach_inv[OF assms] by (simp add: machine_inv_def trace_inv_def)
  then show ?thesis unfolding buf_ok_def f abs_state_sel .
qed

theorem trace_buffer_invariant_witness:
  "t_finished (h_trace run3 1) = 1 \<and> 3 \<in> set (t_spans (h_trace run3 1))"
  using trace_buffer_invariant[OF run_reach(1), of 1] run_abs by simp

text \<open>
  C4: \<open>Finish\<close> on a started span, with any options and whatever the sampling state, changes the
  life cycle exactly as the abstract finish step: it marks the span, counts it in its trace and
  flushes the trace when the count reaches the buffer.
\<close>

theorem Finish_refines:
  assumes "heap_wf h" "is_span h p"
  shows "abs_state (Finish x p now opts stk h) = abs_finish payloadQueueSize p (abs_state h)
    \<and> heap_wf (Finish x p now opts stk h)"
  using Finish_abs[OF assms] by simp

theorem Finish_refines_witness: "abs_state run3 = abs_finish payloadQueueSize 0 (abs_state run2)"
  unfolding run3_def using Finish_refines[OF run2(2,4)] by simp

text \<open>
  C5: \<open>StartSpan\<close> changes the life cycle exactly as the abstract start step: the new span joins the
  trace of its parent context, or a new trace, at the end of the buffer, unless the trace has
  overflowed or overflows now; nothing else \<open>StartSpan\<close> does (tags, service mapping, sampling,
  labels) touches the life cycle.
\<close>

theorem StartSpan_refines:
  assumes "heap_wf h" "StartSpan x nm opts now rnd stk h = Some (p, h')"
  shows "p = h_next h \<and> is_span h' p \<and> heap_wf h' \<and> abs_state h' = abs_alloc (sc_Parent opts) h (abs_state h)"
  using StartSpan_abs[OF assms] by simp

theorem StartSpan_refines_witness: "is_span run2 3 \<and> abs_state run2 = abs_alloc (Some 2) run1 (abs_state run1)"
  using StartSpan_refines[OF run1(2) run2(1)] by (simp add: start_opts_def)

text \<open>
  C2: in a reachable state, finishing the last open span of a trace that has not overflowed sends
  exactly the trace's buffered spans, in the order they were started, as one chunk, when a tracer
  is active, is not stopped and has room in its channel; and the buffer starts over.
\<close>

theorem last_finish_flushes:
  assumes "treach x tr (h, w)" "is_span h p" "\<not> s_finished (h_span h p)" "span_trace h p = Some tp"
    and "\<not> t_full (h_trace h tp)" "\<forall>q \<in> set (t_spans (h_trace h tp)). q \<noteq> p \<longrightarrow> s_finished (h_span h q)"
    and "h_active h \<and> \<not> tr_stopped (h_tracer h)" "length (tr_out (h_tracer h)) < payloadQueueSize"
  shows "map ft_spans (tr_out (h_tracer (Finish x p now opts stk h)))
      = map ft_spans (tr_out (h_tracer h)) @ [t_spans (h_trace h tp)]
    \<and> t_spans (h_trace (Finish x p now opts stk h) tp) = []"
proof -
  let ?\<sigma> = "abs_state h" and ?h' = "Finish x p now opts stk h"
  have inv: "heap_wf h" "trace_inv traceMaxSize ?\<sigma> w" using treach_inv[OF assms(1)] by (simp_all add: machine_inv_def)
  have ok: "buf_ok traceMaxSize ?\<sigma> tp" using inv(2) by (rule trace_invD)
  have op: "\<not> a_fin ?\<sigma> p" "a_tr ?\<sigma> p = Some tp" "\<not> a_full ?\<sigma> tp" using assms(3-5) by simp_all
  then have pin: "p \<in> set (a_buf ?\<sigma> tp)" and cnt: "a_cnt ?\<sigma> tp = length (filter (a_fin ?\<sigma>) (a_buf ?\<sigma> tp))"
    and d: "distinct (a_buf ?\<sigma> tp)" using ok by (auto simp: buf_ok_def)
  have "length (a_buf ?\<sigma> tp) = length (filter ((a_fin ?\<sigma>)(p := True)) (a_buf ?\<sigma> tp))"
    unfolding all_filter_length using assms(6) by simp
  then have len: "length (a_buf ?\<sigma> tp) = Suc (a_cnt ?\<sigma> tp)"
    using count_finish[where f = "a_fin ?\<sigma>", OF d pin op(1)] cnt by simp
  have "abs_state ?h' = abs_flush payloadQueueSize tp
      (?\<sigma>\<lparr>a_fin := (a_fin ?\<sigma>)(p := True), a_cnt := (a_cnt ?\<sigma>)(tp := Suc (a_cnt ?\<sigma> tp))\<rparr>)"
    unfolding Finish_abs(1)[OF inv(1) assms(2)] by (rule abs_finish_simps(3)[OF op(1,2,3) len])
  then have "a_out (abs_state ?h') = a_out ?\<sigma> @ [a_buf ?\<sigma> tp]" "a_buf (abs_state ?h') tp = []"
    using assms(7,8) by (simp_all add: abs_flush_def)
  then show ?thesis by simp
qed

theorem last_finish_flushes_witness:
  "map ft_spans (tr_out (h_tracer (Finish sample_ext 3 30 [] [] run3))) = [[0, 3]]"
  using last_finish_flushes[OF run_reach(1,3) run_abs(4,5,2) _ run_abs(7)] run_abs(1,3,6) by simp



text \<open>
  C10: a finished span is frozen: \<open>SetTag\<close> with any key and value, \<open>SetOperationName\<close>, the setting of
  the sampling priority and a second \<open>finish\<close> leave the whole store as it is.
\<close>

theorem finished_span_frozen:
  assumes "s_finished (h_span h p)"
  shows "SetTag p k v stk h = Some h \<and> SetOperationName p nm h = h
    \<and> setSamplingPriority p pr n r h = h \<and> span_finish x p t h = h"
  using finished_frozen[OF assms] by simp

theorem finished_span_frozen_witness:
  "SetTag 0 ''k'' (VString ''v'') [] run3 = Some run3 \<and> SetOperationName 0 ''other'' run3 = run3"
  using finished_span_frozen[OF run_abs(3)] by simp

text \<open>
  \<open>SetUser\<close> does not look at the finished flag: on a trace whose root span is finished (and may
  already be in the hands of the trace writer) it still writes the user id into the root's tags.
\<close>

theorem SetUser_writes_finished_root:
  assumes "c_trace (h_ctx h (s_context (h_span h p))) = Some tp" "t_root (h_trace h tp) = Some rp"
    and "c_trace (h_ctx h (s_context (h_span h rp))) = Some rt" "s_finished (h_span h rp)"
  shows "\<exists>h'. SetUser p uid [] h = Some h' \<and> s_finished (h_span h' rp) \<and> m_get (s_Meta (h_span h' rp)) keyUserID = Some uid"
  using assms by (simp add: SetUser_def Let_def user_tags_def setMeta_def)

theorem SetUser_writes_finished_root_witness:
  "\<exists>h'. SetUser 0 ''bob'' [] (upd_trace 1 (\<lambda>t. t\<lparr>t_root := Some 0\<rparr>) run3) = Some h'
    \<and> m_get (s_Meta (h_span h' 0)) keyUserID = Some ''bob''"
proof -
  let ?h = "upd_trace 1 (\<lambda>t. t\<lparr>t_root := Some 0\<rparr>) run3"
  have "c_trace (h_ctx ?h (s_context (h_span ?h 0))) = Some 1"
    using run3(3) by (simp add: span_trace_def split: if_splits)
  moreover have "t_root (h_trace ?h 1) = Some 0" "s_finished (h_span ?h 0)" using run_abs(3) by simp_all
  ultimately show ?thesis using SetUser_writes_finished_root[of ?h 0 1 0 1 "''bob''"] by blast
qed

end
