(* ===== verification/Sampler_Laws.thy ===== *)
theory Sampler_Laws
  imports Samplers
begin

section \<open>Laws of the samplers and of the rate limiter\<close>

text \<open>
  The effective rate of the limiter, the rates the agent sends, the language of glob patterns,
  the decision maker tag, and the rules read from the environment.
\<close>

subsection \<open>A limiter that counts\<close>

text \<open>
  The contract between a rules sampler and its limiter: a limiter in a good state answers with a
  rate between 0 and 1 and stays good.  The state says how many more calls it can count exactly:
  the counters are float64.
\<close>

definition unit_rate :: "float64 \<Rightarrow> bool" where
  "unit_rate f \<longleftrightarrow> (case f of Fin q \<Rightarrow> 0 \<le> q \<and> q \<le> 1 | _ \<Rightarrow> False)"

fun run_limiter :: "(int \<Rightarrow> 'l \<Rightarrow> bool \<times> float64 \<times> 'l) \<Rightarrow> int list \<Rightarrow> 'l \<Rightarrow> (bool \<times> float64) list" where
  "run_limiter ask [] l = []"
| "run_limiter ask (t # ts) l = (case ask t l of (b, er, l') \<Rightarrow> (b, er) # run_limiter ask ts l')"

locale limiter =
  fixes ask :: "int \<Rightarrow> 'l \<Rightarrow> bool \<times> float64 \<times> 'l"
    and good :: "nat \<Rightarrow> 'l \<Rightarrow> bool"
  assumes ask_rate: "good (Suc n) l \<Longrightarrow> ask now l = (b, er, l') \<Longrightarrow> unit_rate er"
    and ask_good: "good (Suc n) l \<Longrightarrow> ask now l = (b, er, l') \<Longrightarrow> good n l'"
begin

lemma run_rates: "good (length ts) l \<Longrightarrow> (b, er) \<in> set (run_limiter ask ts l) \<Longrightarrow> unit_rate er"
proof (induction ts arbitrary: l)
  case (Cons t ts)
  obtain b' er' l' where a: "ask t l = (b', er', l')" by (cases "ask t l") auto
  have "good (length ts) l'" using Cons.prems(1) a ask_good by simp
  then show ?case using Cons a ask_rate by fastforce
qed simp

end

definition counts :: "rateLimiter \<Rightarrow> nat \<Rightarrow> nat \<Rightarrow> nat \<Rightarrow> nat \<Rightarrow> bool" where
  "counts r a s pa ps \<longleftrightarrow> l_allowed r = Fin (of_nat a) \<and> l_seen r = Fin (of_nat s)
     \<and> l_prevAllowed r = Fin (of_nat pa) \<and> l_prevSeen r = Fin (of_nat ps) \<and> a \<le> s \<and> pa \<le> ps"

definition limiter_good :: "nat \<Rightarrow> rateLimiter \<Rightarrow> bool" where
  "limiter_good n r \<longleftrightarrow> (\<exists>a s pa ps. counts r a s pa ps \<and> s + n < 2 ^ 51 \<and> ps + n < 2 ^ 51)"

lemma f64_add_nat: "a + b < 2 ^ 53 \<Longrightarrow> f64_add (Fin (of_nat a)) (Fin (of_nat b)) = Fin (of_nat (a + b))"
proof -
  assume "a + b < 2 ^ 53"
  then have "f64_of_int (int (a + b)) = Fin (of_int (int (a + b)))" by (intro f64_of_int_exact) simp
  then show ?thesis by (simp add: f64_of_int_def)
qed

lemma f64_div_nat: "a \<le> b \<Longrightarrow> 0 < b \<Longrightarrow> unit_rate (f64_div (Fin (of_nat a)) (Fin (of_nat b)))"
proof -
  assume "a \<le> b" "0 < b"
  then have "0 \<le> (of_nat a / of_nat b :: rat)" "(of_nat a / of_nat b :: rat) \<le> 1" by simp_all
  from f64_round_unit[OF this] \<open>0 < b\<close> show ?thesis by (auto simp: unit_rate_def)
qed

lemma reset_period_counts:
  assumes "counts r a s pa ps"
  shows "\<exists>a' s' pa' ps'. counts (reset_period now r) a' s' pa' ps' \<and> s' \<le> s \<and> ps' \<le> max s ps"
proof -
  have "reset_period now r = r \<or> counts (reset_period now r) 0 0 a s \<or> counts (reset_period now r) 0 0 0 0"
    using assms unfolding reset_period_def Let_def by (simp add: counts_def)
  then consider "reset_period now r = r"
    | "counts (reset_period now r) 0 0 a s" | "counts (reset_period now r) 0 0 0 0" by blast
  then show ?thesis
    using assms by cases (fastforce, (metis le_max_iff_disj le_refl le0)+)
qed

lemma allowOne_counts:
  assumes c: "counts r a s pa ps" and room: "s < 2 ^ 51" "ps < 2 ^ 51" and al: "allowOne x now r = (b, er, r')"
  shows "unit_rate er \<and> (\<exists>a' s' pa' ps'. counts r' a' s' pa' ps' \<and> s' \<le> Suc s \<and> ps' \<le> max s ps)"
proof -
  obtain a1 s1 pa1 ps1 where c1: "counts (reset_period now r) a1 s1 pa1 ps1" "s1 \<le> s" "ps1 \<le> max s ps"
    using reset_period_counts[OF c] by blast
  let ?r1 = "reset_period now r"
  let ?a = "if b then Suc a1 else a1"
  have inc: "f64_round (of_nat n + 1) = Fin (1 + of_nat n)" if "n < 2 ^ 51" for n
    using f64_add_nat[of n 1] that by simp
  have lim: "s1 < 2 ^ 51" "ps1 < 2 ^ 51" "a1 \<le> s1" "pa1 \<le> ps1" using c1 room by (auto simp: counts_def)
  have r': "counts r' ?a (Suc s1) pa1 ps1"
    using al c1(1) lim by (auto simp: allowOne_def Let_def counts_def inc)
  have "er = f64_div (f64_add (l_prevAllowed r') (l_allowed r')) (f64_add (l_prevSeen r') (l_seen r'))"
    using al by (auto simp: allowOne_def Let_def)
  also have "\<dots> = f64_div (f64_add (Fin (of_nat pa1)) (Fin (of_nat ?a))) (f64_add (Fin (of_nat ps1)) (Fin (of_nat (Suc s1))))"
    using r' by (simp only: counts_def)
  also have "\<dots> = f64_div (Fin (of_nat (pa1 + ?a))) (Fin (of_nat (ps1 + Suc s1)))"
  proof -
    have "pa1 + ?a < 2 ^ 53" "ps1 + Suc s1 < 2 ^ 53" using lim by auto
    then show ?thesis by (simp only: f64_add_nat)
  qed
  finally have er: "er = f64_div (Fin (of_nat (pa1 + ?a))) (Fin (of_nat (ps1 + Suc s1)))" .
  have "unit_rate er" unfolding er by (rule f64_div_nat) (use lim in auto)
  then show ?thesis using r' c1(2,3) by blast
qed

interpretation al: limiter "allowOne x" limiter_good for x
proof
  fix n l now b er l'
  assume g: "limiter_good (Suc n) l" and a: "allowOne x now l = (b, er, l')"
  then obtain a1 s pa ps where c: "counts l a1 s pa ps" "s + Suc n < 2 ^ 51" "ps + Suc n < 2 ^ 51"
    by (auto simp: limiter_good_def)
  note r = allowOne_counts[OF c(1) _ _ a]
  show "unit_rate er" using r c(2,3) by simp
  show "limiter_good n l'" using r c(2,3) unfolding limiter_good_def by fastforce
qed

subsection \<open>Glob patterns\<close>

text \<open>The strings a pattern stands for: \<open>*\<close> any text and \<open>?\<close> any character, without line feeds.\<close>

fun glob_lang :: "string \<Rightarrow> string set" where
  "glob_lang [] = {[]}"
| "glob_lang (c # p) =
    (if c = CHR ''*'' then {u @ v | u v. CHR 0x0A \<notin> set u \<and> v \<in> glob_lang p}
     else if c = CHR ''?'' then {x # v | x v. x \<noteq> CHR 0x0A \<and> v \<in> glob_lang p}
     else {c # v | v. v \<in> glob_lang p})"

lemma glob_lang_star: "glob_lang (CHR ''*'' # p) = {u @ v | u v. CHR 0x0A \<notin> set u \<and> v \<in> glob_lang p}"
  by simp

lemma glob_lang_iff: "glob p s \<longleftrightarrow> s \<in> glob_lang p"
proof (induction p s rule: glob.induct)
  case (2 c p)
  then show ?case by auto
next
  case (3 c p x xs)
  show ?case
  proof (cases "c = CHR ''*''")
    case True
    have "x # xs \<in> glob_lang (c # p) \<longleftrightarrow> x # xs \<in> glob_lang p \<or> (x \<noteq> CHR 0x0A \<and> xs \<in> glob_lang (c # p))"
    proof
      assume "x # xs \<in> glob_lang (c # p)"
      then obtain u v where "x # xs = u @ v" "CHR 0x0A \<notin> set u" "v \<in> glob_lang p" using True by auto
      then show "x # xs \<in> glob_lang p \<or> (x \<noteq> CHR 0x0A \<and> xs \<in> glob_lang (c # p))"
        using True by (cases u) auto
    next
      assume "x # xs \<in> glob_lang p \<or> (x \<noteq> CHR 0x0A \<and> xs \<in> glob_lang (c # p))"
      then consider "x # xs \<in> glob_lang p" | u v where "xs = u @ v" "CHR 0x0A \<notin> set (x # u)" "v \<in> glob_lang p"
        using True by auto
      then show "x # xs \<in> glob_lang (c # p)"
      proof cases
        case 1
        then have "x # xs = [] @ x # xs \<and> CHR 0x0A \<notin> set [] \<and> x # xs \<in> glob_lang p" by simp
        then show ?thesis unfolding True glob_lang_star by blast
      next
        case (2 u v)
        then have "x # xs = (x # u) @ v \<and> CHR 0x0A \<notin> set (x # u) \<and> v \<in> glob_lang p" by simp
        then show ?thesis unfolding True glob_lang_star by blast
      qed
    qed
    then show ?thesis using 3 True by simp
  next
    case False
    then show ?thesis using 3 by (cases "c = CHR ''?''") auto
  qed
qed auto

subsection \<open>Rules from the environment\<close>

definition rate_ok :: "float64 \<Rightarrow> bool" where
  "rate_ok f \<longleftrightarrow> \<not> f64_lt f (Fin 0) \<and> \<not> f64_lt (Fin 1) f"

lemma unmarshal_rule_rates: "unmarshal_rule pf typ i lp v = Inr rs \<Longrightarrow> r \<in> set rs \<Longrightarrow> rate_ok (sr_Rate r)"
  by (auto simp: unmarshal_rule_def rate_ok_def NameServiceRule_def ServiceRule_def NameRule_def
      split: if_splits option.splits SamplingRuleType.splits)

lemma unmarshal_loop_rates:
  assumes "unmarshal_loop pf ty i vs rules errs = (rules', errs')" "\<forall>r \<in> set rules. rate_ok (sr_Rate r)"
  shows "\<forall>r \<in> set rules'. rate_ok (sr_Rate r)"
  using assms
proof (induction pf ty i vs rules errs rule: unmarshal_loop.induct)
  case (2 pf ty i v vs rules errs)
  then show ?case using unmarshal_rule_rates[of pf ty i i v] by (fastforce split: sum.splits)
qed simp

lemma unmarshal_loop_counts:
  assumes "unmarshal_loop pf SamplingRuleSpan i vs rules errs = (rules', errs')"
  shows "length rules' + length errs' = length rules + length errs + length vs"
  using assms
proof (induction pf SamplingRuleSpan i vs rules errs rule: unmarshal_loop.induct)
  case (2 pf i v vs rules errs)
  have "length rs = 1" if "unmarshal_rule pf SamplingRuleSpan i i v = Inr rs" for rs
    using that by (auto simp: unmarshal_rule_def split: if_splits option.splits)
  then show ?case using 2 by (fastforce split: sum.splits)
qed simp

subsection \<open>Properties\<close>

text \<open>
  For any token bucket and any times, each of up to \<open>2 ^ 51 - 1\<close> calls of \<open>allowOne\<close> on a new
  limiter returns an effective rate between 0 and 1: the float64 counters stay exact, the allowed
  spans never outnumber the seen ones, and the divisor is never zero.
\<close>

theorem allowOne_effective_rate:
  assumes "length ts < 2 ^ 51" "(b, er) \<in> set (run_limiter (allowOne x) ts (new_limiter limit t0))"
  shows "unit_rate er"
proof -
  have "counts (new_limiter limit t0) 0 0 0 0" by (simp add: counts_def new_limiter_def)
  then have "limiter_good (length ts) (new_limiter limit t0)" using assms(1) by (force simp: limiter_good_def)
  then show ?thesis using assms(2) by (rule al.run_rates)
qed

definition every_other :: extlib where
  "every_other = \<lparr>x_allowN = (\<lambda>_ calls _. even (length calls)), x_obfuscateSQL = Some, x_quantizeRedis = (\<lambda>s. s)\<rparr>"

theorem allowOne_effective_rate_witness:
  "run_limiter (allowOne every_other) [0, 1] (new_limiter (Fin 1) 0) = [(True, Fin 1), (False, Fin (1 / 2))] \<and> unit_rate (Fin (1 / 2))"
proof -
  have r: "run_limiter (allowOne every_other) [0, 1] (new_limiter (Fin 1) 0) = [(True, Fin 1), (False, Fin (1 / 2))]"
    by code_simp
  have "unit_rate (Fin (1 / 2))"
    by (rule allowOne_effective_rate[where ts = "[0, 1]" and x = every_other and limit = "Fin 1" and ?t0.0 = 0 and b = False])
      (simp_all only: r, simp_all)
  with r show ?thesis by simp
qed


text \<open>
  After an update from the agent, the rate of a span is the rate sent for its service and
  environment, else the new default rate, else the default rate from before; a response that does
  not decode changes nothing.
\<close>

theorem readRatesJSON_getRate:
  "getRate (snd (readRatesJSON decoded ps)) s =
    (case decoded of
       None \<Rightarrow> getRate ps s
     | Some rates \<Rightarrow>
         (case m_get rates (''service:'' @ s_Service s @ '',env:'' @ m_str (s_Meta s) ext_Environment) of
            Some r \<Rightarrow> r
          | None \<Rightarrow> (case m_get rates defaultRateKey of Some d \<Rightarrow> d | None \<Rightarrow> ps_defaultRate ps)))"
  by (auto simp: readRatesJSON_def getRate_def Let_def split: option.split)




definition undecided :: heap where
  "undecided = \<lparr>h_span = (\<lambda>_. zero_span\<lparr>s_TraceID := 7\<rparr>), h_ctx = (\<lambda>_. zero_ctx\<lparr>c_trace := Some 1\<rparr>), h_trace = (\<lambda>_. newTrace),
     h_lim = (\<lambda>_. new_limiter (Fin 1) 0), h_next = 2, h_tracer = undefined, h_active = True, h_labels = []\<rparr>"




text \<open>
  The comment of \<open>SpanNameServiceRule\<close> says that the name is a glob pattern, but the rule also
  demands the exact name: it matches no span whose name differs from the text of the pattern.
\<close>

theorem SpanNameServiceRule_exact_name:
  assumes "nm \<noteq> []" "rule_match (SpanNameServiceRule nm svc rate lp) s"
  shows "s_Name s = nm"
  using assms by (simp add: rule_match_def SpanNameServiceRule_def zero_rule_def split: if_splits)

theorem SpanNameServiceRule_exact_name_witness:
  "\<not> rule_match (SpanNameServiceRule ''db.*'' ''web'' (Fin 1) 0) (zero_span\<lparr>s_Name := ''db.query'', s_Service := ''web''\<rparr>)
    \<and> globMatch ''db.*'' ''db.query''"
  using SpanNameServiceRule_exact_name[of "''db.*''" "''web''" "Fin 1" 0 "zero_span\<lparr>s_Name := ''db.query'', s_Service := ''web''\<rparr>"]
  by (auto simp: globMatch_def)

text \<open>
  The metric \<open>_dd.span_sampling.rule_rate\<close>, which is to hold the configured rate of the rule,
  gets the effective rate of the rule's limiter instead, as the variable is overwritten.
\<close>

theorem single_span_rule_rate_is_limiter_rate:
  assumes "rule_match rule (h_span h p)" "sampledByRate (s_SpanID (h_span h p)) (sr_Rate rule)" "s_finished (h_span h p)"
    and "sr_limiter rule = Some lp" "allowOne x now (h_lim h lp) = (True, er, l)"
  shows "fst (spanRules_apply x \<lparr>srs_rules = [rule]\<rparr> p now h)
    \<and> m_get (s_Metrics (h_span (snd (spanRules_apply x \<lparr>srs_rules = [rule]\<rparr> p now h)) p)) keySingleSpanSamplingRuleRate = Some er"
  using assms
  by (simp add: spanRules_apply_def Let_def setMetric_plain keep_single_span_def setSamplingPriority_def
      setSamplingPriorityLocked_def setMetric_default_def setMetric_pre_def m_get_def update_conv')

definition rate_heap :: heap where
  "rate_heap = \<lparr>h_span = (\<lambda>_. zero_span\<lparr>s_Name := ''a'', s_finished := True\<rparr>), h_ctx = (\<lambda>_. zero_ctx), h_trace = (\<lambda>_. newTrace),
        h_lim = (\<lambda>_. (new_limiter (Fin 1) 0)\<lparr>l_calls := [0, 0], l_seen := Fin 1\<rparr>), h_next = 1, h_tracer = undefined,
        h_active = True, h_labels = []\<rparr>"

lemma rate_heap_limiter:
  "fst (allowOne every_other 1 (h_lim rate_heap 0))" "fst (snd (allowOne every_other 1 (h_lim rate_heap 0))) = Fin (1 / 2)"
proof -
  have l: "h_lim rate_heap 0 = (new_limiter (Fin 1) 0)\<lparr>l_calls := [0, 0], l_seen := Fin 1\<rparr>" by (simp add: rate_heap_def)
  show "fst (allowOne every_other 1 (h_lim rate_heap 0))" unfolding l by code_simp
  show "fst (snd (allowOne every_other 1 (h_lim rate_heap 0))) = Fin (1 / 2)" unfolding l by code_simp
qed

theorem single_span_rule_rate_witness:
  "m_get (s_Metrics (h_span (snd (spanRules_apply every_other \<lparr>srs_rules = [SpanNameServiceRule ''a'' [] (Fin 1) 0]\<rparr> 0 1 rate_heap)) 0))
      keySingleSpanSamplingRuleRate = Some (Fin (1 / 2))"
proof -
  let ?rule = "SpanNameServiceRule ''a'' [] (Fin 1) 0"
  obtain l' where a: "allowOne every_other 1 (h_lim rate_heap 0) = (True, Fin (1 / 2), l')"
    using rate_heap_limiter by (cases "allowOne every_other 1 (h_lim rate_heap 0)") auto
  have r: "rule_match ?rule (h_span rate_heap 0)" "sampledByRate (s_SpanID (h_span rate_heap 0)) (sr_Rate ?rule)"
      "s_finished (h_span rate_heap 0)" "sr_limiter ?rule = Some 0"
    by (simp_all add: rate_heap_def rule_match_def SpanNameServiceRule_def zero_rule_def zero_span_def globMatch_def sampledByRate_def)
  from single_span_rule_rate_is_limiter_rate[OF r a] show ?thesis by (rule conjunct2)
qed

end
