(* ===== verification/Payload.thy ===== *)
theory Payload
  imports Go_Prelude
begin

section \<open>ddtrace/tracer/payload.go: the msgpack array that is built and read as a stream\<close>

text \<open>
  A payload is an eight byte header, the read position in it, the number of items and the buffer
  of encoded items.  The encoder of the third-party package msgp is the argument \<open>enc\<close>: the bytes
  it appends to the buffer and whether it succeeded (a failing encoder may have written a part).
  The locale \<open>byte_reader\<close> states the contract of \<open>io.Reader\<close>; it is interpreted on the payload.
\<close>

unbundle bit_operations_syntax

type_synonym byte = "8 word"

record payload =
  pl_header :: "byte list"
  pl_off :: nat
  pl_count :: u32
  pl_buf :: "byte list"

definition newPayload :: payload where
  "newPayload = \<lparr>pl_header = replicate 8 0, pl_off = 8, pl_count = 0, pl_buf = []\<rparr>"

text \<open>\<open>binary.BigEndian.PutUint64\<close>: the eight bytes of a number, most significant first.\<close>

definition put_uint64 :: "u64 \<Rightarrow> byte list" where
  "put_uint64 n = map (\<lambda>i. ucast (drop_bit (56 - 8 * i) n)) [0..<8]"

definition updateHeader :: "payload \<Rightarrow> payload" where
  "updateHeader p =
    (let n = (ucast (pl_count p) :: u64)
     in if n \<le> 15 then p\<lparr>pl_header := (pl_header p)[7 := 144 + ucast n], pl_off := 7\<rparr>
        else if n \<le> 2 ^ 16 - 1 then p\<lparr>pl_header := (put_uint64 n)[5 := 0xdc], pl_off := 5\<rparr>
        else p\<lparr>pl_header := (put_uint64 n)[3 := 0xdd], pl_off := 3\<rparr>)"

definition payload_push :: "('a \<Rightarrow> byte list \<times> bool) \<Rightarrow> 'a \<Rightarrow> payload \<Rightarrow> bool \<times> payload" where
  "payload_push enc t p =
    (case enc t of
       (bs, False) \<Rightarrow> (False, p\<lparr>pl_buf := pl_buf p @ bs\<rparr>)
     | (bs, True) \<Rightarrow> (True, updateHeader (p\<lparr>pl_buf := pl_buf p @ bs, pl_count := pl_count p + 1\<rparr>)))"

definition itemCount :: "payload \<Rightarrow> nat" where
  "itemCount p = unat (pl_count p)"

definition payload_size :: "payload \<Rightarrow> int" where
  "payload_size p = int (length (pl_buf p)) + int (length (pl_header p)) - int (pl_off p)"

definition payload_Close :: "payload \<Rightarrow> payload" where
  "payload_Close p = p\<lparr>pl_buf := []\<rparr>"

text \<open>\<open>reset\<close> panics: there is no resulting payload.\<close>

definition payload_reset :: "payload \<Rightarrow> payload option" where
  "payload_reset p = None"

text \<open>
  \<open>Read\<close> with a slice of length \<open>k\<close>: the bytes copied, whether the error is \<open>io.EOF\<close>, and the payload
  after it.  The second case is \<open>bytes.Buffer.Read\<close>.
\<close>

definition buffer_read :: "nat \<Rightarrow> byte list \<Rightarrow> byte list \<times> bool \<times> byte list" where
  "buffer_read k buf = (if buf = [] then ([], k \<noteq> 0, []) else (take k buf, False, drop k buf))"

definition payload_Read :: "nat \<Rightarrow> payload \<Rightarrow> byte list \<times> bool \<times> payload" where
  "payload_Read k p =
    (if pl_off p < length (pl_header p)
     then (let bs = take k (drop (pl_off p) (pl_header p)) in (bs, False, p\<lparr>pl_off := pl_off p + length bs\<rparr>))
     else (case buffer_read k (pl_buf p) of (bs, eof, buf) \<Rightarrow> (bs, eof, p\<lparr>pl_buf := buf\<rparr>)))"

subsection \<open>The contract of a reader\<close>

text \<open>
  \<open>read_all\<close> reads with a slice of \<open>k\<close> bytes until end of file, in at most \<open>fuel\<close> calls.
\<close>

primrec read_all :: "(nat \<Rightarrow> 's \<Rightarrow> 'b list \<times> bool \<times> 's) \<Rightarrow> nat \<Rightarrow> nat \<Rightarrow> 's \<Rightarrow> 'b list option" where
  "read_all read 0 k s = None"
| "read_all read (Suc fuel) k s = (case read k s of (bs, eof, s') \<Rightarrow>
     if eof then Some bs else map_option ((@) bs) (read_all read fuel k s'))"

text \<open>
  \<open>content\<close> is what is still to be read.  A read takes a prefix of it, a part at least when there is
  room and something left, and end of file is reported exactly when nothing is left.
\<close>

locale byte_reader =
  fixes read :: "nat \<Rightarrow> 's \<Rightarrow> 'b list \<times> bool \<times> 's"
    and content :: "'s \<Rightarrow> 'b list"
    and ok :: "'s \<Rightarrow> bool"
  assumes read_prefix: "ok s \<Longrightarrow> read k s = (bs, eof, s') \<Longrightarrow> content s = bs @ content s' \<and> ok s' \<and> length bs \<le> k"
    and read_progress: "ok s \<Longrightarrow> read k s = (bs, eof, s') \<Longrightarrow> 0 < k \<Longrightarrow> content s \<noteq> [] \<Longrightarrow> bs \<noteq> [] \<and> \<not> eof"
    and read_eof: "ok s \<Longrightarrow> read k s = (bs, eof, s') \<Longrightarrow> 0 < k \<Longrightarrow> content s = [] \<Longrightarrow> eof"
begin

lemma read_all_content:
  assumes "ok s" "0 < k" "length (content s) < fuel"
  shows "read_all read fuel k s = Some (content s)"
  using assms
proof (induction fuel arbitrary: s)
  case (Suc fuel)
  obtain bs eof s' where r: "read k s = (bs, eof, s')" by (cases "read k s") auto
  note p = read_prefix[OF Suc.prems(1) r]
  show ?case
  proof (cases "content s = []")
    case True
    then show ?thesis using p read_eof[OF Suc.prems(1) r Suc.prems(2)] r by simp
  next
    case False
    then have b: "bs \<noteq> []" "\<not> eof" using read_progress[OF Suc.prems(1) r Suc.prems(2)] by auto
    then have "length (content s') < fuel" using p Suc.prems(3) by (cases bs) auto
    then have "read_all read fuel k s' = Some (content s')" using Suc.IH p Suc.prems(2) by blast
    then show ?thesis using b p r by simp
  qed
qed simp

end

definition payload_content :: "payload \<Rightarrow> byte list" where
  "payload_content p = drop (pl_off p) (pl_header p) @ pl_buf p"

definition payload_ok :: "payload \<Rightarrow> bool" where
  "payload_ok p \<longleftrightarrow> length (pl_header p) = 8 \<and> pl_off p \<le> 8"

lemma drop_take_split: "drop i xs = take k (drop i xs) @ drop (i + length (take k (drop i xs))) xs"
  by (metis add.commute append_take_drop_id drop_drop length_drop length_take min.commute drop_all
      linorder_le_cases min.absorb1 min.absorb2 append_Nil2 take_all)

interpretation pr: byte_reader payload_Read payload_content payload_ok
proof (unfold_locales, goal_cases)
  case (1 s k bs eof s')
  show ?case
  proof (cases "pl_off s < length (pl_header s)")
    case True
    then have "bs = take k (drop (pl_off s) (pl_header s))" "s' = s\<lparr>pl_off := pl_off s + length bs\<rparr>"
      using 1(2) by (auto simp: payload_Read_def Let_def)
    then show ?thesis
      using 1(1) drop_take_split[of "pl_off s" "pl_header s" k] by (auto simp: payload_content_def payload_ok_def)
  next
    case False
    then show ?thesis using 1
      by (auto simp: payload_Read_def payload_content_def payload_ok_def buffer_read_def split: if_splits)
  qed
next
  case (2 s k bs eof s')
  then show ?case
    by (auto simp: payload_Read_def payload_content_def payload_ok_def buffer_read_def Let_def split: if_splits)
next
  case (3 s k bs eof s')
  then show ?case
    by (auto simp: payload_Read_def payload_content_def payload_ok_def buffer_read_def split: if_splits)
qed

subsection \<open>The stream of a payload is a msgpack array\<close>

text \<open>The array headers of the msgpack format.\<close>

definition msgpack_array :: "nat \<Rightarrow> byte list" where
  "msgpack_array n =
    (if n \<le> 15 then [144 + of_nat n]
     else if n < 2 ^ 16 then [0xdc, of_nat (n div 2 ^ 8), of_nat n]
     else [0xdd, of_nat (n div 2 ^ 24), of_nat (n div 2 ^ 16), of_nat (n div 2 ^ 8), of_nat n])"

primrec push_all :: "('a \<Rightarrow> byte list \<times> bool) \<Rightarrow> 'a list \<Rightarrow> payload \<Rightarrow> payload" where
  "push_all enc [] p = p"
| "push_all enc (t # ts) p = push_all enc ts (snd (payload_push enc t p))"

lemma put_uint64_length [simp]: "length (put_uint64 n) = 8"
  by (simp add: put_uint64_def)

lemma put_uint64_expand:
  "put_uint64 n = [ucast (drop_bit 56 n), ucast (drop_bit 48 n), ucast (drop_bit 40 n), ucast (drop_bit 32 n),
     ucast (drop_bit 24 n), ucast (drop_bit 16 n), ucast (drop_bit 8 n), ucast n]"
  by (simp add: put_uint64_def upt_rec numeral_eq_Suc)

lemma ucast_drop_bit_unat:
  "(ucast (drop_bit k (n :: u64)) :: byte) = of_nat (unat n div 2 ^ k)"
proof -
  have "unat n div 2 ^ k = unat (drop_bit k n)" by (simp only: unat_drop_bit_eq drop_bit_nat_def)
  then show ?thesis by (simp only: of_nat_unat)
qed

lemma unat_count [simp]: "unat (ucast (c :: u32) :: u64) = unat c"
proof -
  have "unat c < 2 ^ 64" using unsigned_less[of c] by (rule order.strict_trans) simp
  then show ?thesis by (simp add: unsigned_ucast_eq take_bit_nat_eq_self_iff)
qed

lemma updateHeader_content:
  assumes "length (pl_header p) = 8"
  shows "payload_content (updateHeader p) = msgpack_array (itemCount p) @ pl_buf p"
    and "payload_ok (updateHeader p)" and "pl_count (updateHeader p) = pl_count p" and "pl_buf (updateHeader p) = pl_buf p"
proof -
  obtain a0 a1 a2 a3 a4 a5 a6 a7 where h: "pl_header p = [a0, a1, a2, a3, a4, a5, a6, a7]"
    using assms by (auto simp: numeral_eq_Suc length_Suc_conv)
  let ?n = "ucast (pl_count p) :: u64"
  have c: "?n \<le> 15 \<longleftrightarrow> unat (pl_count p) \<le> 15" "?n \<le> 2 ^ 16 - 1 \<longleftrightarrow> unat (pl_count p) < 2 ^ 16"
    by (auto simp: word_le_nat_alt)
  have u: "(ucast ?n :: byte) = of_nat (unat (pl_count p))"
    using ucast_drop_bit_unat[of 0 ?n] by simp
  show "payload_content (updateHeader p) = msgpack_array (itemCount p) @ pl_buf p"
    unfolding payload_content_def updateHeader_def Let_def msgpack_array_def itemCount_def c h
      put_uint64_expand ucast_drop_bit_unat u unat_count
    by simp
qed (use assms in \<open>simp_all add: updateHeader_def payload_ok_def Let_def\<close>)

definition encodings :: "('a \<Rightarrow> byte list \<times> bool) \<Rightarrow> 'a list \<Rightarrow> byte list" where
  "encodings enc ts = concat (map (fst \<circ> enc) ts)"

definition pushed :: "('a \<Rightarrow> byte list \<times> bool) \<Rightarrow> 'a list \<Rightarrow> nat" where
  "pushed enc ts = length (filter (snd \<circ> enc) ts)"

lemma payload_push_sel:
  "fst (payload_push enc t p) = snd (enc t)"
  "pl_buf (snd (payload_push enc t p)) = pl_buf p @ fst (enc t)"
  "pl_count (snd (payload_push enc t p)) = (if snd (enc t) then pl_count p + 1 else pl_count p)"
  by (auto simp: payload_push_def updateHeader_def Let_def split: prod.split bool.split)

lemma payload_push_header:
  assumes "length (pl_header p) = 8"
  shows "length (pl_header (snd (payload_push enc t p))) = 8"
    and "snd (enc t) \<Longrightarrow> drop (pl_off (snd (payload_push enc t p))) (pl_header (snd (payload_push enc t p)))
      = msgpack_array (itemCount (snd (payload_push enc t p)))"
    and "\<not> snd (enc t) \<Longrightarrow> pl_header (snd (payload_push enc t p)) = pl_header p \<and> pl_off (snd (payload_push enc t p)) = pl_off p"
proof -
  let ?q = "p\<lparr>pl_buf := pl_buf p @ fst (enc t), pl_count := pl_count p + 1\<rparr>"
  have e: "snd (payload_push enc t p) = (if snd (enc t) then updateHeader ?q else p\<lparr>pl_buf := pl_buf p @ fst (enc t)\<rparr>)"
    by (cases "enc t") (auto simp: payload_push_def split: bool.split)
  have u: "payload_content (updateHeader ?q) = msgpack_array (itemCount ?q) @ pl_buf ?q"
    "pl_count (updateHeader ?q) = pl_count ?q" "pl_buf (updateHeader ?q) = pl_buf ?q" "payload_ok (updateHeader ?q)"
    using updateHeader_content[of ?q] assms by auto
  show "length (pl_header (snd (payload_push enc t p))) = 8" using assms u(4) by (simp add: e payload_ok_def)
  show "drop (pl_off (snd (payload_push enc t p))) (pl_header (snd (payload_push enc t p)))
      = msgpack_array (itemCount (snd (payload_push enc t p)))" if "snd (enc t)"
    using u that by (simp add: e payload_content_def itemCount_def)
  show "pl_header (snd (payload_push enc t p)) = pl_header p \<and> pl_off (snd (payload_push enc t p)) = pl_off p" if "\<not> snd (enc t)"
    using that by (simp add: e)
qed

definition array_started :: "payload \<Rightarrow> bool" where
  "array_started p \<longleftrightarrow> length (pl_header p) = 8 \<and> pl_off p \<le> 8
     \<and> drop (pl_off p) (pl_header p) = (if pl_count p = 0 \<and> pl_off p = 8 then [] else msgpack_array (itemCount p))"

text \<open>The header always announces the number of items in the buffer, as long as the counter does not wrap.\<close>

lemma payload_push_started:
  assumes "array_started p"
  shows "array_started (snd (payload_push enc t p))"
proof (cases "snd (enc t)")
  case True
  have l: "length (pl_header p) = 8" using assms by (simp add: array_started_def)
  note h = payload_push_header(1)[OF l, of enc t] payload_push_header(2)[OF l, of enc t, OF True]
  have "msgpack_array n \<noteq> []" for n by (simp add: msgpack_array_def)
  then have "pl_off (snd (payload_push enc t p)) < 8" using h by (metis drop_all linorder_not_le)
  then show ?thesis using h by (simp add: array_started_def)
next
  case False
  then show ?thesis using assms payload_push_header[of p enc t] payload_push_sel(3)[of enc t p]
    by (simp add: array_started_def itemCount_def)
qed

lemma push_all_sel:
  "array_started p \<Longrightarrow> array_started (push_all enc ts p)"
  "pl_buf (push_all enc ts p) = pl_buf p @ encodings enc ts"
  "pl_count (push_all enc ts p) = pl_count p + of_nat (pushed enc ts)"
proof (induction ts arbitrary: p)
  case (Cons t ts)
  {
    case 1
    then show ?case using Cons.IH(1)[OF payload_push_started[OF 1]] by simp
  next
    case 2
    then show ?case using Cons.IH(2) by (simp add: payload_push_sel encodings_def)
  next
    case 3
    then show ?case using Cons.IH(3) by (simp add: payload_push_sel pushed_def)
  }
qed (simp_all add: encodings_def pushed_def)

text \<open>
  Reading a payload to its end, with a slice of any positive length, ends and gives one msgpack
  array: the header for the number of pushed items and then their encodings in the order of the
  pushes, for any number of items that a 32-bit counter holds.
\<close>

theorem payload_stream:
  assumes "\<forall>t \<in> set ts. snd (enc t)" "ts \<noteq> []" "length ts < 2 ^ 32" "0 < k"
    and "length (payload_content (push_all enc ts newPayload)) < fuel"
  shows "read_all payload_Read fuel k (push_all enc ts newPayload) = Some (msgpack_array (length ts) @ encodings enc ts)"
proof -
  let ?p = "push_all enc ts newPayload"
  have s: "array_started newPayload" by (simp add: array_started_def newPayload_def)
  note a = push_all_sel(1)[OF s, of enc ts]
  have "pushed enc ts = length ts" using assms(1) by (auto simp: pushed_def intro: arg_cong[where f = length] filter_True)
  then have c: "pl_count ?p = of_nat (length ts)" using push_all_sel(3)[of enc ts newPayload] by (simp add: newPayload_def)
  then have u: "itemCount ?p = length ts" using assms(3) by (simp add: itemCount_def unsigned_of_nat take_bit_nat_eq_self)
  then have "pl_count ?p \<noteq> 0" using assms(2) by (auto simp: itemCount_def)
  then have "payload_content ?p = msgpack_array (length ts) @ encodings enc ts"
    using a u push_all_sel(2)[of enc ts newPayload] by (simp add: payload_content_def array_started_def newPayload_def)
  moreover have "payload_ok ?p" using a by (simp add: payload_ok_def array_started_def)
  ultimately show ?thesis using pr.read_all_content[OF _ assms(4,5)] by simp
qed

theorem payload_stream_witness:
  "read_all payload_Read 8 2 (push_all (\<lambda>t. ([t, t], True)) [1, 2] newPayload) = Some [0x92, 1, 1, 2, 2]"
proof -
  have "length (payload_content (push_all (\<lambda>t. ([t, t], True)) [1, 2] newPayload)) < 8"
    by (simp add: payload_content_def payload_push_def newPayload_def updateHeader_def Let_def)
  from payload_stream[OF _ _ _ _ this, where k = 2] show ?thesis by (simp add: msgpack_array_def encodings_def)
qed

end
