(* ===== verification/Agent_Writer.thy ===== *)
theory Agent_Writer
  imports Payload Samplers
begin

section \<open>ddtrace/tracer/writer.go: the writer that sends traces to the agent\<close>

text \<open>
  The agent writer with its payload, the uploads in flight (one goroutine each, at most
  \<open>concurrentConnectionLimit\<close>), the priority sampler it feeds and the statsd calls it made, in
  order.  A call that blocks gives \<open>None\<close>.  The transport is an argument: the result of sending
  a payload, \<open>None\<close> for an error and otherwise the decoded response.  The locale \<open>trace_writer\<close>
  states what the tracer relies on in a writer; both writers interpret it.
\<close>

text \<open>A statsd call: the metric, its tags and its value.\<close>

type_synonym statsd = "(string \<times> string list \<times> int) list"

abbreviation "payloadSizeLimit \<equiv> (4980736 :: int)"
abbreviation "concurrentConnectionLimit \<equiv> (100 :: nat)"

record agentTraceWriter =
  aw_payload :: payload
  aw_inflight :: "payload list"
  aw_prioritySampling :: prioritySampler
  aw_statsd :: statsd

definition newAgentTraceWriter :: "prioritySampler \<Rightarrow> agentTraceWriter" where
  "newAgentTraceWriter s = \<lparr>aw_payload = newPayload, aw_inflight = [], aw_prioritySampling = s, aw_statsd = []\<rparr>"

definition aw_count :: "string \<Rightarrow> string list \<Rightarrow> int \<Rightarrow> agentTraceWriter \<Rightarrow> agentTraceWriter" where
  "aw_count name tags v w = w\<lparr>aw_statsd := aw_statsd w @ [(name, tags, v)]\<rparr>"

text \<open>\<open>flush\<close> blocks when \<open>climit\<close> is full; otherwise it starts the upload of the old payload.\<close>

definition agent_flush :: "agentTraceWriter \<Rightarrow> agentTraceWriter option" where
  "agent_flush w =
    (if itemCount (aw_payload w) = 0 then Some w
     else if concurrentConnectionLimit \<le> length (aw_inflight w) then None
     else Some (w\<lparr>aw_payload := newPayload, aw_inflight := aw_inflight w @ [aw_payload w]\<rparr>))"

definition agent_add :: "('t \<Rightarrow> byte list \<times> bool) \<Rightarrow> 't \<Rightarrow> agentTraceWriter \<Rightarrow> agentTraceWriter option" where
  "agent_add enc tr w =
    (case payload_push enc tr (aw_payload w) of (ok, pl) \<Rightarrow>
       let w1 = w\<lparr>aw_payload := pl\<rparr>;
           w2 = (if ok then w1 else aw_count ''datadog.tracer.traces_dropped'' [''reason:encoding_error''] 1 w1)
       in if payloadSizeLimit < payload_size (aw_payload w2)
          then agent_flush (aw_count ''datadog.tracer.flush_triggered'' [''reason:size''] 1 w2)
          else Some w2)"

text \<open>
  The goroutine of \<open>flush\<close> for the upload at position \<open>i\<close>, up to its end, where it frees its slot of
  \<open>climit\<close>.  \<open>dur\<close> is the time it took.
\<close>

definition agent_upload :: "nat \<Rightarrow> (string, float64) gomap option option \<Rightarrow> int \<Rightarrow> agentTraceWriter \<Rightarrow> agentTraceWriter" where
  "agent_upload i rc dur w =
    (let p = aw_inflight w ! i;
         size = payload_size p; count = int (itemCount p);
         w1 = (case rc of
             None \<Rightarrow> aw_count ''datadog.tracer.traces_dropped'' [''reason:send_failed''] count w
           | Some body \<Rightarrow>
               let w2 = aw_count ''datadog.tracer.flush_traces'' [] count (aw_count ''datadog.tracer.flush_bytes'' [] size w)
               in (case readRatesJSON body (aw_prioritySampling w2) of (ok, ps) \<Rightarrow>
                     let w3 = w2\<lparr>aw_prioritySampling := ps\<rparr>
                     in if ok then w3 else aw_count ''datadog.tracer.decode_error'' [] 1 w3))
     in aw_count ''datadog.tracer.flush_duration'' [] dur
          (w1\<lparr>aw_inflight := take i (aw_inflight w1) @ drop (Suc i) (aw_inflight w1)\<rparr>))"

text \<open>
  \<open>wg.Wait()\<close>: the uploads end one after the other, in the order and with the results of the list;
  \<open>None\<close> when the list ends before the last upload does.
\<close>

fun wait_uploads :: "(nat \<times> (string, float64) gomap option option \<times> int) list \<Rightarrow> agentTraceWriter \<Rightarrow> agentTraceWriter option" where
  "wait_uploads sched w = (if aw_inflight w = [] then Some w else
     case sched of
       [] \<Rightarrow> None
     | (i, rc, dur) # sched' \<Rightarrow> if i < length (aw_inflight w) then wait_uploads sched' (agent_upload i rc dur w) else None)"

declare wait_uploads.simps [simp del]

definition agent_stop :: "(nat \<times> (string, float64) gomap option option \<times> int) list \<Rightarrow> agentTraceWriter \<Rightarrow> agentTraceWriter option" where
  "agent_stop sched w =
    (case agent_flush (aw_count ''datadog.tracer.flush_triggered'' [''reason:shutdown''] 1 w) of
       None \<Rightarrow> None
     | Some w1 \<Rightarrow> wait_uploads sched w1)"

subsection \<open>The contract of a trace writer\<close>

text \<open>
  \<open>buffered\<close> is the number of traces, or parts of traces, waiting in the writer.  Flushing leaves
  none, flushing an empty writer changes nothing, and every operation keeps the invariant.
\<close>

locale trace_writer =
  fixes add :: "'t \<Rightarrow> 'w \<Rightarrow> 'w option"
    and flush :: "'w \<Rightarrow> 'w option"
    and inv :: "'w \<Rightarrow> bool"
    and empty :: "'w \<Rightarrow> bool"
  assumes add_inv: "inv w \<Longrightarrow> add tr w = Some w' \<Longrightarrow> inv w'"
    and flush_inv: "inv w \<Longrightarrow> flush w = Some w' \<Longrightarrow> inv w' \<and> empty w'"
    and flush_empty: "empty w \<Longrightarrow> flush w = Some w"
begin

lemma adds_inv: "inv w \<Longrightarrow> fold (\<lambda>tr r. Option.bind r (add tr)) trs (Some w) = Some w' \<Longrightarrow> inv w'"
proof (induction trs arbitrary: w)
  case (Cons tr trs)
  have "fold (\<lambda>tr r. Option.bind r (add tr)) ts None = None" for ts by (induction ts) auto
  then show ?case using Cons by (cases "add tr w") (auto dest: add_inv)
qed auto

lemma adds_flush:
  assumes "inv w" "fold (\<lambda>tr r. Option.bind r (add tr)) trs (Some w) = Some w1" "flush w1 = Some w2"
  shows "inv w2 \<and> empty w2 \<and> flush w2 = Some w2"
  using flush_inv[OF adds_inv[OF assms(1,2)] assms(3)] flush_empty by blast

end

definition agent_inv :: "agentTraceWriter \<Rightarrow> bool" where
  "agent_inv w \<longleftrightarrow> array_started (aw_payload w)
     \<and> (payload_size (aw_payload w) \<le> payloadSizeLimit \<or> itemCount (aw_payload w) = 0)
     \<and> length (aw_inflight w) \<le> concurrentConnectionLimit"

definition agent_empty :: "agentTraceWriter \<Rightarrow> bool" where
  "agent_empty w \<longleftrightarrow> itemCount (aw_payload w) = 0"

lemma aw_count_sel [simp]:
  "aw_payload (aw_count n t v w) = aw_payload w" "aw_inflight (aw_count n t v w) = aw_inflight w"
  "aw_prioritySampling (aw_count n t v w) = aw_prioritySampling w"
  "aw_statsd (aw_count n t v w) = aw_statsd w @ [(n, t, v)]"
  by (simp_all add: aw_count_def)

lemma newPayload_started [simp]: "array_started newPayload" "itemCount newPayload = 0" "payload_size newPayload = 0"
  by (simp_all add: array_started_def newPayload_def itemCount_def payload_size_def)

lemma agent_flush_inv:
  "agent_inv w \<Longrightarrow> agent_flush w = Some w' \<Longrightarrow> agent_inv w' \<and> agent_empty w'"
  by (auto simp: agent_flush_def agent_inv_def agent_empty_def split: if_splits)

interpretation aw: trace_writer "agent_add enc" agent_flush agent_inv agent_empty
proof (unfold_locales, goal_cases)
  case (1 w tr w')
  let ?pl = "snd (payload_push enc tr (aw_payload w))"
  have s: "array_started ?pl" using 1(1) payload_push_started by (auto simp: agent_inv_def)
  show ?case
  proof (cases "payload_size ?pl \<le> payloadSizeLimit")
    case True
    then show ?thesis using 1 s by (auto simp: agent_add_def agent_inv_def Let_def split: prod.splits if_splits)
  next
    case False
    then show ?thesis using 1 s
      by (auto simp: agent_add_def agent_inv_def agent_flush_def Let_def split: prod.splits if_splits)
  qed
next
  case (2 w w')
  then show ?case by (rule agent_flush_inv)
next
  case (3 w)
  then show ?case by (simp add: agent_empty_def agent_flush_def)
qed

subsection \<open>Interleavings of calls and uploads\<close>

text \<open>
  \<open>agent_reach enc ps n w\<close>: the writer can be in the state \<open>w\<close> after \<open>n\<close> traces were accepted by \<open>add\<close>, with
  uploads ending at any time, in any order and with any result.
\<close>

inductive agent_reach :: "('t \<Rightarrow> byte list \<times> bool) \<Rightarrow> prioritySampler \<Rightarrow> nat \<Rightarrow> agentTraceWriter \<Rightarrow> bool"
  for enc :: "'t \<Rightarrow> byte list \<times> bool" and ps :: prioritySampler where
  start: "agent_reach enc ps 0 (newAgentTraceWriter ps)"
| add: "agent_reach enc ps n w \<Longrightarrow> agent_add enc tr w = Some w' \<Longrightarrow>
    agent_reach enc ps (if snd (enc tr) then Suc n else n) w'"
| flush: "agent_reach enc ps n w \<Longrightarrow> agent_flush w = Some w' \<Longrightarrow> agent_reach enc ps n w'"
| upload: "agent_reach enc ps n w \<Longrightarrow> i < length (aw_inflight w) \<Longrightarrow> agent_reach enc ps n (agent_upload i rc dur w)"
| shutdown: "agent_reach enc ps n w \<Longrightarrow>
    agent_reach enc ps n (aw_count ''datadog.tracer.flush_triggered'' [''reason:shutdown''] 1 w)"

definition statsd_total :: "string \<Rightarrow> string list \<Rightarrow> agentTraceWriter \<Rightarrow> int" where
  "statsd_total name tags w = (\<Sum>(n, t, v)\<leftarrow>aw_statsd w. if n = name \<and> t = tags then v else 0)"

abbreviation "flushed_traces \<equiv> statsd_total ''datadog.tracer.flush_traces'' []"
abbreviation "lost_traces \<equiv> statsd_total ''datadog.tracer.traces_dropped'' [''reason:send_failed'']"

definition waiting_traces :: "agentTraceWriter \<Rightarrow> int" where
  "waiting_traces w = int (itemCount (aw_payload w)) + (\<Sum>p\<leftarrow>aw_inflight w. int (itemCount p))"

lemma statsd_total_count [simp]:
  "statsd_total name tags (aw_count n t v w) = statsd_total name tags w + (if n = name \<and> t = tags then v else 0)"
  by (simp add: statsd_total_def)

lemma statsd_total_upd [simp]:
  "statsd_total name tags (w\<lparr>aw_payload := p\<rparr>) = statsd_total name tags w"
  "statsd_total name tags (w\<lparr>aw_inflight := ps\<rparr>) = statsd_total name tags w"
  "statsd_total name tags (w\<lparr>aw_prioritySampling := s\<rparr>) = statsd_total name tags w"
  by (simp_all add: statsd_total_def)

lemma agent_flush_traces:
  "agent_flush w = Some w' \<Longrightarrow> waiting_traces w' = waiting_traces w \<and> statsd_total name tags w' = statsd_total name tags w"
  by (auto simp: agent_flush_def waiting_traces_def split: if_splits)

lemma sum_list_remove_nth:
  "i < length xs \<Longrightarrow> (\<Sum>x\<leftarrow>xs. f x) = f (xs ! i) + (\<Sum>x\<leftarrow>take i xs @ drop (Suc i) xs. (f x :: int))"
  by (subst id_take_nth_drop[of i xs]) auto

lemma agent_upload_traces:
  assumes "i < length (aw_inflight w)"
  shows "waiting_traces (agent_upload i rc dur w) + flushed_traces (agent_upload i rc dur w) + lost_traces (agent_upload i rc dur w)
    = waiting_traces w + flushed_traces w + lost_traces w"
  using sum_list_remove_nth[OF assms, of "\<lambda>p. int (itemCount p)"]
  by (auto simp: agent_upload_def waiting_traces_def Let_def split: option.split prod.split)

lemma itemCount_push:
  assumes "Suc (itemCount p) < 2 ^ 32"
  shows "itemCount (snd (payload_push enc tr p)) = itemCount p + (if snd (enc tr) then 1 else 0)"
  using assms by (simp add: itemCount_def payload_push_sel unat_word_ariths)

lemma agent_add_traces:
  assumes "agent_add enc tr w = Some w'" "Suc (itemCount (aw_payload w)) < 2 ^ 32"
  shows "waiting_traces w' + flushed_traces w' + lost_traces w'
    = waiting_traces w + flushed_traces w + lost_traces w + (if snd (enc tr) then 1 else 0)"
proof -
  let ?w1 = "w\<lparr>aw_payload := snd (payload_push enc tr (aw_payload w))\<rparr>"
  let ?w2 = "if snd (enc tr) then ?w1 else aw_count ''datadog.tracer.traces_dropped'' [''reason:encoding_error''] 1 ?w1"
  have t: "waiting_traces ?w2 + flushed_traces ?w2 + lost_traces ?w2
      = waiting_traces w + flushed_traces w + lost_traces w + (if snd (enc tr) then 1 else 0)"
    using itemCount_push[OF assms(2), of enc tr] by (simp add: waiting_traces_def)
  have "agent_add enc tr w = (if payloadSizeLimit < payload_size (aw_payload ?w2)
      then agent_flush (aw_count ''datadog.tracer.flush_triggered'' [''reason:size''] 1 ?w2) else Some ?w2)"
    using payload_push_sel(1)[of enc tr "aw_payload w"]
    by (cases "payload_push enc tr (aw_payload w)") (auto simp: agent_add_def)
  then show ?thesis
    using assms(1) t agent_flush_traces[of "aw_count ''datadog.tracer.flush_triggered'' [''reason:size''] 1 ?w2" w']
    by (auto simp: waiting_traces_def split: if_splits)
qed

definition events_ok :: "agentTraceWriter \<Rightarrow> bool" where
  "events_ok w \<longleftrightarrow> 0 \<le> flushed_traces w \<and> 0 \<le> lost_traces w"

lemma events_ok_steps:
  "events_ok w \<Longrightarrow> agent_flush w = Some w' \<Longrightarrow> events_ok w'"
  "events_ok w \<Longrightarrow> agent_add enc tr w = Some w' \<Longrightarrow> events_ok w'"
  "events_ok w \<Longrightarrow> events_ok (agent_upload i rc dur w)"
  by (auto simp: events_ok_def agent_flush_def agent_add_def agent_upload_def Let_def
      split: if_splits prod.splits option.splits)

lemma agent_reach_events: "agent_reach enc ps n w \<Longrightarrow> events_ok w"
proof (induction rule: agent_reach.induct)
  case start
  then show ?case by (simp add: events_ok_def statsd_total_def newAgentTraceWriter_def)
next
  case (shutdown n w)
  then show ?case by (simp add: events_ok_def)
qed (blast intro: events_ok_steps)+

lemma waiting_ge_count: "int (itemCount (aw_payload w)) \<le> waiting_traces w"
  unfolding waiting_traces_def by (simp, rule sum_list_nonneg) auto

lemma agent_reach_traces:
  "agent_reach enc ps n w \<Longrightarrow> n < 2 ^ 32 - 1 \<Longrightarrow> int n = waiting_traces w + flushed_traces w + lost_traces w"
proof (induction rule: agent_reach.induct)
  case start
  then show ?case by (simp add: statsd_total_def newAgentTraceWriter_def waiting_traces_def)
next
  case (add n w tr w')
  have n: "n < 2 ^ 32 - 1" using add.prems by (simp split: if_splits)
  then have "itemCount (aw_payload w) \<le> n"
    using add.IH waiting_ge_count[of w] agent_reach_events[OF add.hyps(1)] by (simp add: events_ok_def)
  then show ?case using agent_add_traces[OF add.hyps(2)] add.IH n by auto
next
  case (flush n w w')
  then show ?case using agent_flush_traces[OF flush.hyps(2)] by simp
next
  case (upload n w i rc dur)
  then show ?case using agent_upload_traces[OF upload.hyps(2)] by simp
next
  case (shutdown n w)
  then show ?case by (simp add: waiting_traces_def)
qed

lemma wait_uploads_reach:
  "agent_reach enc ps n w \<Longrightarrow> wait_uploads sched w = Some w' \<Longrightarrow>
    agent_reach enc ps n w' \<and> aw_inflight w' = [] \<and> aw_payload w' = aw_payload w"
proof (induction sched w rule: wait_uploads.induct)
  case (1 sched w)
  have p: "aw_payload (agent_upload i rc dur w) = aw_payload w" for i rc dur
    by (auto simp: agent_upload_def Let_def split: option.split prod.split)
  show ?case
  proof (cases "aw_inflight w = []")
    case True
    then show ?thesis using "1.prems" by (simp add: wait_uploads.simps)
  next
    case False
    then obtain i rc dur sched' where s: "sched = (i, rc, dur) # sched'" "i < length (aw_inflight w)"
        "wait_uploads sched' (agent_upload i rc dur w) = Some w'"
      using "1.prems"(2) by (subst (asm) wait_uploads.simps) (auto split: list.splits if_splits)
    then show ?thesis using "1.IH"[OF False s(1) refl refl s(2) agent_reach.upload[OF "1.prems"(1) s(2)] s(3)] p by simp
  qed
qed

lemma wait_uploads_returns:
  "length (aw_inflight w) \<le> length rs \<Longrightarrow> \<exists>w'. wait_uploads (map (\<lambda>(rc, dur). (0, rc, dur)) rs) w = Some w'"
proof (induction rs arbitrary: w)
  case (Cons r rs)
  have "length (aw_inflight (agent_upload 0 rc dur w)) = length (aw_inflight w) - 1" for rc dur
    by (auto simp: agent_upload_def Let_def split: option.split prod.split)
  then show ?case using Cons by (cases r) (auto simp: wait_uploads.simps[of _ w])
qed (simp add: wait_uploads.simps)

text \<open>
  C17: no trace is lost silently.  For every interleaving of \<open>add\<close>, \<open>flush\<close> and ending uploads, when
  \<open>stop\<close> returns nothing is buffered or in flight, and the traces that \<open>add\<close> accepted are exactly
  those counted as flushed and those counted as lost by a failed upload.
\<close>

theorem agent_stop_accounts:
  assumes "agent_reach enc ps n w" "n < 2 ^ 32 - 1" "agent_stop sched w = Some w'"
  shows "aw_inflight w' = [] \<and> itemCount (aw_payload w') = 0 \<and> int n = flushed_traces w' + lost_traces w'"
proof -
  obtain w1 where f: "agent_flush (aw_count ''datadog.tracer.flush_triggered'' [''reason:shutdown''] 1 w) = Some w1"
      "wait_uploads sched w1 = Some w'"
    using assms(3) by (auto simp: agent_stop_def split: option.splits)
  have r: "agent_reach enc ps n w1" using agent_reach.flush[OF agent_reach.shutdown[OF assms(1)] f(1)] .
  have e: "itemCount (aw_payload w1) = 0" using f(1) by (auto simp: agent_flush_def split: if_splits)
  note u = wait_uploads_reach[OF r f(2)]
  then have "waiting_traces w' = 0" using e by (simp add: waiting_traces_def)
  then show ?thesis using agent_reach_traces[of enc ps n w'] u e assms(2) by simp
qed

theorem agent_stop_accounts_witness:
  "\<exists>w w'. agent_add (\<lambda>_. ([1], True)) () (newAgentTraceWriter newPrioritySampler) = Some w
    \<and> agent_stop [(0, None, 7)] w = Some w' \<and> lost_traces w' = 1 \<and> flushed_traces w' = 0"
proof -
  let ?enc = "\<lambda>_ :: unit. ([1], True) :: byte list \<times> bool"
  let ?pl = "snd (payload_push ?enc () newPayload)"
  let ?w = "(newAgentTraceWriter newPrioritySampler)\<lparr>aw_payload := ?pl\<rparr>"
  have c: "itemCount ?pl = 1" by (simp add: itemCount_push)
  have z: "payload_size ?pl \<le> payloadSizeLimit"
    by (simp add: payload_size_def payload_push_def newPayload_def updateHeader_def)
  have a: "agent_add ?enc () (newAgentTraceWriter newPrioritySampler) = Some ?w"
    using z by (simp add: agent_add_def newAgentTraceWriter_def payload_push_def)
  then have r: "agent_reach ?enc newPrioritySampler 1 ?w"
    using agent_reach.add[OF agent_reach.start a] by simp
  have s: "agent_stop [(0, None, 7)] ?w = Some (agent_upload 0 None 7
      (aw_count ''datadog.tracer.flush_triggered'' [''reason:shutdown''] 1 ?w\<lparr>aw_payload := newPayload, aw_inflight := [?pl]\<rparr>))"
    using c by (simp add: agent_stop_def agent_flush_def newAgentTraceWriter_def wait_uploads.simps agent_upload_def Let_def)
  show ?thesis
    using a s agent_stop_accounts[OF r _ s] c
    by (simp add: agent_upload_def statsd_total_def newAgentTraceWriter_def)
qed



text \<open>
  C24: a payload that waits for more traces stays within \<open>payloadSizeLimit\<close>, and no more than
  \<open>concurrentConnectionLimit\<close> uploads run, in every reachable state.
\<close>

theorem agent_writer_bounds:
  assumes "agent_reach enc ps n w"
  shows "length (aw_inflight w) \<le> concurrentConnectionLimit
    \<and> (0 < itemCount (aw_payload w) \<longrightarrow> payload_size (aw_payload w) \<le> payloadSizeLimit)"
proof -
  have "agent_inv w" using assms
  proof (induction rule: agent_reach.induct)
    case start
    then show ?case by (simp add: agent_inv_def newAgentTraceWriter_def)
  next
    case (add n w tr w')
    show ?case by (rule aw.add_inv[OF add.IH add.hyps(2)])
  next
    case (flush n w w')
    show ?case using aw.flush_inv[OF flush.IH flush.hyps(2)] by (rule conjunct1)
  next
    case (upload n w i rc dur)
    have "aw_payload (agent_upload i rc dur w) = aw_payload w"
      "length (aw_inflight (agent_upload i rc dur w)) \<le> length (aw_inflight w)"
      by (auto simp: agent_upload_def Let_def split: option.split prod.split)
    then show ?case using upload.IH by (simp add: agent_inv_def)
  next
    case (shutdown n w)
    then show ?case by (simp add: agent_inv_def)
  qed
  then show ?thesis by (auto simp: agent_inv_def)
qed

theorem agent_writer_bounds_witness:
  "length (aw_inflight (newAgentTraceWriter newPrioritySampler)) \<le> concurrentConnectionLimit"
  using agent_writer_bounds[OF agent_reach.start] by blast

end
