(* ===== verification/Log_Writer.thy ===== *)
theory Log_Writer
  imports Agent_Writer
begin

section \<open>ddtrace/tracer/writer.go: the writer that prints traces for the log forwarder\<close>

text \<open>
  The log writer builds one JSON line of traces and prints it when the next span does not fit.
  \<open>json.Marshal\<close> of a string is modelled byte for byte (escapes, HTML characters, the line
  separators and invalid UTF-8).  \<open>strconv.AppendFloat\<close>, the shortest decimal of a float64, is the
  argument \<open>af\<close>, a function of the format letter and the number.
\<close>

subsection \<open>JSON strings and numbers\<close>

definition byte_in :: "nat \<Rightarrow> nat \<Rightarrow> char \<Rightarrow> bool" where
  "byte_in a b c \<longleftrightarrow> a \<le> (of_char c :: nat) \<and> (of_char c :: nat) \<le> b"

definition utf8_cont :: "char \<Rightarrow> bool" where
  "utf8_cont c = byte_in 0x80 0xBF c"

text \<open>\<open>utf8.DecodeRuneInString\<close>: the size of the multi-byte rune at the front, \<open>None\<close> if it is invalid.\<close>

fun utf8_size :: "string \<Rightarrow> nat option" where
  "utf8_size (c0 # c1 # cs) =
    (if byte_in 0xC2 0xDF c0 \<and> utf8_cont c1 then Some 2
     else case cs of
       [] \<Rightarrow> None
     | c2 # cs' \<Rightarrow>
         if utf8_cont c2
            \<and> (byte_in 0xE0 0xE0 c0 \<and> byte_in 0xA0 0xBF c1 \<or> byte_in 0xE1 0xEC c0 \<and> utf8_cont c1
               \<or> byte_in 0xED 0xED c0 \<and> byte_in 0x80 0x9F c1 \<or> byte_in 0xEE 0xEF c0 \<and> utf8_cont c1)
         then Some 3
         else case cs' of
           [] \<Rightarrow> None
         | c3 # _ \<Rightarrow>
             if utf8_cont c2 \<and> utf8_cont c3
                \<and> (byte_in 0xF0 0xF0 c0 \<and> byte_in 0x90 0xBF c1 \<or> byte_in 0xF1 0xF3 c0 \<and> utf8_cont c1
                   \<or> byte_in 0xF4 0xF4 c0 \<and> byte_in 0x80 0x8F c1)
             then Some 4 else None)"
| "utf8_size _ = None"

definition json_byte :: "char \<Rightarrow> string" where
  "json_byte c = (let b = of_char c :: nat in
     if c = CHR 0x5C \<or> c = CHR 0x22 then [CHR 0x5C, c]
     else if b = 10 then [CHR 0x5C, CHR ''n'']
     else if b = 13 then [CHR 0x5C, CHR ''r'']
     else if b = 9 then [CHR 0x5C, CHR ''t'']
     else if b < 32 \<or> c = CHR ''<'' \<or> c = CHR ''>'' \<or> c = CHR ''&'' then
       [CHR 0x5C, CHR ''u'', CHR ''0'', CHR ''0'', digit_char (int (b div 16)), digit_char (int (b mod 16))]
     else [c])"

function json_body :: "string \<Rightarrow> string" where
  "json_body [] = []"
| "json_body (c # cs) =
    (if (of_char c :: nat) < 128 then json_byte c @ json_body cs
     else case utf8_size (c # cs) of
       None \<Rightarrow> CHR 0x5C # ''ufffd'' @ json_body cs
     | Some n \<Rightarrow>
         (if take 3 (c # cs) = [CHR 0xE2, CHR 0x80, CHR 0xA8] then CHR 0x5C # ''u2028''
          else if take 3 (c # cs) = [CHR 0xE2, CHR 0x80, CHR 0xA9] then CHR 0x5C # ''u2029''
          else take n (c # cs)) @ json_body (drop (n - 1) cs))"
  by pat_completeness auto
termination
  by (relation "measure length") auto

definition json_string :: "string \<Rightarrow> string" where
  "json_string s = CHR 0x22 # json_body s @ [CHR 0x22]"

fun f64_abs :: "float64 \<Rightarrow> float64" where
  "f64_abs (Fin q) = Fin \<bar>q\<bar>"
| "f64_abs NInf = PInf"
| "f64_abs f = f"

definition f64_finite :: "float64 \<Rightarrow> bool" where
  "f64_finite f = (case f of Fin _ \<Rightarrow> True | _ \<Rightarrow> False)"

text \<open>The clean-up of an exponent of one digit: \<open>e-09\<close> becomes \<open>e-9\<close>.\<close>

definition clean_exponent :: "string \<Rightarrow> string" where
  "clean_exponent p = (let n = length p in
     if 4 \<le> n \<and> p ! (n - 4) = CHR ''e'' \<and> p ! (n - 3) = CHR ''-'' \<and> p ! (n - 2) = CHR ''0''
     then take (n - 1) (p[n - 2 := p ! (n - 1)]) else p)"

definition encodeFloat :: "(char \<Rightarrow> float64 \<Rightarrow> string) \<Rightarrow> string \<Rightarrow> float64 \<Rightarrow> string" where
  "encodeFloat af p f =
    (if \<not> f64_finite f then p @ ''null''
     else let a = f64_abs f in
       if \<not> f64_eq a (Fin 0) \<and> (f64_lt a (f64_round (1 / 10 ^ 6)) \<or> f64_le (Fin (10 ^ 21)) a)
       then clean_exponent (p @ af CHR ''e'' f)
       else p @ af CHR ''f'' f)"

subsection \<open>Spans and traces\<close>

abbreviation "logBufferSuffix \<equiv> '']}'' @ [CHR 0x0A]"
abbreviation "logBufferLimit \<equiv> (256 * 1024 :: int)"

text \<open>The separator before every entry but the first.\<close>

primrec json_entries :: "bool \<Rightarrow> string list \<Rightarrow> string" where
  "json_entries first [] = []"
| "json_entries first (e # es) = (if first then [] else '','') @ e @ json_entries False es"

definition quoted :: "string \<Rightarrow> string" where
  "quoted s = CHR 0x22 # s @ [CHR 0x22]"

definition encodeSpan :: "(char \<Rightarrow> float64 \<Rightarrow> string) \<Rightarrow> span \<Rightarrow> string" where
  "encodeSpan af s =
     ''{'' @ quoted ''trace_id'' @ '':'' @ quoted (format_uint (s_TraceID s) 16)
     @ '','' @ quoted ''span_id'' @ '':'' @ quoted (format_uint (s_SpanID s) 16)
     @ '','' @ quoted ''parent_id'' @ '':'' @ quoted (format_uint (s_ParentID s) 16)
     @ '','' @ quoted ''name'' @ '':'' @ json_string (s_Name s)
     @ '','' @ quoted ''resource'' @ '':'' @ json_string (s_Resource s)
     @ '','' @ quoted ''error'' @ '':'' @ itoa (s_Error s)
     @ '','' @ quoted ''meta'' @ '':{''
     @ json_entries True (map (\<lambda>(k, v). json_string k @ '':'' @ json_string v) (m_items (s_Meta s)))
     @ ''},'' @ quoted ''metrics'' @ '':{''
     @ json_entries True (map (\<lambda>(k, v). json_string k @ '':'' @ encodeFloat af [] v)
         (filter (\<lambda>(k, v). f64_finite v) (m_items (s_Metrics s))))
     @ ''},'' @ quoted ''start'' @ '':'' @ itoa (s_Start s)
     @ '','' @ quoted ''duration'' @ '':'' @ itoa (s_Duration s)
     @ '','' @ quoted ''service'' @ '':'' @ json_string (s_Service s) @ ''}''"

record logTraceWriter =
  lw_buf :: string
  lw_hasTraces :: bool
  lw_w :: "string list"
  lw_statsd :: statsd

definition resetBuffer :: "logTraceWriter \<Rightarrow> logTraceWriter" where
  "resetBuffer w = w\<lparr>lw_buf := ''{'' @ quoted ''traces'' @ '': ['', lw_hasTraces := False\<rparr>"

definition newLogTraceWriter :: logTraceWriter where
  "newLogTraceWriter = resetBuffer \<lparr>lw_buf = [], lw_hasTraces = False, lw_w = [], lw_statsd = []\<rparr>"

record encodingError =
  ee_cause :: string
  ee_dropReason :: string

definition over_limit :: "string \<Rightarrow> bool" where
  "over_limit buf \<longleftrightarrow> int (length buf) > logBufferLimit - int (length logBufferSuffix)"

text \<open>
  The loop of \<open>writeTrace\<close> from span \<open>i\<close> on: the buffer, the number of spans written and whether the
  very first one did not fit.
\<close>

primrec write_spans :: "(char \<Rightarrow> float64 \<Rightarrow> string) \<Rightarrow> span list \<Rightarrow> nat \<Rightarrow> nat \<Rightarrow> string \<Rightarrow> string \<times> nat \<times> bool" where
  "write_spans af [] i written buf = (buf, written, False)"
| "write_spans af (s # ss) i written buf =
    (let buf' = buf @ (if i > 0 then '','' else []) @ encodeSpan af s
     in if over_limit buf' then (buf, written, i = 0)
        else write_spans af ss (Suc i) (Suc written) buf')"

definition writeTrace :: "(char \<Rightarrow> float64 \<Rightarrow> string) \<Rightarrow> span list \<Rightarrow> logTraceWriter \<Rightarrow> nat \<times> encodingError option \<times> logTraceWriter" where
  "writeTrace af trace w =
    (case write_spans af trace 0 0 (lw_buf w @ (if \<not> lw_hasTraces w then ''['' else '', ['')) of
       (buf, written, True) \<Rightarrow>
         if \<not> lw_hasTraces w
         then (0, Some \<lparr>ee_cause = ''span too large for buffer'', ee_dropReason = ''trace_too_large''\<rparr>, w)
         else (0, None, w)
     | (buf, written, False) \<Rightarrow> (written, None, w\<lparr>lw_buf := buf @ '']'', lw_hasTraces := True\<rparr>))"

definition log_flush :: "logTraceWriter \<Rightarrow> logTraceWriter" where
  "log_flush w = (if \<not> lw_hasTraces w then w
     else resetBuffer (w\<lparr>lw_w := lw_w w @ [lw_buf w @ logBufferSuffix]\<rparr>))"

lemma log_flush_hasTraces [simp]: "\<not> lw_hasTraces (log_flush w)"
  by (simp add: log_flush_def resetBuffer_def)

lemma write_spans_spec:
  "write_spans af ss i n b = (b', k, f) \<Longrightarrow>
    n \<le> k \<and> k - n \<le> length ss \<and> b' = b @ json_entries (i = 0) (map (encodeSpan af) (take (k - n) ss))
    \<and> (k \<noteq> n \<longrightarrow> \<not> over_limit b')
    \<and> (f \<longleftrightarrow> i = 0 \<and> k = n \<and> ss \<noteq> [])
    \<and> (k = n \<longrightarrow> ss \<noteq> [] \<longrightarrow> over_limit (b @ (if i > 0 then '','' else []) @ encodeSpan af (hd ss)))"
proof (induction ss arbitrary: i n b)
  case (Cons s ss)
  let ?b = "b @ (if i > 0 then '','' else []) @ encodeSpan af s"
  show ?case
  proof (cases "over_limit ?b")
    case True
    then show ?thesis using Cons.prems by (auto simp: Let_def)
  next
    case False
    then have w: "write_spans af ss (Suc i) (Suc n) ?b = (b', k, f)" using Cons.prems by (simp add: Let_def)
    note h = Cons.IH[OF w]
    then have "Suc n \<le> k" "k - n = Suc (k - Suc n)" by auto
    then show ?thesis using h False by (cases "k = Suc n") auto
  qed
qed auto

lemma writeTrace_cases:
  assumes "writeTrace af trace w = (n, e, w')" "trace \<noteq> []"
  obtains (too_large) "n = 0" "e = Some \<lparr>ee_cause = ''span too large for buffer'', ee_dropReason = ''trace_too_large''\<rparr>"
      "w' = w" "\<not> lw_hasTraces w" "over_limit (lw_buf w @ ''['' @ encodeSpan af (hd trace))"
  | (retry) "n = 0" "e = None" "w' = w" "lw_hasTraces w"
  | (written) "0 < n" "n \<le> length trace" "e = None"
      "w' = w\<lparr>lw_buf := lw_buf w @ (if \<not> lw_hasTraces w then ''['' else '', ['')
          @ json_entries True (map (encodeSpan af) (take n trace)) @ '']'', lw_hasTraces := True\<rparr>"
      "\<not> over_limit (lw_buf w @ (if \<not> lw_hasTraces w then ''['' else '', ['')
          @ json_entries True (map (encodeSpan af) (take n trace)))"
proof -
  obtain b k f where w: "write_spans af trace 0 0 (lw_buf w @ (if \<not> lw_hasTraces w then ''['' else '', ['')) = (b, k, f)"
    by (metis prod_cases3)
  note h = write_spans_spec[OF w]
  show ?thesis
  proof (cases f)
    case True
    then show ?thesis using h assms w too_large retry by (cases "lw_hasTraces w") (auto simp: writeTrace_def)
  next
    case False
    then have r: "n = k" "e = None" "w' = w\<lparr>lw_buf := b @ '']'', lw_hasTraces := True\<rparr>"
      using assms(1) w by (auto simp: writeTrace_def)
    have "0 < k" "k \<le> length trace" "\<not> over_limit b"
      and b: "b = lw_buf w @ (if \<not> lw_hasTraces w then ''['' else '', ['') @ json_entries True (map (encodeSpan af) (take k trace))"
      using h False assms(2) by auto
    then show ?thesis using r by (intro written) (simp_all only: append_assoc not_False_eq_True)
  qed
qed

lemma writeTrace_none: "writeTrace af trace w = (0, None, w') \<Longrightarrow> trace \<noteq> [] \<Longrightarrow> lw_hasTraces w"
  by (erule writeTrace_cases) auto

text \<open>
  \<open>add\<close> loops until the trace is written or an error drops the rest.  A round that writes no span
  flushes, so that the next one starts an empty buffer and writes or fails.
\<close>

function log_add :: "(char \<Rightarrow> float64 \<Rightarrow> string) \<Rightarrow> span list \<Rightarrow> logTraceWriter \<Rightarrow> logTraceWriter" where
  "log_add af trace w =
    (if trace = [] then w
     else case writeTrace af trace w of
       (n, Some err, w') \<Rightarrow>
         w'\<lparr>lw_statsd := lw_statsd w' @ [(''datadog.tracer.traces_dropped'', [''reason:'' @ ee_dropReason err], 1)]\<rparr>
     | (n, None, w') \<Rightarrow>
         if drop n trace \<noteq> [] then log_add af (drop n trace) (log_flush w') else w')"
  by pat_completeness auto
termination
proof (relation "measure (\<lambda>(af, trace, w). 2 * length trace + (if lw_hasTraces w then 1 else 0))", goal_cases)
  case (2 af trace w n y e w')
  then have "n = 0 \<longrightarrow> lw_hasTraces w" using writeTrace_none[of af trace w w'] by auto
  then show ?case using 2 by (cases "n = 0") auto
qed simp

declare log_add.simps [simp del]

definition log_stop :: "logTraceWriter \<Rightarrow> logTraceWriter" where
  "log_stop w = log_flush (w\<lparr>lw_statsd := lw_statsd w @ [(''datadog.tracer.flush_triggered'', [''reason:shutdown''], 1)]\<rparr>)"

subsection \<open>The abstract writer: lines of traces of spans\<close>

text \<open>
  A line is the list of its traces, a trace the list of its encoded spans.  The writer holds the
  open line \<open>cur\<close> and has printed the lines \<open>dn\<close>.
\<close>

definition render_open :: "string list list \<Rightarrow> string" where
  "render_open ts = ''{'' @ quoted ''traces'' @ '': ['' @ join_with '', '' (map (\<lambda>t. ''['' @ json_entries True t @ '']'') ts)"

definition render_line :: "string list list \<Rightarrow> string" where
  "render_line ts = render_open ts @ logBufferSuffix"

definition log_rel :: "logTraceWriter \<Rightarrow> string list list list \<Rightarrow> string list list \<Rightarrow> bool" where
  "log_rel w dn cur \<longleftrightarrow> lw_buf w = render_open cur \<and> lw_hasTraces w = (cur \<noteq> []) \<and> lw_w w = map render_line dn
     \<and> list_all (\<lambda>l. int (length (render_line l)) \<le> logBufferLimit + 1) dn
     \<and> int (length (lw_buf w)) \<le> logBufferLimit - 2"

lemma join_with_snoc: "join_with sep (ws @ [v]) = (if ws = [] then v else join_with sep ws @ sep @ v)"
  by (induction sep ws rule: join_with.induct) auto

lemma render_open_snoc:
  "render_open (ts @ [t]) = render_open ts @ (if ts = [] then ''['' else '', ['') @ json_entries True t @ '']''"
  by (simp add: render_open_def join_with_snoc)

lemma render_open_nil: "length (render_open []) = 12"
  by (simp add: render_open_def quoted_def)

lemma log_rel_new: "log_rel newLogTraceWriter [] []"
  by (simp add: log_rel_def newLogTraceWriter_def resetBuffer_def render_open_def quoted_def)

lemma log_flush_rel:
  assumes "log_rel w dn cur"
  shows "log_rel (log_flush w) (if cur = [] then dn else dn @ [cur]) [] \<and> lw_statsd (log_flush w) = lw_statsd w"
  using assms render_open_nil
  by (auto simp: log_rel_def log_flush_def resetBuffer_def render_line_def) (simp_all add: render_open_def)

definition spans_of :: "string list list list \<Rightarrow> string list list \<Rightarrow> string list" where
  "spans_of dn cur = concat (concat (dn @ [cur]))"

definition dropped_event :: "string \<times> string list \<times> int" where
  "dropped_event = (''datadog.tracer.traces_dropped'', [''reason:trace_too_large''], 1)"

definition add_result :: "(char \<Rightarrow> float64 \<Rightarrow> string) \<Rightarrow> span list \<Rightarrow> logTraceWriter \<Rightarrow> string list \<Rightarrow> logTraceWriter \<Rightarrow> bool" where
  "add_result af trace w sp w' \<longleftrightarrow> (\<exists>k dn cur. log_rel w' dn cur \<and> k \<le> length trace
     \<and> spans_of dn cur = sp @ map (encodeSpan af) (take k trace)
     \<and> (if k = length trace then lw_statsd w' = lw_statsd w
        else lw_statsd w' = lw_statsd w @ [dropped_event]
          \<and> over_limit (render_open [] @ ''['' @ encodeSpan af (trace ! k))))"

lemma log_rel_statsd [simp]: "log_rel (w\<lparr>lw_statsd := x\<rparr>) dn cur = log_rel w dn cur"
  by (simp add: log_rel_def)

lemma add_resultI:
  assumes "log_rel w' dn cur" "k \<le> length trace" "spans_of dn cur = sp @ map (encodeSpan af) (take k trace)"
    and "k = length trace \<Longrightarrow> lw_statsd w' = lw_statsd w"
    and "k \<noteq> length trace \<Longrightarrow> lw_statsd w' = lw_statsd w @ [dropped_event]
      \<and> over_limit (render_open [] @ ''['' @ encodeSpan af (trace ! k))"
  shows "add_result af trace w sp w'"
  unfolding add_result_def using assms by metis

lemma add_result_rest:
  assumes "add_result af (drop n trace) w1 (sp @ map (encodeSpan af) (take n trace)) w'" "n \<le> length trace"
    and "lw_statsd w1 = lw_statsd w"
  shows "add_result af trace w sp w'"
proof -
  obtain k dn cur where k: "log_rel w' dn cur" "k \<le> length trace - n"
      "spans_of dn cur = (sp @ map (encodeSpan af) (take n trace)) @ map (encodeSpan af) (take k (drop n trace))"
      "if k = length trace - n then lw_statsd w' = lw_statsd w1 else lw_statsd w' = lw_statsd w1 @ [dropped_event]
         \<and> over_limit (render_open [] @ ''['' @ encodeSpan af (drop n trace ! k))"
    using assms(1) unfolding add_result_def length_drop by blast
  show ?thesis
  proof (rule add_resultI[OF k(1), of "n + k"])
    show "spans_of dn cur = sp @ map (encodeSpan af) (take (n + k) trace)" using k(3) by (simp add: take_add)
    have "drop n trace ! k = trace ! (n + k)" using assms(2) by simp
    then show "lw_statsd w' = lw_statsd w @ [dropped_event] \<and> over_limit (render_open [] @ ''['' @ encodeSpan af (trace ! (n + k)))"
      if "n + k \<noteq> length trace" using that k(2,4) assms(3) by (metis add_diff_cancel_left' le_add_diff_inverse assms(2))
    show "lw_statsd w' = lw_statsd w" if "n + k = length trace" using that k(2,4) assms(3) by auto
  qed (use k(2) assms(2) in simp)
qed

lemma written_rel:
  assumes "log_rel w dn cur" "\<not> over_limit (lw_buf w @ (if \<not> lw_hasTraces w then ''['' else '', ['') @ json_entries True t)"
  shows "log_rel (w\<lparr>lw_buf := lw_buf w @ (if \<not> lw_hasTraces w then ''['' else '', ['') @ json_entries True t @ '']'',
      lw_hasTraces := True\<rparr>) dn (cur @ [t])"
  using assms by (auto simp: log_rel_def render_open_snoc over_limit_def)

lemma log_add_result:
  "log_rel w dn cur \<Longrightarrow> add_result af trace w (spans_of dn cur) (log_add af trace w)"
proof (induction af trace w arbitrary: dn cur rule: log_add.induct)
  case (1 af trace w)
  show ?case
  proof (cases "trace = []")
    case True
    then show ?thesis using "1.prems" by (intro add_resultI[of _ dn cur 0]) (simp_all add: log_add.simps[of af "[]" w])
  next
    case False
    obtain n e w' where wt: "writeTrace af trace w = (n, e, w')" by (metis prod_cases3)
    from wt False show ?thesis
    proof (cases rule: writeTrace_cases)
      case too_large
      then have "log_add af trace w = w\<lparr>lw_statsd := lw_statsd w @ [dropped_event]\<rparr>"
        using wt False by (simp add: log_add.simps[of af trace w] dropped_event_def)
      moreover have "lw_buf w = render_open []" using "1.prems" too_large by (simp add: log_rel_def)
      moreover have "trace ! 0 = hd trace" using False by (simp add: hd_conv_nth)
      ultimately have "log_rel (log_add af trace w) dn cur" "lw_statsd (log_add af trace w) = lw_statsd w @ [dropped_event]"
          "over_limit (render_open [] @ ''['' @ encodeSpan af (trace ! 0))"
        using "1.prems" too_large(5) by simp_all
      then show ?thesis using False by (intro add_resultI[of _ dn cur 0]) auto
    next
      case retry
      note f = log_flush_rel[OF "1.prems"]
      have "add_result af trace (log_flush w) (spans_of (if cur = [] then dn else dn @ [cur]) []) (log_add af trace (log_flush w))"
        using "1.IH"[OF False wt[symmetric] refl retry(2), unfolded retry(1,3) drop_0, OF False f[THEN conjunct1]] .
      moreover have "log_add af trace w = log_add af trace (log_flush w)"
        using wt False retry by (simp add: log_add.simps[of af trace w])
      moreover have "spans_of (if cur = [] then dn else dn @ [cur]) [] = spans_of dn cur" by (simp add: spans_of_def)
      ultimately show ?thesis using add_result_rest[of af 0 trace "log_flush w"] f by simp
    next
      case written
      let ?t = "map (encodeSpan af) (take n trace)"
      have r: "log_rel w' dn (cur @ [?t])" using written_rel[OF "1.prems" written(5)] written(4) by simp
      have sw: "lw_statsd w' = lw_statsd w" using written(4) by simp
      show ?thesis
      proof (cases "drop n trace = []")
        case True
        then have "log_add af trace w = w'" using wt False written by (simp add: log_add.simps[of af trace w])
        then show ?thesis using r sw True by (intro add_resultI[of _ dn "cur @ [?t]" "length trace"]) (simp_all add: spans_of_def)
      next
        case more: False
        note f = log_flush_rel[OF r]
        have "add_result af (drop n trace) (log_flush w') (spans_of dn cur @ ?t) (log_add af (drop n trace) (log_flush w'))"
          using "1.IH"[OF False wt[symmetric] refl written(3) more, of "dn @ [cur @ [?t]]" "[]"] f by (simp add: spans_of_def)
        moreover have "log_add af trace w = log_add af (drop n trace) (log_flush w')"
          using wt False written more by (simp add: log_add.simps[of af trace w])
        ultimately show ?thesis using add_result_rest[OF _ written(2)] f sw by simp
      qed
    qed
  qed
qed

definition log_inv :: "logTraceWriter \<Rightarrow> bool" where
  "log_inv w \<longleftrightarrow> (\<exists>dn cur. log_rel w dn cur)"

definition log_empty :: "logTraceWriter \<Rightarrow> bool" where
  "log_empty w \<longleftrightarrow> \<not> lw_hasTraces w"

interpretation lw: trace_writer "\<lambda>tr w. Some (log_add af tr w)" "\<lambda>w. Some (log_flush w)" log_inv log_empty
proof (unfold_locales, goal_cases)
  case (1 w tr w')
  then obtain dn cur where "log_rel w dn cur" by (auto simp: log_inv_def)
  from log_add_result[OF this, of af tr] show ?case using 1(2) by (auto simp: add_result_def log_inv_def)
next
  case (2 w w')
  then obtain dn cur where "log_rel w dn cur" by (auto simp: log_inv_def)
  from log_flush_rel[OF this] show ?case using 2(2) unfolding log_inv_def log_empty_def by auto
next
  case (3 w)
  then show ?case by (simp add: log_empty_def log_flush_def)
qed

subsection \<open>No line feed inside a line\<close>

abbreviation "line_feed \<equiv> CHR 0x0A"

definition one_line :: "string \<Rightarrow> bool" where
  "one_line s \<longleftrightarrow> line_feed \<notin> set s"

lemma one_line_append [simp]: "one_line (a @ b) \<longleftrightarrow> one_line a \<and> one_line b" "one_line (c # s) \<longleftrightarrow> c \<noteq> line_feed \<and> one_line s" "one_line []"
  by (auto simp: one_line_def)

lemma digit_char_no_lf: "0 \<le> d \<Longrightarrow> d < 16 \<Longrightarrow> digit_char d \<noteq> line_feed"
proof -
  assume "0 \<le> d" "d < 16"
  then have "''0123456789abcdef'' ! nat d \<in> set ''0123456789abcdef''" by (intro nth_mem) simp
  then show ?thesis by (auto simp: digit_char_def)
qed

definition high_byte :: "char \<Rightarrow> bool" where
  "high_byte c \<longleftrightarrow> 128 \<le> (of_char c :: nat)"

lemma byte_in_high: "byte_in a b c \<Longrightarrow> 128 \<le> a \<Longrightarrow> high_byte c"
  by (simp add: byte_in_def high_byte_def)

lemma utf8_cont_high: "utf8_cont c \<Longrightarrow> high_byte c"
  by (simp add: utf8_cont_def byte_in_high)

lemmas byte_highs = utf8_cont_high byte_in_high[of 194 223, simplified] byte_in_high[of 224 224, simplified]
  byte_in_high[of 160 191, simplified] byte_in_high[of 225 236, simplified] byte_in_high[of 237 237, simplified]
  byte_in_high[of 128 159, simplified] byte_in_high[of 238 239, simplified] byte_in_high[of 240 240, simplified]
  byte_in_high[of 144 191, simplified] byte_in_high[of 241 243, simplified] byte_in_high[of 244 244, simplified]
  byte_in_high[of 128 143, simplified]

lemma utf8_size_high: "utf8_size s = Some n \<Longrightarrow> \<forall>c \<in> set (take n s). high_byte c"
proof (cases s rule: utf8_size.cases)
  case (1 c0 c1 cs)
  moreover assume "utf8_size s = Some n"
  ultimately consider "n = 2" "high_byte c0" "high_byte c1"
    | c2 cs' where "cs = c2 # cs'" "n = 3" "high_byte c0" "high_byte c1" "high_byte c2"
    | c2 c3 cs' where "cs = c2 # c3 # cs'" "n = 4" "high_byte c0" "high_byte c1" "high_byte c2" "high_byte c3"
    by (cases cs; cases "tl cs") (auto split: if_splits dest: byte_highs)
  then show ?thesis using 1 by cases auto
qed auto

lemma json_byte_one_line: "one_line (json_byte c)"
proof -
  have "(of_char line_feed :: nat) = 10" by simp
  then have "of_char c = (10 :: nat) \<longleftrightarrow> c = line_feed" by (metis of_char_eq_iff)
  moreover have "(of_char c :: nat) < 256" using of_char_mod_256[of c] by (metis mod_less_divisor zero_less_numeral)
  ultimately show ?thesis
    by (auto simp: json_byte_def Let_def digit_char_no_lf)
qed

lemma json_body_one_line: "one_line (json_body s)"
proof (induction s rule: json_body.induct)
  case (2 c cs)
  have "one_line (take n (c # cs))" if "utf8_size (c # cs) = Some n" for n
    using utf8_size_high[OF that] by (auto simp: one_line_def high_byte_def simp del: take_Cons')
  then show ?case using 2 json_byte_one_line by (auto split: option.split)
qed simp

lemma json_string_one_line [simp]: "one_line (json_string s)"
  by (simp add: json_string_def json_body_one_line)

lemma fmt_base_one_line: "0 \<le> n \<Longrightarrow> 2 \<le> b \<Longrightarrow> b \<le> 16 \<Longrightarrow> one_line (fmt_base b n)"
  using fmt_base_digits[of n b line_feed] by (auto simp: one_line_def)

lemma numbers_one_line [simp]: "one_line (itoa i)" "one_line (format_uint n 16)"
  by (simp_all add: itoa_def format_uint_def fmt_base_one_line)

lemma clean_exponent_subset: "set (clean_exponent p) \<subseteq> set p"
proof (cases "4 \<le> length p")
  case True
  then have "set (p[length p - 2 := p ! (length p - 1)]) \<subseteq> set p" by (intro set_update_subsetI) auto
  then show ?thesis by (auto simp: clean_exponent_def Let_def dest!: in_set_takeD)
qed (simp add: clean_exponent_def)

lemma json_entries_one_line: "(\<forall>e \<in> set es. one_line e) \<Longrightarrow> one_line (json_entries b es)"
  by (induction es arbitrary: b) auto

lemma encodeFloat_one_line: "(\<And>c f. one_line (af c f)) \<Longrightarrow> one_line (encodeFloat af [] f)"
  using clean_exponent_subset by (auto simp: encodeFloat_def Let_def one_line_def)

lemma encodeSpan_one_line: "(\<And>c f. one_line (af c f)) \<Longrightarrow> one_line (encodeSpan af s)"
  by (auto simp: encodeSpan_def quoted_def intro!: json_entries_one_line encodeFloat_one_line)

lemma join_with_one_line: "one_line sep \<Longrightarrow> (\<forall>v \<in> set ws. one_line v) \<Longrightarrow> one_line (join_with sep ws)"
  by (induction sep ws rule: join_with.induct) auto

lemma render_open_one_line: "(\<forall>t \<in> set ts. \<forall>e \<in> set t. one_line e) \<Longrightarrow> one_line (render_open ts)"
  by (auto simp: render_open_def quoted_def intro!: join_with_one_line json_entries_one_line)

definition log_run :: "(char \<Rightarrow> float64 \<Rightarrow> string) \<Rightarrow> span list list \<Rightarrow> logTraceWriter" where
  "log_run af trs = log_stop (fold (log_add af) trs newLogTraceWriter)"

lemma log_adds_rel:
  "log_rel w dn cur \<Longrightarrow> set (spans_of dn cur) \<subseteq> range (encodeSpan af) \<Longrightarrow>
    \<exists>dn' cur'. log_rel (fold (log_add af) trs w) dn' cur' \<and> set (spans_of dn' cur') \<subseteq> range (encodeSpan af)"
proof (induction trs arbitrary: w dn cur)
  case (Cons tr trs)
  obtain k dn1 cur1 where "log_rel (log_add af tr w) dn1 cur1"
      "spans_of dn1 cur1 = spans_of dn cur @ map (encodeSpan af) (take k tr)"
    using log_add_result[OF Cons.prems(1), of af tr] by (auto simp: add_result_def)
  then show ?case using Cons.IH[of "log_add af tr w" dn1 cur1] Cons.prems(2) by auto
qed auto

lemma log_run_rel:
  "\<exists>dn. log_rel (log_run af trs) dn [] \<and> set (spans_of dn []) \<subseteq> range (encodeSpan af)"
proof -
  obtain dn cur where r: "log_rel (fold (log_add af) trs newLogTraceWriter) dn cur" "set (spans_of dn cur) \<subseteq> range (encodeSpan af)"
    using log_adds_rel[OF log_rel_new, of af trs] by (auto simp: spans_of_def)
  have "log_rel (log_run af trs) (if cur = [] then dn else dn @ [cur]) []"
    using log_flush_rel[of "(fold (log_add af) trs newLogTraceWriter)\<lparr>lw_statsd := _\<rparr>" dn cur] r(1)
    unfolding log_run_def log_stop_def by simp
  then show ?thesis using r(2) by (intro exI[of _ "if cur = [] then dn else dn @ [cur]"]) (simp add: spans_of_def)
qed

text \<open>
  C18: \<open>add\<close> of the log writer refines the writer of lines: it appends the spans of the trace, in order
  and each exactly once, to the printed and open lines, up to a first span that does not fit an
  empty buffer; exactly then the rest is dropped and counted.  The open buffer and the printed
  lines are always the JSON text of their traces.
\<close>

theorem log_add_refines:
  assumes "log_rel w dn cur"
  shows "\<exists>k dn' cur'. log_rel (log_add af trace w) dn' cur' \<and> k \<le> length trace
     \<and> spans_of dn' cur' = spans_of dn cur @ map (encodeSpan af) (take k trace)
     \<and> (if k = length trace then lw_statsd (log_add af trace w) = lw_statsd w
        else lw_statsd (log_add af trace w) = lw_statsd w @ [dropped_event]
          \<and> over_limit (render_open [] @ ''['' @ encodeSpan af (trace ! k)))"
  using log_add_result[OF assms] unfolding add_result_def .

theorem log_add_refines_witness:
  "\<exists>dn cur. log_rel (log_add (\<lambda>_ _. ''1'') [] newLogTraceWriter) dn cur \<and> spans_of dn cur = []"
  using log_add_refines[OF log_rel_new, of "\<lambda>_ _. ''1''" "[]"] by (auto simp: spans_of_def)

text \<open>
  C23: whatever names, tags and values the spans have, each line that the log writer prints ends with
  its only line feed and is at most one byte longer than \<open>logBufferLimit\<close>, as long as the decimal
  form of a number has no line feed.
\<close>

theorem log_lines_bounded:
  assumes "\<And>c f. one_line (af c f)" "l \<in> set (lw_w (log_run af trs))"
  shows "\<exists>b. l = b @ [line_feed] \<and> one_line b \<and> int (length l) \<le> logBufferLimit + 1"
proof -
  obtain dn where d: "log_rel (log_run af trs) dn []" "set (spans_of dn []) \<subseteq> range (encodeSpan af)"
    using log_run_rel by blast
  then obtain ts where t: "ts \<in> set dn" "l = render_line ts" "int (length l) \<le> logBufferLimit + 1"
    using assms(2) by (auto simp: log_rel_def list_all_iff)
  have "one_line e" if "tr \<in> set ts" "e \<in> set tr" for tr e
  proof -
    have "e \<in> set (spans_of dn [])" using t(1) that by (auto simp: spans_of_def)
    then obtain s where "e = encodeSpan af s" using d(2) by blast
    then show ?thesis using encodeSpan_one_line[OF assms(1)] by simp
  qed
  then have "one_line (render_open ts @ '']}'')" by (simp add: render_open_one_line)
  then show ?thesis using t(2,3) by (intro exI[of _ "render_open ts @ '']}''"]) (simp add: render_line_def)
qed

lemma log_run_single:
  assumes "\<not> over_limit (render_open [] @ ''['' @ encodeSpan af s)"
  shows "lw_w (log_run af [[s]]) = [render_line [[encodeSpan af s]]]"
proof -
  have n: "lw_buf newLogTraceWriter = render_open []" "\<not> lw_hasTraces newLogTraceWriter" "lw_w newLogTraceWriter = []"
    using log_rel_new by (simp_all add: log_rel_def)
  then have "writeTrace af [s] newLogTraceWriter = (1, None, newLogTraceWriter\<lparr>lw_buf := render_open [[encodeSpan af s]], lw_hasTraces := True\<rparr>)"
    using assms render_open_snoc[of "[]" "[encodeSpan af s]"] by (simp add: writeTrace_def Let_def)
  then have "log_add af [s] newLogTraceWriter = newLogTraceWriter\<lparr>lw_buf := render_open [[encodeSpan af s]], lw_hasTraces := True\<rparr>"
    by (simp add: log_add.simps[of af "[s]"])
  then show ?thesis using n by (simp add: log_run_def log_stop_def log_flush_def resetBuffer_def render_line_def)
qed

lemma json_body_letters: "json_body (replicate n CHR ''a'') = replicate n CHR ''a''"
  by (induction n) (simp_all add: json_byte_def)

definition named_span :: "nat \<Rightarrow> span" where
  "named_span n = zero_span\<lparr>s_Name := replicate n CHR ''a''\<rparr>"

lemma named_span_length: "length (encodeSpan af (named_span n)) = length (encodeSpan af (named_span 0)) + n"
  by (simp add: encodeSpan_def named_span_def json_string_def json_body_letters)

lemma zero_span_length: "length (encodeSpan af (named_span 0)) \<le> 1000"
proof -
  have "fmt_base b 0 = ''0''" if "2 \<le> b" for b by (subst fmt_base.simps) (use that in \<open>simp add: digit_char_def\<close>)
  then show ?thesis
    by (simp add: encodeSpan_def named_span_def zero_span_def json_string_def quoted_def itoa_def format_uint_def)
qed

theorem log_lines_bounded_witness:
  "\<exists>l b. l \<in> set (lw_w (log_run (\<lambda>_ _. ''1'') [[named_span 0]])) \<and> l = b @ [line_feed] \<and> one_line b"
proof -
  have "length (render_open [] @ ''['' @ encodeSpan (\<lambda>_ _. ''1'') (named_span 0)) \<le> 1013"
    using zero_span_length[of "\<lambda>_ _. ''1''"] by (simp add: render_open_nil)
  then have "\<not> over_limit (render_open [] @ ''['' @ encodeSpan (\<lambda>_ _. ''1'') (named_span 0))"
    unfolding over_limit_def by simp
  then have l: "render_line [[encodeSpan (\<lambda>_ _. ''1'') (named_span 0)]] \<in> set (lw_w (log_run (\<lambda>_ _. ''1'') [[named_span 0]]))"
    by (subst log_run_single) simp_all
  have "one_line ''1''" by simp
  then show ?thesis using log_lines_bounded[OF _ l] l by blast
qed

text \<open>
  The line limit is missed by one byte: the closing bracket of the trace is not counted when the
  writer tests whether a span fits, so there is a span whose line is \<open>logBufferLimit + 1\<close> bytes long.
\<close>

theorem log_line_exceeds_limit:
  "\<exists>s l. lw_w (log_run af [[s]]) = [l] \<and> int (length l) = logBufferLimit + 1"
proof -
  define n where "n = 262128 - length (encodeSpan af (named_span 0))"
  have "length (encodeSpan af (named_span n)) = 262128"
    using zero_span_length[of af] named_span_length[of af n] n_def by linarith
  then have l: "length (render_open [] @ ''['' @ encodeSpan af (named_span n)) = 262141"
    by (simp add: render_open_nil)
  then have "\<not> over_limit (render_open [] @ ''['' @ encodeSpan af (named_span n))"
    unfolding over_limit_def l by simp
  then have r: "lw_w (log_run af [[named_span n]]) = [render_line [[encodeSpan af (named_span n)]]]"
    by (rule log_run_single)
  have "length (render_line [[encodeSpan af (named_span n)]]) = 262145"
    using l render_open_snoc[of "[]" "[encodeSpan af (named_span n)]"] by (simp add: render_line_def)
  then show ?thesis using r by (intro exI[of _ "named_span n"] exI[of _ "render_line [[encodeSpan af (named_span n)]]"]) simp
qed

end
