(* ===== verification/Stats.thy ===== *)
theory Stats
  imports Agent_Writer
begin

section \<open>ddtrace/tracer/stats.go, stats_payload.go: client-computed statistics\<close>

text \<open>
  The concentrator sorts finished spans into time buckets and, in a bucket, into groups of equal
  aggregation key.  A sketch of the third-party package ddsketch is the list of the values added to
  it; its serialized form is the argument \<open>sk\<close>, \<open>None\<close> when marshalling fails.  The association list of
  a map stands for its iteration order, which the theorems do not depend on.  The transport is
  the argument \<open>send\<close>; the payloads handed to it are recorded.
\<close>

record rawGroupedStats =
  g_hits :: u64
  g_topLevelHits :: u64
  g_errors :: u64
  g_duration :: u64
  g_okDistribution :: "float64 list"
  g_errDistribution :: "float64 list"

definition newRawGroupedStats :: rawGroupedStats where
  "newRawGroupedStats = \<lparr>g_hits = 0, g_topLevelHits = 0, g_errors = 0, g_duration = 0,
     g_okDistribution = [], g_errDistribution = []\<rparr>"

record rawBucket =
  rb_start :: u64
  rb_duration :: u64
  rb_data :: "(aggregation, rawGroupedStats) gomap"

definition newRawBucket :: "u64 \<Rightarrow> int \<Rightarrow> rawBucket" where
  "newRawBucket btime bsize = \<lparr>rb_start = btime, rb_duration = word_of_int bsize, rb_data = Some []\<rparr>"

record groupedStats =
  gs_Service :: string
  gs_Name :: string
  gs_Resource :: string
  gs_HTTPStatusCode :: int
  gs_Type :: string
  gs_DBType :: string
  gs_Hits :: u64
  gs_Errors :: u64
  gs_Duration :: u64
  gs_OkSummary :: "byte list"
  gs_ErrorSummary :: "byte list"
  gs_Synthetics :: bool
  gs_TopLevelHits :: u64

definition zero_groupedStats :: groupedStats where
  "zero_groupedStats = \<lparr>gs_Service = [], gs_Name = [], gs_Resource = [], gs_HTTPStatusCode = 0, gs_Type = [],
     gs_DBType = [], gs_Hits = 0, gs_Errors = 0, gs_Duration = 0, gs_OkSummary = [], gs_ErrorSummary = [],
     gs_Synthetics = False, gs_TopLevelHits = 0\<rparr>"

record statsBucket =
  sb_Start :: u64
  sb_Duration :: u64
  sb_Stats :: "groupedStats list"

record statsPayload =
  sp_Hostname :: string
  sp_Env :: string
  sp_Version :: string
  sp_Stats :: "statsBucket list"

text \<open>The loop of \<open>nsTimestampToFloat\<close>: halve until at most \<open>2 ^ 10\<close>, counting the halvings.\<close>

abbreviation "roundMask \<equiv> (2 ^ 10 :: int)"

function ns_shift :: "int \<Rightarrow> nat \<Rightarrow> int \<times> nat" where
  "ns_shift ns shift = (if ns > roundMask then ns_shift (ns div 2) (Suc shift) else (ns, shift))"
  by pat_completeness auto
termination
  by (relation "measure (\<lambda>(ns, shift). nat ns)") auto

declare ns_shift.simps [simp del]

definition truncated_ns :: "int \<Rightarrow> int" where
  "truncated_ns ns = (case ns_shift ns 0 of (m, shift) \<Rightarrow> wrap64 (m * 2 ^ shift))"

definition nsTimestampToFloat :: "int \<Rightarrow> float64" where
  "nsTimestampToFloat ns = f64_of_int (truncated_ns ns)"

definition group_add :: "aggregableSpan \<Rightarrow> rawGroupedStats \<Rightarrow> rawGroupedStats" where
  "group_add s gs =
    (let g1 = (if as_TopLevel s then gs\<lparr>g_topLevelHits := g_topLevelHits gs + 1\<rparr> else gs);
         g2 = g1\<lparr>g_hits := g_hits g1 + 1\<rparr>;
         g3 = (if as_Error s \<noteq> 0 then g2\<lparr>g_errors := g_errors g2 + 1\<rparr> else g2);
         g4 = g3\<lparr>g_duration := g_duration g3 + word_of_int (as_Duration s)\<rparr>;
         trundur = nsTimestampToFloat (as_Duration s)
     in if as_Error s \<noteq> 0 then g4\<lparr>g_errDistribution := g_errDistribution g4 @ [trundur]\<rparr>
        else g4\<lparr>g_okDistribution := g_okDistribution g4 @ [trundur]\<rparr>)"

definition handleSpan :: "aggregableSpan \<Rightarrow> rawBucket \<Rightarrow> rawBucket" where
  "handleSpan s sb =
    (let gs = (case m_get (rb_data sb) (as_key s) of Some g \<Rightarrow> g | None \<Rightarrow> newRawGroupedStats)
     in sb\<lparr>rb_data := m_put (as_key s) (group_add s gs) (rb_data sb)\<rparr>)"

definition group_export :: "(float64 list \<Rightarrow> byte list option) \<Rightarrow> aggregation \<Rightarrow> rawGroupedStats \<Rightarrow> groupedStats option" where
  "group_export sk k s =
    (case sk (g_okDistribution s) of
       None \<Rightarrow> None
     | Some okSummary \<Rightarrow>
         (case sk (g_errDistribution s) of
            None \<Rightarrow> None
          | Some errSummary \<Rightarrow> Some (zero_groupedStats\<lparr>gs_Service := a_Service k, gs_Name := a_Name k,
              gs_Resource := a_Resource k, gs_HTTPStatusCode := a_StatusCode k, gs_Type := a_Type k,
              gs_Hits := g_hits s, gs_Errors := g_errors s, gs_Duration := g_duration s,
              gs_TopLevelHits := g_topLevelHits s, gs_OkSummary := okSummary, gs_ErrorSummary := errSummary,
              gs_Synthetics := a_Synthetics k\<rparr>)))"

text \<open>\<open>make([]groupedStats, len(sb.data))\<close> makes zero entries, and the loop appends to them.\<close>

definition bucket_Export :: "(float64 list \<Rightarrow> byte list option) \<Rightarrow> rawBucket \<Rightarrow> statsBucket" where
  "bucket_Export sk sb =
    \<lparr>sb_Start = rb_start sb, sb_Duration = rb_duration sb,
     sb_Stats = replicate (length (m_items (rb_data sb))) zero_groupedStats
       @ List.map_filter (\<lambda>(k, v). group_export sk k v) (m_items (rb_data sb))\<rparr>"

record concentrator =
  cc_In :: "aggregableSpan list"
  cc_buckets :: "(int, rawBucket) gomap"
  cc_stopped :: bool
  cc_bucketSize :: int
  cc_hostname :: string
  cc_env :: string
  cc_version :: string
  cc_statsd :: statsd
  cc_sent :: "statsPayload list"

abbreviation "defaultStatsBucketSize \<equiv> (10 * 10 ^ 9 :: int)"

definition newConcentrator :: "string \<Rightarrow> string \<Rightarrow> string \<Rightarrow> int \<Rightarrow> concentrator" where
  "newConcentrator hostname env version bucketSize =
    \<lparr>cc_In = [], cc_buckets = Some [], cc_stopped = True, cc_bucketSize = bucketSize,
     cc_hostname = hostname, cc_env = env, cc_version = version, cc_statsd = [], cc_sent = []\<rparr>"

definition alignTs :: "int \<Rightarrow> int \<Rightarrow> int" where
  "alignTs ts bucketSize = ts - go_rem ts bucketSize"

definition span_bucket :: "int \<Rightarrow> aggregableSpan \<Rightarrow> int" where
  "span_bucket bucketSize s = alignTs (wrap64 (as_Start s + as_Duration s)) bucketSize"

definition concentrator_add :: "aggregableSpan \<Rightarrow> concentrator \<Rightarrow> concentrator" where
  "concentrator_add s c =
    (let btime = alignTs (wrap64 (as_Start s + as_Duration s)) (cc_bucketSize c);
         b = (case m_get (cc_buckets c) btime of
                Some b \<Rightarrow> b | None \<Rightarrow> newRawBucket (word_of_int btime) (cc_bucketSize c))
     in c\<lparr>cc_buckets := m_put btime (handleSpan s b) (cc_buckets c)\<rparr>)"

definition concentrator_incr :: "string \<Rightarrow> int \<Rightarrow> concentrator \<Rightarrow> concentrator" where
  "concentrator_incr name v c = c\<lparr>cc_statsd := cc_statsd c @ [(name, [], v)]\<rparr>"

text \<open>One round of \<open>runIngester\<close>; \<open>None\<close> when there is nothing to receive.\<close>

definition ingest :: "concentrator \<Rightarrow> concentrator option" where
  "ingest c = (case cc_In c of
     [] \<Rightarrow> None
   | s # rest \<Rightarrow> Some (concentrator_add s (concentrator_incr ''datadog.tracer.stats.spans_in'' 1 (c\<lparr>cc_In := rest\<rparr>))))"

definition flush_bucket_now :: "int \<Rightarrow> bool \<Rightarrow> concentrator \<Rightarrow> int \<Rightarrow> bool" where
  "flush_bucket_now now includeCurrent c ts \<longleftrightarrow> \<not> (\<not> includeCurrent \<and> ts > wrap64 (now - cc_bucketSize c))"

definition flushAndSend :: "(float64 list \<Rightarrow> byte list option) \<Rightarrow> (statsPayload \<Rightarrow> bool) \<Rightarrow> int \<Rightarrow> bool \<Rightarrow> concentrator \<Rightarrow> concentrator" where
  "flushAndSend sk send now includeCurrent c =
    (let go = flush_bucket_now now includeCurrent c;
         sp = \<lparr>sp_Hostname = cc_hostname c, sp_Env = cc_env c, sp_Version = cc_version c,
               sp_Stats = map (\<lambda>(ts, srb). bucket_Export sk srb) (filter (\<lambda>(ts, _). go ts) (m_items (cc_buckets c)))\<rparr>;
         c1 = c\<lparr>cc_buckets := map_option (filter (\<lambda>(ts, _). \<not> go ts)) (cc_buckets c)\<rparr>
     in if sp_Stats sp = [] then c1
        else
          let c2 = concentrator_incr ''datadog.tracer.stats.flush_buckets'' (int (length (sp_Stats sp)))
                (concentrator_incr ''datadog.tracer.stats.flush_payloads'' 1 c1);
              c3 = c2\<lparr>cc_sent := cc_sent c2 @ [sp]\<rparr>
          in if send sp then c3 else concentrator_incr ''datadog.tracer.stats.flush_errors'' 1 c3)"

definition concentrator_Start :: "concentrator \<Rightarrow> concentrator" where
  "concentrator_Start c = (if \<not> cc_stopped c then c else c\<lparr>cc_stopped := False\<rparr>)"

text \<open>The drain loop of \<open>Stop\<close>, once the goroutines have ended.\<close>

function drain_in :: "concentrator \<Rightarrow> concentrator" where
  "drain_in c = (case ingest c of None \<Rightarrow> c | Some c' \<Rightarrow> drain_in c')"
  by pat_completeness auto
termination
  by (relation "measure (length \<circ> cc_In)")
    (auto simp: ingest_def concentrator_add_def concentrator_incr_def Let_def split: list.splits)

declare drain_in.simps [simp del]

definition concentrator_Stop :: "(float64 list \<Rightarrow> byte list option) \<Rightarrow> (statsPayload \<Rightarrow> bool) \<Rightarrow> int \<Rightarrow> concentrator \<Rightarrow> concentrator" where
  "concentrator_Stop sk send now c =
    (if cc_stopped c then c else flushAndSend sk send now True (drain_in (c\<lparr>cc_stopped := True\<rparr>)))"

subsection \<open>The truncated duration\<close>

lemma ns_shift_spec:
  "ns_shift ns k = (m, j) \<Longrightarrow> 0 \<le> ns \<Longrightarrow> k \<le> j \<and> m = ns div 2 ^ (j - k) \<and> m \<le> roundMask \<and> (j = k \<or> 512 \<le> m)"
proof (induction ns k arbitrary: m j rule: ns_shift.induct)
  case (1 ns k)
  show ?case
  proof (cases "ns > roundMask")
    case True
    then have r: "ns_shift (ns div 2) (Suc k) = (m, j)" using "1.prems"(1) by (simp add: ns_shift.simps[of ns])
    note h = "1.IH"[OF True r]
    then obtain i where i: "j = Suc (k + i)" using True by (auto simp: Suc_le_eq less_iff_Suc_add)
    have "ns div 2 ^ Suc i = ns div 2 div 2 ^ i" by (simp add: zdiv_zmult2_eq)
    then show ?thesis using h True i by (auto simp del: power_Suc)
  next
    case False
    then show ?thesis using "1.prems" by (auto simp: ns_shift.simps[of ns])
  qed
qed

lemma truncated_ns_int:
  assumes "0 \<le> ns" "ns < 2 ^ 63"
  obtains m j where "truncated_ns ns = m * 2 ^ j" "m = ns div 2 ^ j" "m \<le> roundMask" "j = 0 \<or> 512 \<le> m" "0 \<le> m"
proof -
  obtain m j where s: "ns_shift ns 0 = (m, j)" by (cases "ns_shift ns 0") auto
  note h = ns_shift_spec[OF s assms(1)]
  have m: "m = ns div 2 ^ j" using h by simp
  have "m * 2 ^ j \<le> ns" unfolding m using div_mult_mod_eq[of ns "2 ^ j"] pos_mod_sign[of "2 ^ j" ns, OF zero_less_power, OF zero_less_numeral]
    by linarith
  moreover have "0 \<le> m" using h assms(1) by (simp add: pos_imp_zdiv_nonneg_iff)
  ultimately have "wrap64 (m * 2 ^ j) = m * 2 ^ j" using assms(2) by (intro wrap64_id) (auto simp: int64_range_def intro: order_trans[of _ 0])
  then have "truncated_ns ns = m * 2 ^ j" using s by (simp add: truncated_ns_def)
  then show ?thesis by (rule that) (use h \<open>0 \<le> m\<close> m in auto)
qed

text \<open>A number with at most 11 significant bits is a float64.\<close>

lemma f64_of_int_shifted:
  assumes "0 < m" "m \<le> roundMask" "j < 64"
  shows "f64_of_int (m * 2 ^ j) = Fin (of_int (m * 2 ^ j))"
proof -
  let ?i = "m * 2 ^ j"
  let ?e = "f64_exp (of_int ?i)"
  have "?i < 2 ^ (11 + j)" using assms(1,2) by (simp add: power_add)
  then have b: "bit_len ?i \<le> int (11 + j)" by (rule bit_len_less)
  have "quotient_of (of_int ?i) = (?i, 1)" by (rule quotient_of_rat_of_int)
  then have e: "?e \<le> int j" "?e \<le> 971" using b assms by (auto simp: f64_exp_def Let_def)
  define d where "d = nat (int j - ?e)"
  have q: "(of_int ?i :: rat) / 2 powi ?e = of_int (m * 2 ^ d)"
  proof -
    have "(2 :: rat) ^ j = 2 powi (int d + ?e)" using e(1) by (simp add: d_def power_int_of_nat)
    also have "\<dots> = 2 ^ d * 2 powi ?e" by (simp add: power_int_add)
    finally have "(of_int ?i :: rat) = of_int (m * 2 ^ d) * 2 powi ?e" by simp
    then show ?thesis by (metis nonzero_mult_div_cancel_right power_int_eq_0_iff zero_neq_numeral)
  qed
  have "of_int (round_even (of_int ?i / 2 powi ?e)) * (2 :: rat) powi ?e = of_int ?i"
    unfolding q round_even_of_int using q by (auto simp: field_simps)
  moreover have "\<not> (?e > 971 \<or> (?e = 971 \<and> \<bar>round_even (of_int ?i / 2 powi ?e)\<bar> \<ge> 2 ^ 53))"
  proof -
    have "?e \<le> int j" using e(1) .
    then have "?e < 971" using assms(3) by simp
    then show ?thesis by simp
  qed
  ultimately show ?thesis using assms(1) by (simp only: f64_of_int_def f64_round_def Let_def) auto
qed

subsection \<open>Counting against a reference\<close>

definition stats_of :: "aggregableSpan list \<Rightarrow> rawGroupedStats" where
  "stats_of ss = \<lparr>g_hits = of_nat (length ss), g_topLevelHits = of_nat (length (filter as_TopLevel ss)),
     g_errors = of_nat (length (filter (\<lambda>s. as_Error s \<noteq> 0) ss)),
     g_duration = word_of_int (\<Sum>s\<leftarrow>ss. as_Duration s),
     g_okDistribution = map (nsTimestampToFloat \<circ> as_Duration) (filter (\<lambda>s. as_Error s = 0) ss),
     g_errDistribution = map (nsTimestampToFloat \<circ> as_Duration) (filter (\<lambda>s. as_Error s \<noteq> 0) ss)\<rparr>"

definition group_of :: "concentrator \<Rightarrow> int \<Rightarrow> aggregation \<Rightarrow> rawGroupedStats option" where
  "group_of c b k = (case m_get (cc_buckets c) b of None \<Rightarrow> None | Some sb \<Rightarrow> m_get (rb_data sb) k)"

lemma stats_of_snoc: "stats_of (ss @ [s]) = group_add s (stats_of ss)"
  by (simp add: stats_of_def group_add_def Let_def)

lemma stats_of_nil: "stats_of [] = newRawGroupedStats"
  by (simp add: stats_of_def newRawGroupedStats_def)

lemma concentrator_add_sel [simp]:
  "cc_bucketSize (concentrator_add s c) = cc_bucketSize c" "cc_In (concentrator_add s c) = cc_In c"
  "cc_sent (concentrator_add s c) = cc_sent c" "cc_stopped (concentrator_add s c) = cc_stopped c"
  by (simp_all add: concentrator_add_def Let_def)

lemma group_of_add:
  "group_of (concentrator_add s c) b k =
    (if b = span_bucket (cc_bucketSize c) s \<and> k = as_key s
     then Some (group_add s (case group_of c b k of Some g \<Rightarrow> g | None \<Rightarrow> newRawGroupedStats))
     else group_of c b k)"
  by (auto simp: group_of_def concentrator_add_def span_bucket_def handleSpan_def newRawBucket_def Let_def split: option.splits)

lemma fold_add_sel: "cc_bucketSize (fold concentrator_add ss c) = cc_bucketSize c"
  by (induction ss arbitrary: c) auto

lemma trunc_arith:
  fixes p t r ns :: int
  assumes "512 * p \<le> t" "ns - t = r" "0 \<le> r" "r < p"
  shows "512 * (ns - t) < ns"
proof -
  have "512 * r < 512 * p" using assms(4) by simp
  also have "\<dots> \<le> t" by (rule assms(1))
  also have "t \<le> ns" using assms(2,3) by simp
  finally show ?thesis using assms(2) by simp
qed

lemma truncated_exact:
  assumes "0 \<le> ns" "ns < 2 ^ 63"
  shows "nsTimestampToFloat ns = Fin (of_int (truncated_ns ns))"
proof -
  obtain m j where t: "truncated_ns ns = m * 2 ^ j" "m = ns div 2 ^ j" "m \<le> roundMask" "j = 0 \<or> 512 \<le> m" "0 \<le> m"
    using truncated_ns_int[OF assms] .
  show ?thesis
  proof (cases "m = 0")
    case True
    then show ?thesis using t(1) by (simp add: nsTimestampToFloat_def f64_of_int_def f64_round_def)
  next
    case False
    have "j < 64"
    proof (rule ccontr)
      assume "\<not> j < 64"
      then have "(2 :: int) ^ 63 \<le> 2 ^ j" by (intro power_increasing) auto
      then have "ns div 2 ^ j = 0" using assms by (simp add: div_pos_pos_trivial)
      then show False using False t(2) by simp
    qed
    then show ?thesis using f64_of_int_shifted[of m j] t False by (simp add: nsTimestampToFloat_def)
  qed
qed

text \<open>
  A duration enters the sketches as a float64 that equals an integer not above it, and that is
  less than it by less than one part in 512.
\<close>

theorem nsTimestampToFloat_bounds:
  assumes "0 < ns" "ns < 2 ^ 63"
  shows "nsTimestampToFloat ns = Fin (of_int (truncated_ns ns)) \<and> truncated_ns ns \<le> ns \<and> 512 * (ns - truncated_ns ns) < ns"
proof -
  obtain m j where t: "truncated_ns ns = m * 2 ^ j" "m = ns div 2 ^ j" "m \<le> roundMask" "j = 0 \<or> 512 \<le> m" "0 \<le> m"
    using truncated_ns_int[of ns] assms by auto
  have d: "ns - m * 2 ^ j = ns mod 2 ^ j" using t(2) by (simp add: minus_div_mult_eq_mod)
  have r: "0 \<le> ns mod 2 ^ j" "ns mod 2 ^ j < 2 ^ j" by simp_all
  have "512 * (ns - truncated_ns ns) < ns"
  proof (cases "j = 0")
    case True
    then show ?thesis using d t(1) assms(1) by simp
  next
    case False
    then have "512 * 2 ^ j \<le> m * 2 ^ j" using t(4) by simp
    then show ?thesis unfolding t(1) using trunc_arith[OF _ d r] by blast
  qed
  moreover have "truncated_ns ns \<le> ns" unfolding t(1) using d r(1) by linarith
  ultimately show ?thesis using truncated_exact[of ns] assms by simp
qed

theorem nsTimestampToFloat_bounds_witness: "512 * (2051 - truncated_ns 2051) < 2051 \<and> nsTimestampToFloat 2051 = Fin (of_int (truncated_ns 2051))"
  using nsTimestampToFloat_bounds[of 2051] by simp

text \<open>
  The comment promises a value within one part in 1024, which the loop misses: a duration of
  2051 ns becomes 2048 ns.
\<close>

theorem nsTimestampToFloat_misses_precision:
  "nsTimestampToFloat 2051 = Fin 2048 \<and> 1024 * (2051 - 2048) > (2051 :: int)"
proof -
  have "truncated_ns 2051 = 2048" by (simp add: truncated_ns_def ns_shift.simps wrap64_id int64_range_def)
  then show ?thesis using truncated_exact[of 2051] by simp
qed

text \<open>
  C22: after any spans, the group of a time bucket and an aggregation key holds exactly the counts, the
  total duration (modulo \<open>2 ^ 64\<close>) and the duration samples of the spans that end in the bucket and have
  the key, and there is no other group.
\<close>

theorem concentrator_counts:
  "group_of (fold concentrator_add ss (newConcentrator ho env ver bs)) b k =
    (let sel = filter (\<lambda>s. span_bucket bs s = b \<and> as_key s = k) ss in if sel = [] then None else Some (stats_of sel))"
proof (induction ss rule: rev_induct)
  case Nil
  then show ?case by (simp add: group_of_def newConcentrator_def)
next
  case (snoc s ss)
  have bs: "cc_bucketSize (fold concentrator_add ss (newConcentrator ho env ver bs)) = bs"
    by (simp add: fold_add_sel) (simp add: newConcentrator_def)
  show ?case
    using snoc by (auto simp: group_of_add bs Let_def stats_of_snoc stats_of_nil simp flip: stats_of_nil)
qed

text \<open>
  The bucket of a span starts at a multiple of the bucket size, at most one bucket size before the
  end of the span, for a span that ends after the epoch.
\<close>

theorem span_bucket_bounds:
  assumes "0 < bs" "0 \<le> as_Start s + as_Duration s" "as_Start s + as_Duration s < 2 ^ 63"
  shows "bs dvd span_bucket bs s \<and> span_bucket bs s \<le> as_Start s + as_Duration s
    \<and> as_Start s + as_Duration s < span_bucket bs s + bs"
proof -
  let ?e = "as_Start s + as_Duration s"
  have "wrap64 ?e = ?e" using assms by (intro wrap64_id) (simp add: int64_range_def)
  then have b: "span_bucket bs s = ?e - ?e mod bs" using assms by (simp add: span_bucket_def alignTs_def go_rem_nonneg)
  show ?thesis unfolding b using assms(1) pos_mod_bound[of bs ?e] pos_mod_sign[of bs ?e] by (simp add: dvd_minus_mod)
qed

definition sample_aggregable :: aggregableSpan where
  "sample_aggregable = \<lparr>as_key = \<lparr>a_Name = ''q'', a_Type = ''sql'', a_Resource = ''r'', a_Service = ''db'', a_StatusCode = 0,
     a_Synthetics = False\<rparr>, as_Start = 25, as_Duration = 7, as_Error = 0, as_TopLevel = True\<rparr>"

theorem span_bucket_bounds_witness: "10 dvd span_bucket 10 sample_aggregable \<and> span_bucket 10 sample_aggregable \<le> 32"
  using span_bucket_bounds[of 10 sample_aggregable] by (simp add: sample_aggregable_def)

lemma flush_items:
  "m_items (cc_buckets (flushAndSend sk send now inc c)) =
      filter (\<lambda>(ts, _). \<not> inc \<and> ts > wrap64 (now - cc_bucketSize c)) (m_items (cc_buckets c))"
  "concat (map sp_Stats (cc_sent (flushAndSend sk send now inc c))) = concat (map sp_Stats (cc_sent c))
     @ map (\<lambda>(ts, b). bucket_Export sk b) (filter (\<lambda>(ts, _). inc \<or> ts \<le> wrap64 (now - cc_bucketSize c)) (m_items (cc_buckets c)))"
proof -
  have p: "(\<lambda>(ts, _ :: rawBucket). flush_bucket_now now inc c ts) = (\<lambda>(ts, _). inc \<or> ts \<le> wrap64 (now - cc_bucketSize c))"
    "(\<lambda>(ts, _ :: rawBucket). \<not> flush_bucket_now now inc c ts) = (\<lambda>(ts, _). \<not> inc \<and> ts > wrap64 (now - cc_bucketSize c))"
    by (auto simp: flush_bucket_now_def fun_eq_iff)
  have m: "m_items (map_option (filter f) m) = filter f (m_items m)" for f and m :: "(int, rawBucket) gomap" by (cases m) auto
  show "m_items (cc_buckets (flushAndSend sk send now inc c)) =
      filter (\<lambda>(ts, _). \<not> inc \<and> ts > wrap64 (now - cc_bucketSize c)) (m_items (cc_buckets c))"
    unfolding flushAndSend_def Let_def p by (auto simp: m concentrator_incr_def)
  show "concat (map sp_Stats (cc_sent (flushAndSend sk send now inc c))) = concat (map sp_Stats (cc_sent c))
     @ map (\<lambda>(ts, b). bucket_Export sk b) (filter (\<lambda>(ts, _). inc \<or> ts \<le> wrap64 (now - cc_bucketSize c)) (m_items (cc_buckets c)))"
    unfolding flushAndSend_def Let_def p by (auto simp: m concentrator_incr_def)
qed

text \<open>
  A tick flushes exactly the buckets that are not current: they are exported in one payload, no
  bucket is lost, and the current ones stay untouched; shutdown flushes them all.
\<close>

theorem flushAndSend_partition:
  assumes "flushAndSend sk send now inc c = c'"
  shows "m_items (cc_buckets c') = filter (\<lambda>(ts, _). \<not> inc \<and> ts > wrap64 (now - cc_bucketSize c)) (m_items (cc_buckets c))
    \<and> concat (map sp_Stats (cc_sent c')) = concat (map sp_Stats (cc_sent c))
        @ map (\<lambda>(ts, b). bucket_Export sk b) (filter (\<lambda>(ts, _). inc \<or> ts \<le> wrap64 (now - cc_bucketSize c)) (m_items (cc_buckets c)))"
  using flush_items[of sk send now inc c] assms by blast

theorem flushAndSend_partition_witness:
  "m_items (cc_buckets (flushAndSend (\<lambda>_. Some []) (\<lambda>_. True) 100 False (concentrator_add sample_aggregable (newConcentrator [] [] [] 10)))) = []"
proof -
  let ?c = "concentrator_add sample_aggregable (newConcentrator [] [] [] 10)"
  have "\<forall>x \<in> set (m_items (cc_buckets ?c)). fst x = 30"
    by (simp add: concentrator_add_def newConcentrator_def sample_aggregable_def alignTs_def wrap64_def go_rem_nonneg Let_def)
  moreover have "wrap64 (100 - cc_bucketSize ?c) = 90" by (simp add: newConcentrator_def wrap64_def)
  ultimately show ?thesis
    using flushAndSend_partition[OF refl, of "\<lambda>_. Some []" "\<lambda>_. True" 100 False ?c]
    by (fastforce simp: filter_empty_conv simp del: m_items_put)
qed

text \<open>
  An exported bucket starts with as many empty groups as it has real ones, since \<open>Export\<close> appends
  to a slice that was made with its full length.
\<close>

theorem Export_leading_zeros:
  "take (length (m_items (rb_data sb))) (sb_Stats (bucket_Export sk sb)) = replicate (length (m_items (rb_data sb))) zero_groupedStats
    \<and> length (sb_Stats (bucket_Export (\<lambda>_. Some []) sb)) = 2 * length (m_items (rb_data sb))"
proof -
  have "length (List.map_filter (\<lambda>(k, v). group_export (\<lambda>_. Some []) k v) xs) = length xs" for xs
    by (induction xs) (auto simp: List.map_filter_simps group_export_def)
  then show ?thesis by (simp add: bucket_Export_def)
qed

subsection \<open>No span is lost between ingestion and the transport\<close>

text \<open>
  \<open>conc_reach sk send n c\<close>: the concentrator can be in the state \<open>c\<close> after ingesting \<open>n\<close> spans, with spans
  arriving, rounds of the ingester and ticks of the flusher in any order.
\<close>

inductive conc_reach :: "(float64 list \<Rightarrow> byte list option) \<Rightarrow> (statsPayload \<Rightarrow> bool) \<Rightarrow> nat \<Rightarrow> concentrator \<Rightarrow> bool"
  for sk send where
  start: "conc_reach sk send 0 (concentrator_Start (newConcentrator ho env ver bs))"
| arrive: "conc_reach sk send n c \<Longrightarrow> conc_reach sk send n (c\<lparr>cc_In := cc_In c @ [s]\<rparr>)"
| ingest: "conc_reach sk send n c \<Longrightarrow> ingest c = Some c' \<Longrightarrow> conc_reach sk send (Suc n) c'"
| tick: "conc_reach sk send n c \<Longrightarrow> conc_reach sk send n (flushAndSend sk send now False c)"

definition bucket_hits :: "rawBucket \<Rightarrow> u64" where
  "bucket_hits sb = (\<Sum>(k, g)\<leftarrow>m_items (rb_data sb). g_hits g)"

definition waiting_hits :: "concentrator \<Rightarrow> u64" where
  "waiting_hits c = (\<Sum>(ts, sb)\<leftarrow>m_items (cc_buckets c). bucket_hits sb)"

definition sent_hits :: "concentrator \<Rightarrow> u64" where
  "sent_hits c = (\<Sum>b\<leftarrow>concat (map sp_Stats (cc_sent c)). \<Sum>g\<leftarrow>sb_Stats b. gs_Hits g)"

lemma sum_update:
  fixes f :: "'v \<Rightarrow> 'g :: ab_group_add"
  shows "(\<Sum>(k, v)\<leftarrow>AList.update k v al. f v) = (\<Sum>(k, v)\<leftarrow>al. f v) + f v - (case map_of al k of None \<Rightarrow> 0 | Some v0 \<Rightarrow> f v0)"
  by (induction al) (auto simp: algebra_simps split: option.split)

lemma bucket_hits_handle: "bucket_hits (handleSpan s sb) = bucket_hits sb + 1"
  by (auto simp: bucket_hits_def handleSpan_def sum_update m_get_def group_add_def newRawGroupedStats_def Let_def split: option.split)

lemma waiting_hits_add: "waiting_hits (concentrator_add s c) = waiting_hits c + 1"
  by (auto simp: waiting_hits_def concentrator_add_def sum_update bucket_hits_handle m_get_def Let_def split: option.split)
    (simp add: bucket_hits_def newRawBucket_def)

lemma export_hits:
  assumes "\<And>d. sk d \<noteq> None"
  shows "(\<Sum>g\<leftarrow>sb_Stats (bucket_Export sk sb). gs_Hits g) = bucket_hits sb"
proof -
  have "(\<Sum>g\<leftarrow>List.map_filter (\<lambda>(k, v). group_export sk k v) xs. gs_Hits g) = (\<Sum>(k, g)\<leftarrow>xs. g_hits g)" for xs
  proof (induction xs)
    case (Cons x xs)
    obtain k v where x: "x = (k, v)" by (cases x)
    obtain b1 b2 where "sk (g_okDistribution v) = Some b1" "sk (g_errDistribution v) = Some b2" using assms by blast
    then obtain g where "group_export sk k v = Some g" "gs_Hits g = g_hits v" by (simp add: group_export_def)
    then show ?case using Cons x by (auto simp: List.map_filter_simps)
  qed (simp add: List.map_filter_simps)
  moreover have "(\<Sum>g\<leftarrow>replicate n zero_groupedStats. gs_Hits g) = 0" for n
    by (induction n) (auto simp: zero_groupedStats_def)
  ultimately show ?thesis by (simp add: bucket_Export_def bucket_hits_def)
qed

lemma flush_hits:
  assumes "\<And>d. sk d \<noteq> None"
  shows "waiting_hits (flushAndSend sk send now inc c) + sent_hits (flushAndSend sk send now inc c) = waiting_hits c + sent_hits c"
proof -
  let ?P = "\<lambda>(ts, _ :: rawBucket). inc \<or> ts \<le> wrap64 (now - cc_bucketSize c)"
  have n: "(\<lambda>(ts, _ :: rawBucket). \<not> inc \<and> ts > wrap64 (now - cc_bucketSize c)) = (\<lambda>x. \<not> ?P x)" by (auto simp: fun_eq_iff)
  have "(\<Sum>(ts, sb)\<leftarrow>xs. bucket_hits sb) = (\<Sum>(ts, sb)\<leftarrow>filter P xs. bucket_hits sb) + (\<Sum>(ts, sb)\<leftarrow>filter (\<lambda>x. \<not> P x) xs. bucket_hits sb)"
    for xs :: "(int \<times> rawBucket) list" and P by (induction xs) auto
  note split = this[of "m_items (cc_buckets c)" ?P]
  show ?thesis
    using flush_items[of sk send now inc c] split
    by (simp add: waiting_hits_def sent_hits_def n comp_def case_prod_unfold export_hits[OF assms] not_le algebra_simps)
qed

text \<open>
  C19: in every interleaving, each ingested span is counted once: the hits in the buckets and the hits
  in the payloads handed to the transport add up to the number of ingested spans (modulo \<open>2 ^ 64\<close>),
  when the sketches can be serialized.
\<close>

theorem concentrator_conserves_hits:
  assumes "conc_reach sk send n c" "\<And>d. sk d \<noteq> None"
  shows "waiting_hits c + sent_hits c = of_nat n"
  using assms(1)
proof (induction rule: conc_reach.induct)
  case (start ho env ver bs)
  then show ?case by (simp add: concentrator_Start_def newConcentrator_def waiting_hits_def sent_hits_def)
next
  case (arrive n c s)
  then show ?case by (simp add: waiting_hits_def sent_hits_def)
next
  case (ingest n c c')
  then obtain s rest where "c' = concentrator_add s (concentrator_incr ''datadog.tracer.stats.spans_in'' 1 (c\<lparr>cc_In := rest\<rparr>))"
    by (auto simp: ingest_def split: list.splits)
  then have "waiting_hits c' = waiting_hits c + 1" "sent_hits c' = sent_hits c"
    by (simp_all add: waiting_hits_add) (simp_all add: sent_hits_def waiting_hits_def concentrator_incr_def)
  then show ?case using ingest.IH by (simp add: algebra_simps)
next
  case (tick n c now)
  then show ?case by (simp add: flush_hits[OF assms(2)])
qed

theorem concentrator_conserves_hits_witness:
  "\<exists>c. ingest ((concentrator_Start (newConcentrator [] [] [] 10))\<lparr>cc_In := [sample_aggregable]\<rparr>) = Some c
    \<and> waiting_hits c + sent_hits c = 1"
proof -
  let ?c = "(concentrator_Start (newConcentrator [] [] [] 10))\<lparr>cc_In := [sample_aggregable]\<rparr>"
  obtain c where c: "ingest ?c = Some c" by (simp add: ingest_def)
  have "conc_reach (\<lambda>_. Some []) (\<lambda>_. True) 0 ?c"
    using conc_reach.arrive[OF conc_reach.start, of "\<lambda>_. Some []" "\<lambda>_. True" "[]" "[]" "[]" 10 sample_aggregable]
    by (simp add: concentrator_Start_def newConcentrator_def)
  from concentrator_conserves_hits[OF conc_reach.ingest[OF this c]] show ?thesis using c by simp
qed

end
