(* ===== verification/Sql_Comment.thy ===== *)
theory Sql_Comment
  imports Tracer_Core
begin

section \<open>ddtrace/tracer/sqlcomment.go: injecting a span context into a SQL query\<close>

text \<open>
  The carrier that prepends a comment with service and trace tags to a query.  The global service
  name, the time and the random source are arguments.  \<open>None\<close> is a panic, as \<open>ctx_meta\<close> has it for a
  context without a span.
\<close>

abbreviation "SQLInjectionUndefined \<equiv> ''''"
abbreviation "SQLInjectionDisabled \<equiv> ''disabled''"
abbreviation "SQLInjectionModeService \<equiv> ''service''"
abbreviation "SQLInjectionModeFull \<equiv> ''full''"
abbreviation "sqlCommentTraceParent \<equiv> ''traceparent''"
abbreviation "sqlCommentParentService \<equiv> ''ddps''"
abbreviation "sqlCommentDBService \<equiv> ''dddbs''"
abbreviation "sqlCommentParentVersion \<equiv> ''ddpv''"
abbreviation "sqlCommentEnv \<equiv> ''dde''"

record SQLCommentCarrier =
  q_Query :: string
  q_Mode :: string
  q_DBServiceName :: string
  q_SpanID :: u64

definition encodeTraceParent :: "u64 \<Rightarrow> u64 \<Rightarrow> int \<Rightarrow> string" where
  "encodeTraceParent traceID spanID sampled =
    ''00'' @ ''-'' @ pad_left 32 (format_uint traceID 16)
    @ ''-'' @ pad_left 16 (format_uint spanID 16)
    @ ''-'' @ ''0'' @ fmt_base 16 sampled"

text \<open>
  \<open>strings.NewReplacer\<close> on one-byte strings: every byte is replaced on its own, and of two pairs for
  the same byte the earlier one counts.
\<close>

definition replacer :: "(char \<times> string) list \<Rightarrow> string \<Rightarrow> string" where
  "replacer pairs s = concat (map (\<lambda>c. case map_of pairs c of Some r \<Rightarrow> r | None \<Rightarrow> [c]) s)"

definition url_pairs :: "(char \<times> string) list" where
  "url_pairs =
    [(CHR '' '', ''%20''), (CHR ''!'', ''%21''), (CHR ''#'', ''%23''), (CHR ''$'', ''%24''), (CHR ''%'', ''%25''),
     (CHR ''&'', ''%26''), (CHR 0x27, ''%27''), (CHR ''('', ''%28''), (CHR '')'', ''%29''), (CHR ''*'', ''%2A''),
     (CHR ''+'', ''%2B''), (CHR '','', ''%2C''), (CHR ''/'', ''%2F''), (CHR '':'', ''%3A''), (CHR '';'', ''%3B''),
     (CHR ''='', ''%3D''), (CHR ''?'', ''%3F''), (CHR ''@'', ''%40''), (CHR ''['', ''%5B''), (CHR '']'', ''%5D'')]"

definition keyReplacer :: "string \<Rightarrow> string" where
  "keyReplacer = replacer url_pairs"

definition valueReplacer :: "string \<Rightarrow> string" where
  "valueReplacer = replacer (url_pairs @ [(CHR 0x27, [CHR 0x5C, CHR 0x27])])"

definition orderedKeys :: "string list" where
  "orderedKeys = [sqlCommentDBService, sqlCommentEnv, sqlCommentParentService, sqlCommentParentVersion, sqlCommentTraceParent]"

primrec comment_tags :: "(string, string) gomap \<Rightarrow> string list \<Rightarrow> bool \<Rightarrow> string" where
  "comment_tags tags [] first = []"
| "comment_tags tags (k # ks) first = (case m_get tags k of
     Some v \<Rightarrow> (if first then ''/*'' else '','') @ keyReplacer k @ ''='' @ [CHR 0x27] @ valueReplacer v @ [CHR 0x27]
       @ comment_tags tags ks False
   | None \<Rightarrow> comment_tags tags ks first)"

definition commentQuery :: "string \<Rightarrow> (string, string) gomap \<Rightarrow> string" where
  "commentQuery query tags =
    (if m_items tags = [] then []
     else let b = comment_tags tags orderedKeys True in
       if b = [] then query
       else let b' = b @ ''*/'' in
         if query = [] then b' else b' @ '' '' @ query)"

text \<open>The span context is a \<open>*spanContext\<close>, or \<open>None\<close> for nil and for another implementation.\<close>

definition traceparent_tag :: "heap \<Rightarrow> nat option \<Rightarrow> u64 \<Rightarrow> string" where
  "traceparent_tag h spanCtx spanID =
    (let samplingPriority = (case spanCtx of None \<Rightarrow> 0
           | Some cp \<Rightarrow> (case ctx_samplingPriority h cp of Some sp \<Rightarrow> sp | None \<Rightarrow> 0));
         traceID0 = (case spanCtx of None \<Rightarrow> 0 | Some cp \<Rightarrow> c_traceID (h_ctx h cp));
         traceID = (if traceID0 = 0 then spanID else traceID0);
         sampled = (if samplingPriority > 0 then 1 else 0)
     in encodeTraceParent traceID spanID sampled)"

definition service_tags :: "heap \<Rightarrow> nat option \<Rightarrow> string \<Rightarrow> string \<Rightarrow> (string, string) gomap \<Rightarrow> (string, string) gomap option" where
  "service_tags h spanCtx svc db tags =
    (let env_version = (case spanCtx of
           None \<Rightarrow> Some ([], [])
         | Some cp \<Rightarrow> (case (ctx_meta h cp ext_Environment, ctx_meta h cp ext_Version) of
             (Some e, Some v) \<Rightarrow> Some (case e of Some x \<Rightarrow> x | None \<Rightarrow> [], case v of Some x \<Rightarrow> x | None \<Rightarrow> [])
           | _ \<Rightarrow> None))
     in case env_version of
          None \<Rightarrow> None
        | Some (env, version) \<Rightarrow>
            let t1 = (if svc \<noteq> [] then m_put sqlCommentParentService svc tags else tags);
                t2 = (if env \<noteq> [] then m_put sqlCommentEnv env t1 else t1);
                t3 = (if version \<noteq> [] then m_put sqlCommentParentVersion version t2 else t2)
            in Some (m_put sqlCommentDBService db t3))"

definition SQLCommentCarrier_Inject ::
    "u64 \<Rightarrow> int \<Rightarrow> string \<Rightarrow> heap \<Rightarrow> nat option \<Rightarrow> SQLCommentCarrier \<Rightarrow> SQLCommentCarrier option" where
  "SQLCommentCarrier_Inject rnd now svc h spanCtx c0 =
    (let c = c0\<lparr>q_SpanID := generateSpanID rnd now\<rparr>
     in if q_Mode c = SQLInjectionUndefined \<or> q_Mode c = SQLInjectionDisabled then Some c
        else
          let tags = (if q_Mode c = SQLInjectionModeFull
                then m_put sqlCommentTraceParent (traceparent_tag h spanCtx (q_SpanID c)) (Some []) else Some []);
              tags' = (if q_Mode c = SQLInjectionModeFull \<or> q_Mode c = SQLInjectionModeService
                then service_tags h spanCtx svc (q_DBServiceName c) tags else Some tags)
          in map_option (\<lambda>t. c\<lparr>q_Query := commentQuery (q_Query c) t\<rparr>) tags')"

text \<open>\<open>Extract\<close> is not implemented: it returns a nil context and no error.\<close>

definition SQLCommentCarrier_Extract :: "SQLCommentCarrier \<Rightarrow> nat option" where
  "SQLCommentCarrier_Extract c = None"

subsection \<open>What a comment can contain\<close>

definition comment_char :: "char \<Rightarrow> bool" where
  "comment_char c \<longleftrightarrow> c \<noteq> CHR ''*'' \<and> c \<noteq> CHR ''/''"

fun percent_decode :: "string \<Rightarrow> string" where
  "percent_decode (c # cs) =
    (if c = CHR ''%'' then
       (case cs of a # b # rest \<Rightarrow>
          (case (digit_val a, digit_val b) of
             (Some x, Some y) \<Rightarrow> char_of (nat (16 * x + y)) # percent_decode rest
           | _ \<Rightarrow> c # percent_decode cs)
        | _ \<Rightarrow> c # percent_decode cs)
     else c # percent_decode cs)"
| "percent_decode [] = []"

lemma url_pairs_value: "map_of (url_pairs @ [(CHR 0x27, [CHR 0x5C, CHR 0x27])]) c = map_of url_pairs c"
  by (simp add: url_pairs_def)

lemma valueReplacer_key: "valueReplacer = keyReplacer"
  by (rule ext) (simp only: valueReplacer_def keyReplacer_def replacer_def url_pairs_value)

lemma url_pairs_plain:
  "map_of url_pairs c = Some r \<Longrightarrow> list_all comment_char r \<and> CHR 0x27 \<notin> set r"
  by (auto simp: url_pairs_def comment_char_def split: if_splits)

lemma url_pairs_none: "map_of url_pairs c = None \<Longrightarrow> comment_char c \<and> c \<noteq> CHR 0x27 \<and> c \<noteq> CHR ''%''"
  by (auto simp: url_pairs_def comment_char_def split: if_splits)

lemma keyReplacer_plain: "list_all comment_char (keyReplacer s) \<and> CHR 0x27 \<notin> set (keyReplacer s)"
  by (induction s) (auto simp: keyReplacer_def replacer_def split: option.split dest: url_pairs_plain url_pairs_none)

lemma percent_decode_pair:
  "map_of url_pairs c = Some r \<Longrightarrow> percent_decode (r @ t) = c # percent_decode t"
  by (auto simp: url_pairs_def digit_val_def char_of_eq_iff split: if_splits)

lemma percent_decode_plain: "c \<noteq> CHR ''%'' \<Longrightarrow> percent_decode (c # t) = c # percent_decode t"
  by simp

lemma percent_decode_keyReplacer: "percent_decode (keyReplacer s) = s"
proof (induction s)
  case (Cons c s)
  have "keyReplacer (c # s) = (case map_of url_pairs c of Some r \<Rightarrow> r | None \<Rightarrow> [c]) @ keyReplacer s"
    by (simp add: keyReplacer_def replacer_def)
  then show ?case using Cons percent_decode_pair url_pairs_none[of c]
    by (auto simp del: percent_decode.simps simp: percent_decode_plain split: option.split)
qed (simp add: keyReplacer_def replacer_def)

text \<open>
  A value in a SQL comment is decoded by URL decoding to the value that was injected, and it never
  contains a quote, an asterisk or a slash.
\<close>

theorem valueReplacer_roundtrip:
  "percent_decode (valueReplacer v) = v \<and> CHR 0x27 \<notin> set (valueReplacer v)
    \<and> CHR ''*'' \<notin> set (valueReplacer v) \<and> CHR ''/'' \<notin> set (valueReplacer v)"
  using keyReplacer_plain[of v] percent_decode_keyReplacer[of v]
  by (auto simp: valueReplacer_key list_all_iff comment_char_def)

lemma comment_tags_shape:
  "comment_tags tags ks first = [] \<and> (\<forall>k \<in> set ks. m_get tags k = None)
    \<or> (\<exists>body. comment_tags tags ks first = (if first then ''/*'' else '','') @ body \<and> list_all comment_char body
         \<and> (\<exists>k \<in> set ks. m_get tags k \<noteq> None))"
proof (induction ks arbitrary: first)
  case (Cons k ks)
  show ?case
  proof (cases "m_get tags k")
    case None
    then show ?thesis using Cons by auto
  next
    case (Some v)
    let ?kv = "keyReplacer k @ ''='' @ [CHR 0x27] @ valueReplacer v @ [CHR 0x27]"
    have kv: "list_all comment_char ?kv" using keyReplacer_plain[of k] keyReplacer_plain[of v]
      by (simp add: valueReplacer_key comment_char_def)
    have r: "list_all comment_char (comment_tags tags ks False)"
      using Cons.IH[of False] by (auto simp: comment_char_def[of "CHR '',''"])
    show ?thesis using Some kv r by (intro disjI2 exI[of _ "?kv @ comment_tags tags ks False"]) auto
  qed
qed auto

lemma commentQuery_shape:
  assumes "m_get tags sqlCommentDBService \<noteq> None"
  obtains body where "commentQuery query tags = ''/*'' @ body @ ''*/'' @ (if query = [] then [] else '' '' @ query)"
    "list_all comment_char body"
proof -
  have "m_items tags \<noteq> []" using assms by (auto simp: m_get_def)
  moreover have "\<exists>k \<in> set orderedKeys. m_get tags k \<noteq> None" using assms by (auto simp: orderedKeys_def)
  then obtain body where "comment_tags tags orderedKeys True = ''/*'' @ body" "list_all comment_char body"
    using comment_tags_shape[of tags orderedKeys True] by auto
  ultimately show ?thesis using that by (auto simp: commentQuery_def Let_def)
qed

lemma service_tags_returns:
  assumes "\<And>cp. spanCtx = Some cp \<Longrightarrow> c_span (h_ctx h cp) \<noteq> None"
  obtains t where "service_tags h spanCtx svc db tags = Some t" "m_get t sqlCommentDBService = Some db"
proof (cases spanCtx)
  case None
  then show ?thesis using that by (simp add: service_tags_def Let_def)
next
  case (Some cp)
  then obtain q where "c_span (h_ctx h cp) = Some q" using assms by blast
  then show ?thesis using Some that by (simp add: service_tags_def ctx_meta_def Let_def)
qed

text \<open>
  C20: whatever the tags and the service names contain, an injected comment cannot be closed early: in
  the modes service and full, the new query is \<open>/*\<close>, a text without asterisk and slash, \<open>*/\<close>, and then
  the old query unchanged.
\<close>

theorem Inject_comment_safe:
  assumes "q_Mode c = SQLInjectionModeFull \<or> q_Mode c = SQLInjectionModeService"
    and "\<And>cp. spanCtx = Some cp \<Longrightarrow> c_span (h_ctx h cp) \<noteq> None"
  shows "\<exists>c' body. SQLCommentCarrier_Inject rnd now svc h spanCtx c = Some c'
    \<and> q_Query c' = ''/*'' @ body @ ''*/'' @ (if q_Query c = [] then [] else '' '' @ q_Query c)
    \<and> CHR ''*'' \<notin> set body \<and> CHR ''/'' \<notin> set body"
proof -
  let ?tags = "if q_Mode c = SQLInjectionModeFull
     then m_put sqlCommentTraceParent (traceparent_tag h spanCtx (generateSpanID rnd now)) (Some []) else Some []"
  obtain t where t: "service_tags h spanCtx svc (q_DBServiceName c) ?tags = Some t" "m_get t sqlCommentDBService = Some (q_DBServiceName c)"
    using service_tags_returns[OF assms(2)] .
  then obtain body where b: "commentQuery (q_Query c) t = ''/*'' @ body @ ''*/'' @ (if q_Query c = [] then [] else '' '' @ q_Query c)"
      "list_all comment_char body"
    using commentQuery_shape[of t "q_Query c"] by auto
  have "SQLCommentCarrier_Inject rnd now svc h spanCtx c
      = Some (c\<lparr>q_SpanID := generateSpanID rnd now, q_Query := commentQuery (q_Query c) t\<rparr>)"
    using t(1) assms(1) by (auto simp: SQLCommentCarrier_Inject_def Let_def)
  then show ?thesis using b by (auto simp: list_all_iff comment_char_def)
qed

theorem Inject_comment_safe_witness:
  "\<exists>c' body. SQLCommentCarrier_Inject 5 0 ''a*/b'' undefined None
      \<lparr>q_Query = ''SELECT 1'', q_Mode = SQLInjectionModeFull, q_DBServiceName = ''db'', q_SpanID = 0\<rparr> = Some c'
    \<and> q_Query c' = ''/*'' @ body @ ''*/ SELECT 1'' \<and> CHR ''*'' \<notin> set body"
  using Inject_comment_safe[of "\<lparr>q_Query = ''SELECT 1'', q_Mode = SQLInjectionModeFull, q_DBServiceName = ''db'', q_SpanID = 0\<rparr>"
      None undefined 5 0 "''a*/b''"]
  by auto

lemma parse_padded_hex: "parse_uint 16 (pad_left k (format_uint n 16)) = Some n"
proof -
  have "parse_digits 16 0 (pad_left k (format_uint n 16)) = parse_digits 16 0 (format_uint n 16)"
    by (simp add: pad_left_def parse_digits_zeros)
  moreover have "pad_left k (format_uint n 16) \<noteq> []" by (simp add: pad_left_def)
  ultimately have "parse_uint 16 (pad_left k (format_uint n 16)) = parse_uint 16 (format_uint n 16)" by (simp add: parse_uint_def)
  then show ?thesis by simp
qed

lemma length_padded_hex: "16 \<le> k \<Longrightarrow> length (pad_left k (format_uint n 16)) = k"
  using length_format_uint_16[of n] by (simp add: pad_left_def)

text \<open>
  The traceparent tag has the 55 bytes of the W3C format, and its fields are the hexadecimal
  numerals of the trace id and the span id.
\<close>

theorem encodeTraceParent_format:
  assumes "sampled = 0 \<or> sampled = 1"
  shows "length (encodeTraceParent tid sid sampled) = 55
    \<and> parse_uint 16 (take 32 (drop 3 (encodeTraceParent tid sid sampled))) = Some tid
    \<and> parse_uint 16 (take 16 (drop 36 (encodeTraceParent tid sid sampled))) = Some sid
    \<and> drop 52 (encodeTraceParent tid sid sampled) = (if sampled = 1 then ''-01'' else ''-00'')"
proof -
  have f: "fmt_base 16 sampled = (if sampled = 1 then ''1'' else ''0'')"
  proof -
    have "fmt_base 16 1 = ''1''" "fmt_base 16 0 = ''0''" by code_simp+
    then show ?thesis using assms by auto
  qed
  show ?thesis
    by (simp add: encodeTraceParent_def length_padded_hex parse_padded_hex f)
qed

theorem encodeTraceParent_format_witness: "length (encodeTraceParent 255 7 1) = 55 \<and> drop 52 (encodeTraceParent 255 7 1) = ''-01''"
  using encodeTraceParent_format[of 1 255 7] by simp

text \<open>
  A mode the carrier does not know erases the query, as a comment without tags is the empty text.
\<close>

theorem Inject_unknown_mode_erases:
  assumes "q_Mode c \<notin> {SQLInjectionUndefined, SQLInjectionDisabled, SQLInjectionModeService, SQLInjectionModeFull}"
  shows "\<exists>c'. SQLCommentCarrier_Inject rnd now svc h spanCtx c = Some c' \<and> q_Query c' = []"
  using assms by (auto simp: SQLCommentCarrier_Inject_def commentQuery_def Let_def)

theorem Inject_unknown_mode_erases_witness:
  "\<exists>c'. SQLCommentCarrier_Inject 5 0 ''web'' undefined None
      \<lparr>q_Query = ''SELECT 1'', q_Mode = ''Full'', q_DBServiceName = ''db'', q_SpanID = 0\<rparr> = Some c' \<and> q_Query c' = []"
  by (rule Inject_unknown_mode_erases) simp

text \<open>
  Injecting a context that was extracted from a carrier panics in the modes service and full, as
  such a context has no span whose tags could be read.
\<close>

theorem Inject_extracted_context_panics:
  assumes "q_Mode c = SQLInjectionModeFull \<or> q_Mode c = SQLInjectionModeService" "c_span (h_ctx h cp) = None"
  shows "SQLCommentCarrier_Inject rnd now svc h (Some cp) c = None"
  using assms by (auto simp: SQLCommentCarrier_Inject_def service_tags_def ctx_meta_def Let_def)

theorem Inject_extracted_context_panics_witness:
  "SQLCommentCarrier_Inject 5 0 ''web'' ((undefined :: heap)\<lparr>h_ctx := (\<lambda>_. zero_ctx)\<rparr>) (Some 0)
      \<lparr>q_Query = ''SELECT 1'', q_Mode = SQLInjectionModeFull, q_DBServiceName = ''db'', q_SpanID = 0\<rparr> = None"
  by (rule Inject_extracted_context_panics) (simp_all add: zero_ctx_def)

end
