(* ===== verification/Start_Options.thy ===== *)
theory Start_Options
  imports Trace_Props
begin

section \<open>ddtrace/tracer/option.go, context.go: options of spans and Go contexts\<close>

text \<open>
  Options are functions that change a configuration; they are applied in order.  A Go context is
  the active span it carries, if any, and its pprof labels; nil is \<open>None\<close>.
\<close>

type_synonym StartSpanOption = "StartSpanConfig \<Rightarrow> StartSpanConfig"
type_synonym FinishOption = "FinishConfig \<Rightarrow> FinishConfig"
type_synonym UserMonitoringOption = "UserMonitoringConfig \<Rightarrow> UserMonitoringConfig"

definition Tag :: "string \<Rightarrow> goval \<Rightarrow> StartSpanOption" where
  "Tag k v cfg = cfg\<lparr>sc_Tags := m_put k v (sc_Tags cfg)\<rparr>"

definition ServiceName :: "string \<Rightarrow> StartSpanOption" where
  "ServiceName name = Tag ext_ServiceName (VString name)"

definition ResourceName :: "string \<Rightarrow> StartSpanOption" where
  "ResourceName name = Tag ext_ResourceName (VString name)"

definition SpanType :: "string \<Rightarrow> StartSpanOption" where
  "SpanType name = Tag ext_SpanType (VString name)"

definition Measured :: StartSpanOption where
  "Measured = Tag keyMeasured (VInt 1)"

definition WithSpanID :: "u64 \<Rightarrow> StartSpanOption" where
  "WithSpanID sid cfg = cfg\<lparr>sc_SpanID := sid\<rparr>"

definition ChildOf :: "nat option \<Rightarrow> StartSpanOption" where
  "ChildOf ctx cfg = cfg\<lparr>sc_Parent := ctx\<rparr>"

definition withContext :: "pprof_ctx \<Rightarrow> StartSpanOption" where
  "withContext ctx cfg = cfg\<lparr>sc_Context := Some ctx\<rparr>"

text \<open>The zero time, \<open>None\<close>, stands for a time that is not set.\<close>

definition StartTime :: "int option \<Rightarrow> StartSpanOption" where
  "StartTime t cfg = cfg\<lparr>sc_StartTime := t\<rparr>"

definition AnalyticsRate :: "float64 \<Rightarrow> StartSpanOption" where
  "AnalyticsRate rate = (if f64_is_nan rate then (\<lambda>cfg. cfg) else Tag ext_EventSampleRate (VFloat64 rate))"

definition FinishTime :: "int option \<Rightarrow> FinishOption" where
  "FinishTime t cfg = cfg\<lparr>fc_FinishTime := t\<rparr>"

definition WithError :: "goerror option \<Rightarrow> FinishOption" where
  "WithError err cfg = cfg\<lparr>fc_Error := err\<rparr>"

definition NoDebugStack :: FinishOption where
  "NoDebugStack cfg = cfg\<lparr>fc_NoDebugStack := True\<rparr>"

definition StackFrames :: "nat \<Rightarrow> nat \<Rightarrow> FinishOption" where
  "StackFrames n skip = (if n = 0 then NoDebugStack else (\<lambda>cfg. cfg\<lparr>fc_StackFrames := n, fc_SkipStackFrames := skip\<rparr>))"

definition WithUserEmail :: "string \<Rightarrow> UserMonitoringOption" where
  "WithUserEmail email cfg = cfg\<lparr>u_Email := email\<rparr>"

definition WithUserName :: "string \<Rightarrow> UserMonitoringOption" where
  "WithUserName name cfg = cfg\<lparr>u_Name := name\<rparr>"

definition WithUserSessionID :: "string \<Rightarrow> UserMonitoringOption" where
  "WithUserSessionID sessionID cfg = cfg\<lparr>u_SessionID := sessionID\<rparr>"

definition WithUserRole :: "string \<Rightarrow> UserMonitoringOption" where
  "WithUserRole role cfg = cfg\<lparr>u_Role := role\<rparr>"

definition WithUserScope :: "string \<Rightarrow> UserMonitoringOption" where
  "WithUserScope scope cfg = cfg\<lparr>u_Scope := scope\<rparr>"

definition WithPropagation :: UserMonitoringOption where
  "WithPropagation cfg = cfg\<lparr>u_PropagateID := True\<rparr>"

definition apply_options :: "StartSpanOption list \<Rightarrow> StartSpanConfig" where
  "apply_options options = fold (\<lambda>fn cfg. fn cfg) options
     \<lparr>sc_Parent = None, sc_StartTime = None, sc_SpanID = 0, sc_Tags = None, sc_Context = None\<rparr>"

text \<open>\<open>StartSpan\<close> with its options, as the source has it.\<close>

definition StartSpan_options ::
  "extlib \<Rightarrow> string \<Rightarrow> StartSpanOption list \<Rightarrow> int \<Rightarrow> u64 \<Rightarrow> frame list \<Rightarrow> heap \<Rightarrow> (nat \<times> heap) option" where
  "StartSpan_options x operationName options now rnd stk h = StartSpan x operationName (apply_options options) now rnd stk h"

subsection \<open>Contexts\<close>

record go_context =
  gc_span :: "nat option"
  gc_labels :: pprof_ctx

definition background :: go_context where
  "background = \<lparr>gc_span = None, gc_labels = []\<rparr>"

definition ContextWithSpan :: "go_context \<Rightarrow> nat \<Rightarrow> go_context" where
  "ContextWithSpan ctx s = ctx\<lparr>gc_span := Some s\<rparr>"

text \<open>\<open>None\<close> is the no-op span with the flag false.\<close>

definition SpanFromContext :: "go_context option \<Rightarrow> nat option" where
  "SpanFromContext ctx = (case ctx of None \<Rightarrow> None | Some c \<Rightarrow> gc_span c)"

definition context_options :: "go_context option \<Rightarrow> heap \<Rightarrow> StartSpanOption list \<Rightarrow> StartSpanOption list" where
  "context_options ctx h opts =
    (case ctx of
       None \<Rightarrow> opts @ [withContext (gc_labels background)]
     | Some c \<Rightarrow> (case SpanFromContext (Some c) of
           Some s \<Rightarrow> opts @ [ChildOf (Some (s_context (h_span h s)))]
         | None \<Rightarrow> opts) @ [withContext (gc_labels c)])"

definition StartSpanFromContext ::
  "extlib \<Rightarrow> go_context option \<Rightarrow> string \<Rightarrow> StartSpanOption list \<Rightarrow> int \<Rightarrow> u64 \<Rightarrow> frame list \<Rightarrow> heap
     \<Rightarrow> (nat \<times> go_context \<times> heap) option" where
  "StartSpanFromContext x ctx operationName opts now rnd stk h =
    (case StartSpan_options x operationName (context_options ctx h opts) now rnd stk h of
       None \<Rightarrow> None
     | Some (s, h') \<Rightarrow>
         let ctx0 = (case ctx of None \<Rightarrow> background | Some c \<Rightarrow> c);
             ctx1 = (case s_pprofCtxActive (h_span h' s) of Some l \<Rightarrow> ctx0\<lparr>gc_labels := l\<rparr> | None \<Rightarrow> ctx0)
         in Some (s, ContextWithSpan ctx1 s, h'))"

subsection \<open>Ids and parents of started spans\<close>

lemma new_span_ids:
  fixes nm opts now rnd h
  defines "startTime \<equiv> (case sc_StartTime opts of None \<Rightarrow> now | Some t \<Rightarrow> t)"
  defines "sid \<equiv> (if sc_SpanID opts = 0 then generateSpanID rnd startTime else sc_SpanID opts)"
  shows "span_ids (new_span nm opts now rnd h) = (case sc_Parent opts of
      None \<Rightarrow> (sid, sid, 0)
    | Some cp \<Rightarrow> (sid, c_traceID (h_ctx h cp), c_spanID (h_ctx h cp)))"
  by (simp add: new_span_def child_span_def init_span_def zero_span_def Let_def startTime_def sid_def split: option.split)

lemma apply_options_context:
  "sc_Parent (apply_options (opts @ [ChildOf ctx, withContext l])) = ctx"
  "sc_Context (apply_options (opts @ [withContext l])) = Some l"
  by (simp_all add: apply_options_def ChildOf_def withContext_def)

text \<open>
  C26: a started span without a parent is the root of a new trace whose id is its own; with a parent
  context it belongs to the trace of that context and its parent id is the span id of it.  The
  span id is the given one, and a generated one when it is not given, whatever tags are set.
\<close>

theorem StartSpan_parent_ids:
  assumes "heap_wf h" "StartSpan_options x nm options now rnd stk h = Some (p, h')"
  shows "let opts = apply_options options;
      sid = (if sc_SpanID opts = 0 then generateSpanID rnd (case sc_StartTime opts of None \<Rightarrow> now | Some t \<Rightarrow> t) else sc_SpanID opts)
    in s_SpanID (h_span h' p) = sid
      \<and> s_TraceID (h_span h' p) = (case sc_Parent opts of None \<Rightarrow> sid | Some cp \<Rightarrow> c_traceID (h_ctx h cp))
      \<and> s_ParentID (h_span h' p) = (case sc_Parent opts of None \<Rightarrow> 0 | Some cp \<Rightarrow> c_spanID (h_ctx h cp))"
  using StartSpan_ids[OF assms(1) assms(2)[unfolded StartSpan_options_def]]
  by (simp add: new_span_ids Let_def split: option.splits)

lemma start_opts_options: "apply_options [StartTime (Some 10)] = start_opts None"
  by (simp add: apply_options_def StartTime_def start_opts_def)

theorem StartSpan_parent_ids_witness:
  "s_ParentID (h_span run1 0) = 0 \<and> s_SpanID (h_span run1 0) = generateSpanID 5 10 \<and> s_TraceID (h_span run1 0) = generateSpanID 5 10"
proof -
  have "StartSpan_options sample_ext ''web.request'' [StartTime (Some 10)] 10 5 [] sample_heap = Some (0, run1)"
    using run1(1) by (simp add: StartSpan_options_def start_opts_options)
  from StartSpan_parent_ids[OF sample_init(2) this] show ?thesis
    by (simp add: start_opts_options Let_def) (simp add: start_opts_def)
qed

text \<open>
  The span of a Go context beats a parent given as an option: a span started from a context with
  an active span continues the trace of that span and has it as its parent, and the returned
  context carries the new span.
\<close>

theorem StartSpanFromContext_parent:
  assumes "heap_wf h" "gc_span c = Some q"
    and "StartSpanFromContext x (Some c) nm options now rnd stk h = Some (p, c', h')"
  shows "s_TraceID (h_span h' p) = c_traceID (h_ctx h (s_context (h_span h q)))
    \<and> s_ParentID (h_span h' p) = c_spanID (h_ctx h (s_context (h_span h q)))
    \<and> SpanFromContext (Some c') = Some p"
proof -
  let ?os = "options @ [ChildOf (Some (s_context (h_span h q))), withContext (gc_labels c)]"
  have s: "StartSpan x nm (apply_options ?os) now rnd stk h = Some (p, h')" and c': "gc_span c' = Some p"
    using assms(2,3)
    by (auto simp: StartSpanFromContext_def context_options_def SpanFromContext_def StartSpan_options_def ContextWithSpan_def
        Let_def split: option.splits)
  show ?thesis
    using StartSpan_ids[OF assms(1) s] c' by (simp add: new_span_ids apply_options_context SpanFromContext_def)
qed

theorem StartSpanFromContext_parent_witness:
  "\<exists>p c' h'. StartSpanFromContext sample_ext (Some \<lparr>gc_span = Some 0, gc_labels = []\<rparr>) ''db.query'' [ChildOf None] 11 6 [] run1 = Some (p, c', h')
    \<and> s_ParentID (h_span h' p) = c_spanID (h_ctx run1 2) \<and> gc_span c' = Some p"
proof -
  let ?c = "\<lparr>gc_span = Some 0, gc_labels = []\<rparr>"
  let ?o = "apply_options (context_options (Some ?c) run1 [ChildOf None])"
  have "sc_Tags ?o = None"
    by (simp add: context_options_def SpanFromContext_def apply_options_def ChildOf_def withContext_def)
  moreover have "cf_globalTags (tr_config (h_tracer run1)) = None" by (simp add: run1(6) sample_config_def)
  ultimately have "StartSpan sample_ext ''db.query'' ?o 11 6 [] run1
      = Some (3, snd (the (StartSpan sample_ext ''db.query'' ?o 11 6 [] run1)))"
    using StartSpan_untagged[OF _ _ run1(2)] run1(4) by simp
  then obtain h' where "StartSpan sample_ext ''db.query'' ?o 11 6 [] run1 = Some (3, h')" by blast
  then obtain c' where s: "StartSpanFromContext sample_ext (Some ?c) ''db.query'' [ChildOf None] 11 6 [] run1 = Some (3, c', h')"
    unfolding StartSpanFromContext_def StartSpan_options_def Let_def by (simp only: option.case prod.case)
  show ?thesis
    using StartSpanFromContext_parent[OF run1(2) _ s] s run1(5) by (simp add: SpanFromContext_def)
qed

end
