(* ===== verification/Tag_Types.thy ===== *)
theory Tag_Types
  imports Trace_Props
begin

section \<open>The two tag maps of a span stay well formed and disjoint\<close>

text \<open>
  A span has string tags and numeric tags.  A key is in one of the two maps at most, and a map has
  one entry for a key.  Every operation of the tracer keeps this: the lemmas go through the
  operations in the order of the source, the step relation collects them.
\<close>

named_theorems maps_intro

definition heap_maps_ok :: "heap \<Rightarrow> bool" where
  "heap_maps_ok h \<longleftrightarrow> (\<forall>p. span_maps_ok (h_span h p))"

lemma heap_maps_upd_span [maps_intro]:
  "heap_maps_ok h \<Longrightarrow> (\<And>s. span_maps_ok s \<Longrightarrow> span_maps_ok (f s)) \<Longrightarrow> heap_maps_ok (upd_span p f h)"
  by (simp add: heap_maps_ok_def)

lemma heap_maps_other [simp]:
  "heap_maps_ok (upd_ctx c g h) = heap_maps_ok h" "heap_maps_ok (upd_trace t k h) = heap_maps_ok h"
  "heap_maps_ok (upd_lim l m h) = heap_maps_ok h" "heap_maps_ok (upd_tracer n h) = heap_maps_ok h"
  "heap_maps_ok (h\<lparr>h_labels := ls\<rparr>) = heap_maps_ok h" "heap_maps_ok (h\<lparr>h_active := b\<rparr>) = heap_maps_ok h"
  "heap_maps_ok (h\<lparr>h_ctx := cs\<rparr>) = heap_maps_ok h" "heap_maps_ok (h\<lparr>h_trace := ts\<rparr>) = heap_maps_ok h"
  "heap_maps_ok (h\<lparr>h_next := n'\<rparr>) = heap_maps_ok h"
  by (simp_all add: heap_maps_ok_def)

lemma span_maps_other [simp]:
  "span_maps_ok (s\<lparr>s_Name := a\<rparr>) = span_maps_ok s" "span_maps_ok (s\<lparr>s_Service := a\<rparr>) = span_maps_ok s"
  "span_maps_ok (s\<lparr>s_Error := e\<rparr>) = span_maps_ok s" "span_maps_ok (s\<lparr>s_context := c\<rparr>) = span_maps_ok s"
  "span_maps_ok (s\<lparr>s_pprofCtxActive := x\<rparr>) = span_maps_ok s" "span_maps_ok (s\<lparr>s_pprofCtxRestore := x\<rparr>) = span_maps_ok s"
  "span_maps_ok (s\<lparr>s_TraceID := i, s_ParentID := j\<rparr>) = span_maps_ok s"
  by (simp_all add: span_maps_ok_alt)

lemma span_maps_del [simp]:
  "span_maps_ok s \<Longrightarrow> span_maps_ok (s\<lparr>s_Meta := m_del k (s_Meta s)\<rparr>)"
  "span_maps_ok s \<Longrightarrow> span_maps_ok (s\<lparr>s_Metrics := m_del k (s_Metrics s)\<rparr>)"
  by (auto simp: span_maps_ok_alt)

lemmas span_maps_set [simp] = setMeta_maps_ok setMetric_pre_maps_ok setMetric_default_maps_ok

subsection \<open>Setters\<close>

lemma ctx_setSamplingPriority_maps [simp]: "heap_maps_ok (ctx_setSamplingPriority c pr n h) = heap_maps_ok h"
  by (simp add: ctx_setSamplingPriority_def alloc_trace_def split: option.split)

lemma setSamplingPriorityLocked_maps [maps_intro]: "heap_maps_ok h \<Longrightarrow> heap_maps_ok (setSamplingPriorityLocked p pr n h)"
  by (simp add: setSamplingPriorityLocked_def heap_maps_upd_span)

lemma setSamplingPriority_maps [maps_intro]: "heap_maps_ok h \<Longrightarrow> heap_maps_ok (setSamplingPriority p pr n r h)"
  by (simp add: setSamplingPriority_def setSamplingPriorityLocked_maps)

lemma setMetric_maps [maps_intro]: "heap_maps_ok h \<Longrightarrow> heap_maps_ok (setMetric p k v h)"
proof (cases "k = ext_ManualKeep \<or> k = ext_SamplingPriority")
  case True
  moreover assume "heap_maps_ok h"
  ultimately show ?thesis by (auto simp: setMetric_def Let_def setSamplingPriorityLocked_maps heap_maps_upd_span)
next
  case False
  moreover assume "heap_maps_ok h"
  ultimately show ?thesis by (simp add: setMetric_plain heap_maps_upd_span)
qed

lemma setTagBool_maps [maps_intro]: "heap_maps_ok h \<Longrightarrow> heap_maps_ok (setTagBool p k v h)"
  by (simp add: setTagBool_def setMetric_maps setSamplingPriorityLocked_maps heap_maps_upd_span)

lemma setError_maps [maps_intro]: "heap_maps_ok h \<Longrightarrow> heap_maps_ok (setError p b h)"
  by (simp add: setError_def Let_def heap_maps_upd_span)

lemma setTagError_maps [maps_intro]: "heap_maps_ok h \<Longrightarrow> heap_maps_ok (setTagError p v cfg stk h)"
  by (simp add: setTagError_def Let_def heap_maps_upd_span setError_maps split: goval.split option.split)

lemma SetTag_maps: "SetTag p k v stk h = Some h' \<Longrightarrow> heap_maps_ok h \<Longrightarrow> heap_maps_ok h'"
  by (auto simp: SetTag_def Let_def setTagError_maps setTagBool_maps setMetric_maps heap_maps_upd_span
      split: if_splits goval.splits option.splits stringer.splits)

lemma SetTag_float_maps [maps_intro]: "heap_maps_ok h \<Longrightarrow> heap_maps_ok (SetTag_float p k f h)"
  unfolding SetTag_float_def by (auto split: option.split intro: SetTag_maps)

lemma SetOperationName_maps: "heap_maps_ok h \<Longrightarrow> heap_maps_ok (SetOperationName p nm h)"
  by (simp add: SetOperationName_def heap_maps_upd_span)

lemma SetBaggageItem_maps: "heap_maps_ok (SetBaggageItem p k v h) = heap_maps_ok h"
  by (simp add: SetBaggageItem_def)

lemma fold_setMeta_maps:
  "span_maps_ok s \<Longrightarrow> span_maps_ok (fold (\<lambda>(k, v) s. if b v then setMeta k v s else s) kvs s)"
  "span_maps_ok s \<Longrightarrow> span_maps_ok (fold (\<lambda>(k, v). setMeta k v) kvs s)"
  by (induction kvs arbitrary: s) (auto split: prod.split)

lemma SetUser_maps: "SetUser p uid opts h = Some h' \<Longrightarrow> heap_maps_ok h \<Longrightarrow> heap_maps_ok h'"
  by (auto simp: SetUser_def Let_def fold_setMeta_maps heap_maps_upd_span split: option.splits if_splits)

subsection \<open>Finishing\<close>

lemma lock_priority_maps: "heap_maps_ok h \<Longrightarrow> heap_maps_ok (lock_priority tp p h)"
  by (auto simp: lock_priority_def setMetric_maps split: option.split)

lemma flush_trace_maps [simp]: "heap_maps_ok (flush_trace tp h) = heap_maps_ok h"
  by (simp add: flush_trace_def Let_def)

lemma set_chunk_tags_maps: "span_maps_ok s \<Longrightarrow> span_maps_ok (set_chunk_tags t s)"
  unfolding set_chunk_tags_def by (intro fold_setMeta_maps)

lemma finishedOne_maps: "heap_maps_ok h \<Longrightarrow> heap_maps_ok (finishedOne tp p h)"
  by (auto simp: finishedOne_def Let_def lock_priority_maps set_chunk_tags_maps heap_maps_upd_span split: list.split)

lemma close_span_maps [simp]: "span_maps_ok (close_span t s) = span_maps_ok s"
  by (simp add: close_span_def Let_def span_maps_ok_alt)

lemma send_stats_maps [simp]: "heap_maps_ok (send_stats x p h) = heap_maps_ok h"
  by (simp add: send_stats_def Let_def)

lemma span_finish_maps: "heap_maps_ok h \<Longrightarrow> heap_maps_ok (span_finish x p t h)"
  by (auto simp: span_finish_def Let_def ctx_finish_def finishedOne_maps heap_maps_upd_span split: option.split)

lemma Finish_maps: "heap_maps_ok h \<Longrightarrow> heap_maps_ok (Finish x p now opts stk h)"
  unfolding Finish_def Let_def
  by (auto split: option.split intro!: span_finish_maps setTagError_maps)

subsection \<open>Starting\<close>

lemma alloc_span_maps: "heap_maps_ok h \<Longrightarrow> span_maps_ok s \<Longrightarrow> heap_maps_ok (snd (alloc_span s parent h))"
  using alloc_span_sel(2)[of s parent h] by (simp add: heap_maps_ok_def)

lemma new_span_maps: "span_maps_ok (new_span nm opts now rnd h)"
proof -
  have z: "span_maps_ok (zero_span\<lparr>s_Name := a, s_Service := b, s_Resource := c, s_SpanID := i, s_TraceID := j, s_Start := t,
      s_noDebugStack := d\<rparr>)" for a b c i j t d
    by (simp add: span_maps_ok_alt zero_span_def)
  have "span_maps_ok (init_span cf nm i t)" for cf i t by (simp add: init_span_def Let_def z)
  then show ?thesis by (simp add: new_span_def child_span_def Let_def split: option.split)
qed

lemma local_tags_maps [simp]:
  "span_maps_ok s \<Longrightarrow> span_maps_ok (local_root_tags c pid b s)"
  "span_maps_ok s \<Longrightarrow> span_maps_ok (version_env_tags c s)"
  "span_maps_ok s \<Longrightarrow> span_maps_ok (map_service c s)"
  by (simp_all add: local_root_tags_def version_env_tags_def map_service_def Let_def split: option.split)

lemma start_alloc_maps:
  "heap_maps_ok h \<Longrightarrow> span_maps_ok s \<Longrightarrow> start_alloc s opts h = (p, h') \<Longrightarrow> heap_maps_ok h'"
  using alloc_span_maps[of h s "sc_Parent opts"]
  by (auto simp: start_alloc_def heap_maps_upd_span split: prod.splits)

lemma set_tags_maps: "set_tags p kvs stk h = Some h' \<Longrightarrow> heap_maps_ok h \<Longrightarrow> heap_maps_ok h'"
  by (induction p kvs stk h rule: set_tags.induct) (auto split: option.splits dest: SetTag_maps)

lemma samplers_maps [maps_intro]:
  "heap_maps_ok h \<Longrightarrow> heap_maps_ok (prioritySampler_apply ps p h)"
  "heap_maps_ok h \<Longrightarrow> heap_maps_ok (applyRule x rs p rate now h)"
  "heap_maps_ok h \<Longrightarrow> heap_maps_ok (snd (traceRules_apply x rs p now h))"
  "heap_maps_ok h \<Longrightarrow> heap_maps_ok (sample_rate_tag sm p h)"
  by (auto simp: prioritySampler_apply_def applyRule_def traceRules_apply_def sample_rate_tag_def Let_def
      SetTag_float_maps setSamplingPriority_maps setMetric_maps split: prod.split sampler.split)

lemma tracer_sample_maps:
  assumes "heap_maps_ok h"
  shows "heap_maps_ok (tracer_sample x p now h)"
proof -
  let ?tr = "h_tracer h"
  let ?r = "traceRules_apply x (rls_traces (tr_rulesSampling ?tr)) p now (sample_rate_tag (cf_sampler (tr_config ?tr)) p h)"
  have "heap_maps_ok (snd ?r)" using assms by (intro samplers_maps)
  then show ?thesis using assms
    by (cases ?r) (auto simp: tracer_sample_def Let_def samplers_maps(1) split: option.split bool.split)
qed

lemma finish_start_maps: "heap_maps_ok h \<Longrightarrow> heap_maps_ok (finish_start x opts pc p now h)"
proof -
  assume h: "heap_maps_ok h"
  have m: "heap_maps_ok h \<Longrightarrow> heap_maps_ok (mark_top_level p h)" for h
    by (simp add: mark_top_level_def heap_maps_upd_span setMetric_maps)
  have l: "heap_maps_ok h \<Longrightarrow> heap_maps_ok (applyPPROFLabels pc p h)" for h
    by (simp add: applyPPROFLabels_def Let_def heap_maps_upd_span)
  show ?thesis using h by (simp add: finish_start_def Let_def heap_maps_upd_span m l tracer_sample_maps)
qed

lemma StartSpan_maps: "StartSpan x nm opts now rnd stk h = Some (p, h') \<Longrightarrow> heap_maps_ok h \<Longrightarrow> heap_maps_ok h'"
  using start_alloc_maps[OF _ new_span_maps]
  by (auto simp: StartSpan_def split: prod.splits option.splits intro!: finish_start_maps dest!: set_tags_maps)

subsection \<open>The worker and the step relation\<close>

lemma spanRules_maps: "heap_maps_ok h \<Longrightarrow> heap_maps_ok (snd (spanRules_loop x rules p now h))"
proof (induction x rules p now h rule: spanRules_loop.induct)
  case (2 x rule rules p now h)
  have k: "heap_maps_ok h \<Longrightarrow> heap_maps_ok (keep_single_span rule r p h)" for h r
    by (simp add: keep_single_span_def Let_def setMetric_maps setSamplingPriority_maps)
  show ?case using 2 k by (auto simp: Let_def setMetric_maps setSamplingPriority_maps split: option.split prod.split)
qed simp

lemma sample_spans_maps: "heap_maps_ok h \<Longrightarrow> heap_maps_ok (snd (sample_spans x rs clock i ps h))"
proof (induction x rs clock i ps h rule: sample_spans.induct)
  case (2 x rs clock i p ps h)
  have "heap_maps_ok (snd (spanRules_apply x rs p (clock i) h))" using spanRules_maps[OF "2.prems"] by (simp add: spanRules_apply_def)
  then show ?case using "2.IH" by (auto split: prod.split)
qed simp

lemma worker_maps: "worker_trace x clock add ft h w = (h', w') \<Longrightarrow> heap_maps_ok h \<Longrightarrow> heap_maps_ok h'"
  using sample_spans_maps[of h x "rls_spans (tr_rulesSampling (h_tracer h))" clock 0 "ft_spans ft"]
  by (auto simp: worker_trace_def sampleFinishedTrace_def Let_def split: prod.splits if_splits)

text \<open>
  C27: the tags of a span are well typed in every step of the tracer: both tag maps have one entry for
  a key, and no key is a string tag and a numeric tag at once.
\<close>

theorem tag_maps_preserved:
  assumes "tstep x (h, w) (h', w')" "heap_maps_ok h"
  shows "heap_maps_ok h'"
  using assms
  by (cases rule: tstep.cases)
    (auto simp: SetOperationName_maps SetBaggageItem_maps setSamplingPriority_maps Finish_maps tracer_Stop_def install_ctx_def Let_def
      receive_out_def split: option.splits list.splits prod.splits dest: StartSpan_maps SetTag_maps SetUser_maps worker_maps)

theorem tag_maps_preserved_witness: "heap_maps_ok run1"
proof -
  have "heap_maps_ok sample_heap" by (simp add: heap_maps_ok_def sample_heap_def zero_span_def span_maps_ok_alt)
  then show ?thesis by (rule tag_maps_preserved[OF tstep.start[OF run1(1), where w = "[]"]])
qed

end
