(* ===== verification/Tracer_Config.thy ===== *)
theory Tracer_Config
  imports Text_Map Tracer_Core
begin

section \<open>ddtrace/tracer/option.go, transport.go: the configuration of the tracer\<close>

text \<open>
  \<open>newConfig\<close> renders the configuration from defaults, environment variables, options and what the
  agent reports.  The process is a record of what it reads (variables, host name, arguments, files);
  the HTTP client, the agent and the statsd package are arguments.  The package variables of
  globalconfig and of the logger are the record \<open>globals\<close>, which the options change too.
\<close>

subsection \<open>Package strings, strconv, net and filepath\<close>

text \<open>The white space of Unicode in UTF-8.\<close>

definition space_runes :: "string list" where
  "space_runes = map (\<lambda>c. [c]) [CHR 0x09, CHR 0x0A, CHR 0x0B, CHR 0x0C, CHR 0x0D, CHR '' '']
     @ [[CHR 0xC2, CHR 0x85], [CHR 0xC2, CHR 0xA0], [CHR 0xE1, CHR 0x9A, CHR 0x80]]
     @ map (\<lambda>c. [CHR 0xE2, CHR 0x80, c]) [CHR 0x80, CHR 0x81, CHR 0x82, CHR 0x83, CHR 0x84, CHR 0x85, CHR 0x86, CHR 0x87,
         CHR 0x88, CHR 0x89, CHR 0x8A, CHR 0xA8, CHR 0xA9, CHR 0xAF]
     @ [[CHR 0xE2, CHR 0x81, CHR 0x9F], [CHR 0xE3, CHR 0x80, CHR 0x80]]"

function trim_by :: "string list \<Rightarrow> string \<Rightarrow> string" where
  "trim_by ws s = (case find (\<lambda>w. w \<noteq> [] \<and> prefix w s) ws of
     None \<Rightarrow> s
   | Some w \<Rightarrow> trim_by ws (drop (length w) s))"
  by pat_completeness auto
termination
  by (relation "measure (\<lambda>(ws, s). length s)") (auto simp: find_Some_iff prefix_def)

declare trim_by.simps [simp del]

definition TrimSpace :: "string \<Rightarrow> string" where
  "TrimSpace s = rev (trim_by (map rev space_runes) (rev (trim_by space_runes s)))"

definition SplitN2 :: "char \<Rightarrow> string \<Rightarrow> string \<times> string option" where
  "SplitN2 c s = (takeWhile (\<lambda>x. x \<noteq> c) s, case dropWhile (\<lambda>x. x \<noteq> c) s of [] \<Rightarrow> None | _ # v \<Rightarrow> Some v)"

text \<open>\<open>FieldsFunc\<close> with the commas and spaces of a text as separators.\<close>

definition FieldsFunc :: "string \<Rightarrow> string list" where
  "FieldsFunc s = filter (\<lambda>w. w \<noteq> []) (split_on CHR '','' (map (\<lambda>c. if c = CHR '' '' then CHR '','' else c) s))"

definition ParseBool :: "string \<Rightarrow> bool option" where
  "ParseBool s =
    (if s \<in> set [''1'', ''t'', ''T'', ''true'', ''TRUE'', ''True''] then Some True
     else if s \<in> set [''0'', ''f'', ''F'', ''false'', ''FALSE'', ''False''] then Some False
     else None)"

definition JoinHostPort :: "string \<Rightarrow> string \<Rightarrow> string" where
  "JoinHostPort host port = (if CHR '':'' \<in> set host then ''['' @ host @ '']:'' @ port else host @ '':'' @ port)"

text \<open>Host and port before and behind the last colon; brackets only around the host.\<close>

definition SplitHostPort :: "string \<Rightarrow> (string \<times> string) option" where
  "SplitHostPort hp =
    (if CHR '':'' \<notin> set hp then None
     else
       let port = rev (takeWhile (\<lambda>x. x \<noteq> CHR '':'') (rev hp));
           pre = take (length hp - length port - 1) hp
       in if hd hp = CHR ''['' then
            (let host = takeWhile (\<lambda>x. x \<noteq> CHR '']'') (tl hp)
             in if pre = ''['' @ host @ '']'' \<and> CHR ''['' \<notin> set host \<and> CHR ''['' \<notin> set port \<and> CHR '']'' \<notin> set port
                then Some (host, port) else None)
          else if CHR '':'' \<in> set pre \<or> CHR ''['' \<in> set hp \<or> CHR '']'' \<in> set hp then None
          else Some (pre, port))"

definition filepath_Base :: "string \<Rightarrow> string" where
  "filepath_Base path =
    (if path = [] then ''.''
     else
       let p = rev (dropWhile (\<lambda>c. c = CHR ''/'') (rev path));
           b = rev (takeWhile (\<lambda>c. c \<noteq> CHR ''/'') (rev p))
       in if b = [] then ''/'' else b)"

subsection \<open>The process, the agent and the globals\<close>

record process =
  os_LookupEnv :: "string \<Rightarrow> string option"
  os_Hostname :: "string option"
  os_Args0 :: string
  os_exists :: "string \<Rightarrow> bool"
  os_Getpid :: int
  runtime_Version :: string
  runtime_Platform :: string
  proc_ContainerID :: string

definition Getenv :: "process \<Rightarrow> string \<Rightarrow> string" where
  "Getenv os k = (case os_LookupEnv os k of None \<Rightarrow> [] | Some v \<Rightarrow> v)"

definition BoolEnv :: "process \<Rightarrow> string \<Rightarrow> bool \<Rightarrow> bool" where
  "BoolEnv os key def =
    (case os_LookupEnv os key of
       None \<Rightarrow> def
     | Some vv \<Rightarrow> (case ParseBool vv of None \<Rightarrow> def | Some v \<Rightarrow> v))"

definition IntEnv :: "process \<Rightarrow> string \<Rightarrow> int \<Rightarrow> int" where
  "IntEnv os key def =
    (case os_LookupEnv os key of
       None \<Rightarrow> def
     | Some vv \<Rightarrow> (case parse_int vv of None \<Rightarrow> def | Some v \<Rightarrow> v))"

datatype httpClient = defaultClient | udsClient string | customClient nat

datatype statsdClient = NoOpClient | StatsdClient string "string list"

record httpTransport =
  ht_traceURL :: string
  ht_statsURL :: string
  ht_client :: httpClient
  ht_headers :: "(string, string) gomap"

record infoResponse =
  ir_Endpoints :: "string list"
  ir_ClientDropP0s :: bool
  ir_StatsdPort :: int
  ir_FeatureFlags :: "string list"

text \<open>The answer to a request: an error, or a status and the decoded body (\<open>None\<close> when it does not decode).\<close>

datatype info_answer = GetError | GetAnswer int "infoResponse option"

record environment =
  en_get :: "httpClient \<Rightarrow> string \<Rightarrow> info_answer"
  en_statsd_New :: "string \<Rightarrow> string list \<Rightarrow> statsdClient option"
  en_versionTag :: string

record globals =
  gl_analyticsRate :: float64
  gl_serviceName :: string
  gl_runtimeID :: string
  gl_logger :: "nat option"
  gl_levelDebug :: bool

definition SetAnalyticsRate :: "float64 \<Rightarrow> globals \<Rightarrow> globals" where
  "SetAnalyticsRate rate g = g\<lparr>gl_analyticsRate := rate\<rparr>"

definition SetServiceName :: "string \<Rightarrow> globals \<Rightarrow> globals" where
  "SetServiceName name g = g\<lparr>gl_serviceName := name\<rparr>"

subsection \<open>The configuration and its options\<close>

text \<open>A configured propagator: the chain of \<open>NewPropagator\<close>, or one that the user gave.\<close>

datatype tracerPropagator = Chain chainedPropagator | Single Propagator

record tracerConfig = config +
  cg_debug :: bool
  cg_logToStdout :: bool
  cg_logStartup :: bool
  cg_agentAddr :: string
  cg_transport :: "httpTransport option"
  cg_propagator :: "tracerPropagator option"
  cg_httpClient :: httpClient
  cg_logger :: "nat option"
  cg_dogstatsdAddr :: string
  cg_statsd :: "statsdClient option"
  cg_spanRules :: "SamplingRule list"
  cg_traceRules :: "SamplingRule list"
  cg_enabled :: bool

definition zero_agent :: agentFeatures where
  "zero_agent = \<lparr>af_DropP0s = False, af_Stats = False, af_StatsdPort = 0, af_featureFlags = []\<rparr>"

definition zero_config :: tracerConfig where
  "zero_config = \<lparr>cf_agent = zero_agent, cf_featureFlags = [], cf_serviceName = [], cf_universalVersion = False,
     cf_version = [], cf_env = [], cf_sampler = RateSampler NewAllSampler, cf_serviceMappings = None,
     cf_globalTags = None, cf_hostname = [], cf_runtimeMetrics = False, cf_noDebugStack = False,
     cf_profilerHotspots = False, cf_profilerEndpoints = False, cg_debug = False, cg_logToStdout = False,
     cg_logStartup = False, cg_agentAddr = [], cg_transport = None, cg_propagator = None,
     cg_httpClient = defaultClient, cg_logger = None, cg_dogstatsdAddr = [], cg_statsd = None,
     cg_spanRules = [], cg_traceRules = [], cg_enabled = False\<rparr>"

type_synonym cstate = "tracerConfig \<times> globals"
type_synonym StartOption = "cstate \<Rightarrow> cstate"

abbreviation on_config :: "(tracerConfig \<Rightarrow> tracerConfig) \<Rightarrow> StartOption" where
  "on_config f \<equiv> map_prod f id"

definition HasFeature :: "tracerConfig \<Rightarrow> string \<Rightarrow> bool" where
  "HasFeature c f = (TrimSpace f \<in> set (cf_featureFlags c))"

definition HasFlag :: "agentFeatures \<Rightarrow> string \<Rightarrow> bool" where
  "HasFlag a feat = (feat \<in> set (af_featureFlags a))"

definition withNoopStats :: StartOption where
  "withNoopStats = on_config (\<lambda>c. c\<lparr>cg_statsd := Some NoOpClient\<rparr>)"

definition WithFeatureFlags :: "string list \<Rightarrow> StartOption" where
  "WithFeatureFlags feats = on_config (\<lambda>c. c\<lparr>cf_featureFlags := fold (\<lambda>f fs. List.insert (TrimSpace f) fs) feats (cf_featureFlags c)\<rparr>)"

definition WithLogger :: "nat option \<Rightarrow> StartOption" where
  "WithLogger logger = on_config (\<lambda>c. c\<lparr>cg_logger := logger\<rparr>)"

definition WithPrioritySampling :: StartOption where
  "WithPrioritySampling = id"

definition WithDebugStack :: "bool \<Rightarrow> StartOption" where
  "WithDebugStack enabled = on_config (\<lambda>c. c\<lparr>cf_noDebugStack := \<not> enabled\<rparr>)"

definition WithDebugMode :: "bool \<Rightarrow> StartOption" where
  "WithDebugMode enabled = on_config (\<lambda>c. c\<lparr>cg_debug := enabled\<rparr>)"

definition WithLambdaMode :: "bool \<Rightarrow> StartOption" where
  "WithLambdaMode enabled = on_config (\<lambda>c. c\<lparr>cg_logToStdout := enabled\<rparr>)"

definition WithPropagator :: "tracerPropagator option \<Rightarrow> StartOption" where
  "WithPropagator p = on_config (\<lambda>c. c\<lparr>cg_propagator := p\<rparr>)"

definition WithServiceName :: "string \<Rightarrow> StartOption" where
  "WithServiceName name = map_prod (\<lambda>c. c\<lparr>cf_serviceName := name\<rparr>) (SetServiceName [])"

definition WithService :: "string \<Rightarrow> StartOption" where
  "WithService name = map_prod (\<lambda>c. c\<lparr>cf_serviceName := name\<rparr>) (SetServiceName name)"

definition WithAgentAddr :: "string \<Rightarrow> StartOption" where
  "WithAgentAddr addr = on_config (\<lambda>c. c\<lparr>cg_agentAddr := addr\<rparr>)"

definition WithEnv :: "string \<Rightarrow> StartOption" where
  "WithEnv env = on_config (\<lambda>c. c\<lparr>cf_env := env\<rparr>)"

definition WithServiceMapping :: "string \<Rightarrow> string \<Rightarrow> StartOption" where
  "WithServiceMapping frm to = on_config (\<lambda>c. c\<lparr>cf_serviceMappings := m_put frm to (cf_serviceMappings c)\<rparr>)"

definition WithGlobalTag :: "string \<Rightarrow> goval \<Rightarrow> StartOption" where
  "WithGlobalTag k v = on_config (\<lambda>c. c\<lparr>cf_globalTags := m_put k v (cf_globalTags c)\<rparr>)"

definition WithSampler :: "sampler \<Rightarrow> StartOption" where
  "WithSampler s = on_config (\<lambda>c. c\<lparr>cf_sampler := s\<rparr>)"

definition WithHTTPClient :: "httpClient \<Rightarrow> StartOption" where
  "WithHTTPClient client = on_config (\<lambda>c. c\<lparr>cg_httpClient := client\<rparr>)"

definition WithUDS :: "string \<Rightarrow> StartOption" where
  "WithUDS socketPath = WithHTTPClient (udsClient socketPath)"

definition WithAnalytics :: "bool \<Rightarrow> StartOption" where
  "WithAnalytics on = map_prod id (SetAnalyticsRate (if on then Fin 1 else NaN))"

definition WithAnalyticsRate :: "float64 \<Rightarrow> StartOption" where
  "WithAnalyticsRate rate = map_prod id
     (SetAnalyticsRate (if f64_le (Fin 0) rate \<and> f64_le rate (Fin 1) then rate else NaN))"

definition WithRuntimeMetrics :: StartOption where
  "WithRuntimeMetrics = on_config (\<lambda>c. c\<lparr>cf_runtimeMetrics := True\<rparr>)"

definition WithDogstatsdAddress :: "string \<Rightarrow> StartOption" where
  "WithDogstatsdAddress addr = on_config (\<lambda>c. c\<lparr>cg_dogstatsdAddr := addr\<rparr>)"

definition WithSamplingRules :: "SamplingRule list \<Rightarrow> StartOption" where
  "WithSamplingRules rules = on_config (\<lambda>c. fold (\<lambda>rule c.
      if sr_ruleType rule = SamplingRuleSpan then c\<lparr>cg_spanRules := cg_spanRules c @ [rule]\<rparr>
      else c\<lparr>cg_traceRules := cg_traceRules c @ [rule]\<rparr>) rules c)"

definition WithServiceVersion :: "string \<Rightarrow> StartOption" where
  "WithServiceVersion version = on_config (\<lambda>c. c\<lparr>cf_version := version, cf_universalVersion := False\<rparr>)"

definition WithUniversalVersion :: "string \<Rightarrow> StartOption" where
  "WithUniversalVersion version = on_config (\<lambda>c. c\<lparr>cf_version := version, cf_universalVersion := True\<rparr>)"

definition WithHostname :: "string \<Rightarrow> StartOption" where
  "WithHostname name = on_config (\<lambda>c. c\<lparr>cf_hostname := name\<rparr>)"

definition WithTraceEnabled :: "bool \<Rightarrow> StartOption" where
  "WithTraceEnabled enabled = on_config (\<lambda>c. c\<lparr>cg_enabled := enabled\<rparr>)"

definition WithLogStartup :: "bool \<Rightarrow> StartOption" where
  "WithLogStartup enabled = on_config (\<lambda>c. c\<lparr>cg_logStartup := enabled\<rparr>)"

definition WithProfilerCodeHotspots :: "bool \<Rightarrow> StartOption" where
  "WithProfilerCodeHotspots enabled = on_config (\<lambda>c. c\<lparr>cf_profilerHotspots := enabled\<rparr>)"

definition WithProfilerEndpoints :: "bool \<Rightarrow> StartOption" where
  "WithProfilerEndpoints enabled = on_config (\<lambda>c. c\<lparr>cf_profilerEndpoints := enabled\<rparr>)"

text \<open>The pairs on which \<open>forEachStringTag\<close> calls its function, in order.\<close>

definition string_tag :: "string \<Rightarrow> (string \<times> string) list" where
  "string_tag piece =
    (let tag = TrimSpace piece
     in if tag = [] then []
        else
          let kv = SplitN2 CHR '':'' tag;
              key = TrimSpace (fst kv)
          in if key = [] then []
             else [(key, case snd kv of Some v \<Rightarrow> TrimSpace v | None \<Rightarrow> [])])"

definition forEachStringTag :: "string \<Rightarrow> (string \<times> string) list" where
  "forEachStringTag str =
    (let sep = (if CHR '','' \<in> set str then CHR '','' else CHR '' '')
     in concat (map string_tag (split_on sep str)))"

subsection \<open>Addresses and transport\<close>

abbreviation "defaultSocketAPM \<equiv> ''/var/run/datadog/apm.socket''"
abbreviation "defaultSocketDSD \<equiv> ''/var/run/datadog/dsd.socket''"
abbreviation "defaultHostname \<equiv> ''localhost''"
abbreviation "defaultPort \<equiv> ''8126''"
abbreviation "maxPropagatedTagsLength \<equiv> (512 :: int)"
abbreviation "ext_RuntimeID \<equiv> ''runtime-id''"

definition resolveAgentAddr :: "process \<Rightarrow> string" where
  "resolveAgentAddr os =
    (let host = Getenv os ''DD_AGENT_HOST''; port = Getenv os ''DD_TRACE_AGENT_PORT''
     in (if host = [] then defaultHostname else host) @ '':'' @ (if port = [] then defaultPort else port))"

definition defaultHTTPClient :: "process \<Rightarrow> httpClient" where
  "defaultHTTPClient os = (if os_exists os defaultSocketAPM then udsClient defaultSocketAPM else defaultClient)"

definition defaultDogstatsdAddr :: "process \<Rightarrow> string" where
  "defaultDogstatsdAddr os =
    (let envHost = Getenv os ''DD_AGENT_HOST''; envPort = Getenv os ''DD_DOGSTATSD_PORT''
     in if os_exists os defaultSocketDSD \<and> envHost = [] \<and> envPort = [] then ''unix://'' @ defaultSocketDSD
        else JoinHostPort (if envHost \<noteq> [] then envHost else defaultHostname) (if envPort \<noteq> [] then envPort else ''8125''))"

definition newHTTPTransport :: "process \<Rightarrow> environment \<Rightarrow> string \<Rightarrow> httpClient \<Rightarrow> httpTransport" where
  "newHTTPTransport os en addr client =
    (let headers = Some [(''Datadog-Meta-Lang'', ''go''),
           (''Datadog-Meta-Lang-Version'', trim_prefix ''go'' (runtime_Version os)),
           (''Datadog-Meta-Lang-Interpreter'', runtime_Platform os),
           (''Datadog-Meta-Tracer-Version'', en_versionTag en),
           (''Content-Type'', ''application/msgpack'')];
         cid = proc_ContainerID os
     in \<lparr>ht_traceURL = ''http://'' @ addr @ ''/v0.4/traces'', ht_statsURL = ''http://'' @ addr @ ''/v0.6/stats'',
         ht_client = client, ht_headers = (if cid \<noteq> [] then m_put ''Datadog-Container-ID'' cid headers else headers)\<rparr>)"

subsection \<open>What the agent reports\<close>

definition loadAgentFeatures :: "environment \<Rightarrow> tracerConfig \<Rightarrow> tracerConfig" where
  "loadAgentFeatures en c =
    (let c0 = c\<lparr>cf_agent := zero_agent\<rparr>
     in if cg_logToStdout c0 then c0
        else case en_get en (cg_httpClient c0) (''http://'' @ cg_agentAddr c0 @ ''/info'') of
          GetError \<Rightarrow> c0
        | GetAnswer status body \<Rightarrow>
            if status = 404 then c0
            else (case body of
                None \<Rightarrow> c0
              | Some info \<Rightarrow> c0\<lparr>cf_agent := \<lparr>af_DropP0s = ir_ClientDropP0s info,
                    af_Stats = list_ex (\<lambda>endpoint. endpoint = ''/v0.6/stats'') (ir_Endpoints info),
                    af_StatsdPort = ir_StatsdPort info,
                    af_featureFlags = fold List.insert (ir_FeatureFlags info) []\<rparr>\<rparr>))"

definition statsTags :: "process \<Rightarrow> environment \<Rightarrow> tracerConfig \<Rightarrow> string list" where
  "statsTags os en c =
    [''lang:go'', ''version:'' @ en_versionTag en, ''lang_version:'' @ runtime_Version os]
    @ (if cf_serviceName c \<noteq> [] then [''service:'' @ cf_serviceName c] else [])
    @ (if cf_env c \<noteq> [] then [''env:'' @ cf_env c] else [])
    @ (if cf_hostname c \<noteq> [] then [''host:'' @ cf_hostname c] else [])
    @ concat (map (\<lambda>(k, v). case v of VString vstr \<Rightarrow> [k @ '':'' @ vstr] | _ \<Rightarrow> []) (m_items (cf_globalTags c)))"

definition statsd_addr :: "process \<Rightarrow> tracerConfig \<Rightarrow> string" where
  "statsd_addr os c =
    (let addr = (if cg_dogstatsdAddr c = [] then defaultDogstatsdAddr os else cg_dogstatsdAddr c);
         agentport = af_StatsdPort (cf_agent c)
     in if agentport > 0 then
          (case SplitHostPort addr of
             Some (host, _) \<Rightarrow> JoinHostPort (if host = [] then defaultHostname else host) (itoa agentport)
           | None \<Rightarrow> addr)
        else addr)"

definition config_statsd :: "process \<Rightarrow> environment \<Rightarrow> tracerConfig \<Rightarrow> tracerConfig" where
  "config_statsd os en c =
    (case cg_statsd c of
       Some _ \<Rightarrow> c
     | None \<Rightarrow>
         let addr = statsd_addr os c
         in c\<lparr>cg_dogstatsdAddr := addr,
              cg_statsd := Some (case en_statsd_New en addr (statsTags os en c) of None \<Rightarrow> NoOpClient | Some cl \<Rightarrow> cl)\<rparr>)"

subsection \<open>newConfig\<close>

text \<open>A variable that is not set and one that is empty are the same to \<open>os.Getenv\<close>.\<close>

definition when_set :: "process \<Rightarrow> string \<Rightarrow> (string \<Rightarrow> StartOption) \<Rightarrow> StartOption" where
  "when_set os key f s = (let v = Getenv os key in if v \<noteq> [] then f v s else s)"

definition config_env :: "process \<Rightarrow> StartOption" where
  "config_env os s =
    (let s = (if BoolEnv os ''DD_TRACE_ANALYTICS_ENABLED'' False then map_prod id (SetAnalyticsRate (Fin 1)) s else s);
         s = (if Getenv os ''DD_TRACE_REPORT_HOSTNAME'' = ''true''
              then on_config (\<lambda>c. c\<lparr>cf_hostname := (case os_Hostname os of None \<Rightarrow> [] | Some n \<Rightarrow> n)\<rparr>) s else s);
         s = when_set os ''DD_TRACE_SOURCE_HOSTNAME'' (\<lambda>v. on_config (\<lambda>c. c\<lparr>cf_hostname := v\<rparr>)) s;
         s = when_set os ''DD_ENV'' (\<lambda>v. on_config (\<lambda>c. c\<lparr>cf_env := v\<rparr>)) s;
         s = when_set os ''DD_TRACE_FEATURES'' (\<lambda>v. WithFeatureFlags (FieldsFunc v)) s;
         s = when_set os ''DD_SERVICE'' (\<lambda>v. map_prod (\<lambda>c. c\<lparr>cf_serviceName := v\<rparr>) (SetServiceName v)) s;
         s = when_set os ''DD_VERSION'' (\<lambda>v. on_config (\<lambda>c. c\<lparr>cf_version := v\<rparr>)) s;
         s = when_set os ''DD_SERVICE_MAPPING'' (\<lambda>v. fold (\<lambda>(key, val). WithServiceMapping key val) (forEachStringTag v)) s;
         s = when_set os ''DD_TAGS'' (\<lambda>v. fold (\<lambda>(key, val). WithGlobalTag key (VString val)) (forEachStringTag v)) s
     in on_config (\<lambda>c. c\<lparr>cg_logToStdout := (os_LookupEnv os ''AWS_LAMBDA_FUNCTION_NAME'' \<noteq> None \<or> cg_logToStdout c),
         cg_logStartup := BoolEnv os ''DD_TRACE_STARTUP_LOGS'' True,
         cf_runtimeMetrics := BoolEnv os ''DD_RUNTIME_METRICS_ENABLED'' False,
         cg_debug := BoolEnv os ''DD_TRACE_DEBUG'' False,
         cg_enabled := BoolEnv os ''DD_TRACE_ENABLED'' True,
         cf_profilerEndpoints := BoolEnv os ''DD_PROFILING_ENDPOINT_COLLECTION_ENABLED'' True,
         cf_profilerHotspots := BoolEnv os ''DD_PROFILING_CODE_HOTSPOTS_COLLECTION_ENABLED'' True\<rparr>) s)"

text \<open>What the options left unset is taken from the global tags.\<close>

definition string_global_tag :: "string \<Rightarrow> tracerConfig \<Rightarrow> string option" where
  "string_global_tag k c = (case m_get (cf_globalTags c) k of Some (VString v) \<Rightarrow> Some v | _ \<Rightarrow> None)"

definition config_from_tags :: "process \<Rightarrow> StartOption" where
  "config_from_tags os = (\<lambda>(c, g).
    let c = (if cf_env c = [] then (case string_global_tag ''env'' c of Some e \<Rightarrow> c\<lparr>cf_env := e\<rparr> | None \<Rightarrow> c) else c);
        c = (if cf_version c = [] then (case string_global_tag ''version'' c of Some e \<Rightarrow> c\<lparr>cf_version := e\<rparr> | None \<Rightarrow> c) else c)
    in if cf_serviceName c = [] then
         (if m_get (cf_globalTags c) ''service'' \<noteq> None then
            (case string_global_tag ''service'' c of
               Some n \<Rightarrow> (c\<lparr>cf_serviceName := n\<rparr>, SetServiceName n g)
             | None \<Rightarrow> (c, g))
          else (c\<lparr>cf_serviceName := filepath_Base (os_Args0 os)\<rparr>, g))
       else (c, g))"

definition max_tags_len :: "process \<Rightarrow> int" where
  "max_tags_len os =
    (let m = IntEnv os ''DD_TRACE_X_DATADOG_TAGS_MAX_LENGTH'' defaultMaxTagsHeaderLen;
         m = (if m < 0 then 0 else m)
     in if m > maxPropagatedTagsLength then maxPropagatedTagsLength else m)"

definition default_propagator :: "process \<Rightarrow> chainedPropagator" where
  "default_propagator os = NewPropagator (Some \<lparr>pc_BaggagePrefix = [], pc_TraceHeader = [], pc_ParentHeader = [],
      pc_PriorityHeader = [], pc_MaxTagsHeaderLen = max_tags_len os, pc_B3 = False\<rparr>) []
      (Getenv os ''DD_PROPAGATION_STYLE_INJECT'') (Getenv os ''DD_PROPAGATION_STYLE_EXTRACT'')"

definition config_finish :: "process \<Rightarrow> environment \<Rightarrow> StartOption" where
  "config_finish os en = (\<lambda>(c, g).
    let c = (if cg_transport c = None then c\<lparr>cg_transport := Some (newHTTPTransport os en (cg_agentAddr c) (cg_httpClient c))\<rparr> else c);
        c = (if cg_propagator c = None then c\<lparr>cg_propagator := Some (Chain (default_propagator os))\<rparr> else c);
        g = (if cg_logger c \<noteq> None then g\<lparr>gl_logger := cg_logger c\<rparr> else g);
        g = (if cg_debug c then g\<lparr>gl_levelDebug := True\<rparr> else g)
    in (config_statsd os en (loadAgentFeatures en c), g))"

definition newConfig :: "process \<Rightarrow> environment \<Rightarrow> StartOption list \<Rightarrow> globals \<Rightarrow> cstate" where
  "newConfig os en opts g =
    (let c0 = zero_config\<lparr>cg_agentAddr := resolveAgentAddr os, cg_httpClient := defaultHTTPClient os\<rparr>;
         s = fold (\<lambda>fn. fn) opts (config_env os (c0, g));
         s = WithGlobalTag ext_RuntimeID (VString (gl_runtimeID (snd s))) s
     in config_finish os en (config_from_tags os s))"

subsection \<open>A tracer from its configuration (rules_sampler.go, tracer.go)\<close>

definition newTraceRulesSampler :: "(string \<Rightarrow> float64 option) \<Rightarrow> process \<Rightarrow> nat \<Rightarrow> SamplingRule list \<Rightarrow> traceRulesSampler" where
  "newTraceRulesSampler pf os lp rules =
    \<lparr>trs_rules = rules, trs_globalRate = globalSampleRate pf (Getenv os ''DD_TRACE_SAMPLE_RATE''), trs_limiter = lp\<rparr>"

definition newSingleSpanRulesSampler :: "SamplingRule list \<Rightarrow> singleSpanRulesSampler" where
  "newSingleSpanRulesSampler rules = \<lparr>srs_rules = rules\<rparr>"

definition newRulesSampler ::
  "(string \<Rightarrow> float64 option) \<Rightarrow> process \<Rightarrow> nat \<Rightarrow> SamplingRule list \<Rightarrow> SamplingRule list \<Rightarrow> rulesSampler" where
  "newRulesSampler pf os lp traceRules spanRules =
    \<lparr>rls_traces = newTraceRulesSampler pf os lp traceRules, rls_spans = newSingleSpanRulesSampler spanRules\<rparr>"

text \<open>
  \<open>env_rules\<close> is what \<open>samplingRulesFromEnv\<close> returned: rules from the environment, even an empty list,
  replace those of the options.
\<close>

definition override_rules :: "SamplingRule list option \<times> SamplingRule list option \<times> rules_error list \<Rightarrow> tracerConfig \<Rightarrow> tracerConfig" where
  "override_rules env_rules c =
    (case env_rules of (traces, spans, _) \<Rightarrow>
       let c = (case traces of Some rs \<Rightarrow> c\<lparr>cg_traceRules := rs\<rparr> | None \<Rightarrow> c)
       in case spans of Some rs \<Rightarrow> c\<lparr>cg_spanRules := rs\<rparr> | None \<Rightarrow> c)"

text \<open>
  The limiter of the trace rules is put at the pointer \<open>lp\<close>.  The state holds the configuration the core
  of the tracer reads; the full one is returned with it, and whether traces go to the log writer.
\<close>

definition newUnstartedTracer ::
  "process \<Rightarrow> environment \<Rightarrow> (string \<Rightarrow> float64 option) \<Rightarrow> SamplingRule list option \<times> SamplingRule list option \<times> rules_error list
    \<Rightarrow> StartOption list \<Rightarrow> int \<Rightarrow> nat \<Rightarrow> globals \<Rightarrow> tracer \<times> rateLimiter \<times> cstate" where
  "newUnstartedTracer os en pf env_rules opts now lp g =
    (case newConfig os en opts g of (c0, g') \<Rightarrow>
       let c = override_rules env_rules c0
       in (\<lparr>tr_config = config.truncate c, tr_statsIn = [], tr_out = [], tr_stopped = False,
            tr_prioritySampling = newPrioritySampler,
            tr_rulesSampling = newRulesSampler pf os lp (cg_traceRules c) (cg_spanRules c),
            tr_pid = itoa (os_Getpid os), tr_spansStarted = 0, tr_spansFinished = 0, tr_tracesDropped = 0,
            tr_droppedP0Traces = 0, tr_droppedP0Spans = 0, tr_partialTraces = 0, tr_obfuscator = True\<rparr>,
           newRateLimiter pf (Getenv os ''DD_TRACE_RATE_LIMIT'') now, c, g'))"

end
