(* ===== verification/Config_Laws.thy ===== *)
theory Config_Laws
  imports Tracer_Config Text_Map_Laws
begin

section \<open>What the configuration guarantees\<close>

text \<open>
  Trimming and the tag lists of the environment; the order of precedence of the service name; the
  limit of the trace tags header; the address of statsd.
\<close>

subsection \<open>Trimming\<close>

definition starts_with :: "string list \<Rightarrow> string \<Rightarrow> bool" where
  "starts_with ws s \<longleftrightarrow> (\<exists>w\<in>set ws. w \<noteq> [] \<and> prefix w s)"

lemma find_prefix_None: "find (\<lambda>w. w \<noteq> [] \<and> prefix w s) ws = None \<longleftrightarrow> \<not> starts_with ws s"
  by (auto simp: find_None_iff starts_with_def)

lemma trim_by_id: "\<not> starts_with ws s \<Longrightarrow> trim_by ws s = s"
  using find_prefix_None[of s ws] by (simp add: trim_by.simps[of ws s])

lemma trim_by_step:
  assumes "starts_with ws s"
  obtains w where "w \<in> set ws" "w \<noteq> []" "prefix w s" "trim_by ws s = trim_by ws (drop (length w) s)"
proof -
  obtain w where w: "find (\<lambda>w. w \<noteq> [] \<and> prefix w s) ws = Some w"
    using assms find_prefix_None[of s ws] by (cases "find (\<lambda>w. w \<noteq> [] \<and> prefix w s) ws") auto
  then have "w \<in> set ws" "w \<noteq> []" "prefix w s" by (auto simp: find_Some_iff)
  with w show ?thesis by (intro that) (simp_all add: trim_by.simps[of ws s])
qed

lemma trim_by_suffix: "suffix (trim_by ws s) s" and trim_by_done: "\<not> starts_with ws (trim_by ws s)"
proof (induction "length s" arbitrary: s rule: less_induct)
  case less
  have "suffix (trim_by ws s) s \<and> \<not> starts_with ws (trim_by ws s)"
  proof (cases "starts_with ws s")
    case True
    then obtain w where w: "w \<noteq> []" "prefix w s" "trim_by ws s = trim_by ws (drop (length w) s)" by (rule trim_by_step)
    then have "length (drop (length w) s) < length s" by (auto simp: prefix_def)
    from less[OF this] w(3) show ?thesis by (auto intro: suffix_order.trans suffix_drop)
  qed (simp add: trim_by_id)
  { case 1 then show ?case using \<open>suffix (trim_by ws s) s \<and> \<not> starts_with ws (trim_by ws s)\<close> by simp }
  { case 2 then show ?case using \<open>suffix (trim_by ws s) s \<and> \<not> starts_with ws (trim_by ws s)\<close> by simp }
qed

lemma starts_with_prefix: "prefix a b \<Longrightarrow> starts_with ws a \<Longrightarrow> starts_with ws b"
  by (auto simp: starts_with_def intro: prefix_order.trans)

abbreviation "space_ends \<equiv> map rev space_runes"

definition trimmed :: "string \<Rightarrow> bool" where
  "trimmed s \<longleftrightarrow> \<not> starts_with space_runes s \<and> \<not> starts_with space_ends (rev s)"

lemma TrimSpace_trimmed: "trimmed (TrimSpace s)"
proof -
  let ?a = "trim_by space_runes s" and ?b = "trim_by space_ends (rev (trim_by space_runes s))"
  have "prefix (rev ?b) ?a" using trim_by_suffix[of space_ends "rev ?a"] by (simp add: suffix_to_prefix)
  then have "\<not> starts_with space_runes (rev ?b)" using trim_by_done[of space_runes s] starts_with_prefix by blast
  then show ?thesis using trim_by_done[of space_ends "rev ?a"] by (simp add: trimmed_def TrimSpace_def)
qed

lemma TrimSpace_id: "TrimSpace s = s \<longleftrightarrow> trimmed s"
proof
  assume "trimmed s"
  then show "TrimSpace s = s" by (simp add: trimmed_def TrimSpace_def trim_by_id)
qed (metis TrimSpace_trimmed)

lemma TrimSpace_idem: "TrimSpace (TrimSpace s) = TrimSpace s"
  by (simp add: TrimSpace_id TrimSpace_trimmed)

lemma space_runes_colon: "w \<in> set space_runes \<Longrightarrow> CHR '':'' \<notin> set w" "w \<in> set space_ends \<Longrightarrow> CHR '':'' \<notin> set w"
proof -
  have a: "list_all (\<lambda>w. CHR '':'' \<notin> set w) space_runes" by code_simp
  then show "w \<in> set space_runes \<Longrightarrow> CHR '':'' \<notin> set w" by (simp add: list_all_iff)
  show "w \<in> set space_ends \<Longrightarrow> CHR '':'' \<notin> set w" using a by (auto simp: list_all_iff)
qed

lemma starts_with_colon:
  assumes "\<And>w. w \<in> set ws \<Longrightarrow> CHR '':'' \<notin> set w"
  shows "starts_with ws (a @ CHR '':'' # b) = starts_with ws a"
proof -
  have "prefix w (a @ CHR '':'' # b) = prefix w a" if "w \<in> set ws" for w
    using assms[OF that] by (auto simp: prefix_append prefix_Cons)
  then show ?thesis by (auto simp: starts_with_def)
qed

lemma trimmed_pair: "trimmed k \<Longrightarrow> trimmed v \<Longrightarrow> trimmed (k @ CHR '':'' # v)"
  using starts_with_colon[of space_runes, OF space_runes_colon(1), where a = k and b = v]
    starts_with_colon[of space_ends, OF space_runes_colon(2), where a = "rev v" and b = "rev k"]
  by (simp add: trimmed_def)

subsection \<open>Tag lists\<close>

definition print_tag :: "string \<times> string \<Rightarrow> string" where
  "print_tag kv = fst kv @ CHR '':'' # snd kv"

definition tag_ok :: "string \<times> string \<Rightarrow> bool" where
  "tag_ok kv \<longleftrightarrow> fst kv \<noteq> [] \<and> CHR '':'' \<notin> set (fst kv) \<and> TrimSpace (fst kv) = fst kv \<and> TrimSpace (snd kv) = snd kv"

lemma string_tag_print: "tag_ok kv \<Longrightarrow> string_tag (print_tag kv) = [kv]"
proof -
  assume ok: "tag_ok kv"
  then have "trimmed (print_tag kv)" by (simp add: tag_ok_def print_tag_def TrimSpace_id trimmed_pair)
  then have t: "TrimSpace (print_tag kv) = print_tag kv" by (simp add: TrimSpace_id)
  have "SplitN2 CHR '':'' (print_tag kv) = (fst kv, Some (snd kv))"
    using ok dropWhile_eq_Nil_conv[of "\<lambda>x. x \<noteq> CHR '':''" "fst kv"] takeWhile_eq_all_conv[of "\<lambda>x. x \<noteq> CHR '':''" "fst kv"]
    by (auto simp: SplitN2_def print_tag_def tag_ok_def dropWhile_append takeWhile_append)
  moreover have "print_tag kv \<noteq> []" by (simp add: print_tag_def)
  ultimately show ?thesis using ok by (simp add: string_tag_def t Let_def tag_ok_def)
qed

lemma string_tag_ok: "kv \<in> set (string_tag piece) \<Longrightarrow> tag_ok kv"
proof -
  have nc: "CHR '':'' \<notin> set (fst (SplitN2 CHR '':'' s))" for s by (auto simp: SplitN2_def dest: set_takeWhileD)
  have sub: "set (TrimSpace s) \<subseteq> set s" for s
    using set_mono_suffix[OF trim_by_suffix[of space_runes s]] set_mono_suffix[OF trim_by_suffix[of space_ends "rev (trim_by space_runes s)"]]
    by (auto simp: TrimSpace_def)
  have "TrimSpace [] = []" by code_simp
  moreover assume "kv \<in> set (string_tag piece)"
  ultimately show ?thesis using nc sub[THEN subsetD]
    by (auto simp: string_tag_def Let_def tag_ok_def TrimSpace_idem split: if_splits option.splits)
qed

lemma forEach_joined:
  assumes "\<And>kv. kv \<in> set kvs \<Longrightarrow> tag_ok kv \<and> sep \<notin> set (print_tag kv)" "kvs \<noteq> []"
  shows "concat (map string_tag (split_on sep (join_with [sep] (map print_tag kvs)))) = kvs"
proof -
  have "split_on sep (join_with [sep] (map print_tag kvs)) = map print_tag kvs"
    using assms by (intro split_on_joined) auto
  moreover have "map (string_tag \<circ> print_tag) kvs = map (\<lambda>kv. [kv]) kvs" using assms(1) string_tag_print by (intro map_cong) auto
  ultimately show ?thesis by (simp del: map_eq_conv)
qed

lemma join_with_comma: "2 \<le> length ws \<Longrightarrow> c \<in> set (join_with [c] ws)"
  by (induction "[c]" ws rule: join_with.induct) auto

lemma join_with_mem: "x \<in> set (join_with sep ws) \<Longrightarrow> x \<in> set sep \<or> (\<exists>w\<in>set ws. x \<in> set w)"
  by (induction sep ws rule: join_with.induct) auto

text \<open>
  A list of tags printed as \<open>key:value\<close> pairs and joined by commas (two or more, so that there is a
  comma), or by spaces when no text has a comma, is read back as that list, in order.
\<close>

theorem forEachStringTag_roundtrip:
  assumes "list_all tag_ok kvs" "list_all (\<lambda>kv. CHR '','' \<notin> set (print_tag kv)) kvs"
    "sep = CHR '','' \<and> 2 \<le> length kvs \<or> sep = CHR '' '' \<and> kvs \<noteq> [] \<and> list_all (\<lambda>kv. CHR '' '' \<notin> set (print_tag kv)) kvs"
  shows "forEachStringTag (join_with [sep] (map print_tag kvs)) = kvs"
proof -
  have "CHR '','' \<in> set (join_with [sep] (map print_tag kvs)) \<longleftrightarrow> sep = CHR '',''"
    using assms(2,3) join_with_comma[of "map print_tag kvs" sep] join_with_mem[of "CHR '',''" "[sep]" "map print_tag kvs"]
    by (auto simp: list_all_iff)
  then have "forEachStringTag (join_with [sep] (map print_tag kvs)) = concat (map string_tag (split_on sep (join_with [sep] (map print_tag kvs))))"
    using assms(3) by (auto simp: forEachStringTag_def Let_def)
  moreover have "kvs \<noteq> []" using assms(3) by auto
  ultimately show ?thesis using assms forEach_joined[of kvs sep] by (auto simp: list_all_iff)
qed

theorem forEachStringTag_roundtrip_witness:
  "forEachStringTag ''team:apm core,url:http://x'' = [(''team'', ''apm core''), (''url'', ''http://x'')]"
proof -
  let ?kvs = "[(''team'', ''apm core''), (''url'', ''http://x'')]"
  have "list_all tag_ok ?kvs" "list_all (\<lambda>kv. CHR '','' \<notin> set (print_tag kv)) ?kvs" by code_simp+
  from forEachStringTag_roundtrip[OF this, of "CHR '',''"] show ?thesis by (simp add: print_tag_def)
qed

text \<open>Every pair that is read has a key without a colon, and both texts are trimmed.\<close>

lemma forEachStringTag_ok: "kv \<in> set (forEachStringTag str) \<Longrightarrow> tag_ok kv"
  using string_tag_ok[of kv] by (auto simp: forEachStringTag_def Let_def)

subsection \<open>The service name\<close>

text \<open>What an option may change of the service name: the name, the global name and the tag it falls back to.\<close>

definition service_view :: "cstate \<Rightarrow> string \<times> string \<times> goval option" where
  "service_view s = (cf_serviceName (fst s), gl_serviceName (snd s), m_get (cf_globalTags (fst s)) ''service'')"

definition keeps_service :: "StartOption \<Rightarrow> bool" where
  "keeps_service opt \<longleftrightarrow> (\<forall>s. service_view (opt s) = service_view s)"

lemma fold_keeps_service: "list_all keeps_service opts \<Longrightarrow> service_view (fold (\<lambda>fn. fn) opts s) = service_view s"
  by (induction opts arbitrary: s) (auto simp: keeps_service_def)

lemma fold_WithServiceMapping: "service_view (fold (\<lambda>(key, val). WithServiceMapping key val) kvs s) = service_view s"
  by (induction kvs arbitrary: s) (auto simp: WithServiceMapping_def service_view_def)

lemma fold_WithGlobalTag:
  "service_view (fold (\<lambda>(key, val). WithGlobalTag key (VString val)) kvs s) =
    (cf_serviceName (fst s), gl_serviceName (snd s),
     case map_of (rev kvs) ''service'' of Some v \<Rightarrow> Some (VString v) | None \<Rightarrow> m_get (cf_globalTags (fst s)) ''service'')"
  by (induction kvs arbitrary: s) (auto simp: WithGlobalTag_def service_view_def map_add_def split: option.split)

lemma forEachStringTag_Nil: "forEachStringTag [] = []"
  by code_simp

definition env_service_tag :: "process \<Rightarrow> string option" where
  "env_service_tag os = map_of (rev (forEachStringTag (Getenv os ''DD_TAGS''))) ''service''"

lemma when_set_keeps: "(\<And>v. keeps_service (f v)) \<Longrightarrow> service_view (when_set os key f s) = service_view s"
  by (simp add: when_set_def Let_def keeps_service_def del: split_paired_All)

lemma on_config_keeps:
  "(\<And>c. cf_serviceName (f c) = cf_serviceName c) \<Longrightarrow> (\<And>c. cf_globalTags (f c) = cf_globalTags c) \<Longrightarrow> keeps_service (on_config f)"
  by (simp add: keeps_service_def service_view_def)

lemma config_env_service:
  "service_view (config_env os s) =
    (if Getenv os ''DD_SERVICE'' = [] then cf_serviceName (fst s) else Getenv os ''DD_SERVICE'',
     if Getenv os ''DD_SERVICE'' = [] then gl_serviceName (snd s) else Getenv os ''DD_SERVICE'',
     case env_service_tag os of Some v \<Rightarrow> Some (VString v) | None \<Rightarrow> m_get (cf_globalTags (fst s)) ''service'')"
proof -
  have mapping: "keeps_service (fold (\<lambda>(key, val). WithServiceMapping key val) kvs)" for kvs
    by (simp add: keeps_service_def fold_WithServiceMapping)
  have features: "keeps_service (WithFeatureFlags fs)" for fs
    unfolding WithFeatureFlags_def by (rule on_config_keeps) simp_all
  have service: "service_view (when_set os ''DD_SERVICE'' (\<lambda>v. map_prod (\<lambda>c. c\<lparr>cf_serviceName := v\<rparr>) (SetServiceName v)) s) =
      (case service_view s of (n, g, t) \<Rightarrow> if Getenv os ''DD_SERVICE'' = [] then (n, g, t)
         else (Getenv os ''DD_SERVICE'', Getenv os ''DD_SERVICE'', t))" for s
    by (simp add: when_set_def Let_def service_view_def SetServiceName_def)
  have tags: "service_view (when_set os ''DD_TAGS'' (\<lambda>v. fold (\<lambda>(key, val). WithGlobalTag key (VString val)) (forEachStringTag v)) s) =
      (case service_view s of (n, g, t) \<Rightarrow> (n, g, case env_service_tag os of Some v \<Rightarrow> Some (VString v) | None \<Rightarrow> t))" for s
    by (simp add: when_set_def Let_def fold_WithGlobalTag env_service_tag_def forEachStringTag_Nil) (simp add: service_view_def)
  have last: "service_view (on_config f s) = service_view s" if "keeps_service (on_config f)" for f s
    using that unfolding keeps_service_def by blast
  have rate: "service_view (map_prod id (SetAnalyticsRate r) s) = service_view s" for r s
    by (simp add: service_view_def SetAnalyticsRate_def)
  show ?thesis
    unfolding config_env_def Let_def
    by (simp add: last tags service when_set_keeps on_config_keeps mapping features rate if_distrib[of service_view] cong: if_cong)
      (simp add: service_view_def)
qed

lemma config_from_tags_service:
  assumes "service_view s = (n, gn, t)"
  shows "cf_serviceName (fst (config_from_tags os s)) = (if n \<noteq> [] then n else
      case t of None \<Rightarrow> filepath_Base (os_Args0 os) | Some (VString v) \<Rightarrow> v | _ \<Rightarrow> [])"
    and "gl_serviceName (snd (config_from_tags os s)) = (if n \<noteq> [] then gn else case t of Some (VString v) \<Rightarrow> v | _ \<Rightarrow> gn)"
proof -
  obtain c g where s: "s = (c, g)" by (cases s)
  define c1 where "c1 = (if cf_env c = [] then (case string_global_tag ''env'' c of Some e \<Rightarrow> c\<lparr>cf_env := e\<rparr> | None \<Rightarrow> c) else c)"
  define c2 where "c2 = (if cf_version c1 = [] then (case string_global_tag ''version'' c1 of Some e \<Rightarrow> c1\<lparr>cf_version := e\<rparr> | None \<Rightarrow> c1) else c1)"
  have c2: "cf_serviceName c2 = n" "m_get (cf_globalTags c2) ''service'' = t" "gl_serviceName g = gn"
    using assms by (simp_all add: s service_view_def c1_def c2_def split: option.split)
  have eq: "config_from_tags os s = (if n = [] then
         (if t \<noteq> None then (case string_global_tag ''service'' c2 of
               Some n \<Rightarrow> (c2\<lparr>cf_serviceName := n\<rparr>, SetServiceName n g) | None \<Rightarrow> (c2, g))
          else (c2\<lparr>cf_serviceName := filepath_Base (os_Args0 os)\<rparr>, g))
       else (c2, g))"
    unfolding config_from_tags_def s prod.case Let_def c1_def[symmetric] c2_def[symmetric] c2(1,2) ..
  have str: "string_global_tag ''service'' c2 = (case t of Some (VString v) \<Rightarrow> Some v | _ \<Rightarrow> None)"
    by (simp add: string_global_tag_def c2)
  show "cf_serviceName (fst (config_from_tags os s)) = (if n \<noteq> [] then n else
      case t of None \<Rightarrow> filepath_Base (os_Args0 os) | Some (VString v) \<Rightarrow> v | _ \<Rightarrow> [])"
    unfolding eq str using c2(1) by (simp split: option.split goval.split)
  show "gl_serviceName (snd (config_from_tags os s)) = (if n \<noteq> [] then gn else case t of Some (VString v) \<Rightarrow> v | _ \<Rightarrow> gn)"
    unfolding eq str using c2(3) by (simp add: SetServiceName_def split: option.split goval.split)
qed

lemma loadAgentFeatures_frame [simp]:
  "cf_serviceName (loadAgentFeatures en c) = cf_serviceName c" "cg_propagator (loadAgentFeatures en c) = cg_propagator c"
  by (simp_all add: loadAgentFeatures_def Let_def split: option.split info_answer.split)

lemma config_statsd_frame [simp]:
  "cf_serviceName (config_statsd os en c) = cf_serviceName c" "cg_propagator (config_statsd os en c) = cg_propagator c"
  by (simp_all add: config_statsd_def Let_def split: option.split)

lemma config_finish_service:
  "cf_serviceName (fst (config_finish os en s)) = cf_serviceName (fst s)"
  "gl_serviceName (snd (config_finish os en s)) = gl_serviceName (snd s)"
  by (simp_all add: config_finish_def Let_def split: prod.split)

text \<open>
  With options that leave the service name alone, the service is \<^verbatim>\<open>DD_SERVICE\<close>, else the last value
  of the tag \<open>service\<close> in \<^verbatim>\<open>DD_TAGS\<close>, else the base name of the program; the name for integrations is set
  by the first two only.
\<close>

theorem newConfig_service_name:
  assumes "list_all keeps_service opts"
  shows "cf_serviceName (fst (newConfig os en opts g)) =
      (if Getenv os ''DD_SERVICE'' \<noteq> [] then Getenv os ''DD_SERVICE''
       else case map_of (rev (forEachStringTag (Getenv os ''DD_TAGS''))) ''service'' of
         Some v \<Rightarrow> v | None \<Rightarrow> filepath_Base (os_Args0 os))
    \<and> gl_serviceName (snd (newConfig os en opts g)) =
      (if Getenv os ''DD_SERVICE'' \<noteq> [] then Getenv os ''DD_SERVICE''
       else case map_of (rev (forEachStringTag (Getenv os ''DD_TAGS''))) ''service'' of
         Some v \<Rightarrow> v | None \<Rightarrow> gl_serviceName g)"
proof -
  have rt: "service_view (WithGlobalTag ext_RuntimeID v s) = service_view s" for v s
    by (simp add: WithGlobalTag_def service_view_def)
  have z: "cf_serviceName zero_config = []" "cf_globalTags zero_config = None" by (simp_all add: zero_config_def)
  define c0 where "c0 = zero_config\<lparr>cg_agentAddr := resolveAgentAddr os, cg_httpClient := defaultHTTPClient os\<rparr>"
  define s1 where "s1 = fold (\<lambda>fn. fn) opts (config_env os (c0, g))"
  have view: "service_view (WithGlobalTag ext_RuntimeID v s1) =
      (if Getenv os ''DD_SERVICE'' = [] then [] else Getenv os ''DD_SERVICE'',
       if Getenv os ''DD_SERVICE'' = [] then gl_serviceName g else Getenv os ''DD_SERVICE'',
       map_option VString (map_of (rev (forEachStringTag (Getenv os ''DD_TAGS''))) ''service''))" for v
    by (simp add: rt s1_def fold_keeps_service[OF assms] config_env_service c0_def z env_service_tag_def split: option.split)
  have "newConfig os en opts g = config_finish os en (config_from_tags os (WithGlobalTag ext_RuntimeID (VString (gl_runtimeID (snd s1))) s1))"
    unfolding newConfig_def Let_def c0_def[symmetric] s1_def[symmetric] ..
  then show ?thesis by (simp add: config_finish_service config_from_tags_service[OF view] split: option.split)
qed

definition sample_process :: process where
  "sample_process = \<lparr>os_LookupEnv = map_of [(''DD_TAGS'', ''service:web team:apm''), (''DD_TRACE_X_DATADOG_TAGS_MAX_LENGTH'', ''9999'')],
     os_Hostname = None, os_Args0 = ''/usr/bin/app'', os_exists = (\<lambda>f. f = defaultSocketDSD), os_Getpid = 7,
     runtime_Version = ''go1.19'', runtime_Platform = ''gc-amd64-linux'', proc_ContainerID = []\<rparr>"

definition sample_environment :: environment where
  "sample_environment = \<lparr>en_get = (\<lambda>_ _. GetAnswer 200 (Some \<lparr>ir_Endpoints = [''/v0.6/stats''], ir_ClientDropP0s = True,
     ir_StatsdPort = 8999, ir_FeatureFlags = []\<rparr>)), en_statsd_New = (\<lambda>addr tags. Some (StatsdClient addr tags)), en_versionTag = ''v1''\<rparr>"

definition sample_globals :: globals where
  "sample_globals = \<lparr>gl_analyticsRate = NaN, gl_serviceName = [], gl_runtimeID = ''id'', gl_logger = None, gl_levelDebug = False\<rparr>"

lemma sample_process_env:
  "Getenv sample_process ''DD_SERVICE'' = []" "Getenv sample_process ''DD_TAGS'' = ''service:web team:apm''"
  "Getenv sample_process ''DD_AGENT_HOST'' = []" "Getenv sample_process ''DD_DOGSTATSD_PORT'' = []"
  by (simp_all add: Getenv_def sample_process_def)

lemma WithEnv_keeps: "keeps_service (WithEnv e)"
  unfolding WithEnv_def by (rule on_config_keeps) simp_all

theorem newConfig_service_name_witness:
  "cf_serviceName (fst (newConfig sample_process sample_environment [WithEnv ''prod''] sample_globals)) = ''web''"
proof -
  have "forEachStringTag ''service:web team:apm'' = [(''service'', ''web''), (''team'', ''apm'')]" by code_simp
  then show ?thesis
    using newConfig_service_name[of "[WithEnv ''prod'']" sample_process sample_environment sample_globals]
    by (simp add: WithEnv_keeps sample_process_env)
qed

subsection \<open>The trace tags header\<close>

definition keeps_propagator :: "StartOption \<Rightarrow> bool" where
  "keeps_propagator opt \<longleftrightarrow> (\<forall>s. cg_propagator (fst (opt s)) = cg_propagator (fst s))"

lemma fold_keeps_propagator:
  "list_all keeps_propagator opts \<Longrightarrow> cg_propagator (fst (fold (\<lambda>fn. fn) opts s)) = cg_propagator (fst s)"
  by (induction opts arbitrary: s) (auto simp: keeps_propagator_def)

lemma max_tags_len_range: "0 \<le> max_tags_len os" "max_tags_len os \<le> 512"
  by (simp_all add: max_tags_len_def Let_def)

lemma style_list_set: "set (style_list cfg vs) \<subseteq> {propagator cfg, propagatorB3}"
  by (induction cfg vs rule: style_list.induct) auto

lemma getPropagators_set: "set (getPropagators cfg ps) \<subseteq> {propagator cfg, propagatorB3}"
  using style_list_set[of cfg "split_on CHR '','' ps"] by (auto simp: getPropagators_def Let_def)

lemma fill_config_max [simp]: "pc_MaxTagsHeaderLen (fill_config (Some cfg)) = pc_MaxTagsHeaderLen cfg"
  by (simp add: fill_config_def Let_def)

lemma default_propagator_max:
  "propagator cfg \<in> set (cp_injectors (default_propagator os)) \<Longrightarrow> pc_MaxTagsHeaderLen cfg = max_tags_len os"
  using getPropagators_set by (fastforce simp: default_propagator_def NewPropagator_def Let_def)

lemma config_env_propagator: "cg_propagator (fst (config_env os s)) = cg_propagator (fst s)"
proof -
  have w: "cg_propagator (fst (when_set os key f s)) = cg_propagator (fst s)" if "\<And>v s. cg_propagator (fst (f v s)) = cg_propagator (fst s)" for key f s
    using that by (simp add: when_set_def Let_def)
  have m: "cg_propagator (fst (fold (\<lambda>(key, val). WithServiceMapping key val) kvs s)) = cg_propagator (fst s)"
    "cg_propagator (fst (fold (\<lambda>(key, val). WithGlobalTag key (VString val)) kvs s)) = cg_propagator (fst s)" for kvs s
    by (induction kvs arbitrary: s) (auto simp: WithServiceMapping_def WithGlobalTag_def)
  show ?thesis by (simp add: config_env_def Let_def w m WithFeatureFlags_def)
qed

lemma newConfig_propagator:
  assumes "list_all keeps_propagator opts"
  shows "cg_propagator (fst (newConfig os en opts g)) = Some (Chain (default_propagator os))"
proof -
  have t: "cg_propagator (fst (config_from_tags os s)) = cg_propagator (fst s)" for s
    by (auto simp: config_from_tags_def Let_def split: prod.split option.split)
  have f: "cg_propagator (fst (config_finish os en s)) = Some (Chain (default_propagator os))" if "cg_propagator (fst s) = None" for s
    using that by (auto simp: config_finish_def Let_def split: prod.split)
  show ?thesis unfolding newConfig_def Let_def
    by (rule f) (simp add: t WithGlobalTag_def fold_keeps_propagator[OF assms] config_env_propagator zero_config_def)
qed

text \<open>
  Unless an option sets a propagator, the trace tags header the tracer writes has at most 514
  bytes, whatever the environment asks for: the limit is clamped to 512, and the marshaller exceeds it
  by two bytes at most.
\<close>

theorem newConfig_header_bound:
  assumes "list_all keeps_propagator opts"
  shows "\<exists>cp. cg_propagator (fst (newConfig os en opts g)) = Some (Chain cp)
    \<and> list_all (\<lambda>p. case p of propagator cfg \<Rightarrow> length (fst (marshalPropagatingTags cfg t)) \<le> 514 | _ \<Rightarrow> True) (cp_injectors cp)"
proof -
  have "length (fst (marshalPropagatingTags cfg t)) \<le> 514" if "propagator cfg \<in> set (cp_injectors (default_propagator os))" for cfg
    using marshalPropagatingTags_length[of cfg t] default_propagator_max[OF that] max_tags_len_range[of os] by linarith
  then show ?thesis unfolding newConfig_propagator[OF assms]
    by (auto simp: list_all_iff split: Propagator.split)
qed

theorem newConfig_header_bound_witness:
  "max_tags_len sample_process = 512 \<and> (\<exists>cp. cg_propagator (fst (newConfig sample_process sample_environment [WithEnv ''prod''] sample_globals)) = Some (Chain cp)
    \<and> list_all (\<lambda>p. case p of propagator cfg \<Rightarrow> length (fst (marshalPropagatingTags cfg None)) \<le> 514 | _ \<Rightarrow> True) (cp_injectors cp))"
proof
  show "max_tags_len sample_process = 512" by code_simp
  have "list_all keeps_propagator [WithEnv ''prod'']" by (simp add: keeps_propagator_def WithEnv_def)
  then show "\<exists>cp. cg_propagator (fst (newConfig sample_process sample_environment [WithEnv ''prod''] sample_globals)) = Some (Chain cp)
    \<and> list_all (\<lambda>p. case p of propagator cfg \<Rightarrow> length (fst (marshalPropagatingTags cfg None)) \<le> 514 | _ \<Rightarrow> True) (cp_injectors cp)"
    by (rule newConfig_header_bound)
qed

subsection \<open>The address of statsd\<close>

lemma rev_takeWhile_colon: "CHR '':'' \<notin> set p \<Longrightarrow> rev (takeWhile (\<lambda>x. x \<noteq> CHR '':'') (rev (h @ CHR '':'' # p))) = p"
  using takeWhile_eq_all_conv[of "\<lambda>x. x \<noteq> CHR '':''" "rev p"] by (auto simp: takeWhile_append)

lemma SplitHostPort_Join:
  assumes "CHR ''['' \<notin> set h" "CHR '']'' \<notin> set h" "CHR '':'' \<notin> set p" "CHR ''['' \<notin> set p" "CHR '']'' \<notin> set p"
  shows "SplitHostPort (JoinHostPort h p) = Some (h, p)"
proof (cases "CHR '':'' \<in> set h")
  case True
  have "takeWhile (\<lambda>x. x \<noteq> CHR '']'') (h @ CHR '']'' # s) = h" for s
    using assms(2) takeWhile_eq_all_conv[of "\<lambda>x. x \<noteq> CHR '']''" h] by (auto simp: takeWhile_append)
  with True assms rev_takeWhile_colon[of p "CHR ''['' # h @ '']''"] show ?thesis
    by (simp add: JoinHostPort_def SplitHostPort_def Let_def)
next
  case False
  with assms rev_takeWhile_colon[of p h] show ?thesis
    by (cases h) (auto simp: JoinHostPort_def SplitHostPort_def Let_def)
qed

text \<open>
  The address of a socket splits at the colon of its scheme, so that a port reported by the agent
  replaces its path.
\<close>

lemma statsd_socket_lost:
  assumes "os_exists os defaultSocketDSD" "Getenv os ''DD_AGENT_HOST'' = []" "Getenv os ''DD_DOGSTATSD_PORT'' = []"
    "cg_dogstatsdAddr c = []" "0 < af_StatsdPort (cf_agent c)"
  shows "defaultDogstatsdAddr os = ''unix:///var/run/datadog/dsd.socket''"
    and "statsd_addr os c = ''unix:'' @ itoa (af_StatsdPort (cf_agent c))"
proof -
  have "SplitHostPort ''unix:///var/run/datadog/dsd.socket'' = Some (''unix'', ''///var/run/datadog/dsd.socket'')" by code_simp
  then show "defaultDogstatsdAddr os = ''unix:///var/run/datadog/dsd.socket''"
    "statsd_addr os c = ''unix:'' @ itoa (af_StatsdPort (cf_agent c))"
    using assms by (simp_all add: defaultDogstatsdAddr_def statsd_addr_def Let_def JoinHostPort_def)
qed

end
