(* ===== verification/Transport.thy ===== *)
theory Transport
  imports Tracer_Config Payload Trace_Props
begin

section \<open>ddtrace/tracer/transport.go: requests to the agent\<close>

text \<open>
  A request is its URL, its headers and its body.  What the network does is an argument: whether a URL
  parses, and the answer to a request (an error, or a status with what the first \<open>Read\<close> of the body
  returned).  The drop counters of the global tracer are read and reset when a payload is sent.
\<close>

record request =
  rq_url :: string
  rq_headers :: HTTPHeadersCarrier
  rq_body :: "byte list"

datatype http_answer = DoError string | DoResponse nat string

record network =
  nw_url_ok :: "string \<Rightarrow> bool"
  nw_Do :: "httpClient \<Rightarrow> request \<Rightarrow> http_answer"

datatype send_error = BadRequest | EncodeError | NetworkError string | StatusError string

text \<open>The status texts of package net/http from 400 on; an unknown code has none.\<close>

definition StatusText :: "nat \<Rightarrow> string" where
  "StatusText code = (case map_of
    [(400, ''Bad Request''), (401, ''Unauthorized''), (402, ''Payment Required''), (403, ''Forbidden''), (404, ''Not Found''),
     (405, ''Method Not Allowed''), (406, ''Not Acceptable''), (407, ''Proxy Authentication Required''), (408, ''Request Timeout''),
     (409, ''Conflict''), (410, ''Gone''), (411, ''Length Required''), (412, ''Precondition Failed''),
     (413, ''Request Entity Too Large''), (414, ''Request URI Too Long''), (415, ''Unsupported Media Type''),
     (416, ''Requested Range Not Satisfiable''), (417, ''Expectation Failed''), (418, ''I'' @ [CHR 0x27] @ ''m a teapot''),
     (421, ''Misdirected Request''), (422, ''Unprocessable Entity''), (423, ''Locked''), (424, ''Failed Dependency''),
     (425, ''Too Early''), (426, ''Upgrade Required''), (428, ''Precondition Required''), (429, ''Too Many Requests''),
     (431, ''Request Header Fields Too Large''), (451, ''Unavailable For Legal Reasons''), (500, ''Internal Server Error''),
     (501, ''Not Implemented''), (502, ''Bad Gateway''), (503, ''Service Unavailable''), (504, ''Gateway Timeout''),
     (505, ''HTTP Version Not Supported''), (506, ''Variant Also Negotiates''), (507, ''Insufficient Storage''),
     (508, ''Loop Detected''), (510, ''Not Extended''), (511, ''Network Authentication Required'')] code of
     Some t \<Rightarrow> t | None \<Rightarrow> [])"

text \<open>The common end of both methods: a status of 400 or more is an error with the start of the body.\<close>

definition check_status :: "http_answer \<Rightarrow> send_error + string" where
  "check_status a =
    (case a of
       DoError e \<Rightarrow> Inl (NetworkError e)
     | DoResponse code body \<Rightarrow>
         if code \<ge> 400 then
           (let txt = StatusText code; msg = take 1000 body
            in if length msg > 0 then Inl (StatusError (msg @ '' (Status: '' @ txt @ '')'')) else Inl (StatusError txt))
         else Inr body)"

definition sendStats :: "network \<Rightarrow> httpTransport \<Rightarrow> byte list option \<Rightarrow> send_error option" where
  "sendStats nw t encoded =
    (case encoded of
       None \<Rightarrow> Some EncodeError
     | Some buf \<Rightarrow>
         if \<not> nw_url_ok nw (ht_statsURL t) then Some BadRequest
         else case check_status (nw_Do nw (ht_client t) \<lparr>rq_url = ht_statsURL t, rq_headers = [], rq_body = buf\<rparr>) of
           Inl e \<Rightarrow> Some e
         | Inr _ \<Rightarrow> None)"

abbreviation "traceCountHeader \<equiv> ''X-Datadog-Trace-Count''"
abbreviation "headerComputedTopLevel \<equiv> ''Datadog-Client-Computed-Top-Level''"
abbreviation "headerDroppedTraces \<equiv> ''Datadog-Client-Dropped-P0-Traces''"
abbreviation "headerDroppedSpans \<equiv> ''Datadog-Client-Dropped-P0-Spans''"

definition payload_headers :: "httpTransport \<Rightarrow> payload \<Rightarrow> HTTPHeadersCarrier" where
  "payload_headers t p =
    (let hs = fold (\<lambda>(header, value). HTTPHeadersCarrier_Set header value) (m_items (ht_headers t)) [];
         hs = HTTPHeadersCarrier_Set traceCountHeader (itoa (int (itemCount p))) hs;
         hs = HTTPHeadersCarrier_Set ''Content-Length'' (itoa (payload_size p)) hs
     in HTTPHeadersCarrier_Set headerComputedTopLevel ''yes'' hs)"

text \<open>
  A counter metric of statsd is its name, its value and its tags.
\<close>

type_synonym metric = "string \<times> int \<times> string list"

definition swap_dropped :: "HTTPHeadersCarrier \<Rightarrow> heap \<Rightarrow> HTTPHeadersCarrier \<times> metric list \<times> heap" where
  "swap_dropped hs h =
    (if \<not> h_active h then (hs, [], h)
     else
       let tr = h_tracer h;
           hs = (if canComputeStats (tr_config tr) then HTTPHeadersCarrier_Set ''Datadog-Client-Computed-Stats'' ''yes'' hs else hs);
           droppedTraces = uint (tr_droppedP0Traces tr);
           partialTraces = uint (tr_partialTraces tr);
           droppedSpans = uint (tr_droppedP0Spans tr);
           h' = upd_tracer (\<lambda>tr. tr\<lparr>tr_droppedP0Traces := 0, tr_partialTraces := 0, tr_droppedP0Spans := 0\<rparr>) h;
           ms = [(''datadog.tracer.dropped_p0_traces'', droppedTraces, [''partial:'' @ (if partialTraces > 0 then ''true'' else ''false'')]),
                 (''datadog.tracer.dropped_p0_spans'', droppedSpans, [])];
           hs = HTTPHeadersCarrier_Set headerDroppedTraces (itoa droppedTraces) hs;
           hs = HTTPHeadersCarrier_Set headerDroppedSpans (itoa droppedSpans) hs
       in (hs, ms, h'))"

text \<open>\<open>send\<close>: the result, the request that was made (if any), the metrics, and the state.\<close>

definition httpTransport_send ::
  "network \<Rightarrow> httpTransport \<Rightarrow> payload \<Rightarrow> heap \<Rightarrow> (send_error + string) \<times> request option \<times> metric list \<times> heap" where
  "httpTransport_send nw t p h =
    (if \<not> nw_url_ok nw (ht_traceURL t) then (Inl BadRequest, None, [], h)
     else case swap_dropped (payload_headers t p) h of
       (hs, ms, h') \<Rightarrow>
         let rq = \<lparr>rq_url = ht_traceURL t, rq_headers = hs, rq_body = drop (pl_off p) (pl_header p) @ pl_buf p\<rparr>
         in (check_status (nw_Do nw (ht_client t) rq), Some rq, ms, h'))"

definition transport_endpoint :: "httpTransport \<Rightarrow> string" where
  "transport_endpoint t = ht_traceURL t"

subsection \<open>What the agent is told\<close>

definition header_value :: "HTTPHeadersCarrier \<Rightarrow> string \<Rightarrow> string list" where
  "header_value hs k = (case map_of hs (canonical_key k) of Some vs \<Rightarrow> vs | None \<Rightarrow> [])"

lemma header_value_Set:
  "header_value (HTTPHeadersCarrier_Set k v hs) k' = (if canonical_key k' = canonical_key k then [v] else header_value hs k')"
  by (simp add: header_value_def HTTPHeadersCarrier_Set_def update_conv')

lemma canonical_keys:
  "canonical_key traceCountHeader = traceCountHeader"
  "canonical_key headerComputedTopLevel = headerComputedTopLevel"
  "canonical_key ''Content-Length'' = ''Content-Length''"
  "canonical_key headerDroppedTraces = headerDroppedTraces"
  "canonical_key headerDroppedSpans = headerDroppedSpans"
  "canonical_key ''Datadog-Client-Computed-Stats'' = ''Datadog-Client-Computed-Stats''"
  by code_simp+

text \<open>
  C28: every request with a payload names the number of its traces and its size; the drop counters
  of the running tracer go into it as they are and are zero afterwards, whatever the agent answers.
\<close>

theorem send_reports_dropped:
  assumes "httpTransport_send nw t p h = (res, Some rq, ms, h')" "h_active h"
  shows "header_value (rq_headers rq) traceCountHeader = [itoa (int (itemCount p))]
    \<and> header_value (rq_headers rq) ''Content-Length'' = [itoa (payload_size p)]
    \<and> header_value (rq_headers rq) headerDroppedTraces = [itoa (uint (tr_droppedP0Traces (h_tracer h)))]
    \<and> header_value (rq_headers rq) headerDroppedSpans = [itoa (uint (tr_droppedP0Spans (h_tracer h)))]
    \<and> h' = upd_tracer (\<lambda>tr. tr\<lparr>tr_droppedP0Traces := 0, tr_partialTraces := 0, tr_droppedP0Spans := 0\<rparr>) h"
proof -
  have rq: "rq_headers rq = fst (swap_dropped (payload_headers t p) h)" "h' = snd (snd (swap_dropped (payload_headers t p) h))"
    using assms(1) by (auto simp: httpTransport_send_def Let_def split: if_splits prod.splits)
  then show ?thesis using assms(2)
    by (simp add: swap_dropped_def payload_headers_def Let_def header_value_Set canonical_keys)
qed

definition sample_network :: network where
  "sample_network = \<lparr>nw_url_ok = (\<lambda>_. True), nw_Do = (\<lambda>_ _. DoResponse 429 [])\<rparr>"

definition sample_transport :: httpTransport where
  "sample_transport = \<lparr>ht_traceURL = ''http://a/v0.4/traces'', ht_statsURL = ''http://a/v0.6/stats'', ht_client = defaultClient,
     ht_headers = Some [(''Content-Type'', ''application/msgpack'')]\<rparr>"

theorem send_reports_dropped_witness:
  "\<exists>rq ms h'. httpTransport_send sample_network sample_transport newPayload
      (upd_tracer (\<lambda>tr. tr\<lparr>tr_droppedP0Traces := 3\<rparr>) sample_heap) = (Inl (StatusError ''Too Many Requests''), Some rq, ms, h')
    \<and> header_value (rq_headers rq) headerDroppedTraces = [''3''] \<and> tr_droppedP0Traces (h_tracer h') = 0"
proof -
  define h where "h = upd_tracer (\<lambda>tr. tr\<lparr>tr_droppedP0Traces := 3\<rparr>) sample_heap"
  obtain hs ms h' where s: "swap_dropped (payload_headers sample_transport newPayload) h = (hs, ms, h')" by (metis prod.exhaust)
  define rq where "rq = \<lparr>rq_url = ht_traceURL sample_transport, rq_headers = hs, rq_body = drop (pl_off newPayload) (pl_header newPayload) @ pl_buf newPayload\<rparr>"
  have "check_status (DoResponse 429 []) = Inl (StatusError ''Too Many Requests'')" by code_simp
  then have snd: "httpTransport_send sample_network sample_transport newPayload h = (Inl (StatusError ''Too Many Requests''), Some rq, ms, h')"
    using s by (simp add: httpTransport_send_def sample_network_def Let_def rq_def)
  have "itoa (uint (3 :: u32)) = ''3''" by code_simp
  moreover have "h_active h" "tr_droppedP0Traces (h_tracer h) = 3" by (simp_all add: h_def upd_tracer_def sample_heap_def)
  ultimately show ?thesis using send_reports_dropped[OF snd] snd by (simp add: h_def upd_tracer_def)
qed

text \<open>
  The body of the answer is returned exactly when the URL is good, the request succeeds and the status is
  below 400.  An error with a status carries its text; with a body it starts with the first 1000 bytes of it.
\<close>

theorem send_outcome:
  "case httpTransport_send nw t p h of
     (Inr body, rq, _) \<Rightarrow> \<exists>r code. rq = Some r \<and> nw_Do nw (ht_client t) r = DoResponse code body \<and> code < 400
   | (Inl BadRequest, rq, _) \<Rightarrow> rq = None \<and> \<not> nw_url_ok nw (ht_traceURL t)
   | (Inl (NetworkError e), rq, _) \<Rightarrow> \<exists>r. rq = Some r \<and> nw_Do nw (ht_client t) r = DoError e
   | (Inl (StatusError msg), rq, _) \<Rightarrow> \<exists>r code body. rq = Some r \<and> nw_Do nw (ht_client t) r = DoResponse code body \<and> 400 \<le> code
       \<and> prefix (take 1000 body) msg \<and> suffix (if body = [] then StatusText code else ''(Status: '' @ StatusText code @ '')'') msg
   | (Inl EncodeError, _, _) \<Rightarrow> False"
proof (cases "nw_url_ok nw (ht_traceURL t)")
  case True
  obtain hs ms h' where s: "swap_dropped (payload_headers t p) h = (hs, ms, h')" by (cases "swap_dropped (payload_headers t p) h")
  define rq where "rq = \<lparr>rq_url = ht_traceURL t, rq_headers = hs, rq_body = drop (pl_off p) (pl_header p) @ pl_buf p\<rparr>"
  have eq: "httpTransport_send nw t p h = (check_status (nw_Do nw (ht_client t) rq), Some rq, ms, h')"
    using True s by (simp add: httpTransport_send_def Let_def rq_def)
  show ?thesis
  proof (cases "nw_Do nw (ht_client t) rq")
    case (DoError e)
    then show ?thesis by (simp add: eq check_status_def)
  next
    case (DoResponse code body)
    then show ?thesis
      by (auto simp: eq check_status_def Let_def suffix_def intro: exI[of _ "take 1000 body @ '' ''"])
  qed
qed (simp add: httpTransport_send_def)

end
