(* ===== verification/Appsec_Limiter.thy ===== *)
theory Appsec_Limiter
  imports Tracer_Config
begin

section \<open>internal/appsec: the trace rate limiter and its configuration\<close>

text \<open>
  A token bucket without locks: one goroutine adds tokens at every tick, callers of \<open>Allow\<close> take them,
  and both change the number of tokens with compare-and-swap loops.  The step relation \<open>lstep\<close> has a
  step for every atomic operation, so that its runs are all interleavings of the goroutines.
\<close>

subsection \<open>Configuration (config.go)\<close>

abbreviation "defaultTraceRate \<equiv> (100 :: u64)"

text \<open>Whether AppSec is enabled and whether the variable is set; \<open>None\<close> is the error of a value that is no boolean.\<close>

definition isEnabled :: "process \<Rightarrow> (bool \<times> bool) option" where
  "isEnabled os =
    (let v = os_LookupEnv os ''DD_APPSEC_ENABLED''
     in if v = None \<or> v = Some [] then Some (False, v \<noteq> None)
        else map_option (\<lambda>b. (b, True)) (ParseBool (the v)))"

definition readRateLimitConfig :: "process \<Rightarrow> u64" where
  "readRateLimitConfig os =
    (let rate = defaultTraceRate; value = Getenv os ''DD_APPSEC_TRACE_RATE_LIMIT''
     in if value = [] then rate
        else case parse_uint 10 value of
          None \<Rightarrow> rate
        | Some parsed \<Rightarrow> if rate = 0 then rate else parsed)"

text \<open>\<open>compiles\<close> is \<open>regexp.Compile\<close>, as far as it reports an error.\<close>

definition readObfuscatorConfigRegexp :: "process \<Rightarrow> (string \<Rightarrow> bool) \<Rightarrow> string \<Rightarrow> string \<Rightarrow> string" where
  "readObfuscatorConfigRegexp os compiles name defaultValue =
    (case os_LookupEnv os name of
       None \<Rightarrow> defaultValue
     | Some val \<Rightarrow> if \<not> compiles val then defaultValue else val)"

definition readRulesConfig :: "process \<Rightarrow> (string \<Rightarrow> string option) \<Rightarrow> string \<Rightarrow> string option" where
  "readRulesConfig os readFile staticRecommendedRule =
    (let path = Getenv os ''DD_APPSEC_RULES''
     in if path = [] then Some staticRecommendedRule else readFile path)"

subsection \<open>The token ticker (limiter.go)\<close>

record TokenTicker =
  tk_tokens :: int
  tk_maxTokens :: int

definition NewTokenTicker :: "int \<Rightarrow> int \<Rightarrow> TokenTicker" where
  "NewTokenTicker tokens maxTokens = \<lparr>tk_tokens = tokens, tk_maxTokens = maxTokens\<rparr>"

text \<open>The nanoseconds of a token; \<open>None\<close> is the panic of a division by zero.\<close>

definition nsPerToken :: "TokenTicker \<Rightarrow> int option" where
  "nsPerToken t = (if tk_maxTokens t = 0 then None else Some (go_div 1000000000 (tk_maxTokens t)))"

definition add_elapsed :: "int \<Rightarrow> int \<Rightarrow> int \<Rightarrow> int \<Rightarrow> int" where
  "add_elapsed maxTokens ns elapsedNs d =
    (let e = wrap64 (elapsedNs + d) in if e > maxTokens * ns then maxTokens * ns else e)"

definition token_inc :: "int \<Rightarrow> int \<Rightarrow> int \<Rightarrow> int \<Rightarrow> int option" where
  "token_inc maxTokens ns elapsedNs tokens =
    (if ns = 0 then None
     else
       let inc = go_div elapsedNs ns
       in if tokens + inc > maxTokens then Some (inc - go_rem (tokens + inc) maxTokens) else Some inc)"

text \<open>
  The goroutine \<open>updateBucket\<close> waits for a tick, is about to load the tokens, or has loaded them and is
  about to swap.  \<open>ls_callers\<close> are the tokens that callers of \<open>Allow\<close> have loaded, \<open>ls_allowed\<close> counts the
  calls that returned true.
\<close>

datatype updater = Waiting | Spinning | Loaded int

record limiter_state =
  ls_ticker :: TokenTicker
  ls_ns :: int
  ls_elapsedNs :: int
  ls_prevStamp :: int
  ls_updater :: updater
  ls_callers :: "int list"
  ls_allowed :: nat

abbreviation "ls_tokens s \<equiv> tk_tokens (ls_ticker s)"
abbreviation "ls_max s \<equiv> tk_maxTokens (ls_ticker s)"

definition ticker_start :: "TokenTicker \<Rightarrow> int \<Rightarrow> limiter_state option" where
  "ticker_start t startTime =
    (case nsPerToken t of
       None \<Rightarrow> None
     | Some ns \<Rightarrow> Some \<lparr>ls_ticker = t, ls_ns = ns, ls_elapsedNs = 0, ls_prevStamp = startTime,
         ls_updater = Waiting, ls_callers = [], ls_allowed = 0\<rparr>)"

definition on_tick :: "int \<Rightarrow> limiter_state \<Rightarrow> limiter_state" where
  "on_tick stamp s =
    (let e = add_elapsed (ls_max s) (ls_ns s) (ls_elapsedNs s) (stamp - ls_prevStamp s)
     in s\<lparr>ls_elapsedNs := e, ls_prevStamp := stamp, ls_updater := (if e \<ge> ls_ns s then Spinning else Waiting)\<rparr>)"

definition on_load :: "limiter_state \<Rightarrow> limiter_state" where
  "on_load s = s\<lparr>ls_updater := (if ls_tokens s = ls_max s then Waiting else Loaded (ls_tokens s))\<rparr>"

definition on_swap :: "int \<Rightarrow> limiter_state \<Rightarrow> limiter_state option" where
  "on_swap tokens s =
    (case token_inc (ls_max s) (ls_ns s) (ls_elapsedNs s) tokens of
       None \<Rightarrow> None
     | Some inc \<Rightarrow>
         if ls_tokens s = tokens
         then Some (s\<lparr>ls_ticker := (ls_ticker s)\<lparr>tk_tokens := tokens + inc\<rparr>,
                ls_elapsedNs := go_rem (ls_elapsedNs s) (ls_ns s), ls_updater := Waiting\<rparr>)
         else Some (s\<lparr>ls_updater := Spinning\<rparr>))"

text \<open>\<open>Allow\<close>: a caller that loads zero returns false; otherwise it swaps, and loads again when that fails.\<close>

definition allow_load :: "limiter_state \<Rightarrow> limiter_state" where
  "allow_load s = (if ls_tokens s = 0 then s else s\<lparr>ls_callers := ls_tokens s # ls_callers s\<rparr>)"

definition allow_swap :: "int \<Rightarrow> limiter_state \<Rightarrow> limiter_state" where
  "allow_swap v s =
    (let s' = s\<lparr>ls_callers := remove1 v (ls_callers s)\<rparr>
     in if ls_tokens s = v
        then s'\<lparr>ls_ticker := (ls_ticker s)\<lparr>tk_tokens := v - 1\<rparr>, ls_allowed := Suc (ls_allowed s)\<rparr>
        else s')"

inductive lstep :: "limiter_state \<Rightarrow> limiter_state \<Rightarrow> bool" where
  tick: "ls_updater s = Waiting \<Longrightarrow> ls_prevStamp s \<le> stamp \<Longrightarrow> stamp - ls_prevStamp s < 2 ^ 62 \<Longrightarrow> lstep s (on_tick stamp s)"
| load: "ls_updater s = Spinning \<Longrightarrow> lstep s (on_load s)"
| swap: "ls_updater s = Loaded v \<Longrightarrow> on_swap v s = Some s' \<Longrightarrow> lstep s s'"
| allow_load: "lstep s (allow_load s)"
| allow_swap: "v \<in> set (ls_callers s) \<Longrightarrow> lstep s (allow_swap v s)"

subsection \<open>Starting and stopping (appsec.go)\<close>

text \<open>
  The active AppSec is a package variable.  \<open>waf_ok\<close> tells whether the WAF accepts the rules, \<open>rc_ok\<close> whether
  there is a remote configuration client.
\<close>

record appsec =
  ap_rules :: string
  ap_rateLimit :: u64
  ap_limiter :: "TokenTicker option"
  ap_rcStarted :: bool
  ap_started :: bool

definition appsec_start :: "(string \<Rightarrow> bool) \<Rightarrow> appsec \<Rightarrow> appsec option" where
  "appsec_start waf_ok a =
    (let a1 = a\<lparr>ap_limiter := Some (NewTokenTicker (sint (ap_rateLimit a)) (sint (ap_rateLimit a)))\<rparr>
     in if waf_ok (ap_rules a1) then Some (a1\<lparr>ap_started := True\<rparr>) else None)"

definition appsec_stop :: "appsec \<Rightarrow> appsec" where
  "appsec_stop a = (if ap_started a then a\<lparr>ap_started := False\<rparr> else a)"

text \<open>The new active AppSec, and the old one as it was stopped.\<close>

definition setActiveAppSec :: "appsec option \<Rightarrow> appsec option \<Rightarrow> appsec option \<times> appsec option" where
  "setActiveAppSec a active = (a, map_option (\<lambda>old. appsec_stop (old\<lparr>ap_rcStarted := False\<rparr>)) active)"

definition appsec_Enabled :: "appsec option \<Rightarrow> bool" where
  "appsec_Enabled active = (case active of None \<Rightarrow> False | Some a \<Rightarrow> ap_started a)"

definition Appsec_Start ::
  "process \<Rightarrow> (string \<Rightarrow> string option) \<Rightarrow> string \<Rightarrow> (string \<Rightarrow> bool) \<Rightarrow> bool \<Rightarrow> appsec option \<Rightarrow> appsec option" where
  "Appsec_Start os readFile staticRules waf_ok rc_ok active =
    (case isEnabled os of
       None \<Rightarrow> active
     | Some (enabled, is_set) \<Rightarrow>
         if is_set \<and> \<not> enabled then active
         else case readRulesConfig os readFile staticRules of
           None \<Rightarrow> active
         | Some rules \<Rightarrow>
             let a = \<lparr>ap_rules = rules, ap_rateLimit = readRateLimitConfig os, ap_limiter = None, ap_rcStarted = False, ap_started = False\<rparr>;
                 run = (\<lambda>a. fst (setActiveAppSec (Some (a\<lparr>ap_rcStarted := rc_ok\<rparr>)) active))
             in if \<not> is_set then run a
                else case appsec_start waf_ok a of None \<Rightarrow> active | Some a' \<Rightarrow> run a')"

definition Appsec_Stop :: "appsec option \<Rightarrow> appsec option" where
  "Appsec_Stop active = fst (setActiveAppSec None active)"

lemma Appsec_Start_enabled:
  "appsec_Enabled (Appsec_Start os readFile staticRules waf_ok rc_ok None) \<longleftrightarrow>
    isEnabled os = Some (True, True) \<and> (\<exists>rules. readRulesConfig os readFile staticRules = Some rules \<and> waf_ok rules)"
  by (auto simp: Appsec_Start_def appsec_Enabled_def setActiveAppSec_def appsec_start_def Let_def split: option.splits prod.splits if_splits)

subsection \<open>The invariant\<close>

definition updater_ok :: "limiter_state \<Rightarrow> bool" where
  "updater_ok s = (case ls_updater s of
     Waiting \<Rightarrow> True
   | Spinning \<Rightarrow> ls_ns s \<le> ls_elapsedNs s
   | Loaded v \<Rightarrow> ls_ns s \<le> ls_elapsedNs s \<and> 0 \<le> v \<and> v < ls_max s)"

definition linv :: "limiter_state \<Rightarrow> bool" where
  "linv s \<longleftrightarrow> 0 < ls_ns s \<and> 0 < ls_max s \<and> ls_max s * ls_ns s \<le> 1000000000
     \<and> 0 \<le> ls_tokens s \<and> ls_tokens s \<le> ls_max s
     \<and> 0 \<le> ls_elapsedNs s \<and> ls_elapsedNs s \<le> ls_max s * ls_ns s \<and> updater_ok s \<and> (\<forall>v\<in>set (ls_callers s). 0 < v)"

text \<open>Tokens in the bucket and time not yet turned into tokens, in nanoseconds.\<close>

definition credit :: "limiter_state \<Rightarrow> int" where
  "credit s = ls_tokens s * ls_ns s + ls_elapsedNs s"

definition spent :: "limiter_state \<Rightarrow> int" where
  "spent s = int (ls_allowed s) * ls_ns s"

lemma token_inc_bounds:
  assumes "0 < ns" "0 \<le> v" "v < m" "ns \<le> e" "e \<le> m * ns"
  obtains inc where "token_inc m ns e v = Some inc" "0 < inc" "v + inc \<le> m" "inc * ns + e mod ns \<le> e"
proof -
  let ?i = "e div ns"
  have e: "go_div e ns = ?i" using assms by (simp add: go_div_nonneg)
  have i: "0 < ?i" "?i \<le> m" using assms by (simp_all add: pos_imp_zdiv_pos_iff) (metis nonzero_mult_div_cancel_right less_irrefl zdiv_mono1)
  have full: "?i * ns + e mod ns = e" by simp
  show ?thesis
  proof (cases "v + ?i > m")
    case False
    then show ?thesis using i full assms(1) by (intro that[of ?i]) (auto simp: token_inc_def e Let_def)
  next
    case True
    then have "go_rem (v + ?i) m = (v + ?i) mod m" using assms by (intro go_rem_nonneg) auto
    also have "(v + ?i) mod m = v + ?i - m"
      using True i assms minus_mod_self2[of "v + ?i" m] mod_pos_pos_trivial[of "v + ?i - m" m] by linarith
    finally have "token_inc m ns e v = Some (m - v)" using True assms(1) by (simp add: token_inc_def e Let_def)
    moreover have "(m - v) * ns \<le> ?i * ns" using True assms(1) by (intro mult_right_mono) auto
    then have "(m - v) * ns + e mod ns \<le> e" using full by linarith
    ultimately show ?thesis using assms(3) by (intro that[of "m - v"]) auto
  qed
qed

lemma on_tick_inv:
  assumes "linv s" "ls_prevStamp s \<le> stamp" "stamp - ls_prevStamp s < 2 ^ 62"
  shows "linv (on_tick stamp s)" "spent (on_tick stamp s) = spent s"
    "credit (on_tick stamp s) - ls_prevStamp (on_tick stamp s) \<le> credit s - ls_prevStamp s"
proof -
  let ?d = "stamp - ls_prevStamp s"
  have "int64_range (ls_elapsedNs s + ?d)" using assms by (auto simp: linv_def int64_range_def)
  then have e: "add_elapsed (ls_max s) (ls_ns s) (ls_elapsedNs s) ?d = min (ls_elapsedNs s + ?d) (ls_max s * ls_ns s)"
    by (simp add: add_elapsed_def wrap64_id Let_def min_def)
  have m: "0 \<le> ls_max s * ls_ns s" using assms(1) by (simp add: linv_def)
  show "linv (on_tick stamp s)" using assms m by (auto simp: linv_def on_tick_def Let_def e updater_ok_def)
  show "spent (on_tick stamp s) = spent s" by (simp add: on_tick_def Let_def spent_def)
  show "credit (on_tick stamp s) - ls_prevStamp (on_tick stamp s) \<le> credit s - ls_prevStamp s"
    by (simp add: on_tick_def Let_def credit_def e)
qed

lemma on_swap_inv:
  assumes "linv s" "ls_updater s = Loaded v"
  obtains s' where "on_swap v s = Some s'" "linv s'" "spent s' = spent s" "ls_prevStamp s' = ls_prevStamp s" "credit s' \<le> credit s"
proof -
  have h: "0 < ls_ns s" "0 \<le> v" "v < ls_max s" "ls_ns s \<le> ls_elapsedNs s" "ls_elapsedNs s \<le> ls_max s * ls_ns s"
    using assms by (simp_all add: linv_def updater_ok_def)
  obtain inc where inc: "token_inc (ls_max s) (ls_ns s) (ls_elapsedNs s) v = Some inc" "0 < inc" "v + inc \<le> ls_max s"
    "inc * ls_ns s + ls_elapsedNs s mod ls_ns s \<le> ls_elapsedNs s"
    using token_inc_bounds[OF h] by blast
  have r: "go_rem (ls_elapsedNs s) (ls_ns s) = ls_elapsedNs s mod ls_ns s" using h by (intro go_rem_nonneg) auto
  have m: "0 \<le> ls_elapsedNs s mod ls_ns s" "ls_elapsedNs s mod ls_ns s \<le> ls_elapsedNs s"
    using h zmod_le_nonneg_dividend[of "ls_elapsedNs s" "ls_ns s"] by auto
  show ?thesis
  proof (cases "ls_tokens s = v")
    case True
    let ?s = "s\<lparr>ls_ticker := (ls_ticker s)\<lparr>tk_tokens := v + inc\<rparr>, ls_elapsedNs := ls_elapsedNs s mod ls_ns s, ls_updater := Waiting\<rparr>"
    have "linv ?s" using assms(1) h(2) inc(2,3) m by (simp add: linv_def updater_ok_def)
    moreover have "credit ?s \<le> credit s" using inc(4) True by (simp add: credit_def algebra_simps)
    ultimately show ?thesis using True inc(1) by (intro that[of ?s]) (simp_all add: on_swap_def r spent_def)
  next
    case False
    let ?s = "s\<lparr>ls_updater := Spinning\<rparr>"
    have "linv ?s" using assms(1) h(4) by (simp add: linv_def updater_ok_def)
    then show ?thesis using False inc(1) by (intro that[of ?s]) (simp_all add: on_swap_def spent_def credit_def)
  qed
qed

text \<open>
  One step keeps the invariant, and what it spends and credits is covered by the credit before it and
  the time that passed.
\<close>

definition paid :: "limiter_state \<Rightarrow> limiter_state \<Rightarrow> bool" where
  "paid s s' \<longleftrightarrow> ls_ns s' = ls_ns s \<and> spent s' + credit s' - ls_prevStamp s' \<le> spent s + credit s - ls_prevStamp s"

lemma lstep_inv: "lstep s s' \<Longrightarrow> linv s \<Longrightarrow> linv s' \<and> paid s s'"
proof (induction rule: lstep.induct)
  case (tick s stamp)
  then show ?case using on_tick_inv[of s stamp] by (auto simp: paid_def on_tick_def Let_def)
next
  case (load s)
  then show ?case by (auto simp: linv_def on_load_def updater_ok_def paid_def spent_def credit_def)
next
  case (swap s v s')
  then obtain s2 where "on_swap v s = Some s2" "linv s2" "spent s2 = spent s" "ls_prevStamp s2 = ls_prevStamp s" "credit s2 \<le> credit s"
    using on_swap_inv by blast
  moreover have "ls_ns s' = ls_ns s" using swap.hyps(2) by (auto simp: on_swap_def split: option.splits if_splits)
  ultimately show ?case using swap.hyps(2) by (simp add: paid_def)
next
  case (allow_load s)
  then show ?case by (auto simp: linv_def allow_load_def updater_ok_def paid_def spent_def credit_def split: updater.splits)
next
  case (allow_swap v s)
  have "0 < v" using allow_swap by (simp add: linv_def)
  moreover have "w \<in> set (remove1 v (ls_callers s)) \<Longrightarrow> 0 < w" for w
    using allow_swap.prems set_remove1_subset[of v "ls_callers s"] by (auto simp: linv_def)
  ultimately show ?case using allow_swap.prems
    by (auto simp: linv_def allow_swap_def updater_ok_def paid_def spent_def credit_def Let_def algebra_simps split: updater.splits)
qed

lemma lsteps_inv: "lstep\<^sup>*\<^sup>* s s' \<Longrightarrow> linv s \<Longrightarrow> linv s' \<and> paid s s'"
proof (induction rule: rtranclp_induct)
  case base
  then show ?case by (simp add: paid_def)
next
  case (step y z)
  then show ?case using lstep_inv[of y z] by (auto simp: paid_def)
qed

lemma ticker_start_inv:
  assumes "0 < m" "m \<le> 1000000000" "0 \<le> n" "n \<le> m" "ticker_start (NewTokenTicker n m) t0 = Some s"
  shows "linv s" "ls_allowed s = 0" "ls_tokens s = n" "ls_elapsedNs s = 0" "ls_prevStamp s = t0" "ls_max s = m"
proof -
  have "go_div 1000000000 m = 1000000000 div m" using assms by (simp add: go_div_nonneg)
  moreover have "0 < (1000000000 :: int) div m" using assms by (simp add: pos_imp_zdiv_pos_iff)
  moreover have "m * (1000000000 div m) \<le> 1000000000" using mult_div_mod_eq[of m 1000000000] pos_mod_sign[of m 1000000000] assms(1) by linarith
  ultimately show "linv s" using assms
    by (auto simp: ticker_start_def nsPerToken_def NewTokenTicker_def linv_def updater_ok_def)
  show "ls_allowed s = 0" "ls_tokens s = n" "ls_elapsedNs s = 0" "ls_prevStamp s = t0" "ls_max s = m"
    using assms(1,5) by (auto simp: ticker_start_def nsPerToken_def NewTokenTicker_def)
qed

text \<open>
  C29: in every interleaving of the goroutines the bucket holds between zero and its maximum of tokens, the
  updater never panics, and the calls of \<open>Allow\<close> that returned true are at most the tokens at the start and one
  for each time slice of a token that has passed.
\<close>

theorem limiter_never_exceeds:
  assumes "0 < m" "m \<le> 1000000000" "0 \<le> n" "n \<le> m"
    and "ticker_start (NewTokenTicker n m) t0 = Some s0" "lstep\<^sup>*\<^sup>* s0 s"
  shows "0 \<le> ls_tokens s \<and> ls_tokens s \<le> ls_max s
    \<and> int (ls_allowed s) * ls_ns s \<le> n * ls_ns s + (ls_prevStamp s - t0)
    \<and> (case ls_updater s of Loaded v \<Rightarrow> on_swap v s \<noteq> None | _ \<Rightarrow> True)"
proof -
  note s0 = ticker_start_inv[OF assms(1-5)]
  have inv: "linv s" "paid s0 s" using lsteps_inv[OF assms(6) s0(1)] by simp_all
  have "0 \<le> credit s" using inv(1) by (simp add: linv_def credit_def)
  moreover have "spent s0 = 0" "credit s0 = n * ls_ns s" "ls_prevStamp s0 = t0" using inv(2) s0 by (simp_all add: paid_def spent_def credit_def)
  ultimately have "int (ls_allowed s) * ls_ns s \<le> n * ls_ns s + (ls_prevStamp s - t0)"
    using inv(2) unfolding paid_def spent_def[of s] by linarith
  moreover have "on_swap v s \<noteq> None" if "ls_updater s = Loaded v" for v
    using on_swap_inv[OF inv(1) that] by blast
  ultimately show ?thesis using inv(1) by (auto simp: linv_def split: updater.split)
qed

definition sample_state :: "int \<Rightarrow> int \<Rightarrow> int \<Rightarrow> updater \<Rightarrow> int list \<Rightarrow> nat \<Rightarrow> limiter_state" where
  "sample_state tokens elapsed prev up cs allowed = \<lparr>ls_ticker = \<lparr>tk_tokens = tokens, tk_maxTokens = 2\<rparr>, ls_ns = 500000000,
     ls_elapsedNs = elapsed, ls_prevStamp = prev, ls_updater = up, ls_callers = cs, ls_allowed = allowed\<rparr>"

lemma sample_start: "ticker_start (NewTokenTicker 2 2) 0 = Some (sample_state 2 0 0 Waiting [] 0)"
  by (simp add: ticker_start_def nsPerToken_def NewTokenTicker_def sample_state_def go_div_def)

lemma sample_allow:
  assumes "0 < tok"
  shows "lstep\<^sup>*\<^sup>* (sample_state tok el pr up [] al) (sample_state (tok - 1) el pr up [] (Suc al))"
proof -
  have "lstep (sample_state tok el pr up [] al) (sample_state tok el pr up [tok] al)"
    using lstep.allow_load[of "sample_state tok el pr up [] al"] assms by (simp add: allow_load_def sample_state_def)
  moreover have "lstep (sample_state tok el pr up [tok] al) (sample_state (tok - 1) el pr up [] (Suc al))"
    using lstep.allow_swap[of tok "sample_state tok el pr up [tok] al"] by (simp add: allow_swap_def sample_state_def Let_def)
  ultimately show ?thesis by auto
qed

lemma sample_allow_two: "lstep\<^sup>*\<^sup>* (sample_state 2 el pr up [] al) (sample_state 0 el pr up [] (Suc (Suc al)))"
  using sample_allow[of 2 el pr up al] sample_allow[of 1 el pr up "Suc al"] by simp

theorem limiter_never_exceeds_witness:
  "lstep\<^sup>*\<^sup>* (sample_state 2 0 0 Waiting [] 0) (sample_state 1 0 0 Waiting [] 1)
    \<and> int (ls_allowed (sample_state 1 0 0 Waiting [] 1)) * 500000000 \<le> 2 * 500000000"
proof -
  have r: "lstep\<^sup>*\<^sup>* (sample_state 2 0 0 Waiting [] 0) (sample_state 1 0 0 Waiting [] 1)" using sample_allow[of 2 0 0 Waiting 0] by simp
  show ?thesis using r limiter_never_exceeds[OF _ _ _ _ sample_start r] by (simp add: sample_state_def)
qed

text \<open>
  Time that passes while the bucket is full is kept, up to a second of it: twice the maximum can be allowed
  within one tick.
\<close>

lemma limiter_double_burst:
  "\<exists>s1 s2. lstep\<^sup>*\<^sup>* (sample_state 2 0 0 Waiting [] 0) s1 \<and> lstep\<^sup>*\<^sup>* s1 s2 \<and> ls_max s2 = 2
    \<and> ls_allowed s2 - ls_allowed s1 = 4 \<and> ls_prevStamp s2 - ls_prevStamp s1 = 500000"
proof -
  let ?s1 = "sample_state 2 1000000000 2000000000 Waiting [] 0" and ?s2 = "sample_state 0 0 2000500000 Waiting [] 4"
  have "lstep (sample_state 2 0 0 Waiting [] 0) (sample_state 2 1000000000 2000000000 Spinning [] 0)"
    using lstep.tick[of "sample_state 2 0 0 Waiting [] 0" 2000000000]
    by (simp add: sample_state_def on_tick_def add_elapsed_def wrap64_def Let_def)
  moreover have "lstep (sample_state 2 1000000000 2000000000 Spinning [] 0) ?s1"
    using lstep.load[of "sample_state 2 1000000000 2000000000 Spinning [] 0"] by (simp add: sample_state_def on_load_def)
  ultimately have 1: "lstep\<^sup>*\<^sup>* (sample_state 2 0 0 Waiting [] 0) ?s1" by auto
  have a: "lstep\<^sup>*\<^sup>* ?s1 (sample_state 0 1000000000 2000000000 Waiting [] 2)"
    using sample_allow_two[of 1000000000 2000000000 Waiting 0] by (simp add: numeral_2_eq_2)
  have b: "lstep (sample_state 0 1000000000 2000000000 Waiting [] 2) (sample_state 0 1000000000 2000500000 Spinning [] 2)"
    using lstep.tick[of "sample_state 0 1000000000 2000000000 Waiting [] 2" 2000500000]
    by (simp add: sample_state_def on_tick_def add_elapsed_def wrap64_def Let_def)
  have c: "lstep (sample_state 0 1000000000 2000500000 Spinning [] 2) (sample_state 0 1000000000 2000500000 (Loaded 0) [] 2)"
    using lstep.load[of "sample_state 0 1000000000 2000500000 Spinning [] 2"] by (simp add: sample_state_def on_load_def)
  have d: "lstep (sample_state 0 1000000000 2000500000 (Loaded 0) [] 2) (sample_state 2 0 2000500000 Waiting [] 2)"
    by (rule lstep.swap[of _ 0]) (simp_all add: sample_state_def on_swap_def token_inc_def go_div_def go_rem_def Let_def)
  have e: "lstep\<^sup>*\<^sup>* (sample_state 2 0 2000500000 Waiting [] 2) ?s2"
    using sample_allow_two[of 0 2000500000 Waiting 2] by simp
  have "lstep\<^sup>*\<^sup>* ?s1 ?s2" using a b c d e by (meson rtranclp.rtrancl_into_rtrancl rtranclp_trans)
  with 1 show ?thesis by (intro exI[of _ ?s1] exI[of _ ?s2]) (simp add: sample_state_def)
qed

text \<open>
  A configured limit of zero passes the check of \<open>readRateLimitConfig\<close>, which tests the default instead of the
  value, and the goroutine of the limiter then divides by zero; so it does with a limit above \<open>10 ^ 9\<close>.
\<close>

lemma rate_limit_zero_panics:
  assumes "Getenv os ''DD_APPSEC_TRACE_RATE_LIMIT'' = ''0''"
  shows "readRateLimitConfig os = 0"
    "ticker_start (NewTokenTicker (sint (readRateLimitConfig os)) (sint (readRateLimitConfig os))) t0 = None"
proof -
  have "parse_uint 10 ''0'' = Some 0" by code_simp
  then show "readRateLimitConfig os = 0" using assms by (simp add: readRateLimitConfig_def)
  then show "ticker_start (NewTokenTicker (sint (readRateLimitConfig os)) (sint (readRateLimitConfig os))) t0 = None"
    by (simp add: ticker_start_def nsPerToken_def NewTokenTicker_def)
qed

lemma rate_limit_huge_panics:
  assumes "1000000000 < m" "ticker_start (NewTokenTicker n m) t0 = Some s0" "lstep\<^sup>*\<^sup>* s0 s"
  shows "on_swap v s = None"
proof -
  have "ls_ns s0 = 0" using assms(1,2) by (auto simp: ticker_start_def nsPerToken_def NewTokenTicker_def go_div_nonneg)
  moreover have "ls_ns b = ls_ns a" if "lstep a b" for a b
    using that by (cases rule: lstep.cases)
      (auto simp: on_tick_def on_load_def on_swap_def allow_load_def allow_swap_def Let_def split: option.splits if_splits)
  with assms(3) have "ls_ns s = ls_ns s0" by (induction rule: rtranclp_induct) auto
  ultimately show ?thesis by (simp add: on_swap_def token_inc_def)
qed

end
