(* ===== verification/Tracer_Log.thy ===== *)
theory Tracer_Log
  imports Go_Prelude
begin

section \<open>internal/log/log.go: levels, loggers and aggregated errors\<close>

text \<open>
  Errors are counted per format string and printed when a timer fires or when somebody flushes.  The
  package variables are the record \<open>log_state\<close>; \<open>lg_timers\<close> counts the pending calls of
  \<^verbatim>\<open>time.AfterFunc\<close>, \<open>lg_out\<close> holds what the loggers received, oldest first.  The arguments of a call are
  formatted already: \<open>text\<close> is \<^verbatim>\<open>fmt.Sprintf(format, a...)\<close>.
\<close>

subsection \<open>Levels\<close>

datatype Level = LevelDebug | LevelWarn

fun level_code :: "Level \<Rightarrow> int" where
  "level_code LevelDebug = 0"
| "level_code LevelWarn = 1"

lemma level_code_inj: "level_code a = level_code b \<Longrightarrow> a = b"
  by (cases a; cases b) auto

instantiation Level :: linorder
begin

definition less_eq_Level :: "Level \<Rightarrow> Level \<Rightarrow> bool" where
  "less_eq_Level a b \<longleftrightarrow> level_code a \<le> level_code b"

definition less_Level :: "Level \<Rightarrow> Level \<Rightarrow> bool" where
  "less_Level a b \<longleftrightarrow> level_code a < level_code b"

instance
  by standard (auto simp: less_eq_Level_def less_Level_def intro: level_code_inj)

end

subsection \<open>State\<close>

record errorReport =
  er_first :: int
  er_err :: string
  er_count :: u64

record log_state =
  lg_level :: Level
  lg_logger :: nat
  lg_out :: "(nat \<times> string) list"
  lg_erragg :: "(string \<times> errorReport) list"
  lg_errrate :: int
  lg_erron :: bool
  lg_timers :: nat

text \<open>
  What the package takes from fmt and time: \<open>fl_Sprintf\<close> is \<^verbatim>\<open>fmt.Sprintf\<close> of a format without arguments,
  \<open>fl_RFC822\<close> the format of a time, \<open>fl_prefix\<close> the prefix with the version.
\<close>

record fmt_lib =
  fl_Sprintf :: "string \<Rightarrow> string"
  fl_RFC822 :: "int \<Rightarrow> string"
  fl_prefix :: string

abbreviation "defaultErrorLimit \<equiv> (200 :: u64)"

subsection \<open>Printing\<close>

definition printMsg :: "fmt_lib \<Rightarrow> string \<Rightarrow> string \<Rightarrow> log_state \<Rightarrow> log_state" where
  "printMsg fl lvl text s = s\<lparr>lg_out := lg_out s @ [(lg_logger s, fl_prefix fl @ '' '' @ lvl @ '': '' @ text)]\<rparr>"

definition SetLevel :: "Level \<Rightarrow> log_state \<Rightarrow> log_state" where
  "SetLevel lvl s = s\<lparr>lg_level := lvl\<rparr>"

definition DebugEnabled :: "log_state \<Rightarrow> bool" where
  "DebugEnabled s = (lg_level s = LevelDebug)"

definition log_Debug :: "fmt_lib \<Rightarrow> string \<Rightarrow> log_state \<Rightarrow> log_state" where
  "log_Debug fl text s = (if \<not> DebugEnabled s then s else printMsg fl ''DEBUG'' text s)"

definition log_Warn :: "fmt_lib \<Rightarrow> string \<Rightarrow> log_state \<Rightarrow> log_state" where
  "log_Warn fl text = printMsg fl ''WARN'' text"

definition log_Info :: "fmt_lib \<Rightarrow> string \<Rightarrow> log_state \<Rightarrow> log_state" where
  "log_Info fl text = printMsg fl ''INFO'' text"

subsection \<open>Errors\<close>

definition report_msg :: "fmt_lib \<Rightarrow> errorReport \<Rightarrow> string" where
  "report_msg fl r = er_err r @
    (if er_count r > defaultErrorLimit
     then '', 200+ additional messages skipped (first occurrence: '' @ fl_RFC822 fl (er_first r) @ '')''
     else if er_count r > 1
     then '', '' @ format_uint (er_count r - 1) 10 @ '' additional messages skipped (first occurrence: '' @ fl_RFC822 fl (er_first r) @ '')''
     else '' (occurred: '' @ fl_RFC822 fl (er_first r) @ '')'')"

text \<open>The message of a report is the format of its line.\<close>

definition flushLocked :: "fmt_lib \<Rightarrow> log_state \<Rightarrow> log_state" where
  "flushLocked fl s =
    (let s' = fold (\<lambda>(_, report). printMsg fl ''ERROR'' (fl_Sprintf fl (report_msg fl report))) (lg_erragg s) s
     in s'\<lparr>lg_erragg := [], lg_erron := False\<rparr>)"

definition log_Flush :: "fmt_lib \<Rightarrow> log_state \<Rightarrow> log_state" where
  "log_Flush fl = flushLocked fl"

definition reachedLimit :: "string \<Rightarrow> log_state \<Rightarrow> bool" where
  "reachedLimit key s = (case map_of (lg_erragg s) key of Some e \<Rightarrow> er_count e > defaultErrorLimit | None \<Rightarrow> False)"

definition error_locked :: "fmt_lib \<Rightarrow> string \<Rightarrow> string \<Rightarrow> int \<Rightarrow> log_state \<Rightarrow> log_state" where
  "error_locked fl key text now s =
    (let report = (case map_of (lg_erragg s) key of Some r \<Rightarrow> r | None \<Rightarrow> \<lparr>er_first = now, er_err = text, er_count = 0\<rparr>);
         s1 = s\<lparr>lg_erragg := AList.update key (report\<lparr>er_count := er_count report + 1\<rparr>) (lg_erragg s)\<rparr>
     in if lg_errrate s1 = 0 then flushLocked fl s1
        else if \<not> lg_erron s1 then s1\<lparr>lg_erron := True, lg_timers := Suc (lg_timers s1)\<rparr>
        else s1)"

definition log_Error :: "fmt_lib \<Rightarrow> string \<Rightarrow> string \<Rightarrow> int \<Rightarrow> log_state \<Rightarrow> log_state" where
  "log_Error fl format text now s = (if reachedLimit format s then s else error_locked fl format text now s)"

text \<open>\<open>UseLogger\<close> and the function it returns.\<close>

definition UseLogger :: "fmt_lib \<Rightarrow> nat \<Rightarrow> log_state \<Rightarrow> log_state \<times> (log_state \<Rightarrow> log_state)" where
  "UseLogger fl l s = (let s1 = log_Flush fl s; old = lg_logger s1 in (s1\<lparr>lg_logger := l\<rparr>, \<lambda>s. s\<lparr>lg_logger := old\<rparr>))"

text \<open>\<open>DD_LOGGING_RATE\<close> in seconds; a duration is an int64 of nanoseconds.\<close>

definition log_init :: "fmt_lib \<Rightarrow> string \<Rightarrow> string \<Rightarrow> log_state \<Rightarrow> log_state" where
  "log_init fl v warning s =
    (if v \<noteq> [] then
       (case parse_uint 10 v of
          None \<Rightarrow> log_Warn fl warning s
        | Some sec \<Rightarrow> s\<lparr>lg_errrate := wrap64 (sint sec * 1000000000)\<rparr>)
     else s)"

subsection \<open>The package as a state machine\<close>

text \<open>
  \<open>Error\<close> tests the limit and takes the lock afterwards, so that other goroutines may come in between; the
  errors that have passed the test wait in the second component.
\<close>

inductive log_step :: "fmt_lib \<Rightarrow> log_state \<times> (string \<times> string) list \<Rightarrow> log_state \<times> (string \<times> string) list \<Rightarrow> bool"
  for fl where
  limit: "\<not> reachedLimit key s \<Longrightarrow> log_step fl (s, w) (s, (key, text) # w)"
| locked: "(key, text) \<in> set w \<Longrightarrow> log_step fl (s, w) (error_locked fl key text now s, remove1 (key, text) w)"
| timer: "lg_timers s = Suc n \<Longrightarrow> log_step fl (s, w) (log_Flush fl (s\<lparr>lg_timers := n\<rparr>), w)"
| flush: "log_step fl (s, w) (log_Flush fl s, w)"
| logger: "log_step fl (s, w) (fst (UseLogger fl l s), w)"
| level: "log_step fl (s, w) (SetLevel lvl s, w)"
| print: "log_step fl (s, w) (printMsg fl lvl text s, w)"

text \<open>An aggregated error is flushed by a timer that is still pending; every report stands for an error.\<close>

definition log_inv :: "log_state \<Rightarrow> bool" where
  "log_inv s \<longleftrightarrow> distinct (map fst (lg_erragg s))
    \<and> (lg_erragg s \<noteq> [] \<longrightarrow> lg_erron s) \<and> (lg_erron s \<longrightarrow> 0 < lg_timers s)"

lemma printMsg_frame [simp]:
  "lg_erragg (printMsg fl lvl text s) = lg_erragg s" "lg_erron (printMsg fl lvl text s) = lg_erron s"
  "lg_timers (printMsg fl lvl text s) = lg_timers s" "lg_logger (printMsg fl lvl text s) = lg_logger s"
  "lg_errrate (printMsg fl lvl text s) = lg_errrate s" "lg_level (printMsg fl lvl text s) = lg_level s"
  by (simp_all add: printMsg_def)

definition report_line :: "fmt_lib \<Rightarrow> errorReport \<Rightarrow> string" where
  "report_line fl r = fl_prefix fl @ '' ERROR: '' @ fl_Sprintf fl (report_msg fl r)"

lemma fold_print:
  "fold (\<lambda>(_, report). printMsg fl ''ERROR'' (fl_Sprintf fl (report_msg fl report))) rs s =
    s\<lparr>lg_out := lg_out s @ map (\<lambda>(_, r). (lg_logger s, report_line fl r)) rs\<rparr>"
  by (induction rs arbitrary: s) (auto simp: printMsg_def report_line_def)

lemma flushLocked_eq:
  "flushLocked fl s = s\<lparr>lg_out := lg_out s @ map (\<lambda>(_, r). (lg_logger s, report_line fl r)) (lg_erragg s), lg_erragg := [], lg_erron := False\<rparr>"
  by (simp add: flushLocked_def fold_print Let_def)

lemma flushLocked_inv: "log_inv (flushLocked fl s)"
  by (simp add: flushLocked_eq log_inv_def)

lemma update_not_Nil [simp]: "AList.update k v al \<noteq> []"
  by (cases al) auto

lemma error_locked_inv: "log_inv s \<Longrightarrow> log_inv (error_locked fl key text now s)"
  by (auto simp: error_locked_def Let_def flushLocked_inv) (auto simp: log_inv_def distinct_update)

lemma log_step_inv: "log_step fl (s, w) (s', w') \<Longrightarrow> log_inv s \<Longrightarrow> log_inv s'"
  by (cases rule: log_step.cases)
    (auto simp: error_locked_inv log_Flush_def flushLocked_inv UseLogger_def Let_def, auto simp: log_inv_def SetLevel_def flushLocked_eq)

lemma log_reach_inv: "(log_step fl)\<^sup>*\<^sup>* (s, w) (s', w') \<Longrightarrow> log_inv s \<Longrightarrow> log_inv s'"
  by (induction "(s', w')" arbitrary: s' w' rule: rtranclp_induct) (auto intro: log_step_inv)

text \<open>
  C30: no error is forgotten: in every interleaving, an error that has been aggregated is flushed by a
  timer that is still pending, and when that fires, the line of its report goes to the current logger.
\<close>

theorem aggregated_error_is_flushed:
  assumes "(log_step fl)\<^sup>*\<^sup>* (s0, []) (s, w)" "log_inv s0" "(key, r) \<in> set (lg_erragg s)"
  shows "\<exists>n s'. lg_timers s = Suc n \<and> log_step fl (s, w) (s', w) \<and> s' = log_Flush fl (s\<lparr>lg_timers := n\<rparr>)
    \<and> (lg_logger s, report_line fl r) \<in> set (lg_out s') \<and> lg_erragg s' = []"
proof -
  have "log_inv s" by (rule log_reach_inv[OF assms(1,2)])
  then have "0 < lg_timers s" using assms(3) by (auto simp: log_inv_def)
  then obtain n where n: "lg_timers s = Suc n" by (cases "lg_timers s") auto
  let ?s = "log_Flush fl (s\<lparr>lg_timers := n\<rparr>)"
  have "(lg_logger s, report_line fl r) \<in> set (lg_out ?s)" "lg_erragg ?s = []"
    using assms(3) by (force simp: log_Flush_def flushLocked_eq)+
  then show ?thesis using n log_step.timer[OF n, of fl w] by blast
qed

definition sample_fmt :: fmt_lib where
  "sample_fmt = \<lparr>fl_Sprintf = (\<lambda>f. f), fl_RFC822 = (\<lambda>_. ''now''), fl_prefix = ''Datadog Tracer v1''\<rparr>"

definition sample_log :: log_state where
  "sample_log = \<lparr>lg_level = LevelWarn, lg_logger = 0, lg_out = [], lg_erragg = [], lg_errrate = 60000000000, lg_erron = False, lg_timers = 0\<rparr>"

theorem aggregated_error_is_flushed_witness:
  "(0, ''Datadog Tracer v1 ERROR: bad: 7 (occurred: now)'')
    \<in> set (lg_out (log_Flush sample_fmt (log_Error sample_fmt ''bad: %d'' ''bad: 7'' 5 sample_log\<lparr>lg_timers := 0\<rparr>)))"
proof -
  let ?s = "log_Error sample_fmt ''bad: %d'' ''bad: 7'' 5 sample_log" and ?r = "\<lparr>er_first = 5, er_err = ''bad: 7'', er_count = 1\<rparr>"
  have "log_step sample_fmt (sample_log, []) (sample_log, [(''bad: %d'', ''bad: 7'')])"
    by (rule log_step.limit) (simp add: reachedLimit_def sample_log_def)
  moreover have "log_step sample_fmt (sample_log, [(''bad: %d'', ''bad: 7'')]) (?s, [])"
    using log_step.locked[of "''bad: %d''" "''bad: 7''" "[(''bad: %d'', ''bad: 7'')]" sample_fmt sample_log 5]
    by (simp add: log_Error_def reachedLimit_def sample_log_def)
  ultimately have r: "(log_step sample_fmt)\<^sup>*\<^sup>* (sample_log, []) (?s, [])" by auto
  have s: "lg_timers ?s = 1" "lg_logger ?s = 0" "(''bad: %d'', ?r) \<in> set (lg_erragg ?s)"
    by (simp_all add: log_Error_def error_locked_def reachedLimit_def sample_log_def Let_def)
  have "log_inv sample_log" by (simp add: log_inv_def sample_log_def)
  moreover have "report_line sample_fmt ?r = ''Datadog Tracer v1 ERROR: bad: 7 (occurred: now)''"
    by (simp add: report_line_def report_msg_def sample_fmt_def)
  ultimately show ?thesis using aggregated_error_is_flushed[OF r _ s(3)] s(1,2) by auto
qed

text \<open>
  The text of an error becomes a format: one that contains a percent sign is changed unless
  \<^verbatim>\<open>fmt.Sprintf\<close> leaves it as it is.
\<close>

lemma flush_formats_twice:
  "lg_out (log_Flush fl s) = lg_out s @ map (\<lambda>(_, r). (lg_logger s, fl_prefix fl @ '' ERROR: '' @ fl_Sprintf fl (report_msg fl r))) (lg_erragg s)"
  by (simp add: log_Flush_def flushLocked_eq report_line_def)

text \<open>Without other goroutines a report never counts more than one error beyond the limit.\<close>

lemma log_Error_count:
  assumes "\<forall>e\<in>set (lg_erragg s). er_count (snd e) \<le> defaultErrorLimit + 1"
  shows "\<forall>e\<in>set (lg_erragg (log_Error fl key text now s)). er_count (snd e) \<le> defaultErrorLimit + 1"
proof (cases "reachedLimit key s")
  case True
  then show ?thesis using assms by (simp add: log_Error_def)
next
  case False
  define r where "r = (case map_of (lg_erragg s) key of Some r \<Rightarrow> r | None \<Rightarrow> \<lparr>er_first = now, er_err = text, er_count = 0\<rparr>)"
  have "er_count r \<le> 200" using False by (auto simp: r_def reachedLimit_def split: option.splits)
  then have "er_count r + 1 \<le> defaultErrorLimit + 1" by (simp add: word_le_nat_alt unat_word_ariths)
  then have "\<forall>e\<in>set (AList.update key (r\<lparr>er_count := er_count r + 1\<rparr>) (lg_erragg s)). er_count (snd e) \<le> defaultErrorLimit + 1"
    using assms by (auto dest!: in_set_update)
  then show ?thesis using False by (simp add: log_Error_def error_locked_def r_def[symmetric] Let_def flushLocked_eq)
qed

end
