(* ===== verification/Dyngo.thy ===== *)
theory Dyngo
  imports Go_Prelude
begin

section \<open>internal/appsec/dyngo/operation.go: operations and their event listeners\<close>

text \<open>
  Operations form a tree; an event bubbles up from an operation to the root.  An operation is a
  pointer into the store \<open>dyngo\<close>, the root operation is 0.  A Go type is its name, a listener the type it
  listens to and the number of its function; a nil listener is \<open>None\<close>.  \<open>dy_calls\<close> records the calls of
  listeners; what a listener does itself is a step of its own.
\<close>

record EventListener =
  ev_type :: string
  ev_fn :: nat

record eventListenerMapEntry =
  me_id :: u32
  me_listener :: EventListener

record operation =
  op_parent :: "nat option"
  op_listeners :: "(string, eventListenerMapEntry list) gomap"
  op_disabled :: bool

record dyngo =
  dy_op :: "nat \<Rightarrow> operation"
  dy_next :: nat
  dy_lastID :: u32
  dy_calls :: "(nat \<times> nat \<times> string) list"

definition upd_op :: "nat \<Rightarrow> (operation \<Rightarrow> operation) \<Rightarrow> dyngo \<Rightarrow> dyngo" where
  "upd_op p f d = d\<lparr>dy_op := (dy_op d)(p := f (dy_op d p))\<rparr>"

subsection \<open>The event register\<close>

definition entries :: "dyngo \<Rightarrow> nat \<Rightarrow> string \<Rightarrow> eventListenerMapEntry list" where
  "entries d p key = (case m_get (op_listeners (dy_op d p)) key of None \<Rightarrow> [] | Some es \<Rightarrow> es)"

definition nextID :: "dyngo \<Rightarrow> u32 \<times> dyngo" where
  "nextID d = (dy_lastID d + 1, d\<lparr>dy_lastID := dy_lastID d + 1\<rparr>)"

definition register_add :: "nat \<Rightarrow> string \<Rightarrow> EventListener \<Rightarrow> dyngo \<Rightarrow> u32 \<times> dyngo" where
  "register_add p key l d =
    (case nextID d of (n, d1) \<Rightarrow>
       (n, upd_op p (\<lambda>oper. oper\<lparr>op_listeners := m_put key (entries d1 p key @ [\<lparr>me_id = n, me_listener = l\<rparr>]) (op_listeners oper)\<rparr>) d1))"

text \<open>\<open>sort.Search\<close>: the smallest index of \<open>[i, j)\<close> at which the monotone predicate holds, or \<open>j\<close>.\<close>

function search_from :: "(nat \<Rightarrow> bool) \<Rightarrow> nat \<Rightarrow> nat \<Rightarrow> nat" where
  "search_from f i j =
    (if i < j then
       let h = (i + j) div 2 in if \<not> f h then search_from f (h + 1) j else search_from f i h
     else i)"
  by pat_completeness auto
termination
  by (relation "measure (\<lambda>(f, i, j). j - i)") auto

declare search_from.simps [simp del]

definition sort_Search :: "nat \<Rightarrow> (nat \<Rightarrow> bool) \<Rightarrow> nat" where
  "sort_Search n f = search_from f 0 n"

definition register_remove :: "nat \<Rightarrow> string \<Rightarrow> u32 \<Rightarrow> dyngo \<Rightarrow> dyngo" where
  "register_remove p key n d =
    (if op_listeners (dy_op d p) = None then d
     else
       let ls = entries d p key;
           i = sort_Search (length ls) (\<lambda>i. me_id (ls ! i) \<ge> n)
       in if i < length ls \<and> me_id (ls ! i) = n
          then upd_op p (\<lambda>oper. oper\<lparr>op_listeners := m_put key (take i ls @ drop (i + 1) ls) (op_listeners oper)\<rparr>) d
          else d)"

definition register_clear :: "nat \<Rightarrow> dyngo \<Rightarrow> dyngo" where
  "register_clear p = upd_op p (\<lambda>oper. oper\<lparr>op_listeners := None\<rparr>)"

text \<open>A listener that panics ends the loop; the panic is recovered.\<close>

fun run_listeners :: "(nat \<Rightarrow> bool) \<Rightarrow> eventListenerMapEntry list \<Rightarrow> nat \<Rightarrow> string \<Rightarrow> dyngo \<Rightarrow> dyngo" where
  "run_listeners panics [] opp v d = d"
| "run_listeners panics (e # es) opp v d =
    (let d' = d\<lparr>dy_calls := dy_calls d @ [(ev_fn (me_listener e), opp, v)]\<rparr>
     in if panics (ev_fn (me_listener e)) then d' else run_listeners panics es opp v d')"

definition emitEvent :: "(nat \<Rightarrow> bool) \<Rightarrow> nat \<Rightarrow> string \<Rightarrow> nat \<Rightarrow> string \<Rightarrow> dyngo \<Rightarrow> dyngo" where
  "emitEvent panics cur key opp v d = run_listeners panics (entries d cur key) opp v d"

subsection \<open>Operations\<close>

abbreviation "rootOperation \<equiv> (0 :: nat)"

definition newOperation :: "nat option \<Rightarrow> dyngo \<Rightarrow> nat \<times> dyngo" where
  "newOperation parent d =
    (dy_next d, (upd_op (dy_next d) (\<lambda>_. \<lparr>op_parent = parent, op_listeners = None, op_disabled = False\<rparr>) d)\<lparr>dy_next := Suc (dy_next d)\<rparr>)"

definition NewOperation :: "nat option \<Rightarrow> dyngo \<Rightarrow> nat \<times> dyngo" where
  "NewOperation parent d = newOperation (Some (case parent of None \<Rightarrow> rootOperation | Some p \<Rightarrow> p)) d"

text \<open>An operation and its parents up to the root; a parent is older than its child.\<close>

function op_chain :: "dyngo \<Rightarrow> nat \<Rightarrow> nat list" where
  "op_chain d p = p # (case op_parent (dy_op d p) of None \<Rightarrow> [] | Some q \<Rightarrow> if q < p then op_chain d q else [])"
  by pat_completeness auto
termination
  by (relation "measure snd") auto

declare op_chain.simps [simp del]

definition emit_all :: "(nat \<Rightarrow> bool) \<Rightarrow> nat list \<Rightarrow> string \<Rightarrow> nat \<Rightarrow> string \<Rightarrow> dyngo \<Rightarrow> dyngo" where
  "emit_all panics ops key opp v d = fold (\<lambda>cur. emitEvent panics cur key opp v) ops d"

text \<open>\<open>(key, v)\<close> is the argument or the result with its type.\<close>

definition StartOperation :: "(nat \<Rightarrow> bool) \<Rightarrow> nat \<Rightarrow> string \<Rightarrow> string \<Rightarrow> dyngo \<Rightarrow> dyngo" where
  "StartOperation panics opp key v d = emit_all panics (tl (op_chain d opp)) key opp v d"

definition op_disable :: "nat \<Rightarrow> dyngo \<Rightarrow> dyngo" where
  "op_disable p d = (if op_disabled (dy_op d p) then d else register_clear p (upd_op p (\<lambda>oper. oper\<lparr>op_disabled := True\<rparr>) d))"

definition FinishOperation :: "(nat \<Rightarrow> bool) \<Rightarrow> nat \<Rightarrow> string \<Rightarrow> string \<Rightarrow> dyngo \<Rightarrow> dyngo" where
  "FinishOperation panics opp key v d =
    op_disable opp (if op_disabled (dy_op d opp) then d else emit_all panics (op_chain d opp) key opp v d)"

fun register_all :: "nat \<Rightarrow> EventListener option list \<Rightarrow> dyngo \<Rightarrow> (string \<times> u32) list \<times> dyngo" where
  "register_all p [] d = ([], d)"
| "register_all p (None # ls) d = (case register_all p ls d of (ix, d') \<Rightarrow> (([], 0) # ix, d'))"
| "register_all p (Some l # ls) d =
    (case register_add p (ev_type l) l d of (n, d1) \<Rightarrow>
      case register_all p ls d1 of (ix, d') \<Rightarrow> ((ev_type l, n) # ix, d'))"

text \<open>The indices that \<open>register\<close> returns stand for the unregister function.\<close>

definition op_register :: "nat \<Rightarrow> EventListener option list \<Rightarrow> dyngo \<Rightarrow> (string \<times> u32) list \<times> dyngo" where
  "op_register p ls d = (if op_disabled (dy_op d p) then ([], d) else register_all p ls d)"

definition unregister :: "nat \<Rightarrow> (string \<times> u32) list \<Rightarrow> dyngo \<Rightarrow> dyngo" where
  "unregister p ix d = fold (\<lambda>(key, n). register_remove p key n) ix d"

definition op_On :: "nat \<Rightarrow> EventListener \<Rightarrow> dyngo \<Rightarrow> dyngo" where
  "op_On p l d = (if op_disabled (dy_op d p) then d else snd (register_add p (ev_type l) l d))"

subsection \<open>Binary search\<close>

lemma search_from_least:
  "(\<And>a b. a \<le> b \<Longrightarrow> b < j \<Longrightarrow> f a \<Longrightarrow> f b) \<Longrightarrow> i \<le> j \<Longrightarrow> i \<le> search_from f i j \<and> search_from f i j \<le> j
    \<and> (\<forall>k. i \<le> k \<longrightarrow> k < search_from f i j \<longrightarrow> \<not> f k) \<and> (search_from f i j < j \<longrightarrow> f (search_from f i j))"
proof (induction f i j rule: search_from.induct)
  case (1 f i j)
  note mono = "1.prems"(1)
  show ?case
  proof (cases "i < j")
    case False
    then have "search_from f i j = i" by (simp add: search_from.simps[of f i j])
    then show ?thesis using False "1.prems"(2) by simp
  next
    case True
    let ?h = "(i + j) div 2"
    have h: "i \<le> ?h" "?h < j" using True by auto
    show ?thesis
    proof (cases "f ?h")
      case True
      have eq: "search_from f i j = search_from f i ?h" using h True \<open>i < j\<close> by (simp add: search_from.simps[of f i j] Let_def)
      have IH: "i \<le> search_from f i ?h \<and> search_from f i ?h \<le> ?h \<and> (\<forall>k. i \<le> k \<longrightarrow> k < search_from f i ?h \<longrightarrow> \<not> f k)
          \<and> (search_from f i ?h < ?h \<longrightarrow> f (search_from f i ?h))"
        by (rule "1.IH"(2)) (use \<open>i < j\<close> True h mono in auto)
      then show ?thesis using True h unfolding eq by (auto simp: le_less)
    next
      case False
      have eq: "search_from f i j = search_from f (?h + 1) j" using h False \<open>i < j\<close> by (simp add: search_from.simps[of f i j] Let_def)
      have IH: "?h + 1 \<le> search_from f (?h + 1) j \<and> search_from f (?h + 1) j \<le> j
          \<and> (\<forall>k. ?h + 1 \<le> k \<longrightarrow> k < search_from f (?h + 1) j \<longrightarrow> \<not> f k) \<and> (search_from f (?h + 1) j < j \<longrightarrow> f (search_from f (?h + 1) j))"
        by (rule "1.IH"(1)) (use \<open>i < j\<close> False h mono in auto)
      have "\<not> f k" if "k < ?h + 1" for k using False mono[of k ?h, OF _ h(2)] that by auto
      then show ?thesis using IH h unfolding eq by (meson le_trans not_le order_trans le_add1)
    qed
  qed
qed

lemma sort_Search_least:
  assumes "\<And>a b. a \<le> b \<Longrightarrow> b < n \<Longrightarrow> f a \<Longrightarrow> f b"
  shows "sort_Search n f \<le> n" "k < sort_Search n f \<Longrightarrow> \<not> f k" "sort_Search n f < n \<Longrightarrow> f (sort_Search n f)"
  using search_from_least[of n f 0] assms by (auto simp: sort_Search_def)

text \<open>In a list with ascending ids the search finds the entry, and removing it is filtering it out.\<close>

abbreviation "ids es \<equiv> map me_id es"

lemma remove_found:
  fixes n :: u32
  assumes s: "sorted_wrt (<) (ids es)"
  defines "i \<equiv> sort_Search (length es) (\<lambda>i. n \<le> me_id (es ! i))"
  shows "(if i < length es \<and> me_id (es ! i) = n then take i es @ drop (i + 1) es else es) = filter (\<lambda>e. me_id e \<noteq> n) es"
proof -
  have asc: "me_id (es ! a) < me_id (es ! b)" if "a < b" "b < length es" for a b
    using sorted_wrt_nth_less[OF s, of a b] that by simp
  have mono: "n \<le> me_id (es ! b)" if "a \<le> b" "b < length es" "n \<le> me_id (es ! a)" for a b
    using that asc[of a b] by (cases "a = b") auto
  let ?f = "\<lambda>i. n \<le> me_id (es ! i)"
  have found: "\<not> ?f k" if "k < i" for k using sort_Search_least(2)[of "length es" ?f k] mono that unfolding i_def by blast
  have at: "?f i" if "i < length es" using sort_Search_least(3)[of "length es" ?f] mono that unfolding i_def by blast
  have lt: "me_id (es ! k) \<noteq> n" if "k < i" for k using found[OF that] by auto
  show ?thesis
  proof (cases "i < length es \<and> me_id (es ! i) = n")
    case True
    have gt: "me_id (es ! k) \<noteq> n" if "i < k" "k < length es" for k using asc[OF that] True by auto
    have "filter (\<lambda>e. me_id e \<noteq> n) (take i es) = take i es" using lt True by (auto simp: filter_id_conv in_set_conv_nth)
    moreover have "filter (\<lambda>e. me_id e \<noteq> n) (drop (Suc i) es) = drop (Suc i) es" 
      using gt by (auto simp: filter_id_conv in_set_conv_nth) (metis add_Suc less_add_Suc1 less_diff_conv2 add.commute less_diff_conv)
    moreover have "es = take i es @ es ! i # drop (Suc i) es" using True by (simp add: id_take_nth_drop)
    then have "filter (\<lambda>e. me_id e \<noteq> n) es = filter (\<lambda>e. me_id e \<noteq> n) (take i es) @ filter (\<lambda>e. me_id e \<noteq> n) (es ! i # drop (Suc i) es)"
      by (metis filter_append)
    ultimately show ?thesis using True by simp
  next
    case False
    have "me_id (es ! k) \<noteq> n" if k: "k < length es" for k
    proof (cases "k < i")
      case True
      then show ?thesis by (rule lt)
    next
      case ge: False
      then have "i < length es" using k by simp
      then have "n < me_id (es ! i)" using False at by auto
      then show ?thesis using ge k asc[of i k] by (cases "i = k") auto
    qed
    then have "filter (\<lambda>e. me_id e \<noteq> n) es = es" unfolding filter_id_conv by (metis in_set_conv_nth)
    then show ?thesis using False by auto
  qed
qed

subsection \<open>Registering and unregistering\<close>

text \<open>
  The ids of a list ascend and none is above the last one given; the type of an index is that of its
  listener.
\<close>

definition dyn_inv :: "dyngo \<Rightarrow> bool" where
  "dyn_inv d \<longleftrightarrow> (\<forall>p key. sorted_wrt (<) (ids (entries d p key)) \<and> (\<forall>e\<in>set (entries d p key). 0 < me_id e \<and> me_id e \<le> dy_lastID d))"

lemma entries_upd:
  "entries (upd_op p (\<lambda>oper. oper\<lparr>op_listeners := m_put key es (op_listeners oper)\<rparr>) d) q k = (if q = p \<and> k = key then es else entries d q k)"
  by (simp add: entries_def upd_op_def)

lemma entries_nextID [simp]: "entries (snd (nextID d)) = entries d" "entries (d\<lparr>dy_lastID := n\<rparr>) = entries d"
  by (simp_all add: fun_eq_iff nextID_def entries_def)

lemma register_add_entries:
  "entries (snd (register_add p key l d)) q k =
    (if q = p \<and> k = key then entries d p key @ [\<lparr>me_id = dy_lastID d + 1, me_listener = l\<rparr>] else entries d q k)"
  by (simp add: register_add_def nextID_def entries_upd)

lemma register_remove_entries:
  assumes "dyn_inv d"
  shows "entries (register_remove p key n d) q k =
    (if q = p \<and> k = key then filter (\<lambda>e. me_id e \<noteq> n) (entries d q k) else entries d q k)"
proof (cases "op_listeners (dy_op d p) = None")
  case True
  then show ?thesis by (simp add: register_remove_def entries_def)
next
  case False
  have "sorted_wrt (<) (ids (entries d p key))" using assms by (simp add: dyn_inv_def)
  from remove_found[OF this, of n] False show ?thesis
    by (auto simp: register_remove_def Let_def entries_upd)
qed

lemma register_remove_last [simp]: "dy_lastID (register_remove p key n d) = dy_lastID d"
  by (simp add: register_remove_def Let_def upd_op_def)

lemma dyn_inv_remove: "dyn_inv d \<Longrightarrow> dyn_inv (register_remove p key n d)"
  unfolding dyn_inv_def[of "register_remove p key n d"]
  by (auto simp: register_remove_entries) (auto simp: dyn_inv_def sorted_wrt_filter sorted_wrt_map)

lemma unregister_entries:
  "dyn_inv d \<Longrightarrow> entries (unregister p ix d) q k =
    (if q = p then filter (\<lambda>e. (k, me_id e) \<notin> set ix) (entries d q k) else entries d q k)"
proof (induction ix arbitrary: d)
  case (Cons a ix)
  obtain key n where a: "a = (key, n)" by (cases a)
  have "entries (unregister p (a # ix) d) q k = entries (unregister p ix (register_remove p key n d)) q k"
    by (simp add: unregister_def a)
  also have "\<dots> = (if q = p then filter (\<lambda>e. (k, me_id e) \<notin> set (a # ix)) (entries d q k) else entries d q k)"
    using Cons.IH[OF dyn_inv_remove[OF Cons.prems], of p key n] register_remove_entries[OF Cons.prems, of p key n q k]
    by (auto simp: a filter_filter intro: filter_cong)
  finally show ?case .
qed (simp add: unregister_def)

lemma dyn_inv_add:
  assumes "dyn_inv d" "dy_lastID d < dy_lastID d + 1"
  shows "dyn_inv (snd (register_add p key l d))"
proof -
  have "dy_lastID (snd (register_add p key l d)) = dy_lastID d + 1" by (simp add: register_add_def nextID_def upd_op_def)
  moreover have "0 < dy_lastID d + 1" using assms(2) by (metis word_gt_0 word_not_simps(1))
  ultimately show ?thesis using assms
    by (fastforce simp: dyn_inv_def register_add_entries sorted_wrt_append)
qed

lemma no_wrap: "unat x + Suc n < 2 ^ 32 \<Longrightarrow> x < x + 1 \<and> unat (x + 1) + n < 2 ^ 32" for x :: u32
  by (simp add: word_less_nat_alt unat_word_ariths)

lemma register_all_spec:
  assumes "dyn_inv d" "unat (dy_lastID d) + length ls < 2 ^ 32" "register_all p ls d = (ix, d')"
  shows "dyn_inv d' \<and> (\<forall>k n. (k, n) \<in> set ix \<longrightarrow> n = 0 \<or> dy_lastID d < n)
    \<and> (\<exists>new. \<forall>q k. entries d' q k = entries d q k @ new q k \<and> (\<forall>e\<in>set (new q k). q = p \<and> (k, me_id e) \<in> set ix))"
  using assms
proof (induction p ls d arbitrary: ix d' rule: register_all.induct)
  case (1 p d)
  then show ?case by (auto intro: exI[of _ "\<lambda>q k. []"])
next
  case (2 p ls d)
  then obtain ix1 where ix: "register_all p ls d = (ix1, d')" "ix = ([], 0) # ix1" by (auto split: prod.splits)
  have "unat (dy_lastID d) + length ls < 2 ^ 32" using "2.prems"(2) by simp
  from "2.IH"[OF "2.prems"(1) this ix(1)] obtain new where "dyn_inv d'" "\<forall>k n. (k, n) \<in> set ix1 \<longrightarrow> n = 0 \<or> dy_lastID d < n"
    "\<forall>q k. entries d' q k = entries d q k @ new q k \<and> (\<forall>e\<in>set (new q k). q = p \<and> (k, me_id e) \<in> set ix1)" by blast
  then show ?case unfolding ix(2) by (intro conjI exI[of _ new]) auto
next
  case (3 p l ls d)
  obtain n d1 where a: "register_add p (ev_type l) l d = (n, d1)" by fastforce
  obtain ix1 where r: "register_all p ls d1 = (ix1, d')" "ix = (ev_type l, n) # ix1" using "3.prems"(3) a by (auto split: prod.splits)
  have w: "dy_lastID d < dy_lastID d + 1" "unat (dy_lastID d + 1) + length ls < 2 ^ 32" using no_wrap "3.prems"(2) by auto
  have n: "n = dy_lastID d + 1" "dy_lastID d1 = dy_lastID d + 1" using a by (auto simp: register_add_def nextID_def upd_op_def)
  have d1: "dyn_inv d1" using dyn_inv_add[OF "3.prems"(1) w(1), of p "ev_type l" l] a by simp
  have e1: "entries d1 q k = entries d q k @ (if q = p \<and> k = ev_type l then [\<lparr>me_id = n, me_listener = l\<rparr>] else [])" for q k
    using register_add_entries[of p "ev_type l" l d q k] a by (simp add: n)
  obtain new where IH: "dyn_inv d'" "\<forall>k m. (k, m) \<in> set ix1 \<longrightarrow> m = 0 \<or> dy_lastID d1 < m"
    "\<forall>q k. entries d' q k = entries d1 q k @ new q k \<and> (\<forall>e\<in>set (new q k). q = p \<and> (k, me_id e) \<in> set ix1)"
    using "3.IH"[OF a[symmetric] d1 _ r(1)] w(2) n(2) by auto
  show ?case
  proof (intro conjI exI[of _ "\<lambda>q k. (if q = p \<and> k = ev_type l then [\<lparr>me_id = n, me_listener = l\<rparr>] else []) @ new q k"] allI impI)
    show "dyn_inv d'" by (rule IH(1))
    show "m = 0 \<or> dy_lastID d < m" if "(k, m) \<in> set ix" for k m
    proof (cases "m = n")
      case False
      then have "m = 0 \<or> dy_lastID d1 < m" using that IH(2) by (auto simp: r(2))
      then show ?thesis using n(2) w(1) by auto
    qed (use n w in simp)
    fix q k
    show "entries d' q k = entries d q k @ (if q = p \<and> k = ev_type l then [\<lparr>me_id = n, me_listener = l\<rparr>] else []) @ new q k"
      using IH(3) e1[of q k] by simp
    show "\<forall>e\<in>set ((if q = p \<and> k = ev_type l then [\<lparr>me_id = n, me_listener = l\<rparr>] else []) @ new q k). q = p \<and> (k, me_id e) \<in> set ix"
      using IH(3) by (auto simp: r(2))
  qed
qed

text \<open>
  C31: unregistering right after registering leaves the listeners of every operation as they were: the
  binary search finds each of the new listeners and nothing else, as long as the 32-bit ids have not
  wrapped around.
\<close>

theorem unregister_restores:
  assumes "dyn_inv d" "unat (dy_lastID d) + length ls < 2 ^ 32" "op_register p ls d = (ix, d')"
  shows "entries (unregister p ix d') q k = entries d q k"
proof (cases "op_disabled (dy_op d p)")
  case True
  then show ?thesis using assms(3) by (simp add: op_register_def unregister_def)
next
  case False
  then have r: "register_all p ls d = (ix, d')" using assms(3) by (simp add: op_register_def)
  from register_all_spec[OF assms(1,2) r] obtain new where d': "dyn_inv d'"
    and low: "\<And>k n. (k, n) \<in> set ix \<Longrightarrow> n = 0 \<or> dy_lastID d < n"
    and e: "entries d' q k = entries d q k @ new q k" "\<And>e. e \<in> set (new q k) \<Longrightarrow> q = p \<and> (k, me_id e) \<in> set ix" by blast
  have old: "(k, me_id e) \<notin> set ix" if "e \<in> set (entries d q k)" for e
  proof -
    have "0 < me_id e" "me_id e \<le> dy_lastID d" using assms(1) that unfolding dyn_inv_def by blast+
    then show ?thesis using low[of k "me_id e"] by (auto simp: not_less)
  qed
  have "filter (\<lambda>e. (k, me_id e) \<notin> set ix) (entries d q k) = entries d q k" using old by (simp add: filter_id_conv)
  moreover have "filter (\<lambda>e. (k, me_id e) \<notin> set ix) (new q k) = []" using e(2) by (auto simp: filter_empty_conv)
  moreover have "new q k = []" if "q \<noteq> p" using e(2) that by (cases "new q k") auto
  ultimately show ?thesis using unregister_entries[OF d', of p ix q k] e(1) by (cases "q = p") auto
qed

definition sample_dyngo :: dyngo where
  "sample_dyngo = \<lparr>dy_op = (\<lambda>_. \<lparr>op_parent = None, op_listeners = Some [(''req'', [\<lparr>me_id = 1, me_listener = \<lparr>ev_type = ''req'', ev_fn = 7\<rparr>\<rparr>])], op_disabled = False\<rparr>),
     dy_next = 1, dy_lastID = 1, dy_calls = []\<rparr>"

lemma sample_dyngo_inv: "dyn_inv sample_dyngo"
proof -
  have "entries sample_dyngo q k = (if k = ''req'' then [\<lparr>me_id = 1, me_listener = \<lparr>ev_type = ''req'', ev_fn = 7\<rparr>\<rparr>] else [])" for q k
    by (simp add: entries_def sample_dyngo_def m_get_def)
  then show ?thesis by (simp add: dyn_inv_def sample_dyngo_def)
qed

theorem unregister_restores_witness:
  "entries (case op_register 0 [Some \<lparr>ev_type = ''req'', ev_fn = 8\<rparr>, None] sample_dyngo of (ix, d') \<Rightarrow> unregister 0 ix d') 0 ''req''
    = entries sample_dyngo 0 ''req''"
proof -
  obtain ix d' where r: "op_register 0 [Some \<lparr>ev_type = ''req'', ev_fn = 8\<rparr>, None] sample_dyngo = (ix, d')" by fastforce
  then show ?thesis using unregister_restores[OF sample_dyngo_inv _ r, of 0 "''req''"] by (simp add: sample_dyngo_def)
qed

subsection \<open>Events\<close>

lemma run_listeners_calls:
  "run_listeners (\<lambda>_. False) es opp v d = d\<lparr>dy_calls := dy_calls d @ map (\<lambda>e. (ev_fn (me_listener e), opp, v)) es\<rparr>"
  by (induction es arbitrary: d) (simp_all add: Let_def)

lemma emit_all_calls:
  "emit_all (\<lambda>_. False) ops key opp v d =
    d\<lparr>dy_calls := dy_calls d @ concat (map (\<lambda>cur. map (\<lambda>e. (ev_fn (me_listener e), opp, v)) (entries d cur key)) ops)\<rparr>"
proof (induction ops arbitrary: d)
  case (Cons a ops)
  have "entries (d\<lparr>dy_calls := cs\<rparr>) = entries d" for cs by (simp add: fun_eq_iff entries_def)
  with Cons show ?case by (simp add: emit_all_def emitEvent_def run_listeners_calls)
qed (simp add: emit_all_def)

text \<open>
  A finish event reaches the listeners of the operation and of its parents, in the order of the chain and, in one
  operation, in the order of registration.  Finishing again changes nothing, and later listeners are not kept.
\<close>

lemma FinishOperation_calls:
  assumes "\<not> op_disabled (dy_op d p)"
  shows "dy_calls (FinishOperation (\<lambda>_. False) p key v d) =
      dy_calls d @ concat (map (\<lambda>cur. map (\<lambda>e. (ev_fn (me_listener e), p, v)) (entries d cur key)) (op_chain d p))"
  using assms by (simp add: FinishOperation_def emit_all_calls op_disable_def register_clear_def upd_op_def)

lemma run_listeners_ops [simp]: "dy_op (run_listeners panics es opp v d) = dy_op d"
  by (induction panics es opp v d rule: run_listeners.induct) (simp_all add: Let_def)

lemma emit_all_ops [simp]: "dy_op (emit_all panics ops key opp v d) = dy_op d"
  by (induction ops arbitrary: d) (simp_all add: emit_all_def emitEvent_def)

lemma FinishOperation_disabled: "op_disabled (dy_op (FinishOperation panics p key v d) p)"
  by (simp add: FinishOperation_def op_disable_def register_clear_def upd_op_def)

lemma finish_once:
  "FinishOperation panics2 p key2 v2 (FinishOperation panics p key v d) = FinishOperation panics p key v d"
  "op_On p l (FinishOperation panics p key v d) = FinishOperation panics p key v d"
  "op_register p ls (FinishOperation panics p key v d) = ([], FinishOperation panics p key v d)"
  using FinishOperation_disabled[of panics p key v d]
  by (simp_all add: op_On_def op_register_def FinishOperation_def[of panics2] op_disable_def[of p "FinishOperation panics p key v d"])

end
