(* ===== verification/Telemetry.thy ===== *)
theory Telemetry
  imports Transport
begin

section \<open>internal/telemetry: the telemetry client\<close>

text \<open>
  The client tells the backend that the program started, reports metrics and heartbeats, and that it
  closes.  Every method takes the mutex, so it is one step.  \<open>tc_submitted\<close> is the history of what was handed
  over to be sent, in batches; the timers are flags.  Of a request the fields that are the same in all of
  them (API version, language, host) are left out.
\<close>

subsection \<open>Messages (message.go)\<close>

datatype RequestType = RequestTypeAppStarted | RequestTypeAppHeartbeat | RequestTypeGenerateMetrics | RequestTypeAppClosing

record Integration =
  in_Name :: string
  in_Enabled :: bool
  in_Version :: string
  in_AutoEnabled :: bool
  in_Compatible :: bool
  in_Error :: string

record Dependency =
  dp_Name :: string
  dp_Version :: string
  dp_Type :: string

record Configuration =
  co_Name :: string
  co_Value :: goval

record Series =
  se_Metric :: string
  se_Point :: "float64 \<times> float64"
  se_Type :: string
  se_Tags :: "string list"
  se_Common :: bool

datatype tpayload = NoPayload | AppStarted "Integration list" "Dependency list" "Configuration list" | Metrics string string "Series list"

record Application =
  ap_ServiceName :: string
  ap_Env :: string
  ap_ServiceVersion :: string

record Request =
  tq_RequestType :: RequestType
  tq_TracerTime :: int
  tq_RuntimeID :: string
  tq_SeqID :: int
  tq_Debug :: bool
  tq_Payload :: tpayload
  tq_Application :: Application

subsection \<open>The client (client.go)\<close>

record metric_entry =
  me_name :: string
  me_kind :: string
  me_value :: float64
  me_ts :: float64
  me_tags :: "string list"
  me_common :: bool

record tclient =
  tc_URL :: string
  tc_APIKey :: string
  tc_SubmissionInterval :: int
  tc_heartbeatInterval :: int
  tc_Namespace :: string
  tc_Service :: string
  tc_Env :: string
  tc_Version :: string
  tc_Disabled :: bool
  tc_debug :: bool
  tc_started :: bool
  tc_seqID :: int
  tc_flushT :: bool
  tc_heartbeatT :: bool
  tc_requests :: "Request list"
  tc_metrics :: "(string \<times> metric_entry) list"
  tc_newMetrics :: bool
  tc_submitted :: "Request list list"

definition newRequest :: "globals \<Rightarrow> int \<Rightarrow> RequestType \<Rightarrow> tclient \<Rightarrow> Request \<times> tclient" where
  "newRequest g now t c =
    (let n = wrap64 (tc_seqID c + 1)
     in (\<lparr>tq_RequestType = t, tq_TracerTime = now, tq_RuntimeID = gl_runtimeID g, tq_SeqID = n, tq_Debug = tc_debug c,
          tq_Payload = NoPayload,
          tq_Application = \<lparr>ap_ServiceName = tc_Service c, ap_Env = tc_Env c, ap_ServiceVersion = tc_Version c\<rparr>\<rparr>,
         c\<lparr>tc_seqID := n\<rparr>))"

definition scheduleSubmit :: "Request \<Rightarrow> tclient \<Rightarrow> tclient" where
  "scheduleSubmit r c = c\<lparr>tc_requests := tc_requests c @ [r]\<rparr>"

definition metric_series :: "metric_entry \<Rightarrow> Series" where
  "metric_series m = \<lparr>se_Metric = me_name m, se_Point = (me_ts m, me_value m), se_Type = me_kind m, se_Tags = me_tags m, se_Common = me_common m\<rparr>"

definition tel_flush :: "globals \<Rightarrow> string \<Rightarrow> int \<Rightarrow> tclient \<Rightarrow> tclient" where
  "tel_flush g versionTag now c =
    (let (metrics, c1) =
       (if tc_newMetrics c then
          (case newRequest g now RequestTypeGenerateMetrics (c\<lparr>tc_newMetrics := False\<rparr>) of (r, c') \<Rightarrow>
             ([r\<lparr>tq_Payload := Metrics (tc_Namespace c') versionTag (map (\<lambda>(_, m). metric_series m) (tc_metrics c'))\<rparr>], c'))
        else ([], c))
     in c1\<lparr>tc_requests := [], tc_submitted := tc_submitted c1 @ [metrics @ tc_requests c1]\<rparr>)"

definition configEnvFallback :: "process \<Rightarrow> string \<Rightarrow> string \<Rightarrow> string" where
  "configEnvFallback os key def = (if def \<noteq> [] then def else Getenv os key)"

definition heartbeat_seconds :: "process \<Rightarrow> int" where
  "heartbeat_seconds os =
    (let heartbeat = IntEnv os ''DD_TELEMETRY_HEARTBEAT_INTERVAL'' 60
     in if heartbeat < 1 \<or> heartbeat > 3600 then 60 else heartbeat)"

definition start_config :: "process \<Rightarrow> globals \<Rightarrow> tclient \<Rightarrow> tclient" where
  "start_config os g c =
    (let svc = configEnvFallback os ''DD_SERVICE'' (tc_Service c);
         svc = (if svc = [] then (if gl_serviceName g \<noteq> [] then gl_serviceName g else ''unnamed-go-service'') else svc)
     in c\<lparr>tc_Service := svc, tc_Env := configEnvFallback os ''DD_ENV'' (tc_Env c),
          tc_Version := configEnvFallback os ''DD_VERSION'' (tc_Version c),
          tc_APIKey := configEnvFallback os ''DD_API_KEY'' (tc_APIKey c)\<rparr>)"

definition tel_Start ::
  "process \<Rightarrow> globals \<Rightarrow> string \<Rightarrow> Dependency list \<Rightarrow> int \<Rightarrow> Integration list \<Rightarrow> Configuration list \<Rightarrow> tclient \<Rightarrow> tclient" where
  "tel_Start os g versionTag deps now integrations configuration c =
    (if tc_Disabled c \<or> \<not> BoolEnv os ''DD_INSTRUMENTATION_TELEMETRY_ENABLED'' True then c
     else if tc_started c then c
     else
       let c1 = start_config os g (c\<lparr>tc_debug := BoolEnv os ''DD_INSTRUMENTATION_TELEMETRY_DEBUG'' (tc_debug c), tc_started := True, tc_metrics := []\<rparr>);
           (r, c2) = newRequest g now RequestTypeAppStarted c1;
           c3 = tel_flush g versionTag now (scheduleSubmit (r\<lparr>tq_Payload := AppStarted integrations deps configuration\<rparr>) c2)
       in c3\<lparr>tc_SubmissionInterval := (if tc_SubmissionInterval c3 = 0 then 60000000000 else tc_SubmissionInterval c3), tc_flushT := True,
             tc_heartbeatInterval := heartbeat_seconds os * 1000000000, tc_heartbeatT := True\<rparr>)"

definition tel_Stop :: "globals \<Rightarrow> string \<Rightarrow> int \<Rightarrow> tclient \<Rightarrow> tclient" where
  "tel_Stop g versionTag now c =
    (if \<not> tc_started c then c
     else
       let c1 = c\<lparr>tc_started := False, tc_flushT := False, tc_heartbeatT := False\<rparr>;
           (r, c2) = newRequest g now RequestTypeAppClosing c1
       in tel_flush g versionTag now (scheduleSubmit r c2))"

definition newmetric :: "string \<Rightarrow> string \<Rightarrow> string list \<Rightarrow> bool \<Rightarrow> metric_entry" where
  "newmetric name kind tags common = \<lparr>me_name = name, me_kind = kind, me_value = Fin 0, me_ts = Fin 0, me_tags = tags, me_common = common\<rparr>"

definition metricKey :: "string \<Rightarrow> string list \<Rightarrow> string" where
  "metricKey name tags = name @ join_with ''-'' tags"

definition update_metric :: "string \<Rightarrow> (float64 \<Rightarrow> float64) \<Rightarrow> int \<Rightarrow> string \<Rightarrow> string list \<Rightarrow> bool \<Rightarrow> tclient \<Rightarrow> tclient" where
  "update_metric kind f now name tags common c =
    (if \<not> tc_started c then c
     else
       let key = metricKey name tags;
           m = (case map_of (tc_metrics c) key of Some m \<Rightarrow> m | None \<Rightarrow> newmetric name kind tags common)
       in c\<lparr>tc_metrics := AList.update key (m\<lparr>me_value := f (me_value m), me_ts := f64_of_int now\<rparr>) (tc_metrics c), tc_newMetrics := True\<rparr>)"

definition Gauge :: "string \<Rightarrow> float64 \<Rightarrow> int \<Rightarrow> string list \<Rightarrow> bool \<Rightarrow> tclient \<Rightarrow> tclient" where
  "Gauge name v now tags common = update_metric ''gauge'' (\<lambda>_. v) now name tags common"

definition tel_Count :: "string \<Rightarrow> float64 \<Rightarrow> int \<Rightarrow> string list \<Rightarrow> bool \<Rightarrow> tclient \<Rightarrow> tclient" where
  "tel_Count name v now tags common = update_metric ''count'' (\<lambda>old. f64_add old v) now name tags common"

definition backgroundHeartbeat :: "globals \<Rightarrow> int \<Rightarrow> tclient \<Rightarrow> tclient" where
  "backgroundHeartbeat g now c =
    (if \<not> tc_started c then c
     else case newRequest g now RequestTypeAppHeartbeat c of (r, c') \<Rightarrow>
       c'\<lparr>tc_submitted := tc_submitted c' @ [[r]], tc_heartbeatT := True\<rparr>)"

definition backgroundFlush :: "globals \<Rightarrow> string \<Rightarrow> int \<Rightarrow> tclient \<Rightarrow> tclient" where
  "backgroundFlush g versionTag now c = (if \<not> tc_started c then c else (tel_flush g versionTag now c)\<lparr>tc_flushT := True\<rparr>)"

text \<open>
  \<open>submit\<close>: \<open>marshal\<close> is the JSON encoder.  The error of a bad status holds the code.
\<close>

datatype submit_error = MarshalError | RequestError | SubmitDoError string | errBadStatus nat

fun type_name :: "RequestType \<Rightarrow> string" where
  "type_name RequestTypeAppStarted = ''app-started''"
| "type_name RequestTypeAppHeartbeat = ''app-heartbeat''"
| "type_name RequestTypeGenerateMetrics = ''generate-metrics''"
| "type_name RequestTypeAppClosing = ''app-closing''"

definition submit :: "network \<Rightarrow> httpClient \<Rightarrow> (Request \<Rightarrow> byte list option) \<Rightarrow> Request \<Rightarrow> tclient \<Rightarrow> submit_error option" where
  "submit nw client marshal r c =
    (case marshal r of
       None \<Rightarrow> Some MarshalError
     | Some b \<Rightarrow>
         if \<not> nw_url_ok nw (tc_URL c) then Some RequestError
         else
           let hs = [(''Content-Type'', [''application/json'']), (''DD-Telemetry-API-Version'', [''v1'']),
                     (''DD-Telemetry-Request-Type'', [type_name (tq_RequestType r)])];
               hs = (if length (tc_APIKey c) > 0 then hs @ [(canonical_key ''DD-API-Key'', [tc_APIKey c])] else hs)
           in case nw_Do nw client \<lparr>rq_url = tc_URL c, rq_headers = hs, rq_body = b\<rparr> of
             DoError e \<Rightarrow> Some (SubmitDoError e)
           | DoResponse code _ \<Rightarrow> if code \<noteq> 202 \<and> code \<noteq> 200 then Some (errBadStatus code) else None)"

subsection \<open>The protocol of a session\<close>

text \<open>
  What the backend may see: a session starts with app-started and ends with app-closing; heartbeats and
  metrics are only sent within one.  The function returns whether a session is open afterwards.
\<close>

fun protocol :: "bool \<Rightarrow> RequestType list \<Rightarrow> bool option" where
  "protocol started [] = Some started"
| "protocol started (t # ts) =
    (case t of
       RequestTypeAppStarted \<Rightarrow> if started then None else protocol True ts
     | RequestTypeAppClosing \<Rightarrow> if started then protocol False ts else None
     | _ \<Rightarrow> if started then protocol started ts else None)"

lemma protocol_append: "protocol b (xs @ ys) = Option.bind (protocol b xs) (\<lambda>b'. protocol b' ys)"
  by (induction b xs rule: protocol.induct) (auto split: RequestType.splits)

inductive tel_step :: "process \<Rightarrow> globals \<Rightarrow> string \<Rightarrow> tclient \<Rightarrow> tclient \<Rightarrow> bool" for os g ver where
  start: "tc_seqID c + 2 < 2 ^ 63 \<Longrightarrow> tel_step os g ver c (tel_Start os g ver deps now is cs c)"
| stop: "tc_seqID c + 2 < 2 ^ 63 \<Longrightarrow> tel_step os g ver c (tel_Stop g ver now c)"
| gauge: "tel_step os g ver c (Gauge name v now tags common c)"
| count: "tel_step os g ver c (tel_Count name v now tags common c)"
| heartbeat: "tc_seqID c + 2 < 2 ^ 63 \<Longrightarrow> tel_step os g ver c (backgroundHeartbeat g now c)"
| flush: "tc_seqID c + 2 < 2 ^ 63 \<Longrightarrow> tel_step os g ver c (backgroundFlush g ver now c)"

abbreviation "sent c \<equiv> concat (tc_submitted c)"

definition tel_inv :: "tclient \<Rightarrow> bool" where
  "tel_inv c \<longleftrightarrow> tc_requests c = [] \<and> 0 \<le> tc_seqID c \<and> (\<not> tc_started c \<longrightarrow> \<not> tc_newMetrics c)
    \<and> protocol False (map tq_RequestType (sent c)) = Some (tc_started c)
    \<and> distinct (map tq_SeqID (sent c)) \<and> (\<forall>r\<in>set (sent c). 0 < tq_SeqID r \<and> tq_SeqID r \<le> tc_seqID c)"

lemma wrap_next: "0 \<le> n \<Longrightarrow> n + 1 < 2 ^ 63 \<Longrightarrow> wrap64 (n + 1) = n + 1"
  by (simp add: wrap64_id int64_range_def)

lemma tel_inv_extend:
  assumes "tel_inv c" "tc_submitted c' = tc_submitted c @ [b]" "tc_requests c' = []" "tc_seqID c \<le> tc_seqID c'"
    "distinct (map tq_SeqID b)" "\<And>r. r \<in> set b \<Longrightarrow> tc_seqID c < tq_SeqID r \<and> tq_SeqID r \<le> tc_seqID c'"
    "protocol (tc_started c) (map tq_RequestType b) = Some (tc_started c')" "\<not> tc_started c' \<Longrightarrow> \<not> tc_newMetrics c'"
  shows "tel_inv c'"
proof -
  have "tq_SeqID r \<noteq> tq_SeqID r'" if "r \<in> set (sent c)" "r' \<in> set b" for r r'
    using assms(1) assms(6)[OF that(2)] that(1) by (fastforce simp: tel_inv_def)
  then show ?thesis using assms by (fastforce simp: tel_inv_def protocol_append)
qed

lemma newRequest_eq:
  assumes "0 \<le> tc_seqID c" "tc_seqID c + 1 < 2 ^ 63"
  obtains r where "newRequest g now t c = (r, c\<lparr>tc_seqID := tc_seqID c + 1\<rparr>)" "tq_RequestType r = t" "tq_SeqID r = tc_seqID c + 1"
  using wrap_next[OF assms] by (auto simp: newRequest_def Let_def)

text \<open>A flush hands over the metrics, if there are new ones, and then the queue.\<close>

lemma tel_flush_eq:
  assumes "0 \<le> tc_seqID c" "tc_seqID c + 1 < 2 ^ 63"
  obtains ms where "tc_submitted (tel_flush g ver now c) = tc_submitted c @ [ms @ tc_requests c]"
    "map tq_RequestType ms = (if tc_newMetrics c then [RequestTypeGenerateMetrics] else [])"
    "map tq_SeqID ms = (if tc_newMetrics c then [tc_seqID c + 1] else [])"
    "tc_seqID (tel_flush g ver now c) = (if tc_newMetrics c then tc_seqID c + 1 else tc_seqID c)"
    "tc_requests (tel_flush g ver now c) = []" "tc_started (tel_flush g ver now c) = tc_started c" "\<not> tc_newMetrics (tel_flush g ver now c)"
proof (cases "tc_newMetrics c")
  case False
  then show ?thesis by (intro that[of "[]"]) (simp_all add: tel_flush_def)
next
  case True
  obtain r where "newRequest g now RequestTypeGenerateMetrics (c\<lparr>tc_newMetrics := False\<rparr>)
      = (r, c\<lparr>tc_newMetrics := False, tc_seqID := tc_seqID c + 1\<rparr>)" "tq_RequestType r = RequestTypeGenerateMetrics" "tq_SeqID r = tc_seqID c + 1"
    using newRequest_eq[of "c\<lparr>tc_newMetrics := False\<rparr>" g now RequestTypeGenerateMetrics] assms by auto
  with True show ?thesis
    by (intro that[of "[r\<lparr>tq_Payload := Metrics (tc_Namespace c) ver (map (\<lambda>(_, m). metric_series m) (tc_metrics c))\<rparr>]"])
      (simp_all add: tel_flush_def)
qed

lemma start_config_sel [simp]:
  "tc_seqID (start_config os g c) = tc_seqID c" "tc_submitted (start_config os g c) = tc_submitted c"
  "tc_requests (start_config os g c) = tc_requests c" "tc_newMetrics (start_config os g c) = tc_newMetrics c"
  "tc_started (start_config os g c) = tc_started c"
  by (simp_all add: start_config_def Let_def)

lemma tel_Start_inv:
  assumes "tel_inv c" "tc_seqID c + 2 < 2 ^ 63"
  shows "tel_inv (tel_Start os g ver deps now is cs c)"
proof (cases "tc_Disabled c \<or> \<not> BoolEnv os ''DD_INSTRUMENTATION_TELEMETRY_ENABLED'' True \<or> tc_started c")
  case True
  then have "tel_Start os g ver deps now is cs c = c" by (auto simp: tel_Start_def)
  then show ?thesis using assms(1) by simp
next
  case False
  have i: "0 \<le> tc_seqID c" "tc_requests c = []" "\<not> tc_newMetrics c" using assms(1) False by (auto simp: tel_inv_def)
  define c1 where "c1 = start_config os g (c\<lparr>tc_debug := BoolEnv os ''DD_INSTRUMENTATION_TELEMETRY_DEBUG'' (tc_debug c), tc_started := True, tc_metrics := []\<rparr>)"
  have c1: "tc_seqID c1 = tc_seqID c" "tc_submitted c1 = tc_submitted c" "tc_requests c1 = []" "\<not> tc_newMetrics c1" "tc_started c1"
    using i by (simp_all add: c1_def)
  obtain r where r: "newRequest g now RequestTypeAppStarted c1 = (r, c1\<lparr>tc_seqID := tc_seqID c + 1\<rparr>)"
    "tq_RequestType r = RequestTypeAppStarted" "tq_SeqID r = tc_seqID c + 1"
    using newRequest_eq[of c1 g now RequestTypeAppStarted] c1(1) i(1) assms(2) by auto
  define r' where "r' = r\<lparr>tq_Payload := AppStarted is deps cs\<rparr>"
  define c2 where "c2 = tel_flush g ver now (scheduleSubmit r' (c1\<lparr>tc_seqID := tc_seqID c + 1\<rparr>))"
  have c2: "tc_seqID c2 = tc_seqID c + 1" "tc_submitted c2 = tc_submitted c @ [[r']]" "tc_requests c2 = []" "tc_started c2" "\<not> tc_newMetrics c2"
    using c1 by (simp_all add: c2_def tel_flush_def scheduleSubmit_def)
  have eq: "tel_Start os g ver deps now is cs c = c2\<lparr>tc_SubmissionInterval := (if tc_SubmissionInterval c2 = 0 then 60000000000 else tc_SubmissionInterval c2),
      tc_flushT := True, tc_heartbeatInterval := heartbeat_seconds os * 1000000000, tc_heartbeatT := True\<rparr>"
    using False unfolding tel_Start_def Let_def c1_def[symmetric] r(1) prod.case r'_def[symmetric] c2_def[symmetric] by simp
  show ?thesis unfolding eq
    by (rule tel_inv_extend[OF assms(1), where b = "[r']"]) (use c2 r i False in \<open>auto simp: r'_def\<close>)
qed

lemma tel_Stop_inv:
  assumes "tel_inv c" "tc_seqID c + 2 < 2 ^ 63"
  shows "tel_inv (tel_Stop g ver now c)"
proof (cases "tc_started c")
  case False
  then show ?thesis using assms(1) by (simp add: tel_Stop_def)
next
  case True
  have i: "0 \<le> tc_seqID c" "tc_requests c = []" using assms(1) by (simp_all add: tel_inv_def)
  define c1 where "c1 = c\<lparr>tc_started := False, tc_flushT := False, tc_heartbeatT := False\<rparr>"
  obtain r where r: "newRequest g now RequestTypeAppClosing c1 = (r, c1\<lparr>tc_seqID := tc_seqID c + 1\<rparr>)"
    "tq_RequestType r = RequestTypeAppClosing" "tq_SeqID r = tc_seqID c + 1"
  proof (rule newRequest_eq[of c1 g now RequestTypeAppClosing])
    show "0 \<le> tc_seqID c1" "tc_seqID c1 + 1 < 2 ^ 63" using i(1) assms(2) by (simp_all add: c1_def)
  qed (auto simp: c1_def)
  define c2 where "c2 = scheduleSubmit r (c1\<lparr>tc_seqID := tc_seqID c + 1\<rparr>)"
  have c2: "tc_seqID c2 = tc_seqID c + 1" "tc_submitted c2 = tc_submitted c" "tc_requests c2 = [r]" "tc_newMetrics c2 = tc_newMetrics c" "\<not> tc_started c2"
    using i by (simp_all add: c2_def c1_def scheduleSubmit_def)
  have eq: "tel_Stop g ver now c = tel_flush g ver now c2"
    using True unfolding tel_Stop_def Let_def c1_def[symmetric] r(1) prod.case c2_def[symmetric] by simp
  have low: "0 \<le> tc_seqID c2" "tc_seqID c2 + 1 < 2 ^ 63" using c2(1) i(1) assms(2) by simp_all
  obtain ms where f: "tc_submitted (tel_flush g ver now c2) = tc_submitted c2 @ [ms @ tc_requests c2]"
    "map tq_RequestType ms = (if tc_newMetrics c2 then [RequestTypeGenerateMetrics] else [])"
    "map tq_SeqID ms = (if tc_newMetrics c2 then [tc_seqID c2 + 1] else [])"
    "tc_seqID (tel_flush g ver now c2) = (if tc_newMetrics c2 then tc_seqID c2 + 1 else tc_seqID c2)"
    "tc_requests (tel_flush g ver now c2) = []" "tc_started (tel_flush g ver now c2) = tc_started c2" "\<not> tc_newMetrics (tel_flush g ver now c2)"
    by (rule tel_flush_eq[OF low])
  have ids: "map tq_SeqID (ms @ [r]) = (if tc_newMetrics c then [tc_seqID c + 2] else []) @ [tc_seqID c + 1]" by (simp add: f(3) c2 r(3))
  have range: "tc_seqID c < tq_SeqID q \<and> tq_SeqID q \<le> tc_seqID (tel_flush g ver now c2)" if "q \<in> set (ms @ [r])" for q
  proof -
    have "tq_SeqID q \<in> set (map tq_SeqID (ms @ [r]))" using that by auto
    then have "tq_SeqID q \<in> set ((if tc_newMetrics c then [tc_seqID c + 2] else []) @ [tc_seqID c + 1])" unfolding ids .
    then show ?thesis by (cases "tc_newMetrics c") (auto simp: f(4) c2(1,4))
  qed
  have "protocol (tc_started c) (map tq_RequestType (ms @ [r])) = Some (tc_started (tel_flush g ver now c2))"
    using True by (simp add: f c2 r(2))
  moreover have "distinct (map tq_SeqID (ms @ [r]))" unfolding ids by simp
  moreover have "tc_seqID c \<le> tc_seqID (tel_flush g ver now c2)" by (simp add: f(4) c2(1,4))
  moreover have "tc_submitted (tel_flush g ver now c2) = tc_submitted c @ [ms @ [r]]" using f(1) c2(2,3) by simp
  ultimately show ?thesis unfolding eq using range f(5,7) by (intro tel_inv_extend[OF assms(1), where b = "ms @ [r]"])
qed

lemma backgroundHeartbeat_inv:
  assumes "tel_inv c" "tc_seqID c + 2 < 2 ^ 63"
  shows "tel_inv (backgroundHeartbeat g now c)"
proof (cases "tc_started c")
  case False
  then show ?thesis using assms(1) by (simp add: backgroundHeartbeat_def)
next
  case True
  have i: "0 \<le> tc_seqID c" "tc_requests c = []" using assms(1) by (simp_all add: tel_inv_def)
  obtain r where r: "newRequest g now RequestTypeAppHeartbeat c = (r, c\<lparr>tc_seqID := tc_seqID c + 1\<rparr>)"
    "tq_RequestType r = RequestTypeAppHeartbeat" "tq_SeqID r = tc_seqID c + 1"
    using newRequest_eq[of c g now RequestTypeAppHeartbeat] i(1) assms(2) by auto
  show ?thesis
    by (rule tel_inv_extend[OF assms(1), where b = "[r]"]) (use True r i in \<open>simp_all add: backgroundHeartbeat_def\<close>)
qed

lemma backgroundFlush_inv:
  assumes "tel_inv c" "tc_seqID c + 2 < 2 ^ 63"
  shows "tel_inv (backgroundFlush g ver now c)"
proof (cases "tc_started c")
  case False
  then show ?thesis using assms(1) by (simp add: backgroundFlush_def)
next
  case True
  have i: "0 \<le> tc_seqID c" "tc_requests c = []" using assms(1) by (simp_all add: tel_inv_def)
  have low: "0 \<le> tc_seqID c" "tc_seqID c + 1 < 2 ^ 63" using i(1) assms(2) by simp_all
  obtain ms where f: "tc_submitted (tel_flush g ver now c) = tc_submitted c @ [ms @ tc_requests c]"
    "map tq_RequestType ms = (if tc_newMetrics c then [RequestTypeGenerateMetrics] else [])"
    "map tq_SeqID ms = (if tc_newMetrics c then [tc_seqID c + 1] else [])"
    "tc_seqID (tel_flush g ver now c) = (if tc_newMetrics c then tc_seqID c + 1 else tc_seqID c)"
    "tc_requests (tel_flush g ver now c) = []" "tc_started (tel_flush g ver now c) = tc_started c" "\<not> tc_newMetrics (tel_flush g ver now c)"
    by (rule tel_flush_eq[OF low])
  have range: "tc_seqID c < tq_SeqID q \<and> tq_SeqID q \<le> tc_seqID (tel_flush g ver now c)" if "q \<in> set ms" for q
  proof -
    have "tq_SeqID q \<in> set (map tq_SeqID ms)" using that by auto
    then have "tq_SeqID q \<in> set (if tc_newMetrics c then [tc_seqID c + 1] else [])" unfolding f(3) .
    then show ?thesis by (cases "tc_newMetrics c") (auto simp: f(4))
  qed
  have "protocol (tc_started c) (map tq_RequestType ms) = Some (tc_started c)" using True by (simp add: f(2))
  moreover have "distinct (map tq_SeqID ms)" unfolding f(3) by simp
  ultimately show ?thesis using range f i True
    by (intro tel_inv_extend[OF assms(1), where b = ms]) (auto simp: backgroundFlush_def)
qed

lemma update_metric_inv: "tel_inv c \<Longrightarrow> tel_inv (update_metric kind f now name tags common c)"
  by (auto simp: update_metric_def Let_def tel_inv_def)

lemma tel_step_inv: "tel_step os g ver c c' \<Longrightarrow> tel_inv c \<Longrightarrow> tel_inv c'"
  by (induction rule: tel_step.induct)
    (simp_all add: tel_Start_inv tel_Stop_inv backgroundHeartbeat_inv backgroundFlush_inv Gauge_def tel_Count_def update_metric_inv)

lemma tel_reach_inv: "(tel_step os g ver)\<^sup>*\<^sup>* c c' \<Longrightarrow> tel_inv c \<Longrightarrow> tel_inv c'"
  by (induction rule: rtranclp_induct) (auto intro: tel_step_inv)

text \<open>A client as the user makes it.\<close>

definition fresh_client :: "tclient \<Rightarrow> bool" where
  "fresh_client c \<longleftrightarrow> \<not> tc_started c \<and> tc_seqID c = 0 \<and> tc_requests c = [] \<and> \<not> tc_newMetrics c \<and> tc_submitted c = []"


definition sample_client :: tclient where
  "sample_client = \<lparr>tc_URL = ''http://a'', tc_APIKey = [], tc_SubmissionInterval = 0, tc_heartbeatInterval = 0, tc_Namespace = ''tracers'',
     tc_Service = ''svc'', tc_Env = [], tc_Version = [], tc_Disabled = False, tc_debug = False, tc_started = False, tc_seqID = 0,
     tc_flushT = False, tc_heartbeatT = False, tc_requests = [], tc_metrics = [], tc_newMetrics = False, tc_submitted = []\<rparr>"

definition empty_process :: process where
  "empty_process = \<lparr>os_LookupEnv = (\<lambda>_. None), os_Hostname = None, os_Args0 = ''app'', os_exists = (\<lambda>_. False), os_Getpid = 1,
     runtime_Version = ''go1.19'', runtime_Platform = [], proc_ContainerID = []\<rparr>"

definition empty_globals :: globals where
  "empty_globals = \<lparr>gl_analyticsRate = NaN, gl_serviceName = [], gl_runtimeID = ''id'', gl_logger = None, gl_levelDebug = False\<rparr>"


subsection \<open>Where the code misses its purpose\<close>

text \<open>
  The metrics of the last flush get a higher sequence number than app-closing, which is sent behind
  them: ordered by these numbers, the backend sees metrics of a closed session.
\<close>

lemma stop_sequence_reversed:
  assumes "tc_started c" "tc_newMetrics c" "tc_requests c = []" "0 \<le> tc_seqID c" "tc_seqID c + 2 < 2 ^ 63"
  shows "map (\<lambda>r. (tq_RequestType r, tq_SeqID r)) (last (tc_submitted (tel_Stop g ver now c)))
    = [(RequestTypeGenerateMetrics, tc_seqID c + 2), (RequestTypeAppClosing, tc_seqID c + 1)]"
  using assms wrap_next[of "tc_seqID c"] wrap_next[of "tc_seqID c + 1"]
  by (simp add: tel_Stop_def newRequest_def scheduleSubmit_def tel_flush_def Let_def)

text \<open>Metrics that were sent are kept and sent again, a count with the sum of all its values.\<close>

lemma flush_keeps_metrics: "tc_metrics (tel_flush g ver now c) = tc_metrics c"
  by (simp add: tel_flush_def newRequest_def Let_def split: prod.split)

text \<open>Different metrics can have one key.\<close>

lemma metricKey_collides: "metricKey ''ab'' [] = metricKey ''a'' [''b'']"
  by (simp add: metricKey_def)

end
