(* ===== verification/Remote_Config.thy ===== *)
theory Remote_Config
  imports Transport
begin

section \<open>internal/remoteconfig: the remote configuration client\<close>

text \<open>
  The client polls the agent: it sends the state of its repository, decodes the answer, updates the
  repository and calls the callbacks of the products that changed.  The repository is a package of
  datadog-agent: its operations are the record \<open>rc_repository\<close> over a state of any type.  A callback is a
  number; \<open>cl_calls\<close> is the history of calls.  JSON encoder and decoder are arguments.
\<close>

unbundle bit_operations_syntax

subsection \<open>Data (types.go)\<close>

record rc_file =
  fi_Path :: string
  fi_Raw :: "byte list"

record clientGetConfigsResponse =
  cr_Roots :: "byte list list"
  cr_Targets :: "byte list"
  cr_TargetFiles :: "rc_file list"
  cr_ClientConfigs :: "string list"

record configState =
  cs_ID :: string
  cs_Version :: u64
  cs_Product :: string

record targetFileHash =
  th_Algorithm :: string
  th_Hash :: string

record targetFileMeta =
  tf_Path :: string
  tf_Length :: int
  tf_Hashes :: "targetFileHash list"

record clientState =
  ct_RootVersion :: u64
  ct_TargetsVersion :: u64
  ct_ConfigStates :: "configState list"
  ct_HasError :: bool
  ct_Error :: string

record clientTracer =
  cn_RuntimeID :: string
  cn_Language :: string
  cn_TracerVersion :: string
  cn_Service :: string
  cn_Env :: string
  cn_AppVersion :: string

record clientData =
  cd_State :: clientState
  cd_ID :: string
  cd_Products :: "string list"
  cd_IsTracer :: bool
  cd_ClientTracer :: clientTracer
  cd_Capabilities :: "byte list"

record clientGetConfigsRequest =
  gr_Client :: clientData
  gr_CachedTargetFiles :: "targetFileMeta list"

subsection \<open>The repository of datadog-agent\<close>

record cached_file =
  cf_Path :: string
  cf_Length :: nat
  cf_Hashes :: "(string \<times> byte list) list"

record repository_state =
  rs_Configs :: "configState list"
  rs_CachedFiles :: "cached_file list"
  rs_TargetsVersion :: int
  rs_RootsVersion :: int

record rc_update =
  ru_TUFRoots :: "byte list list"
  ru_TUFTargets :: "byte list"
  ru_TargetFiles :: "(string \<times> byte list) list"
  ru_ClientConfigs :: "string list"

record 'r rc_repository =
  rr_Update :: "rc_update \<Rightarrow> 'r \<Rightarrow> string list \<times> string option \<times> 'r"
  rr_CurrentState :: "'r \<Rightarrow> string + repository_state"

subsection \<open>The client (remoteconfig.go)\<close>

type_synonym ProductUpdate = "(string \<times> byte list) list"

record rc_config =
  rg_AgentAddr :: string
  rg_AppVersion :: string
  rg_Env :: string
  rg_PollInterval :: int
  rg_Products :: "string list"
  rg_RuntimeID :: string
  rg_ServiceName :: string
  rg_TracerVersion :: string
  rg_TUFRoot :: string
  rg_Capabilities :: "nat list"
  rg_HTTP :: "httpClient option"

record 'r rc_client =
  cl_config :: rc_config
  cl_clientID :: string
  cl_endpoint :: string
  cl_repository :: 'r
  cl_stopped :: bool
  cl_callbacks :: "(string \<times> nat list) list"
  cl_lastError :: "string option"
  cl_calls :: "(nat \<times> ProductUpdate) list"

definition DefaultClientConfig :: "process \<Rightarrow> globals \<Rightarrow> string \<Rightarrow> rc_config" where
  "DefaultClientConfig os g versionTag =
    \<lparr>rg_AgentAddr = [], rg_AppVersion = [], rg_Env = Getenv os ''DD_ENV'', rg_PollInterval = 1000000000, rg_Products = [],
     rg_RuntimeID = gl_runtimeID g, rg_ServiceName = gl_serviceName g, rg_TracerVersion = versionTag,
     rg_TUFRoot = Getenv os ''DD_RC_TUF_ROOT'', rg_Capabilities = [], rg_HTTP = Some defaultClient\<rparr>"

definition idAlphabet :: string where
  "idAlphabet = ''_-0123456789abcdefghijklmnopqrstuvwxyzABCDEFGHIJKLMNOPQRSTUVWXYZ''"

text \<open>\<open>random\<close> are the 21 bytes of the random source.\<close>

definition generateID :: "byte list \<Rightarrow> string" where
  "generateID random = map (\<lambda>b. idAlphabet ! unat (b AND 63)) random"

definition rc_NewClient :: "(byte list \<Rightarrow> 'r option) \<Rightarrow> (string \<Rightarrow> byte list) \<Rightarrow> byte list \<Rightarrow> rc_config \<Rightarrow> 'r rc_client option" where
  "rc_NewClient newRepository bytes random cfg =
    (case newRepository (bytes (rg_TUFRoot cfg)) of
       None \<Rightarrow> None
     | Some repo \<Rightarrow> Some \<lparr>cl_config = cfg\<lparr>rg_HTTP := Some (case rg_HTTP cfg of None \<Rightarrow> defaultClient | Some h \<Rightarrow> h)\<rparr>,
         cl_clientID = generateID random, cl_endpoint = ''http://'' @ rg_AgentAddr cfg @ ''/v0.7/config'', cl_repository = repo,
         cl_stopped = False, cl_callbacks = [], cl_lastError = None, cl_calls = []\<rparr>)"

definition RegisterCallback :: "nat \<Rightarrow> string \<Rightarrow> 'r rc_client \<Rightarrow> 'r rc_client" where
  "RegisterCallback f product c = c\<lparr>cl_callbacks :=
     AList.update product ((case map_of (cl_callbacks c) product of None \<Rightarrow> [] | Some fs \<Rightarrow> fs) @ [f]) (cl_callbacks c)\<rparr>"

text \<open>\<open>Stop\<close> closes a channel: a second call panics (\<open>None\<close>).\<close>

definition rc_Stop :: "'r rc_client \<Rightarrow> 'r rc_client option" where
  "rc_Stop c = (if cl_stopped c then None else Some (c\<lparr>cl_stopped := True\<rparr>))"

definition contains :: "string \<Rightarrow> string \<Rightarrow> bool" where
  "contains s sub = list_ex (\<lambda>i. prefix sub (drop i s)) [0..<Suc (length s)]"

definition file_products :: "string list \<Rightarrow> rc_file \<Rightarrow> (string \<times> ProductUpdate) list \<Rightarrow> (string \<times> ProductUpdate) list" where
  "file_products products f ups = fold (\<lambda>p ups.
     AList.update p (if contains (fi_Path f) p then [(fi_Path f, fi_Raw f)] else []) ups) products ups"

definition product_updates :: "string list \<Rightarrow> rc_file list \<Rightarrow> (string \<times> ProductUpdate) list" where
  "product_updates products files = fold (file_products products) files []"

definition run_callbacks :: "(string \<times> ProductUpdate) list \<Rightarrow> string list \<Rightarrow> 'r rc_client \<Rightarrow> 'r rc_client" where
  "run_callbacks ups products c = c\<lparr>cl_calls := cl_calls c @ concat (map (\<lambda>p.
     map (\<lambda>f. (f, case map_of ups p of None \<Rightarrow> [] | Some u \<Rightarrow> u)) (case map_of (cl_callbacks c) p of None \<Rightarrow> [] | Some fs \<Rightarrow> fs)) products)\<rparr>"

definition applyUpdate :: "'r rc_repository \<Rightarrow> clientGetConfigsResponse \<Rightarrow> 'r rc_client \<Rightarrow> string option \<times> 'r rc_client" where
  "applyUpdate rr u c =
    (let fileMap = fold (\<lambda>f m. AList.update (fi_Path f) (fi_Raw f) m) (cr_TargetFiles u) [];
         ups = product_updates (rg_Products (cl_config c)) (cr_TargetFiles u);
         update = \<lparr>ru_TUFRoots = cr_Roots u, ru_TUFTargets = cr_Targets u, ru_TargetFiles = fileMap, ru_ClientConfigs = cr_ClientConfigs u\<rparr>
     in case rr_Update rr update (cl_repository c) of
       (products, err, repo) \<Rightarrow> (err, run_callbacks ups products (c\<lparr>cl_repository := repo\<rparr>)))"

text \<open>A capability is a bit of a big integer, whose bytes are sent with the highest one first.\<close>

definition capability_bits :: "nat list \<Rightarrow> int" where
  "capability_bits caps = fold (\<lambda>i cap. set_bit i cap) caps 0"

function int_bytes :: "int \<Rightarrow> byte list" where
  "int_bytes n = (if n \<le> 0 then [] else int_bytes (n div 256) @ [word_of_int (n mod 256)])"
  by pat_completeness auto
termination
  by (relation "measure nat") auto

declare int_bytes.simps [simp del]

definition hex_byte :: "byte \<Rightarrow> string" where
  "hex_byte b = [digit_char (uint b div 16), digit_char (uint b mod 16)]"

definition EncodeToString :: "byte list \<Rightarrow> string" where
  "EncodeToString bs = concat (map hex_byte bs)"

definition file_meta :: "cached_file \<Rightarrow> targetFileMeta" where
  "file_meta f = \<lparr>tf_Path = cf_Path f, tf_Length = int (cf_Length f),
     tf_Hashes = map (\<lambda>(alg, hash). \<lparr>th_Algorithm = alg, th_Hash = EncodeToString hash\<rparr>) (cf_Hashes f)\<rparr>"

definition newUpdateRequest :: "'r rc_repository \<Rightarrow> 'r rc_client \<Rightarrow> string + clientGetConfigsRequest" where
  "newUpdateRequest rr c =
    (case rr_CurrentState rr (cl_repository c) of
       Inl e \<Rightarrow> Inl e
     | Inr st \<Rightarrow>
         let cfg = cl_config c
         in Inr \<lparr>gr_Client = \<lparr>cd_State = \<lparr>ct_RootVersion = word_of_int (rs_RootsVersion st),
                   ct_TargetsVersion = word_of_int (rs_TargetsVersion st), ct_ConfigStates = rs_Configs st,
                   ct_HasError = (cl_lastError c \<noteq> None), ct_Error = (case cl_lastError c of None \<Rightarrow> [] | Some e \<Rightarrow> e)\<rparr>,
                 cd_ID = cl_clientID c, cd_Products = rg_Products cfg, cd_IsTracer = True,
                 cd_ClientTracer = \<lparr>cn_RuntimeID = rg_RuntimeID cfg, cn_Language = ''go'', cn_TracerVersion = rg_TracerVersion cfg,
                   cn_Service = rg_ServiceName cfg, cn_Env = rg_Env cfg, cn_AppVersion = rg_AppVersion cfg\<rparr>,
                 cd_Capabilities = int_bytes (capability_bits (rg_Capabilities cfg))\<rparr>,
               gr_CachedTargetFiles = map file_meta (rs_CachedFiles st)\<rparr>)"

definition updateState ::
  "'r rc_repository \<Rightarrow> network \<Rightarrow> (clientGetConfigsRequest \<Rightarrow> byte list) \<Rightarrow> (string \<Rightarrow> string + clientGetConfigsResponse)
    \<Rightarrow> 'r rc_client \<Rightarrow> 'r rc_client" where
  "updateState rr nw encode decode c =
    (case newUpdateRequest rr c of
       Inl e \<Rightarrow> c\<lparr>cl_lastError := Some e\<rparr>
     | Inr data \<Rightarrow>
         if \<not> nw_url_ok nw (cl_endpoint c) then c\<lparr>cl_lastError := Some ''invalid URL''\<rparr>
         else case nw_Do nw (case rg_HTTP (cl_config c) of Some h \<Rightarrow> h | None \<Rightarrow> defaultClient)
             \<lparr>rq_url = cl_endpoint c, rq_headers = [], rq_body = encode data\<rparr> of
           DoError e \<Rightarrow> c\<lparr>cl_lastError := Some e\<rparr>
         | DoResponse _ body \<Rightarrow> (case decode body of
               Inl e \<Rightarrow> c\<lparr>cl_lastError := Some e\<rparr>
             | Inr update \<Rightarrow> (case applyUpdate rr update c of (err, c') \<Rightarrow> c'\<lparr>cl_lastError := err\<rparr>)))"

subsection \<open>Properties\<close>

text \<open>The alphabet has 64 letters, so that the index is always in range.\<close>

lemma generateID_chars: "set (generateID random) \<subseteq> set idAlphabet" "length (generateID random) = length random"
proof -
  have "length idAlphabet = 64" by (simp add: idAlphabet_def)
  moreover have "unat (b AND 63) < 64" for b :: byte
  proof -
    have "b AND 63 \<le> 63" by (rule word_and_le1)
    then show ?thesis by (simp add: word_le_nat_alt)
  qed
  ultimately show "set (generateID random) \<subseteq> set idAlphabet" by (auto simp: generateID_def)
  show "length (generateID random) = length random" by (simp add: generateID_def)
qed

lemma capability_bit: "bit (capability_bits caps) i \<longleftrightarrow> i \<in> set caps"
proof -
  have "bit (fold (\<lambda>i cap. set_bit i cap) caps a) i \<longleftrightarrow> i \<in> set caps \<or> bit a i" for a :: int
    by (induction caps arbitrary: a) (auto simp: bit_set_bit_iff)
  then show ?thesis by (simp add: capability_bits_def)
qed

lemma capability_nonneg: "0 \<le> capability_bits caps"
proof -
  have "0 \<le> a \<Longrightarrow> 0 \<le> fold (\<lambda>i cap. set_bit i cap) caps a" for a :: int
    by (induction caps arbitrary: a) auto
  then show ?thesis by (simp add: capability_bits_def)
qed

lemma int_bytes_value: "0 \<le> n \<Longrightarrow> foldl (\<lambda>acc b. acc * 256 + uint b) 0 (int_bytes n) = n"
proof (induction n rule: int_bytes.induct)
  case (1 n)
  show ?case
  proof (cases "n \<le> 0")
    case True
    then have "int_bytes n = []" by (simp add: int_bytes.simps[of n])
    then show ?thesis using "1.prems" True by simp
  next
    case False
    then have "foldl (\<lambda>acc b. acc * 256 + uint b) 0 (int_bytes (n div 256)) = n div 256" using 1 by simp
    then show ?thesis using False by (simp add: int_bytes.simps[of n] uint_word_of_int)
  qed
qed

text \<open>The capabilities can be read off the bytes that are sent.\<close>

lemma capabilities_roundtrip:
  "bit (foldl (\<lambda>acc b. acc * 256 + uint b) 0 (int_bytes (capability_bits caps))) i \<longleftrightarrow> i \<in> set caps"
  by (simp add: int_bytes_value[OF capability_nonneg] capability_bit)

text \<open>
  The update of a product is made anew for every file, so that a callback sees the last file at
  most: the files before it are lost.
\<close>

lemma file_products_get:
  "map_of (file_products products f ups) p =
    (if p \<in> set products then Some (if contains (fi_Path f) p then [(fi_Path f, fi_Raw f)] else []) else map_of ups p)"
  unfolding file_products_def by (induction products arbitrary: ups) (auto simp: update_conv')

lemma product_updates_last:
  assumes "p \<in> set products" "files \<noteq> []"
  shows "map_of (product_updates products files) p =
    Some (if contains (fi_Path (last files)) p then [(fi_Path (last files), fi_Raw (last files))] else [])"
proof -
  have "product_updates products files = file_products products (last files) (fold (file_products products) (butlast files) [])"
    using assms(2) by (cases files rule: rev_cases) (simp_all add: product_updates_def)
  then show ?thesis using assms(1) by (simp add: file_products_get)
qed

text \<open>An error of a poll is reported by the next request, and a poll that succeeds clears it.\<close>

lemma next_request_reports_error:
  assumes "newUpdateRequest rr c = Inr rq"
  shows "ct_HasError (cd_State (gr_Client rq)) = (cl_lastError c \<noteq> None)"
    "cl_lastError c = Some e \<Longrightarrow> ct_Error (cd_State (gr_Client rq)) = e"
  using assms by (auto simp: newUpdateRequest_def Let_def split: sum.splits)

end
