(* ===== verification/Mock_Tracer.thy ===== *)
theory Mock_Tracer
  imports Text_Map Tracer_Core
begin

section \<open>ddtrace/mocktracer: the tracer for tests\<close>

text \<open>
  The mock tracer keeps its spans in memory so that a test can look at them.  A span is a pointer into the
  store \<open>mocktracer\<close>; its context belongs to it alone and is a part of it.  The parent of a new span is
  given as the value of its context at that moment; a context that was extracted has no span.
\<close>

record mockctx =
  mc_baggage :: "(string, string) gomap"
  mc_priority :: int
  mc_hasPriority :: bool
  mc_spanID :: u64
  mc_traceID :: u64
  mc_span :: "nat option"

record mockspan =
  ms_name :: string
  ms_tags :: "(string, goval) gomap"
  ms_finishTime :: "int option"
  ms_finished :: bool
  ms_startTime :: int
  ms_parentID :: u64
  ms_context :: mockctx

record mocktracer =
  mt_span :: "nat \<Rightarrow> mockspan"
  mt_next :: nat
  mt_finishedSpans :: "nat list"
  mt_openSpans :: "(u64 \<times> nat) list"
  mt_idSource :: u64

definition upd_mock :: "nat \<Rightarrow> (mockspan \<Rightarrow> mockspan) \<Rightarrow> mocktracer \<Rightarrow> mocktracer" where
  "upd_mock p f t = t\<lparr>mt_span := (mt_span t)(p := f (mt_span t p))\<rparr>"

subsection \<open>Contexts (mockspancontext.go)\<close>

definition mc_setBaggageItem :: "string \<Rightarrow> string \<Rightarrow> mockctx \<Rightarrow> mockctx" where
  "mc_setBaggageItem k v c = c\<lparr>mc_baggage := m_put k v (mc_baggage c)\<rparr>"

definition mc_baggageItem :: "string \<Rightarrow> mockctx \<Rightarrow> string" where
  "mc_baggageItem k c = m_str (mc_baggage c) k"

definition mc_setSamplingPriority :: "int \<Rightarrow> mockctx \<Rightarrow> mockctx" where
  "mc_setSamplingPriority p c = c\<lparr>mc_priority := p, mc_hasPriority := True\<rparr>"

definition mock_nextID :: "mocktracer \<Rightarrow> u64 \<times> mocktracer" where
  "mock_nextID t = (mt_idSource t + 1, t\<lparr>mt_idSource := mt_idSource t + 1\<rparr>)"

subsection \<open>Spans (mockspan.go)\<close>

definition mock_SetTag :: "nat \<Rightarrow> string \<Rightarrow> goval \<Rightarrow> mocktracer \<Rightarrow> mocktracer" where
  "mock_SetTag p key v t =
    (if ms_finished (mt_span t p) then t
     else upd_mock p (\<lambda>s. s\<lparr>ms_context := (if key = ext_SamplingPriority then
             (case v of VInt i \<Rightarrow> mc_setSamplingPriority i (ms_context s)
              | VFloat64 f \<Rightarrow> mc_setSamplingPriority (f64_to_int f) (ms_context s)
              | _ \<Rightarrow> ms_context s) else ms_context s),
           ms_tags := m_put key v (ms_tags s)\<rparr>) t)"

definition mock_Tag :: "nat \<Rightarrow> string \<Rightarrow> mocktracer \<Rightarrow> goval" where
  "mock_Tag p k t = (case m_get (ms_tags (mt_span t p)) k of None \<Rightarrow> VNil | Some v \<Rightarrow> v)"

record mockConfig =
  mk_Parent :: "mockctx option"
  mk_StartTime :: "int option"
  mk_SpanID :: u64
  mk_Tags :: "(string, goval) gomap"

definition resource_tag :: "string \<Rightarrow> (string, goval) gomap \<Rightarrow> (string, goval) gomap" where
  "resource_tag operationName tags =
    (let tags = Some (m_items tags)
     in if m_get tags ext_ResourceName = None \<or> m_get tags ext_ResourceName = Some VNil
        then m_put ext_ResourceName (VString operationName) tags else tags)"

definition inherit_parent :: "nat \<Rightarrow> mockctx \<Rightarrow> mocktracer \<Rightarrow> mocktracer" where
  "inherit_parent p ctx t =
    (let t = (case mc_span ctx of
           Some q \<Rightarrow> if mock_Tag p ext_ServiceName t = VNil then mock_SetTag p ext_ServiceName (mock_Tag q ext_ServiceName t) t else t
         | None \<Rightarrow> t);
         t = (if mc_hasPriority ctx then mock_SetTag p ext_SamplingPriority (VInt (mc_priority ctx)) t else t)
     in upd_mock p (\<lambda>s. s\<lparr>ms_parentID := mc_spanID ctx,
          ms_context := (ms_context s)\<lparr>mc_priority := mc_priority ctx, mc_hasPriority := mc_hasPriority ctx,
            mc_traceID := mc_traceID ctx, mc_baggage := Some (m_items (mc_baggage ctx))\<rparr>\<rparr>) t)"

definition mock_newSpan :: "string \<Rightarrow> int \<Rightarrow> mockConfig \<Rightarrow> mocktracer \<Rightarrow> nat \<times> mocktracer" where
  "mock_newSpan operationName now cfg t =
    (let tags = resource_tag operationName (mk_Tags cfg);
         (sid, t) = (if mk_SpanID cfg = 0 then mock_nextID t else (mk_SpanID cfg, t));
         p = mt_next t;
         s = \<lparr>ms_name = operationName, ms_tags = None, ms_finishTime = None, ms_finished = False,
              ms_startTime = (case mk_StartTime cfg of None \<Rightarrow> now | Some st \<Rightarrow> st), ms_parentID = 0,
              ms_context = \<lparr>mc_baggage = None, mc_priority = 0, mc_hasPriority = False, mc_spanID = sid, mc_traceID = sid, mc_span = Some p\<rparr>\<rparr>;
         t = t\<lparr>mt_span := (mt_span t)(p := s), mt_next := Suc p\<rparr>;
         t = (case mk_Parent cfg of None \<Rightarrow> t | Some ctx \<Rightarrow> inherit_parent p ctx t)
     in (p, fold (\<lambda>(k, v). mock_SetTag p k v) (m_items tags) t))"

definition mock_SetOperationName :: "nat \<Rightarrow> string \<Rightarrow> mocktracer \<Rightarrow> mocktracer" where
  "mock_SetOperationName p operationName = upd_mock p (\<lambda>s. s\<lparr>ms_name := operationName\<rparr>)"

definition mock_SetBaggageItem :: "nat \<Rightarrow> string \<Rightarrow> string \<Rightarrow> mocktracer \<Rightarrow> mocktracer" where
  "mock_SetBaggageItem p k v = upd_mock p (\<lambda>s. s\<lparr>ms_context := mc_setBaggageItem k v (ms_context s)\<rparr>)"

definition addFinishedSpan :: "nat \<Rightarrow> mocktracer \<Rightarrow> mocktracer" where
  "addFinishedSpan p t = t\<lparr>mt_openSpans := AList.delete (mc_spanID (ms_context (mt_span t p))) (mt_openSpans t),
     mt_finishedSpans := mt_finishedSpans t @ [p]\<rparr>"

definition mock_Finish :: "nat \<Rightarrow> int \<Rightarrow> (FinishConfig \<Rightarrow> FinishConfig) list \<Rightarrow> mocktracer \<Rightarrow> mocktracer" where
  "mock_Finish p now opts t =
    (let cfg = fold (\<lambda>fn c. fn c) opts
           \<lparr>fc_FinishTime = None, fc_Error = None, fc_NoDebugStack = False, fc_StackFrames = 0, fc_SkipStackFrames = 0\<rparr>;
         ft = (case fc_FinishTime cfg of None \<Rightarrow> now | Some x \<Rightarrow> x);
         t = (case fc_Error cfg of None \<Rightarrow> t | Some e \<Rightarrow> mock_SetTag p ext_Error (VErr e) t);
         t = (if fc_NoDebugStack cfg then mock_SetTag p ext_ErrorStack (VString ''<debug stack disabled>'') t else t)
     in if ms_finished (mt_span t p) then t
        else addFinishedSpan p (upd_mock p (\<lambda>s. s\<lparr>ms_finished := True, ms_finishTime := Some ft\<rparr>) t))"

text \<open>The walk up to the root among the open spans, with fuel: \<open>None\<close> when it is not over.\<close>

fun mock_root :: "nat \<Rightarrow> mocktracer \<Rightarrow> nat \<Rightarrow> nat option" where
  "mock_root 0 t p = None"
| "mock_root (Suc n) t p =
    (if ms_parentID (mt_span t p) = 0 then Some p
     else case map_of (mt_openSpans t) (ms_parentID (mt_span t p)) of
       None \<Rightarrow> Some p
     | Some q \<Rightarrow> mock_root n t q)"

definition mock_SetUser :: "nat \<Rightarrow> nat \<Rightarrow> string \<Rightarrow> (UserMonitoringConfig \<Rightarrow> UserMonitoringConfig) list \<Rightarrow> mocktracer \<Rightarrow> mocktracer option" where
  "mock_SetUser fuel p uid opts t =
    (case mock_root fuel t p of
       None \<Rightarrow> None
     | Some r \<Rightarrow>
         let cfg = fold (\<lambda>fn c. fn c) opts
               \<lparr>u_PropagateID = False, u_Email = [], u_Name = [], u_Scope = [], u_Role = [], u_SessionID = []\<rparr>
         in Some (fold (\<lambda>(k, v). mock_SetTag r k (VString v))
              [(''usr.id'', uid), (''usr.email'', u_Email cfg), (''usr.name'', u_Name cfg), (''usr.role'', u_Role cfg),
               (''usr.scope'', u_Scope cfg), (''usr.session_id'', u_SessionID cfg)] t))"

subsection \<open>The tracer (mocktracer.go)\<close>

definition newMockTracer :: mocktracer where
  "newMockTracer = \<lparr>mt_span = (\<lambda>_. \<lparr>ms_name = [], ms_tags = None, ms_finishTime = None, ms_finished = False, ms_startTime = 0, ms_parentID = 0,
      ms_context = \<lparr>mc_baggage = None, mc_priority = 0, mc_hasPriority = False, mc_spanID = 0, mc_traceID = 0, mc_span = None\<rparr>\<rparr>),
     mt_next = 0, mt_finishedSpans = [], mt_openSpans = [], mt_idSource = 123\<rparr>"

definition mock_StartSpan :: "string \<Rightarrow> int \<Rightarrow> mockConfig \<Rightarrow> mocktracer \<Rightarrow> nat \<times> mocktracer" where
  "mock_StartSpan operationName now cfg t =
    (case mock_newSpan operationName now cfg t of (p, t') \<Rightarrow>
       (p, t'\<lparr>mt_openSpans := AList.update (mc_spanID (ms_context (mt_span t' p))) p (mt_openSpans t')\<rparr>))"

definition OpenSpans :: "mocktracer \<Rightarrow> nat list" where
  "OpenSpans t = map snd (mt_openSpans t)"

definition FinishedSpans :: "mocktracer \<Rightarrow> nat list" where
  "FinishedSpans t = mt_finishedSpans t"

definition mock_Reset :: "mocktracer \<Rightarrow> mocktracer" where
  "mock_Reset t = t\<lparr>mt_openSpans := [], mt_finishedSpans := []\<rparr>"

definition mock_extract_key :: "string \<Rightarrow> string \<Rightarrow> mockctx \<Rightarrow> propagation_error + mockctx" where
  "mock_extract_key key v sc =
    (let k = to_lower key
     in if k = DefaultTraceIDHeader then
          (case parse_uint 10 v of None \<Rightarrow> Inl ErrSpanContextCorrupted | Some n \<Rightarrow> Inr (sc\<lparr>mc_traceID := n\<rparr>))
        else if k = DefaultParentIDHeader then
          (case parse_uint 10 v of None \<Rightarrow> Inl ErrSpanContextCorrupted | Some n \<Rightarrow> Inr (sc\<lparr>mc_spanID := n\<rparr>))
        else if k = DefaultPriorityHeader then
          (case parse_int v of None \<Rightarrow> Inl ErrSpanContextCorrupted | Some i \<Rightarrow> Inr (mc_setSamplingPriority i sc))
        else if prefix DefaultBaggageHeaderPrefix k then Inr (mc_setBaggageItem (trim_prefix DefaultBaggageHeaderPrefix k) v sc)
        else Inr sc)"

definition mock_Extract :: "(string \<times> string) list option \<Rightarrow> propagation_error + mockctx" where
  "mock_Extract carrier =
    (case carrier of
       None \<Rightarrow> Inl ErrInvalidCarrier
     | Some es \<Rightarrow>
         (case ForeachKey mock_extract_key es
              \<lparr>mc_baggage = None, mc_priority = 0, mc_hasPriority = False, mc_spanID = 0, mc_traceID = 0, mc_span = None\<rparr> of
            Inl err \<Rightarrow> Inl err
          | Inr sc \<Rightarrow> if mc_traceID sc = 0 \<or> mc_spanID sc = 0 then Inl ErrSpanContextNotFound else Inr sc))"

definition mock_headers :: "mockctx \<Rightarrow> (string \<times> string) list" where
  "mock_headers c =
    [(DefaultTraceIDHeader, format_uint (mc_traceID c) 10), (DefaultParentIDHeader, format_uint (mc_spanID c) 10)]
    @ (if mc_hasPriority c then [(DefaultPriorityHeader, itoa (mc_priority c))] else [])
    @ map (\<lambda>(k, v). (DefaultBaggageHeaderPrefix @ k, v)) (m_items (mc_baggage c))"

text \<open>The context is \<open>None\<close> when it is not one of this package, the writer when the carrier is none.\<close>

definition mock_Inject :: "mockctx option \<Rightarrow> (string \<Rightarrow> string \<Rightarrow> 'c \<Rightarrow> 'c) option \<Rightarrow> 'c \<Rightarrow> propagation_error option \<times> 'c" where
  "mock_Inject ctx writer w =
    (case writer of
       None \<Rightarrow> (Some ErrInvalidCarrier, w)
     | Some setf \<Rightarrow>
         (case ctx of
            None \<Rightarrow> (Some ErrInvalidSpanContext, w)
          | Some c \<Rightarrow> if mc_traceID c = 0 \<or> mc_spanID c = 0 then (Some ErrInvalidSpanContext, w)
              else (None, write_all setf (mock_headers c) w)))"

subsection \<open>Every finished span is recorded once\<close>

inductive mock_step :: "mocktracer \<Rightarrow> mocktracer \<Rightarrow> bool" where
  start: "mock_step t (snd (mock_StartSpan name now cfg t))"
| tag: "p < mt_next t \<Longrightarrow> mock_step t (mock_SetTag p k v t)"
| name: "p < mt_next t \<Longrightarrow> mock_step t (mock_SetOperationName p nm t)"
| baggage: "p < mt_next t \<Longrightarrow> mock_step t (mock_SetBaggageItem p k v t)"
| finish: "p < mt_next t \<Longrightarrow> mock_step t (mock_Finish p now opts t)"
| reset: "mock_step t (mock_Reset t)"

definition mock_inv :: "mocktracer \<Rightarrow> bool" where
  "mock_inv t \<longleftrightarrow> distinct (mt_finishedSpans t) \<and> (\<forall>p\<in>set (mt_finishedSpans t). p < mt_next t \<and> ms_finished (mt_span t p))
     \<and> (\<forall>e\<in>set (mt_openSpans t). snd e < mt_next t)"

text \<open>What the operations on tags keep.\<close>

definition mock_frame :: "mocktracer \<Rightarrow> mocktracer \<Rightarrow> bool" where
  "mock_frame t t' \<longleftrightarrow> mt_finishedSpans t' = mt_finishedSpans t \<and> mt_openSpans t' = mt_openSpans t \<and> mt_next t' = mt_next t
     \<and> (\<forall>p. ms_finished (mt_span t' p) = ms_finished (mt_span t p))"

lemma mock_frame_trans: "mock_frame a b \<Longrightarrow> mock_frame b c \<Longrightarrow> mock_frame a c"
  by (simp add: mock_frame_def)

lemma mock_frame_upd: "(\<And>s. ms_finished (f s) = ms_finished s) \<Longrightarrow> mock_frame t (upd_mock p f t)"
  by (simp add: mock_frame_def upd_mock_def)

lemma mock_frame_refl [simp]: "mock_frame t t"
  by (simp add: mock_frame_def)

lemma mock_SetTag_frame: "mock_frame t (mock_SetTag p k v t)"
  by (simp add: mock_SetTag_def mock_frame_upd)

lemma fold_SetTag_frame: "mock_frame t (fold (\<lambda>(k, v). mock_SetTag p k v) kvs t)"
proof (induction kvs arbitrary: t)
  case (Cons a kvs)
  show ?case using mock_frame_trans[OF mock_SetTag_frame Cons] by (simp add: case_prod_beta)
qed simp

lemma inherit_parent_frame: "mock_frame t (inherit_parent p ctx t)"
proof -
  define t1 where "t1 = (case mc_span ctx of Some q \<Rightarrow> if mock_Tag p ext_ServiceName t = VNil
      then mock_SetTag p ext_ServiceName (mock_Tag q ext_ServiceName t) t else t | None \<Rightarrow> t)"
  define t2 where "t2 = (if mc_hasPriority ctx then mock_SetTag p ext_SamplingPriority (VInt (mc_priority ctx)) t1 else t1)"
  have 1: "mock_frame t t1" by (auto simp: t1_def mock_SetTag_frame split: option.split)
  have 2: "mock_frame t1 t2" by (auto simp: t2_def mock_SetTag_frame)
  have "inherit_parent p ctx t = upd_mock p (\<lambda>s. s\<lparr>ms_parentID := mc_spanID ctx,
      ms_context := (ms_context s)\<lparr>mc_priority := mc_priority ctx, mc_hasPriority := mc_hasPriority ctx,
        mc_traceID := mc_traceID ctx, mc_baggage := Some (m_items (mc_baggage ctx))\<rparr>\<rparr>) t2"
    unfolding inherit_parent_def Let_def t1_def[symmetric] t2_def[symmetric] ..
  moreover have "mock_frame t2 (upd_mock p (\<lambda>s. s\<lparr>ms_parentID := mc_spanID ctx,
      ms_context := (ms_context s)\<lparr>mc_priority := mc_priority ctx, mc_hasPriority := mc_hasPriority ctx,
        mc_traceID := mc_traceID ctx, mc_baggage := Some (m_items (mc_baggage ctx))\<rparr>\<rparr>) t2)"
    by (rule mock_frame_upd) simp
  ultimately show ?thesis using mock_frame_trans[OF mock_frame_trans[OF 1 2]] by metis
qed

lemma mock_frame_inv: "mock_frame t t' \<Longrightarrow> mock_inv t \<Longrightarrow> mock_inv t'"
  by (simp add: mock_frame_def mock_inv_def)

lemma mock_newSpan_alloc:
  assumes "mock_newSpan name now cfg t = (p, t')"
  shows "\<exists>s ids. p = mt_next t \<and> \<not> ms_finished s
    \<and> mock_frame (t\<lparr>mt_idSource := ids, mt_span := (mt_span t)(p := s), mt_next := Suc p\<rparr>) t'"
proof -
  obtain sid ids where i: "(if mk_SpanID cfg = 0 then mock_nextID t else (mk_SpanID cfg, t)) = (sid, t\<lparr>mt_idSource := ids\<rparr>)"
  proof (cases "mk_SpanID cfg = 0")
    case False
    then have "(if mk_SpanID cfg = 0 then mock_nextID t else (mk_SpanID cfg, t)) = (mk_SpanID cfg, t\<lparr>mt_idSource := mt_idSource t\<rparr>)" by simp
    then show ?thesis by (rule that)
  qed (auto simp: mock_nextID_def intro: that)
  have sel: "mt_next (t\<lparr>mt_idSource := ids\<rparr>) = mt_next t" "mt_span (t\<lparr>mt_idSource := ids\<rparr>) = mt_span t" by simp_all
  define s where "s = \<lparr>ms_name = name, ms_tags = None, ms_finishTime = None, ms_finished = False,
      ms_startTime = (case mk_StartTime cfg of None \<Rightarrow> now | Some st \<Rightarrow> st), ms_parentID = 0,
      ms_context = \<lparr>mc_baggage = None, mc_priority = 0, mc_hasPriority = False, mc_spanID = sid, mc_traceID = sid, mc_span = Some (mt_next t)\<rparr>\<rparr>"
  define t1 where "t1 = t\<lparr>mt_idSource := ids, mt_span := (mt_span t)(mt_next t := s), mt_next := Suc (mt_next t)\<rparr>"
  define t2 where "t2 = (case mk_Parent cfg of None \<Rightarrow> t1 | Some ctx \<Rightarrow> inherit_parent (mt_next t) ctx t1)"
  have "t' = fold (\<lambda>(k, v). mock_SetTag (mt_next t) k v) (m_items (resource_tag name (mk_Tags cfg))) t2" and p: "p = mt_next t"
    using assms unfolding mock_newSpan_def i Let_def prod.case sel t2_def t1_def s_def by auto
  moreover have "mock_frame t1 t2" by (auto simp: t2_def inherit_parent_frame split: option.split)
  ultimately have "mock_frame t1 t'" using mock_frame_trans fold_SetTag_frame by metis
  moreover have "\<not> ms_finished s" by (simp add: s_def)
  ultimately show ?thesis unfolding t1_def p by blast
qed

lemma mock_StartSpan_inv:
  assumes "mock_inv t"
  shows "mock_inv (snd (mock_StartSpan name now cfg t))"
proof -
  obtain p t' where n: "mock_newSpan name now cfg t = (p, t')" by fastforce
  from mock_newSpan_alloc[OF n] obtain s ids where a: "p = mt_next t" "\<not> ms_finished s"
    "mock_frame (t\<lparr>mt_idSource := ids, mt_span := (mt_span t)(p := s), mt_next := Suc p\<rparr>) t'" by blast
  have "mock_inv (t\<lparr>mt_idSource := ids, mt_span := (mt_span t)(p := s), mt_next := Suc p\<rparr>)"
    using assms a(1) by (auto simp: mock_inv_def less_Suc_eq)
  then have "mock_inv t'" by (rule mock_frame_inv[OF a(3)])
  moreover have "p < mt_next t'" using a(3) by (simp add: mock_frame_def)
  ultimately show ?thesis using n by (auto simp: mock_StartSpan_def mock_inv_def dest!: in_set_update)
qed

lemma mock_Finish_inv:
  assumes "mock_inv t" "p < mt_next t"
  shows "mock_inv (mock_Finish p now opts t)"
proof -
  define cfg where "cfg = fold (\<lambda>fn c. fn c) opts
      \<lparr>fc_FinishTime = None, fc_Error = None, fc_NoDebugStack = False, fc_StackFrames = 0, fc_SkipStackFrames = 0\<rparr>"
  define t1 where "t1 = (case fc_Error cfg of None \<Rightarrow> t | Some e \<Rightarrow> mock_SetTag p ext_Error (VErr e) t)"
  define t2 where "t2 = (if fc_NoDebugStack cfg then mock_SetTag p ext_ErrorStack (VString ''<debug stack disabled>'') t1 else t1)"
  have "mock_frame t t1" by (auto simp: t1_def mock_SetTag_frame split: option.split)
  moreover have "mock_frame t1 t2" by (auto simp: t2_def mock_SetTag_frame)
  ultimately have f: "mock_frame t t2" by (rule mock_frame_trans)
  have eq: "mock_Finish p now opts t = (if ms_finished (mt_span t2 p) then t2 else addFinishedSpan p (upd_mock p (\<lambda>s. s\<lparr>ms_finished := True,
      ms_finishTime := Some (case fc_FinishTime cfg of None \<Rightarrow> now | Some x \<Rightarrow> x)\<rparr>) t2))"
    unfolding mock_Finish_def Let_def cfg_def[symmetric] t1_def[symmetric] t2_def[symmetric] ..
  have inv: "mock_inv t2" "p < mt_next t2" using mock_frame_inv[OF f assms(1)] assms(2) f by (simp_all add: mock_frame_def)
  then have "p \<notin> set (mt_finishedSpans t2)" if "\<not> ms_finished (mt_span t2 p)" using that by (auto simp: mock_inv_def)
  then show ?thesis unfolding eq using inv
    by (auto simp: mock_inv_def addFinishedSpan_def upd_mock_def AList.delete_eq)
qed

text \<open>
  Whatever a test does, a span is in the list of finished spans at most once, and only when it is
  finished.
\<close>

lemma mock_finished_once:
  assumes "mock_step\<^sup>*\<^sup>* newMockTracer t"
  shows "distinct (FinishedSpans t)" "p \<in> set (FinishedSpans t) \<Longrightarrow> ms_finished (mt_span t p)"
proof -
  have step: "mock_inv b" if "mock_step a b" "mock_inv a" for a b
    using that
  proof (induction rule: mock_step.induct)
    case (start t name now cfg)
    then show ?case by (intro mock_StartSpan_inv)
  next
    case (tag p t k v)
    then show ?case using mock_frame_inv mock_SetTag_frame by blast
  next
    case (name p t nm)
    then show ?case using mock_frame_inv[OF mock_frame_upd] by (simp add: mock_SetOperationName_def)
  next
    case (baggage p t k v)
    then show ?case using mock_frame_inv[OF mock_frame_upd] by (simp add: mock_SetBaggageItem_def)
  next
    case (finish p t now opts)
    then show ?case by (intro mock_Finish_inv)
  qed (simp add: mock_Reset_def mock_inv_def)
  have "mock_inv newMockTracer" by (simp add: newMockTracer_def mock_inv_def)
  with assms have "mock_inv t" by (induction rule: rtranclp_induct) (auto intro: step)
  then show "distinct (FinishedSpans t)" "p \<in> set (FinishedSpans t) \<Longrightarrow> ms_finished (mt_span t p)"
    by (auto simp: mock_inv_def FinishedSpans_def)
qed

text \<open>
  The walk of \<open>SetUser\<close> never ends for a span that was started with the id of its parent: the map of open spans
  has the span itself under that id.
\<close>

lemma mock_SetUser_diverges:
  assumes "ms_parentID (mt_span t p) \<noteq> 0" "map_of (mt_openSpans t) (ms_parentID (mt_span t p)) = Some p"
  shows "mock_SetUser fuel p uid opts t = None"
proof -
  have "mock_root n t p = None" for n by (induction n) (simp_all add: assms)
  then show ?thesis by (simp add: mock_SetUser_def)
qed

lemma mock_same_id_as_parent:
  "let t1 = snd (mock_StartSpan ''a'' 1 \<lparr>mk_Parent = None, mk_StartTime = None, mk_SpanID = 5, mk_Tags = None\<rparr> newMockTracer);
       t2 = snd (mock_StartSpan ''b'' 2 \<lparr>mk_Parent = Some (ms_context (mt_span t1 0)), mk_StartTime = None, mk_SpanID = 5, mk_Tags = None\<rparr> t1)
   in ms_parentID (mt_span t2 1) = 5 \<and> map_of (mt_openSpans t2) 5 = Some 1"
  by code_simp

end
