(* ===== verification/Http_Trace.thy ===== *)
theory Http_Trace
  imports Start_Options Config_Laws Transport
begin

section \<open>contrib/internal/httptrace: spans of HTTP requests\<close>

text \<open>
  What the web integrations share: the tags of a request (URL with a redacted query, client address), the
  parent from its headers and the tags of its response.  IP addresses are of a type of package netaddr: its
  functions are the record \<open>ip_lib\<close>, with the networks of \<^verbatim>\<open>ipv6SpecialNetworks\<close> as the list of their
  membership tests.  A regular expression is its replacement function.
\<close>

record 'ip ip_lib =
  ip_Parse :: "string \<Rightarrow> 'ip option"
  ip_String :: "'ip \<Rightarrow> string"
  ip_IsPrivate :: "'ip \<Rightarrow> bool"
  ip_IsLoopback :: "'ip \<Rightarrow> bool"
  ip_IsLinkLocalUnicast :: "'ip \<Rightarrow> bool"
  ip_Is6 :: "'ip \<Rightarrow> bool"
  ip_special :: "('ip \<Rightarrow> bool) list"

record http_request =
  hr_Method :: string
  hr_Host :: string
  hr_UserAgent :: string
  hr_Header :: HTTPHeadersCarrier
  hr_RemoteAddr :: string
  hr_TLS :: bool
  hr_EscapedPath :: string
  hr_RawQuery :: string
  hr_EscapedFragment :: string

subsection \<open>Configuration (config.go)\<close>

record http_config =
  hc_queryStringRegexp :: "(string \<Rightarrow> string) option"
  hc_clientIPHeader :: string
  hc_clientIP :: bool
  hc_queryString :: bool

text \<open>\<open>compile\<close> is \<open>regexp.Compile\<close>, with the replacement by \<^verbatim>\<open><redacted>\<close> as its result.\<close>

definition http_newConfig :: "process \<Rightarrow> (string \<Rightarrow> (string \<Rightarrow> string) option) \<Rightarrow> (string \<Rightarrow> string) \<Rightarrow> http_config" where
  "http_newConfig os compile defaultQueryStringRegexp =
    (let c = \<lparr>hc_queryStringRegexp = Some defaultQueryStringRegexp,
           hc_clientIPHeader = Getenv os ''DD_TRACE_CLIENT_IP_HEADER'',
           hc_clientIP = (\<not> BoolEnv os ''DD_TRACE_CLIENT_IP_HEADER_DISABLED'' False),
           hc_queryString = (\<not> BoolEnv os ''DD_TRACE_HTTP_URL_QUERY_STRING_DISABLED'' False)\<rparr>
     in case os_LookupEnv os ''DD_TRACE_OBFUSCATION_QUERY_STRING_REGEXP'' of
       None \<Rightarrow> c
     | Some s \<Rightarrow>
         if s = [] then c\<lparr>hc_queryStringRegexp := None\<rparr>
         else case compile s of Some r \<Rightarrow> c\<lparr>hc_queryStringRegexp := Some r\<rparr> | None \<Rightarrow> c)"

subsection \<open>Client addresses (httptrace.go)\<close>

definition defaultIPHeaders :: "string list" where
  "defaultIPHeaders = [''x-forwarded-for'', ''x-real-ip'', ''x-client-ip'', ''x-forwarded'', ''x-cluster-client-ip'',
     ''forwarded-for'', ''forwarded'', ''via'', ''true-client-ip'']"

abbreviation "ext_HTTPClientIP \<equiv> ''http.client_ip''"
abbreviation "ext_HTTPRequestHeaders \<equiv> ''http.request.headers''"
abbreviation "multipleIPHeaders \<equiv> ''_dd.multiple-ip-headers''"

definition Header_Get :: "HTTPHeadersCarrier \<Rightarrow> string \<Rightarrow> string" where
  "Header_Get hs k = (case map_of hs (canonical_key k) of Some (v # _) \<Rightarrow> v | _ \<Rightarrow> [])"

definition parseIP :: "'ip ip_lib \<Rightarrow> string \<Rightarrow> 'ip option" where
  "parseIP il s =
    (case ip_Parse il s of
       Some ip \<Rightarrow> Some ip
     | None \<Rightarrow> (case SplitHostPort s of Some (h, _) \<Rightarrow> ip_Parse il h | None \<Rightarrow> None))"

definition isGlobal :: "'ip ip_lib \<Rightarrow> 'ip \<Rightarrow> bool" where
  "isGlobal il ip =
    (let g = (\<not> ip_IsPrivate il ip \<and> \<not> ip_IsLoopback il ip \<and> \<not> ip_IsLinkLocalUnicast il ip)
     in if \<not> g \<or> \<not> ip_Is6 il ip then g else \<not> list_ex (\<lambda>n. n ip) (ip_special il))"

definition global_ip :: "'ip ip_lib \<Rightarrow> string \<Rightarrow> 'ip option" where
  "global_ip il s = (case parseIP il s of Some ip \<Rightarrow> if isGlobal il ip then Some ip else None | None \<Rightarrow> None)"

fun first_global :: "'ip ip_lib \<Rightarrow> string list \<Rightarrow> 'ip option" where
  "first_global il [] = None"
| "first_global il (s # ss) = (case global_ip il (TrimSpace s) of Some ip \<Rightarrow> Some ip | None \<Rightarrow> first_global il ss)"

definition genClientIPSpanTags :: "'ip ip_lib \<Rightarrow> http_config \<Rightarrow> http_request \<Rightarrow> (string \<times> goval) list" where
  "genClientIPSpanTags il cfg r =
    (let ipHeaders = (if length (hc_clientIPHeader cfg) > 0 then [hc_clientIPHeader cfg] else defaultIPHeaders);
         found = filter (\<lambda>(_, v). v \<noteq> []) (map (\<lambda>hdr. (hdr, Header_Get (hr_Header r) hdr)) ipHeaders);
         client = (\<lambda>ip. [(ext_HTTPClientIP, VString (ip_String il ip))])
     in case found of
       [] \<Rightarrow> (case global_ip il (hr_RemoteAddr r) of Some ip \<Rightarrow> client ip | None \<Rightarrow> [])
     | [(_, v)] \<Rightarrow> (case first_global il (split_on CHR '','' v) of Some ip \<Rightarrow> client ip | None \<Rightarrow> [])
     | _ \<Rightarrow> map (\<lambda>(hdr, v). (ext_HTTPRequestHeaders @ ''.'' @ hdr, VString v)) found
         @ [(multipleIPHeaders, VString (join_with '','' (map fst found)))])"

subsection \<open>URL and spans\<close>

definition urlFromRequest :: "http_config \<Rightarrow> http_request \<Rightarrow> string" where
  "urlFromRequest cfg r =
    (let scheme = (if hr_TLS r then ''https'' else ''http'');
         url = (if hr_Host r \<noteq> [] then scheme @ ''://'' @ hr_Host r @ hr_EscapedPath r else hr_EscapedPath r);
         url = (if hc_queryString cfg \<and> hr_RawQuery r \<noteq> [] then
             url @ ''?'' @ (case hc_queryStringRegexp cfg of Some re \<Rightarrow> re (hr_RawQuery r) | None \<Rightarrow> hr_RawQuery r) else url)
     in if hr_EscapedFragment r \<noteq> [] then url @ ''#'' @ hr_EscapedFragment r else url)"

definition request_options :: "'ip ip_lib \<Rightarrow> http_config \<Rightarrow> http_request \<Rightarrow> StartSpanOption list \<Rightarrow> StartSpanOption list" where
  "request_options il cfg r opts =
    (let opts = [SpanType ''web'', Tag ''http.method'' (VString (hr_Method r)), Tag ''http.url'' (VString (urlFromRequest cfg r)),
           Tag ''http.useragent'' (VString (hr_UserAgent r)), Measured] @ opts;
         opts = (if hr_Host r \<noteq> [] then Tag ''http.host'' (VString (hr_Host r)) # opts else opts)
     in if hc_clientIP cfg then map (\<lambda>(k, v). Tag k v) (genClientIPSpanTags il cfg r) @ opts else opts)"

definition StartRequestSpan ::
  "extlib \<Rightarrow> 'ip ip_lib \<Rightarrow> http_config \<Rightarrow> Propagator list \<Rightarrow> http_request \<Rightarrow> go_context option \<Rightarrow> StartSpanOption list
    \<Rightarrow> int \<Rightarrow> u64 \<Rightarrow> frame list \<Rightarrow> heap \<Rightarrow> (nat \<times> go_context \<times> heap) option" where
  "StartRequestSpan x il cfg extractors r ctx opts now rnd stk h =
    (let opts = request_options il cfg r opts;
         (opts, h) = (case chained_Extract extractors (CHeaders (hr_Header r)) of
             Inr e \<Rightarrow> (case install_ctx e h of (cp, h') \<Rightarrow> (opts @ [ChildOf (Some cp)], h'))
           | Inl _ \<Rightarrow> (opts, h))
     in StartSpanFromContext x ctx ''http.request'' opts now rnd stk h)"

definition FinishRequestSpan ::
  "extlib \<Rightarrow> nat \<Rightarrow> int \<Rightarrow> string \<Rightarrow> int \<Rightarrow> FinishOption list \<Rightarrow> frame list \<Rightarrow> heap \<Rightarrow> heap option" where
  "FinishRequestSpan x p status errMsg now opts stk h =
    (let statusStr = (if status = 0 then ''200'' else itoa status)
     in case SetTag p ''http.status_code'' (VString statusStr) stk h of
       None \<Rightarrow> None
     | Some h1 \<Rightarrow>
         (case (if errMsg = [] \<and> status \<ge> 500 \<and> status < 600
                then SetTag p ext_Error (VErr \<lparr>e_Error = statusStr @ '': '' @ StatusText (nat status), e_Type = ''*errors.errorString'', e_Details = None\<rparr>) stk h1
                else Some h1) of
            None \<Rightarrow> None
          | Some h2 \<Rightarrow> Some (Finish x p now opts stk h2)))"

subsection \<open>Properties\<close>

lemma global_ip_isGlobal: "global_ip il s = Some ip \<Longrightarrow> isGlobal il ip"
  by (auto simp: global_ip_def split: option.splits if_splits)

lemma first_global_isGlobal: "first_global il ss = Some ip \<Longrightarrow> isGlobal il ip"
  by (induction il ss rule: first_global.induct) (auto split: option.splits dest: global_ip_isGlobal)

lemma isGlobal_public: "isGlobal il ip \<Longrightarrow> \<not> ip_IsPrivate il ip \<and> \<not> ip_IsLoopback il ip \<and> \<not> ip_IsLinkLocalUnicast il ip"
  by (auto simp: isGlobal_def Let_def split: if_splits)

text \<open>
  The client address of a request is a public one, and it is set only when at most one of the headers
  that are looked at is present; otherwise the values of these headers are reported instead.
\<close>

theorem client_ip_public:
  assumes "(ext_HTTPClientIP, v) \<in> set (genClientIPSpanTags il cfg r)"
  shows "\<exists>ip. v = VString (ip_String il ip) \<and> \<not> ip_IsPrivate il ip \<and> \<not> ip_IsLoopback il ip \<and> \<not> ip_IsLinkLocalUnicast il ip
    \<and> genClientIPSpanTags il cfg r = [(ext_HTTPClientIP, v)]"
proof -
  let ?hs = "if length (hc_clientIPHeader cfg) > 0 then [hc_clientIPHeader cfg] else defaultIPHeaders"
  define found where "found = filter (\<lambda>(_, v). v \<noteq> []) (map (\<lambda>hdr. (hdr, Header_Get (hr_Header r) hdr)) ?hs)"
  have gen: "genClientIPSpanTags il cfg r = (case found of
       [] \<Rightarrow> (case global_ip il (hr_RemoteAddr r) of Some ip \<Rightarrow> [(ext_HTTPClientIP, VString (ip_String il ip))] | None \<Rightarrow> [])
     | [(_, v)] \<Rightarrow> (case first_global il (split_on CHR '','' v) of Some ip \<Rightarrow> [(ext_HTTPClientIP, VString (ip_String il ip))] | None \<Rightarrow> [])
     | _ \<Rightarrow> map (\<lambda>(hdr, v). (ext_HTTPRequestHeaders @ ''.'' @ hdr, VString v)) found
         @ [(multipleIPHeaders, VString (join_with '','' (map fst found)))])"
    unfolding genClientIPSpanTags_def Let_def found_def ..
  show ?thesis
  proof (cases found rule: remdups_adj.cases)
    case 1
    with assms obtain ip where ip: "global_ip il (hr_RemoteAddr r) = Some ip" "v = VString (ip_String il ip)"
      by (cases "global_ip il (hr_RemoteAddr r)") (auto simp: gen)
    with 1 show ?thesis using isGlobal_public[OF global_ip_isGlobal[OF ip(1)]] by (auto simp: gen)
  next
    case (2 x)
    obtain k w where x: "x = (k, w)" by (cases x)
    with 2 assms obtain ip where ip: "first_global il (split_on CHR '','' w) = Some ip" "v = VString (ip_String il ip)"
      by (cases "first_global il (split_on CHR '','' w)") (auto simp: gen)
    with 2 x show ?thesis using isGlobal_public[OF first_global_isGlobal[OF ip(1)]] by (auto simp: gen)
  next
    case (3 x y xs)
    then show ?thesis using assms by (auto simp: gen split: prod.splits)
  qed
qed

definition sample_ips :: "string ip_lib" where
  "sample_ips = \<lparr>ip_Parse = (\<lambda>s. if set s \<subseteq> set ''0123456789.'' then Some s else None), ip_String = (\<lambda>s. s),
     ip_IsPrivate = prefix ''10.'', ip_IsLoopback = prefix ''127.'', ip_IsLinkLocalUnicast = prefix ''169.254.'', ip_Is6 = (\<lambda>_. False), ip_special = []\<rparr>"

definition sample_request :: http_request where
  "sample_request = \<lparr>hr_Method = ''GET'', hr_Host = ''h'', hr_UserAgent = ''ua'', hr_Header = [(''X-Real-Ip'', [''10.0.0.1, 8.8.8.8''])],
     hr_RemoteAddr = ''127.0.0.1:5'', hr_TLS = False, hr_EscapedPath = ''/p'', hr_RawQuery = ''token=1'', hr_EscapedFragment = []\<rparr>"

definition sample_http_config :: http_config where
  "sample_http_config = \<lparr>hc_queryStringRegexp = Some (\<lambda>_. ''<redacted>''), hc_clientIPHeader = ''X-Real-Ip'', hc_clientIP = True, hc_queryString = True\<rparr>"

theorem client_ip_public_witness:
  "genClientIPSpanTags sample_ips sample_http_config sample_request = [(ext_HTTPClientIP, VString ''8.8.8.8'')]"
proof -
  have "(ext_HTTPClientIP, VString ''8.8.8.8'') \<in> set (genClientIPSpanTags sample_ips sample_http_config sample_request)" by code_simp
  from client_ip_public[OF this] show ?thesis by blast
qed

text \<open>The query appears in the URL only as the expression leaves it, and not at all when it is not collected.\<close>

lemma url_query:
  assumes "hr_Host r \<noteq> []" "hr_EscapedFragment r = []"
  shows "urlFromRequest cfg r = (if hr_TLS r then ''https'' else ''http'') @ ''://'' @ hr_Host r @ hr_EscapedPath r @
    (if \<not> hc_queryString cfg \<or> hr_RawQuery r = [] then []
     else ''?'' @ (case hc_queryStringRegexp cfg of Some re \<Rightarrow> re (hr_RawQuery r) | None \<Rightarrow> hr_RawQuery r))"
  using assms by (simp add: urlFromRequest_def Let_def)

text \<open>A tag that the caller gives replaces the one of the integration.\<close>

lemma caller_tag_wins:
  "m_get (sc_Tags (apply_options (request_options il cfg r (opts @ [Tag k v])))) k = Some v"
  by (simp add: request_options_def apply_options_def Tag_def Let_def)

end
