(* ===== verification/Go_Time.thy ===== *)
theory Go_Time
  imports Tracer_Config
begin

section \<open>Durations of package time\<close>

text \<open>
  A \<^verbatim>\<open>time.Duration\<close> is a number of nanoseconds (int64).  \<open>ParseDuration\<close> and \<open>Duration_String\<close> follow
  format.go and time.go of the standard library; an error is \<open>None\<close>.  The timeout of the WAF (internal/appsec) is
  parsed with them.
\<close>

abbreviation (input) "Microsecond \<equiv> (1000 :: int)"
abbreviation (input) "Millisecond \<equiv> (1000000 :: int)"
abbreviation (input) "Second \<equiv> (1000000000 :: int)"
abbreviation (input) "Minute \<equiv> (60000000000 :: int)"
abbreviation (input) "Hour \<equiv> (3600000000000 :: int)"

fun f64_mul :: "float64 \<Rightarrow> float64 \<Rightarrow> float64" where
  "f64_mul (Fin a) (Fin b) = f64_round (a * b)"
| "f64_mul NaN _ = NaN"
| "f64_mul _ NaN = NaN"
| "f64_mul (Fin a) f = (if a = 0 then NaN else if (a < 0) = f64_neg f then PInf else NInf)"
| "f64_mul f (Fin b) = (if b = 0 then NaN else if (b < 0) = f64_neg f then PInf else NInf)"
| "f64_mul f g = (if f = g then PInf else NInf)"

abbreviation is_digit :: "char \<Rightarrow> bool" where
  "is_digit c \<equiv> c \<in> set ''0123456789''"

abbreviation dec_val :: "char \<Rightarrow> int" where
  "dec_val c \<equiv> the (digit_val c)"

subsection \<open>Parsing\<close>

text \<open>\<open>leadingInt\<close>: the value of the leading digits and the rest, or an error above \<open>2 ^ 63\<close>.\<close>

fun leadingInt :: "int \<Rightarrow> string \<Rightarrow> (int \<times> string) option" where
  "leadingInt x [] = Some (x, [])"
| "leadingInt x (c # s) =
    (if \<not> is_digit c then Some (x, c # s)
     else if x > 2 ^ 63 div 10 then None
     else let x' = x * 10 + dec_val c in if x' > 2 ^ 63 then None else leadingInt x' s)"

text \<open>\<open>leadingFraction\<close>: digits that would overflow are skipped; the exponent stands for the scale.\<close>

fun leadingFraction :: "int \<Rightarrow> float64 \<Rightarrow> bool \<Rightarrow> string \<Rightarrow> int \<times> float64 \<times> string" where
  "leadingFraction x scale overflow [] = (x, scale, [])"
| "leadingFraction x scale overflow (c # s) =
    (if \<not> is_digit c then (x, scale, c # s)
     else if overflow then leadingFraction x scale True s
     else if x > (2 ^ 63 - 1) div 10 then leadingFraction x scale True s
     else
       let y = x * 10 + dec_val c
       in if y > 2 ^ 63 then leadingFraction x scale True s
          else leadingFraction y (f64_mul scale (Fin 10)) False s)"

definition unitMap :: "string \<Rightarrow> int option" where
  "unitMap u = map_of [(''ns'', 1), (''us'', Microsecond), ([CHR 0xC2, CHR 0xB5, CHR ''s''], Microsecond),
     ([CHR 0xCE, CHR 0xBC, CHR ''s''], Microsecond), (''ms'', Millisecond), (''s'', Second), (''m'', Minute), (''h'', Hour)] u"

text \<open>The fraction behind a number: its digits, their scale, the rest, and whether there was a digit.\<close>

definition duration_fraction :: "string \<Rightarrow> int \<times> float64 \<times> string \<times> bool" where
  "duration_fraction s =
    (if s \<noteq> [] \<and> hd s = CHR ''.'' then
       (case leadingFraction 0 (Fin 1) False (tl s) of (f, scale, s') \<Rightarrow> (f, scale, s', length s' \<noteq> length (tl s)))
     else (0, Fin 1, s, False))"

abbreviation unit_text :: "string \<Rightarrow> string" where
  "unit_text s \<equiv> takeWhile (\<lambda>c. c \<noteq> CHR ''.'' \<and> \<not> is_digit c) s"

text \<open>The nanoseconds of \<open>v\<close> units and the fraction \<open>f / scale\<close>.\<close>

definition duration_value :: "int \<Rightarrow> int \<Rightarrow> float64 \<Rightarrow> int \<Rightarrow> int option" where
  "duration_value v f scale unit =
    (if v > 2 ^ 63 div unit then None
     else if f > 0 then
       (let v' = v * unit + f64_to_int (f64_mul (f64_of_int f) (f64_div (f64_of_int unit) scale))
        in if v' > 2 ^ 63 then None else Some v')
     else Some (v * unit))"

text \<open>One number with its unit: the nanoseconds and the rest of the text.\<close>

definition duration_item :: "string \<Rightarrow> (int \<times> string) option" where
  "duration_item s =
    (if s = [] \<or> \<not> (hd s = CHR ''.'' \<or> is_digit (hd s)) then None
     else case leadingInt 0 s of
       None \<Rightarrow> None
     | Some (v, s1) \<Rightarrow>
         (case duration_fraction s1 of (f, scale, s2, post) \<Rightarrow>
            if length s1 = length s \<and> \<not> post then None
            else if unit_text s2 = [] then None
            else case unitMap (unit_text s2) of
              None \<Rightarrow> None
            | Some unit \<Rightarrow> map_option (\<lambda>d. (d, drop (length (unit_text s2)) s2)) (duration_value v f scale unit)))"

lemma leadingInt_length: "leadingInt x s = Some (v, r) \<Longrightarrow> length r \<le> length s"
  by (induction x s rule: leadingInt.induct) (auto simp: Let_def split: if_splits)

lemma leadingFraction_length: "leadingFraction x sc ov s = (f, sc', r) \<Longrightarrow> length r \<le> length s"
  by (induction x sc ov s rule: leadingFraction.induct) (auto simp: Let_def split: if_splits)

lemma duration_fraction_length:
  assumes "duration_fraction s = (f, scale, r, post)"
  shows "length r \<le> length s"
proof (cases "s \<noteq> [] \<and> hd s = CHR ''.''")
  case True
  then obtain f' sc' where "leadingFraction 0 (Fin 1) False (tl s) = (f', sc', r)"
    using assms by (auto simp: duration_fraction_def split: prod.splits)
  from leadingFraction_length[OF this] show ?thesis by simp
qed (use assms in \<open>auto simp: duration_fraction_def\<close>)

lemma duration_item_shorter:
  assumes "duration_item s = Some (v, r)"
  shows "length r < length s"
proof -
  obtain v1 s1 where l: "leadingInt 0 s = Some (v1, s1)"
    using assms unfolding duration_item_def by (auto split: if_splits option.splits)
  obtain f scale s2 post where x: "duration_fraction s1 = (f, scale, s2, post)" by (metis prod_cases4)
  have "unit_text s2 \<noteq> [] \<and> r = drop (length (unit_text s2)) s2"
    using assms unfolding duration_item_def l option.case prod.case x by (auto split: if_splits option.splits)
  then have "length r < length s2" by (cases s2) auto
  with duration_fraction_length[OF x] leadingInt_length[OF l] show ?thesis by simp
qed

function duration_items :: "int \<Rightarrow> string \<Rightarrow> int option" where
  "duration_items d s =
    (if s = [] then Some d
     else case duration_item s of
       None \<Rightarrow> None
     | Some (v, r) \<Rightarrow> let d' = d + v in if d' > 2 ^ 63 then None else duration_items d' r)"
  by pat_completeness auto
termination
  by (relation "measure (\<lambda>(d, s). length s)") (auto dest: duration_item_shorter)

declare duration_items.simps [simp del]

definition ParseDuration :: "string \<Rightarrow> int option" where
  "ParseDuration str =
    (let (neg, s) = (case str of c # s \<Rightarrow> if c = CHR ''-'' \<or> c = CHR ''+'' then (c = CHR ''-'', s) else (False, str) | [] \<Rightarrow> (False, str))
     in if s = ''0'' then Some 0
        else if s = [] then None
        else case duration_items 0 s of
          None \<Rightarrow> None
        | Some d \<Rightarrow> if neg then Some (- d) else if d > 2 ^ 63 - 1 then None else Some d)"

subsection \<open>Printing\<close>

text \<open>\<open>fmtFrac\<close>: the fraction without trailing zeros, with its point unless it is empty, and the integer part.\<close>

definition fmtFrac :: "int \<Rightarrow> nat \<Rightarrow> string \<times> int" where
  "fmtFrac v prec =
    (let fr = rev (dropWhile (\<lambda>c. c = CHR ''0'') (rev (pad_left prec (fmt_base 10 (v mod 10 ^ prec)))))
     in (if v mod 10 ^ prec = 0 then [] else CHR ''.'' # fr, v div 10 ^ prec))"

definition Duration_String :: "int \<Rightarrow> string" where
  "Duration_String d =
    (let u = \<bar>d\<bar>;
         text =
           (if u < Second then
              (if u = 0 then ''0s''
               else
                 let (prec, unit) = (if u < Microsecond then (0, ''ns'') else if u < Millisecond then (3, [CHR 0xC2, CHR 0xB5, CHR ''s'']) else (6, ''ms''))
                 in case fmtFrac u prec of (fr, i) \<Rightarrow> fmt_base 10 i @ fr @ unit)
            else case fmtFrac u 9 of (fr, s) \<Rightarrow>
              (let secs = fmt_base 10 (s mod 60) @ fr @ ''s''; m = s div 60
               in if m > 0 then
                    (let h = m div 60; mins = fmt_base 10 (m mod 60) @ ''m'' @ secs
                     in if h > 0 then fmt_base 10 h @ ''h'' @ mins else mins)
                  else secs))
     in if d < 0 then CHR ''-'' # text else text)"

subsection \<open>The timeout of the WAF (internal/appsec/config.go)\<close>

text \<open>
  A value that does not end in a letter is in microseconds.  Only ASCII letters are told apart: no unit ends in
  another letter, so such a value is an error with and without the suffix.
\<close>

definition ascii_letter :: "char \<Rightarrow> bool" where
  "ascii_letter c = (c \<in> set ''abcdefghijklmnopqrstuvwxyzABCDEFGHIJKLMNOPQRSTUVWXYZ'')"

definition readWAFTimeoutConfig :: "process \<Rightarrow> int" where
  "readWAFTimeoutConfig os =
    (let value = Getenv os ''DD_APPSEC_WAF_TIMEOUT''
     in if value = [] then 4 * Millisecond
        else
          let value = (if ascii_letter (last value) then value else value @ ''us'')
          in case ParseDuration value of
            None \<Rightarrow> 4 * Millisecond
          | Some parsed \<Rightarrow> if parsed \<le> 0 then 4 * Millisecond else parsed)"

subsection \<open>Laws\<close>

subsection \<open>Laws\<close>

lemma of_char_digits:
  "of_char c = (48 :: int) \<longleftrightarrow> c = CHR ''0''" "of_char c = (49 :: int) \<longleftrightarrow> c = CHR ''1''"
  "of_char c = (50 :: int) \<longleftrightarrow> c = CHR ''2''" "of_char c = (51 :: int) \<longleftrightarrow> c = CHR ''3''"
  "of_char c = (52 :: int) \<longleftrightarrow> c = CHR ''4''" "of_char c = (53 :: int) \<longleftrightarrow> c = CHR ''5''"
  "of_char c = (54 :: int) \<longleftrightarrow> c = CHR ''6''" "of_char c = (55 :: int) \<longleftrightarrow> c = CHR ''7''"
  "of_char c = (56 :: int) \<longleftrightarrow> c = CHR ''8''" "of_char c = (57 :: int) \<longleftrightarrow> c = CHR ''9''"
  by (simp_all flip: of_char_eq_iff[where 'a = int])

lemma digit_val_decimal:
  assumes "digit_val c = Some d" "d < 10"
  shows "is_digit c" "0 \<le> d"
proof -
  have n: "48 \<le> (of_char c :: int)" "of_char c \<le> (57 :: int)" "d = of_char c - 48"
    using assms by (auto simp: digit_val_def Let_def split: if_splits)
  show "0 \<le> d" using n by simp
  have "d = 0 \<or> d = 1 \<or> d = 2 \<or> d = 3 \<or> d = 4 \<or> d = 5 \<or> d = 6 \<or> d = 7 \<or> d = 8 \<or> d = 9" using n by presburger
  moreover have "of_char c = d + 48" using n(3) by simp
  ultimately show "is_digit c" by (elim disjE) (simp_all add: of_char_digits)
qed

lemma parse_digits_le: "parse_digits 10 x ds = Some n \<Longrightarrow> 0 \<le> x \<Longrightarrow> x \<le> n"
proof (induction ds arbitrary: x)
  case (Cons c ds)
  then obtain d where d: "digit_val c = Some d" "d < 10" "parse_digits 10 (x * 10 + d) ds = Some n"
    by (auto split: option.splits if_splits)
  with digit_val_decimal[OF d(1,2)] Cons.IH[OF d(3)] Cons.prems show ?case by auto
qed simp

lemma leadingInt_digits:
  assumes "parse_digits 10 x ds = Some n" "0 \<le> x" "n \<le> 2 ^ 63" "r = [] \<or> \<not> is_digit (hd r)"
  shows "leadingInt x (ds @ r) = Some (n, r)"
  using assms(1,2)
proof (induction ds arbitrary: x)
  case Nil
  then show ?case using assms(4) by (cases r) auto
next
  case (Cons c ds)
  obtain d where d: "digit_val c = Some d" "d < 10" "parse_digits 10 (x * 10 + d) ds = Some n"
    using Cons.prems by (auto split: option.splits if_splits)
  have dc: "is_digit c" "0 \<le> d" using digit_val_decimal[OF d(1,2)] by auto
  then have le: "x * 10 + d \<le> 2 ^ 63" using parse_digits_le[OF d(3)] Cons.prems(2) assms(3) by simp
  then have "x \<le> 2 ^ 63 div 10" using dc(2) by simp
  with Cons.IH[OF d(3)] dc(2) Cons.prems(2) le have
    "(if x > 2 ^ 63 div 10 then None else let x' = x * 10 + d in if x' > 2 ^ 63 then None else leadingInt x' (ds @ r)) = Some (n, r)"
    by simp
  then show ?case using dc(1) d(1) by (simp only: append_Cons leadingInt.simps option.sel) simp
qed

text \<open>The units, none of which starts with a digit or a point.\<close>

lemma unitMap_text:
  assumes "unitMap u = Some unit"
  shows "unit_text u = u" "u \<noteq> []" "1 \<le> unit" "\<not> is_digit (hd u)" "hd u \<noteq> CHR ''.''"
  using assms by (auto simp: unitMap_def split: if_splits)

lemma duration_item_int:
  assumes "0 \<le> n" "n * unit \<le> 2 ^ 63" "unitMap u = Some unit"
  shows "duration_item (fmt_base 10 n @ u) = Some (n * unit, [])"
proof -
  note u = unitMap_text[OF assms(3)]
  have "n \<le> n * unit" using assms(1) u(3) by (simp add: mult_le_cancel_left1)
  then have l: "leadingInt 0 (fmt_base 10 n @ u) = Some (n, u)"
    using assms u(4) by (intro leadingInt_digits) (simp_all add: parse_digits_fmt)
  have f: "duration_fraction u = (0, Fin 1, u, False)" using u(5) by (simp add: duration_fraction_def)
  have v: "duration_value n 0 (Fin 1) unit = Some (n * unit)"
    using assms(2) u(3) zdiv_mono1[OF assms(2), of unit] by (simp add: duration_value_def)
  obtain c cs where c: "fmt_base 10 n = c # cs" by (cases "fmt_base 10 n") simp_all
  then obtain d where "digit_val c = Some d" "d < 10"
    using parse_digits_fmt[of n 10] assms(1) by (auto split: option.splits if_splits)
  then have "is_digit c" by (rule digit_val_decimal(1))
  then show ?thesis unfolding duration_item_def l option.case prod.case f u(1) assms(3) v using u(2) c by simp
qed

text \<open>A whole number of any unit parses to its nanoseconds.\<close>

theorem ParseDuration_int:
  assumes "0 \<le> n" "n * unit < 2 ^ 63" "unitMap u = Some unit"
  shows "ParseDuration (fmt_base 10 n @ u) = Some (n * unit)"
proof -
  note u = unitMap_text[OF assms(3)]
  let ?s = "fmt_base 10 n @ u"
  have "duration_item ?s = Some (n * unit, [])" using assms by (intro duration_item_int) auto
  then have "duration_items 0 ?s = Some (n * unit)"
    using assms(2) by (simp add: duration_items.simps[of 0 ?s] duration_items.simps[of _ "[]"] Let_def)
  moreover obtain c cs where c: "fmt_base 10 n = c # cs" by (cases "fmt_base 10 n") simp_all
  moreover have "c \<noteq> CHR ''-''" "c \<noteq> CHR ''+''" using fmt_base_10_sign[OF assms(1)] c by auto
  ultimately show ?thesis using assms(2) u(2) by (auto simp: ParseDuration_def)
qed

text \<open>So a plain number in the variable is the timeout in microseconds; zero leaves the default.\<close>

lemma readWAFTimeoutConfig_plain:
  assumes "os_LookupEnv os ''DD_APPSEC_WAF_TIMEOUT'' = Some (fmt_base 10 n)" "0 \<le> n" "n * Microsecond < 2 ^ 63"
  shows "readWAFTimeoutConfig os = (if n = 0 then 4 * Millisecond else n * Microsecond)"
proof -
  have "\<not> ascii_letter (last (fmt_base 10 n))"
  proof -
    have "fmt_base 10 n = (if n < 10 then [] else fmt_base 10 (n div 10)) @ [digit_char (n mod 10)]"
      using assms(2) by (subst fmt_base.simps) simp
    then have "last (fmt_base 10 n) = digit_char (n mod 10)" by simp
    moreover have "digit_val (digit_char (n mod 10)) = Some (n mod 10)" by simp
    ultimately have "is_digit (last (fmt_base 10 n))" using digit_val_decimal(1) by simp
    then show ?thesis by (auto simp: ascii_letter_def)
  qed
  then show ?thesis using ParseDuration_int[of n Microsecond "''us''"] assms
    by (simp add: readWAFTimeoutConfig_def Getenv_def unitMap_def)
qed

end
