(* ===== verification/Profiler_Config.thy ===== *)
theory Profiler_Config
  imports Go_Time
begin

section \<open>profiler/options.go: the configuration of the profiler\<close>

text \<open>
  Profile types, options, \<open>defaultConfig\<close> and the checks of \<^verbatim>\<open>newProfiler\<close>.  A statsd client is a number, \<open>None\<close>
  the one that does nothing; the immutable slice of tags is a list; the set of types is the list of the keys of
  its map, in any order.  Package url is an argument (\<open>rt_url_ok\<close>: the text parses).
\<close>

subsection \<open>Profile types (profile.go)\<close>

type_synonym ProfileType = int

abbreviation (input) "HeapProfile \<equiv> (0 :: ProfileType)"
abbreviation (input) "CPUProfile \<equiv> (1 :: ProfileType)"
abbreviation (input) "BlockProfile \<equiv> (2 :: ProfileType)"
abbreviation (input) "MutexProfile \<equiv> (3 :: ProfileType)"
abbreviation (input) "GoroutineProfile \<equiv> (4 :: ProfileType)"
abbreviation (input) "expGoroutineWaitProfile \<equiv> (5 :: ProfileType)"
abbreviation (input) "MetricsProfile \<equiv> (6 :: ProfileType)"

type_synonym pprofValueType = "string \<times> string"

record profileType =
  pt_Name :: string
  pt_Filename :: string
  pt_DeltaValues :: "pprofValueType list"

definition profileTypes :: "ProfileType \<Rightarrow> profileType option" where
  "profileTypes = map_of
    [(CPUProfile, \<lparr>pt_Name = [], pt_Filename = ''cpu.pprof'', pt_DeltaValues = []\<rparr>),
     (HeapProfile, \<lparr>pt_Name = ''heap'', pt_Filename = ''heap.pprof'',
        pt_DeltaValues = [(''alloc_objects'', ''count''), (''alloc_space'', ''bytes'')]\<rparr>),
     (MutexProfile, \<lparr>pt_Name = ''mutex'', pt_Filename = ''mutex.pprof'',
        pt_DeltaValues = [(''contentions'', ''count''), (''delay'', ''nanoseconds'')]\<rparr>),
     (BlockProfile, \<lparr>pt_Name = ''block'', pt_Filename = ''block.pprof'',
        pt_DeltaValues = [(''contentions'', ''count''), (''delay'', ''nanoseconds'')]\<rparr>),
     (GoroutineProfile, \<lparr>pt_Name = ''goroutine'', pt_Filename = ''goroutines.pprof'', pt_DeltaValues = []\<rparr>),
     (expGoroutineWaitProfile, \<lparr>pt_Name = ''goroutinewait'', pt_Filename = ''goroutineswait.pprof'', pt_DeltaValues = []\<rparr>),
     (MetricsProfile, \<lparr>pt_Name = ''metrics'', pt_Filename = ''metrics.json'', pt_DeltaValues = []\<rparr>)]"

definition pt_lookup :: "ProfileType \<Rightarrow> profileType" where
  "pt_lookup t = (case profileTypes t of Some c \<Rightarrow> c | None \<Rightarrow> \<lparr>pt_Name = ''unknown'', pt_Filename = ''unknown'', pt_DeltaValues = []\<rparr>)"

definition pt_Tag :: "ProfileType \<Rightarrow> string" where
  "pt_Tag t = ''profile_type:'' @ pt_Name (pt_lookup t)"

subsection \<open>Configuration and options\<close>

record prof_config =
  pc_apiKey :: string
  pc_agentless :: bool
  pc_targetURL :: string
  pc_apiURL :: string
  pc_agentURL :: string
  pc_service :: string
  pc_env :: string
  pc_hostname :: string
  pc_statsd :: "nat option"
  pc_httpClient :: httpClient
  pc_tags :: "string list"
  pc_types :: "ProfileType list"
  pc_period :: int
  pc_cpuDuration :: int
  pc_cpuProfileRate :: int
  pc_uploadTimeout :: int
  pc_maxGoroutinesWait :: int
  pc_mutexFraction :: int
  pc_blockRate :: int
  pc_outputDir :: string
  pc_deltaProfiles :: bool
  pc_logStartup :: bool
  pc_cmemprofEnabled :: bool
  pc_cmemprofRate :: int

type_synonym ProfOption = "prof_config \<Rightarrow> prof_config"

record prof_runtime =
  rt_Compiler :: string
  rt_GOARCH :: string
  rt_GOOS :: string
  rt_url_ok :: "string \<Rightarrow> bool"

definition urlForSite :: "prof_runtime \<Rightarrow> string \<Rightarrow> string option" where
  "urlForSite rt site = (let u = ''https://intake.profile.'' @ site @ ''/v1/input'' in if rt_url_ok rt u then Some u else None)"

definition isAPIKeyValid :: "string \<Rightarrow> bool" where
  "isAPIKeyValid key = (length key = 32 \<and> list_all (\<lambda>c. c \<in> set ''abcdefghijklmnopqrstuvwxyz0123456789'') key)"

definition addProfileType :: "ProfileType \<Rightarrow> ProfOption" where
  "addProfileType t c = c\<lparr>pc_types := List.insert t (pc_types c)\<rparr>"

definition prof_WithAgentAddr :: "string \<Rightarrow> ProfOption" where
  "prof_WithAgentAddr hostport c = c\<lparr>pc_agentURL := ''http://'' @ hostport @ ''/profiling/v1/input''\<rparr>"

definition prof_WithAPIKey :: "string \<Rightarrow> ProfOption" where
  "prof_WithAPIKey key c = c\<lparr>pc_apiKey := key\<rparr>"

definition prof_WithAgentlessUpload :: ProfOption where
  "prof_WithAgentlessUpload c = c\<lparr>pc_agentless := True\<rparr>"

definition prof_WithDeltaProfiles :: "bool \<Rightarrow> ProfOption" where
  "prof_WithDeltaProfiles enabled c = c\<lparr>pc_deltaProfiles := enabled\<rparr>"

definition prof_WithURL :: "string \<Rightarrow> ProfOption" where
  "prof_WithURL url c = c\<lparr>pc_apiURL := url\<rparr>"

definition prof_WithPeriod :: "int \<Rightarrow> ProfOption" where
  "prof_WithPeriod d c = c\<lparr>pc_period := d\<rparr>"

definition prof_CPUDuration :: "int \<Rightarrow> ProfOption" where
  "prof_CPUDuration d c = c\<lparr>pc_cpuDuration := d\<rparr>"

definition prof_CPUProfileRate :: "int \<Rightarrow> ProfOption" where
  "prof_CPUProfileRate hz c = c\<lparr>pc_cpuProfileRate := hz\<rparr>"

definition prof_MutexProfileFraction :: "int \<Rightarrow> ProfOption" where
  "prof_MutexProfileFraction rate c = (addProfileType MutexProfile c)\<lparr>pc_mutexFraction := rate\<rparr>"

definition prof_BlockProfileRate :: "int \<Rightarrow> ProfOption" where
  "prof_BlockProfileRate rate c = (addProfileType BlockProfile c)\<lparr>pc_blockRate := rate\<rparr>"

definition prof_WithProfileTypes :: "ProfileType list \<Rightarrow> ProfOption" where
  "prof_WithProfileTypes types c = fold addProfileType types (addProfileType MetricsProfile (c\<lparr>pc_types := []\<rparr>))"

definition prof_WithService :: "string \<Rightarrow> ProfOption" where
  "prof_WithService name c = c\<lparr>pc_service := name\<rparr>"

definition prof_WithEnv :: "string \<Rightarrow> ProfOption" where
  "prof_WithEnv env c = c\<lparr>pc_env := env\<rparr>"

definition prof_WithTags :: "string list \<Rightarrow> ProfOption" where
  "prof_WithTags tags c = c\<lparr>pc_tags := pc_tags c @ tags\<rparr>"

definition prof_WithVersion :: "string \<Rightarrow> ProfOption" where
  "prof_WithVersion version = prof_WithTags [''version:'' @ version]"

definition prof_WithStatsd :: "nat option \<Rightarrow> ProfOption" where
  "prof_WithStatsd client c = c\<lparr>pc_statsd := client\<rparr>"

definition prof_WithUploadTimeout :: "int \<Rightarrow> ProfOption" where
  "prof_WithUploadTimeout d c = c\<lparr>pc_uploadTimeout := d\<rparr>"

definition prof_WithSite :: "prof_runtime \<Rightarrow> string \<Rightarrow> ProfOption" where
  "prof_WithSite rt site c = (case urlForSite rt site of None \<Rightarrow> c | Some u \<Rightarrow> c\<lparr>pc_apiURL := u\<rparr>)"

definition prof_WithHTTPClient :: "httpClient \<Rightarrow> ProfOption" where
  "prof_WithHTTPClient client c = c\<lparr>pc_httpClient := client\<rparr>"

definition prof_WithUDS :: "string \<Rightarrow> ProfOption" where
  "prof_WithUDS socketPath = prof_WithHTTPClient (udsClient socketPath)"

definition withOutputDir :: "string \<Rightarrow> ProfOption" where
  "withOutputDir dir c = c\<lparr>pc_outputDir := dir\<rparr>"

definition prof_WithLogStartup :: "bool \<Rightarrow> ProfOption" where
  "prof_WithLogStartup enabled c = c\<lparr>pc_logStartup := enabled\<rparr>"

definition prof_WithHostname :: "string \<Rightarrow> ProfOption" where
  "prof_WithHostname hostname c = c\<lparr>pc_hostname := hostname\<rparr>"

subsection \<open>The default configuration\<close>

datatype prof_error =
  BadUploadTimeoutEnv | BadMaxGoroutinesEnv | BadSamplingRateEnv
  | InvalidAPIKey | NoHostname | InvalidUploadTimeout int | UnknownProfileType ProfileType

definition prof_defaults :: "process \<Rightarrow> prof_config" where
  "prof_defaults os =
    (let c = \<lparr>pc_apiKey = [], pc_agentless = False, pc_targetURL = [], pc_apiURL = ''https://intake.profile.datadoghq.com/v1/input'',
           pc_agentURL = [], pc_service = filepath_Base (os_Args0 os), pc_env = ''none'', pc_hostname = [], pc_statsd = None,
           pc_httpClient = defaultClient, pc_tags = [''process_id:'' @ itoa (os_Getpid os)], pc_types = [],
           pc_period = Minute, pc_cpuDuration = Minute, pc_cpuProfileRate = 0, pc_uploadTimeout = 10 * Second,
           pc_maxGoroutinesWait = 1000, pc_mutexFraction = 10, pc_blockRate = 100000000, pc_outputDir = [],
           pc_deltaProfiles = BoolEnv os ''DD_PROFILING_DELTA'' True, pc_logStartup = BoolEnv os ''DD_TRACE_STARTUP_LOGS'' True,
           pc_cmemprofEnabled = False, pc_cmemprofRate = 2 * 1024 * 1024\<rparr>
     in fold addProfileType [MetricsProfile, CPUProfile, HeapProfile] c)"

text \<open>An option that a non-empty variable sets.\<close>

definition from_env :: "process \<Rightarrow> string \<Rightarrow> (string \<Rightarrow> ProfOption) \<Rightarrow> ProfOption" where
  "from_env os k f c = (let v = Getenv os k in if v \<noteq> [] then f v c else c)"

definition from_env_checked :: "process \<Rightarrow> string \<Rightarrow> (string \<Rightarrow> 'a option) \<Rightarrow> prof_error \<Rightarrow> ('a \<Rightarrow> ProfOption) \<Rightarrow> prof_config \<Rightarrow> prof_error + prof_config" where
  "from_env_checked os k parse e f c =
    (let v = Getenv os k
     in if v \<noteq> [] then (case parse v of None \<Rightarrow> Inl e | Some x \<Rightarrow> Inr (f x c)) else Inr c)"

definition env_tags :: "string \<Rightarrow> string list" where
  "env_tags v = filter (\<lambda>tag. tag \<noteq> []) (map TrimSpace (split_on (if CHR '','' \<in> set v then CHR '','' else CHR '' '') v))"

definition agent_hostport :: "process \<Rightarrow> string" where
  "agent_hostport os =
    (let host = Getenv os ''DD_AGENT_HOST''; port = Getenv os ''DD_TRACE_AGENT_PORT''
     in JoinHostPort (if host \<noteq> [] then host else ''localhost'') (if port \<noteq> [] then port else ''8126''))"

definition runtime_tags :: "process \<Rightarrow> prof_runtime \<Rightarrow> globals \<Rightarrow> string \<Rightarrow> string list" where
  "runtime_tags os rt g versionTag =
    [''profiler_version:'' @ versionTag, ''runtime_version:'' @ trim_prefix ''go'' (runtime_Version os),
     ''runtime_compiler:'' @ rt_Compiler rt, ''runtime_arch:'' @ rt_GOARCH rt, ''runtime_os:'' @ rt_GOOS rt,
     ''runtime-id:'' @ gl_runtimeID g]"

definition env_options :: "process \<Rightarrow> prof_runtime \<Rightarrow> globals \<Rightarrow> string \<Rightarrow> ProfOption" where
  "env_options os rt g versionTag c =
    (let c = from_env os ''DD_API_KEY'' prof_WithAPIKey c;
         c = (if BoolEnv os ''DD_PROFILING_AGENTLESS'' False then prof_WithAgentlessUpload c else c);
         c = from_env os ''DD_SITE'' (prof_WithSite rt) c;
         c = from_env os ''DD_ENV'' prof_WithEnv c;
         c = from_env os ''DD_SERVICE'' prof_WithService c;
         c = from_env os ''DD_VERSION'' prof_WithVersion c;
         c = from_env os ''DD_TAGS'' (\<lambda>v. fold (\<lambda>tag. prof_WithTags [tag]) (env_tags v)) c;
         c = prof_WithTags (runtime_tags os rt g versionTag) c;
         c = from_env os ''DD_PROFILING_URL'' prof_WithURL c
     in from_env os ''DD_PROFILING_OUTPUT_DIR'' withOutputDir c)"

definition prof_defaultConfig :: "process \<Rightarrow> prof_runtime \<Rightarrow> globals \<Rightarrow> string \<Rightarrow> prof_error + prof_config" where
  "prof_defaultConfig os rt g versionTag =
    (case from_env_checked os ''DD_PROFILING_UPLOAD_TIMEOUT'' ParseDuration BadUploadTimeoutEnv prof_WithUploadTimeout
            (prof_WithAgentAddr (agent_hostport os) (prof_defaults os)) of
       Inl e \<Rightarrow> Inl e
     | Inr c \<Rightarrow>
         (case from_env_checked os ''DD_PROFILING_WAIT_PROFILE_MAX_GOROUTINES'' parse_int BadMaxGoroutinesEnv
                 (\<lambda>n. pc_maxGoroutinesWait_update (\<lambda>_. n)) (env_options os rt g versionTag c) of
            Inl e \<Rightarrow> Inl e
          | Inr c \<Rightarrow>
              from_env_checked os ''DD_PROFILING_CMEMPROF_SAMPLING_RATE'' parse_int BadSamplingRateEnv
                (\<lambda>n. pc_cmemprofRate_update (\<lambda>_. n))
                (c\<lparr>pc_cmemprofEnabled := BoolEnv os ''DD_PROFILING_CMEMPROF_ENABLED'' False\<rparr>)))"

subsection \<open>Checks of a new profiler (profiler.go)\<close>

definition target_config :: "prof_config \<Rightarrow> prof_error + prof_config" where
  "target_config c =
    (if pc_agentless c then
       (if \<not> isAPIKeyValid (pc_apiKey c) then Inl InvalidAPIKey else Inr (c\<lparr>pc_targetURL := pc_apiURL c\<rparr>))
     else Inr (c\<lparr>pc_targetURL := pc_agentURL c\<rparr>))"

definition hostname_config :: "process \<Rightarrow> prof_config \<Rightarrow> prof_error + prof_config" where
  "hostname_config os c =
    (if pc_hostname c \<noteq> [] then Inr c
     else case os_Hostname os of
       Some hostname \<Rightarrow> Inr (c\<lparr>pc_hostname := hostname\<rparr>)
     | None \<Rightarrow> if pc_targetURL c = pc_apiURL c then Inl NoHostname else Inr (c\<lparr>pc_hostname := []\<rparr>))"

definition check_config :: "prof_config \<Rightarrow> prof_error + prof_config" where
  "check_config c =
    (if pc_uploadTimeout c \<le> 0 then Inl (InvalidUploadTimeout (pc_uploadTimeout c))
     else case find (\<lambda>t. profileTypes t = None) (pc_types c) of
       Some t \<Rightarrow> Inl (UnknownProfileType t)
     | None \<Rightarrow> Inr (if pc_cpuDuration c > pc_period c then c\<lparr>pc_cpuDuration := pc_period c\<rparr> else c))"

abbreviation wait_profile :: "process \<Rightarrow> ProfOption" where
  "wait_profile os c \<equiv> if Getenv os ''DD_PROFILING_WAIT_PROFILE'' \<noteq> [] then addProfileType expGoroutineWaitProfile c else c"

definition newProfiler_config :: "process \<Rightarrow> prof_runtime \<Rightarrow> globals \<Rightarrow> string \<Rightarrow> ProfOption list \<Rightarrow> prof_error + prof_config" where
  "newProfiler_config os rt g versionTag opts =
    (case prof_defaultConfig os rt g versionTag of
       Inl e \<Rightarrow> Inl e
     | Inr c \<Rightarrow>
         case target_config (wait_profile os (fold (\<lambda>opt c. opt c) opts c)) of
           Inl e \<Rightarrow> Inl e
         | Inr c \<Rightarrow> (case hostname_config os c of Inl e \<Rightarrow> Inl e | Inr c \<Rightarrow> check_config c))"

subsection \<open>Laws\<close>

text \<open>
  A configuration that is accepted: a positive timeout, only known types, a CPU profile that fits into the
  period, and the target that the mode asks for, with a well-formed key and a host name for the intake.
\<close>

definition prof_config_ok :: "prof_config \<Rightarrow> bool" where
  "prof_config_ok c \<longleftrightarrow> 0 < pc_uploadTimeout c \<and> (\<forall>t\<in>set (pc_types c). profileTypes t \<noteq> None) \<and> pc_cpuDuration c \<le> pc_period c
    \<and> pc_targetURL c = (if pc_agentless c then pc_apiURL c else pc_agentURL c)
    \<and> (pc_agentless c \<longrightarrow> isAPIKeyValid (pc_apiKey c))"

lemma target_config_ok:
  "target_config c = Inr c' \<Longrightarrow> pc_targetURL c' = (if pc_agentless c' then pc_apiURL c' else pc_agentURL c') \<and> (pc_agentless c' \<longrightarrow> isAPIKeyValid (pc_apiKey c'))"
  by (auto simp: target_config_def split: if_splits)

lemma hostname_config_cases:
  assumes "hostname_config os c = Inr c'"
  obtains h where "c' = c\<lparr>pc_hostname := h\<rparr>"
proof -
  have "c' = c\<lparr>pc_hostname := pc_hostname c'\<rparr>" using assms by (auto simp: hostname_config_def split: if_splits option.splits)
  then show thesis by (rule that)
qed

lemma check_config_ok:
  assumes "check_config c = Inr c'"
  shows "0 < pc_uploadTimeout c'" "\<forall>t\<in>set (pc_types c'). profileTypes t \<noteq> None" "pc_cpuDuration c' \<le> pc_period c'"
    "\<exists>d. c' = c\<lparr>pc_cpuDuration := d\<rparr>"
proof -
  have f: "find (\<lambda>t. profileTypes t = None) (pc_types c) = None" and u: "0 < pc_uploadTimeout c"
    using assms by (auto simp: check_config_def split: if_splits option.splits)
  have "c' = c\<lparr>pc_cpuDuration := min (pc_cpuDuration c) (pc_period c)\<rparr>"
    using assms u by (simp add: check_config_def f min_def split: if_splits)
  then show "0 < pc_uploadTimeout c'" "\<forall>t\<in>set (pc_types c'). profileTypes t \<noteq> None" "pc_cpuDuration c' \<le> pc_period c'"
    "\<exists>d. c' = c\<lparr>pc_cpuDuration := d\<rparr>"
    using f u by (auto simp: find_None_iff)
qed

lemma newProfiler_config_InrE:
  assumes "newProfiler_config os rt g versionTag opts = Inr c"
  obtains c0 c2 hn where "target_config (wait_profile os (fold (\<lambda>opt c. opt c) opts c0)) = Inr c2" "check_config (c2\<lparr>pc_hostname := hn\<rparr>) = Inr c"
proof -
  obtain c0 c2 c3 where "target_config (wait_profile os (fold (\<lambda>opt c. opt c) opts c0)) = Inr c2" "hostname_config os c2 = Inr c3" "check_config c3 = Inr c"
    using assms unfolding newProfiler_config_def by (auto split: sum.splits)
  with that hostname_config_cases[OF this(2)] show thesis by metis
qed

text \<open>
  A profiler starts only with a sound configuration, whatever the environment and the options.
\<close>

theorem newProfiler_config_sound:
  assumes "newProfiler_config os rt g versionTag opts = Inr c"
  shows "prof_config_ok c"
proof -
  obtain c1 c2 hn where t: "target_config c1 = Inr c2" and k: "check_config (c2\<lparr>pc_hostname := hn\<rparr>) = Inr c"
    by (rule newProfiler_config_InrE[OF assms])
  obtain d where c: "c = c2\<lparr>pc_hostname := hn, pc_cpuDuration := d\<rparr>" using check_config_ok(4)[OF k] by blast
  show ?thesis using target_config_ok[OF t] check_config_ok(1-3)[OF k] by (simp add: prof_config_ok_def c)
qed

definition sample_prof_process :: process where
  "sample_prof_process = \<lparr>os_LookupEnv = map_of [(''DD_SERVICE'', ''svc''), (''DD_PROFILING_UPLOAD_TIMEOUT'', ''5s'')],
     os_Hostname = Some ''h'', os_Args0 = ''app'', os_exists = (\<lambda>_. False), os_Getpid = 1,
     runtime_Version = ''go1.19'', runtime_Platform = [], proc_ContainerID = []\<rparr>"

definition sample_prof_runtime :: prof_runtime where
  "sample_prof_runtime = \<lparr>rt_Compiler = ''gc'', rt_GOARCH = ''amd64'', rt_GOOS = ''linux'', rt_url_ok = (\<lambda>_. True)\<rparr>"

definition sample_prof_globals :: globals where
  "sample_prof_globals = \<lparr>gl_analyticsRate = NaN, gl_serviceName = [], gl_runtimeID = ''id'', gl_logger = None, gl_levelDebug = False\<rparr>"

abbreviation "sample_newProfiler \<equiv> newProfiler_config sample_prof_process sample_prof_runtime sample_prof_globals ''v1''"

lemma sample_defaultConfig:
  "\<exists>c. prof_defaultConfig sample_prof_process sample_prof_runtime sample_prof_globals ''v1'' = Inr c
    \<and> pc_service c = ''svc'' \<and> pc_uploadTimeout c = 5 * Second \<and> \<not> pc_agentless c \<and> pc_cpuDuration c = Minute \<and> pc_period c = Minute
    \<and> pc_hostname c = [] \<and> pc_types c = [HeapProfile, CPUProfile, MetricsProfile]"
proof -
  have "ParseDuration ''5s'' = Some (5 * Second)" by code_simp
  then show ?thesis
    by (simp add: prof_defaultConfig_def prof_defaults_def env_options_def from_env_def from_env_checked_def sample_prof_process_def Getenv_def
        BoolEnv_def prof_WithUploadTimeout_def prof_WithAgentAddr_def prof_WithService_def prof_WithTags_def addProfileType_def Let_def)
qed

theorem newProfiler_config_sound_witness:
  "\<exists>c. sample_newProfiler [prof_MutexProfileFraction 5, prof_CPUDuration (2 * Minute)] = Inr c
    \<and> prof_config_ok c \<and> pc_service c = ''svc'' \<and> pc_cpuDuration c = Minute \<and> MutexProfile \<in> set (pc_types c)"
proof -
  let ?opts = "[prof_MutexProfileFraction 5, prof_CPUDuration (2 * Minute)]"
  obtain c where c: "sample_newProfiler ?opts = Inr c" "pc_service c = ''svc''" "pc_cpuDuration c = Minute" "MutexProfile \<in> set (pc_types c)"
    using sample_defaultConfig
    by (auto simp: newProfiler_config_def sample_prof_process_def Getenv_def prof_MutexProfileFraction_def prof_CPUDuration_def
        addProfileType_def target_config_def hostname_config_def check_config_def profileTypes_def Let_def)
  with newProfiler_config_sound[OF c(1)] show ?thesis by blast
qed

text \<open>An option wins over the environment, and a timeout that is not positive is always refused.\<close>

lemma upload_timeout_refused:
  assumes "d \<le> 0"
  shows "\<exists>e. newProfiler_config os rt g versionTag (opts @ [prof_WithUploadTimeout d]) = Inl e"
proof (cases "newProfiler_config os rt g versionTag (opts @ [prof_WithUploadTimeout d])")
  case (Inr c)
  then obtain c0 c2 hn where t: "target_config (wait_profile os (fold (\<lambda>opt c. opt c) (opts @ [prof_WithUploadTimeout d]) c0)) = Inr c2"
    and k: "check_config (c2\<lparr>pc_hostname := hn\<rparr>) = Inr c" by (rule newProfiler_config_InrE)
  have "pc_uploadTimeout c2 = d" using t by (auto simp: target_config_def prof_WithUploadTimeout_def addProfileType_def split: if_splits)
  then have "check_config (c2\<lparr>pc_hostname := hn\<rparr>) = Inl (InvalidUploadTimeout d)" using assms by (simp add: check_config_def)
  with k show ?thesis by simp
qed simp

text \<open>The metrics profile is always among the types, as the option promises.\<close>

lemma fold_addProfileType_types: "set (pc_types (fold addProfileType ts c)) = set ts \<union> set (pc_types c)"
  by (induction ts arbitrary: c) (auto simp: addProfileType_def)

lemma WithProfileTypes_types: "set (pc_types (prof_WithProfileTypes types c)) = insert MetricsProfile (set types)"
  by (simp add: prof_WithProfileTypes_def fold_addProfileType_types) (simp add: addProfileType_def)

text \<open>
  The period is not checked: a period of zero is accepted, with which \<^verbatim>\<open>time.NewTicker\<close> and the wait before a
  retry (\<^verbatim>\<open>rand.Int63n\<close>) panic.
\<close>

lemma period_unchecked: "\<exists>c. sample_newProfiler [prof_WithPeriod 0] = Inr c \<and> pc_period c = 0"
  using sample_defaultConfig
  by (auto simp: newProfiler_config_def sample_prof_process_def Getenv_def prof_WithPeriod_def
      target_config_def hostname_config_def check_config_def profileTypes_def Let_def)

end
