(* ===== verification/Pprof.thy ===== *)
theory Pprof
  imports Profiler_Config Transport
begin

section \<open>profiler/profile.go, profiler/internal/pprofutils: profiles and their differences\<close>

text \<open>
  The structs of google/pprof as far as the profiler reads or sets them (there is one mapping; pointers to functions
  and locations are the values themselves, which nobody changes).  The functions of that package are the record
  \<open>pprof_lib\<close>; \<open>ScaleN\<close> changes a profile in place, so it returns the new one.  Goroutine stacks come from
  gostackparse, whose result is an argument.
\<close>

subsection \<open>Data of google/pprof\<close>

record pprof_function =
  fn_ID :: u64
  fn_Name :: string
  fn_Filename :: string

record pprof_line =
  ln_Function :: pprof_function
  ln_Line :: int

record pprof_location =
  lc_ID :: u64
  lc_Line :: "pprof_line list"

record pprof_sample =
  sm_Location :: "pprof_location list"
  sm_Value :: "int list"
  sm_Label :: "(string \<times> string list) list"
  sm_NumUnit :: "(string \<times> string list) list"
  sm_NumLabel :: "(string \<times> int list) list"

record pprofile =
  pp_TimeNanos :: int
  pp_DurationNanos :: int
  pp_SampleType :: "pprofValueType list"
  pp_PeriodType :: "pprofValueType option"
  pp_Sample :: "pprof_sample list"
  pp_Location :: "pprof_location list"
  pp_Function :: "pprof_function list"
  pp_Comments :: "string list"

record pprof_lib =
  pl_ParseData :: "byte list \<Rightarrow> string + pprofile"
  pl_ScaleN :: "float64 list \<Rightarrow> pprofile \<Rightarrow> pprofile"
  pl_Merge :: "pprofile list \<Rightarrow> string + pprofile"
  pl_CheckValid :: "pprofile \<Rightarrow> string option"
  pl_Write :: "pprofile \<Rightarrow> byte list \<times> string option"
  pl_Aggregate :: "pprofile \<Rightarrow> string + pprofile"
  pl_Compact :: "pprofile \<Rightarrow> pprofile"

definition zero_profile :: pprofile where
  "zero_profile = \<lparr>pp_TimeNanos = 0, pp_DurationNanos = 0, pp_SampleType = [], pp_PeriodType = None, pp_Sample = [],
     pp_Location = [], pp_Function = [], pp_Comments = []\<rparr>"

definition zero_sample :: pprof_sample where
  "zero_sample = \<lparr>sm_Location = [], sm_Value = [], sm_Label = [], sm_NumUnit = [], sm_NumLabel = []\<rparr>"

subsection \<open>Differences (delta.go, profile.go)\<close>

definition delta_ratios :: "pprofValueType list \<Rightarrow> pprofile \<Rightarrow> float64 list" where
  "delta_ratios types a = map (\<lambda>st. if st \<in> set types then Fin (- 1) else Fin 0) (pp_SampleType a)"

text \<open>The result, and the first profile as the call leaves it.\<close>

definition Delta_Convert :: "pprof_lib \<Rightarrow> pprofValueType list \<Rightarrow> pprofile \<Rightarrow> pprofile \<Rightarrow> (string + pprofile) \<times> pprofile" where
  "Delta_Convert lib types a b =
    (let found = sum_list (map (count_list types) (pp_SampleType a))
     in if found \<noteq> length types then (Inl ''one or more sample type(s) was not found in the profile'', a)
        else
          let a' = pl_ScaleN lib (delta_ratios types a) a
          in case pl_Merge lib [a', b] of
            Inl e \<Rightarrow> (Inl e, a')
          | Inr delta \<Rightarrow> (case pl_CheckValid lib delta of Some e \<Rightarrow> (Inl e, a') | None \<Rightarrow> (Inr delta, a')))"

record deltaProfiler =
  dp_types :: "pprofValueType list"
  dp_prev :: "pprofile option"

definition newDeltaProfiler :: "pprofValueType list \<Rightarrow> deltaProfiler" where
  "newDeltaProfiler v = \<lparr>dp_types = v, dp_prev = None\<rparr>"

definition Delta :: "pprof_lib \<Rightarrow> byte list \<Rightarrow> deltaProfiler \<Rightarrow> (string + byte list) \<times> deltaProfiler" where
  "Delta lib curData d =
    (case pl_ParseData lib curData of
       Inl e \<Rightarrow> (Inl (''delta prof parse: '' @ e), d)
     | Inr curProf \<Rightarrow>
         (case dp_prev d of
            None \<Rightarrow> (Inr curData, d\<lparr>dp_prev := Some curProf\<rparr>)
          | Some prevProf \<Rightarrow>
              (case Delta_Convert lib (dp_types d) prevProf curProf of
                 (Inl e, prevProf') \<Rightarrow> (Inl (''delta prof merge: '' @ e), d\<lparr>dp_prev := Some prevProf'\<rparr>)
               | (Inr deltaProf, prevProf') \<Rightarrow>
                   (case pl_Write lib (deltaProf\<lparr>pp_TimeNanos := pp_TimeNanos curProf,
                            pp_DurationNanos := wrap64 (pp_TimeNanos curProf - pp_TimeNanos prevProf')\<rparr>) of
                      (_, Some e) \<Rightarrow> (Inl (''delta prof write: '' @ e), d\<lparr>dp_prev := Some prevProf'\<rparr>)
                    | (b, None) \<Rightarrow> (Inr b, d\<lparr>dp_prev := Some curProf\<rparr>)))))"

subsection \<open>Goroutine stacks (profile.go)\<close>

record gs_frame =
  gf_Func :: string
  gf_File :: string
  gf_Line :: int

record goroutine =
  go_ID :: int
  go_State :: string
  go_Wait :: int
  go_LockedToThread :: bool
  go_Stack :: "gs_frame list"
  go_FramesElided :: bool
  go_CreatedBy :: "gs_frame option"

text \<open>A profile under construction with its next ids.\<close>

record pprof_builder =
  pb_functionID :: u64
  pb_locationID :: u64
  pb_profile :: pprofile

definition add_call :: "gs_frame \<Rightarrow> pprof_builder \<times> pprof_sample \<Rightarrow> pprof_builder \<times> pprof_sample" where
  "add_call call = (\<lambda>(b, sample).
    let function = \<lparr>fn_ID = pb_functionID b, fn_Name = gf_Func call, fn_Filename = gf_File call\<rparr>;
        location = \<lparr>lc_ID = pb_locationID b, lc_Line = [\<lparr>ln_Function = function, ln_Line = gf_Line call\<rparr>]\<rparr>;
        p = pb_profile b
    in (b\<lparr>pb_functionID := pb_functionID b + 1, pb_locationID := pb_locationID b + 1,
          pb_profile := p\<lparr>pp_Function := pp_Function p @ [function], pp_Location := pp_Location p @ [location]\<rparr>\<rparr>,
        sample\<lparr>sm_Location := sm_Location sample @ [location]\<rparr>))"

definition add_sample :: "gs_frame list \<Rightarrow> pprof_sample \<Rightarrow> pprof_builder \<Rightarrow> pprof_builder" where
  "add_sample stack sample b =
    (case fold add_call stack (b, sample) of (b', sample') \<Rightarrow>
       b'\<lparr>pb_profile := (pb_profile b')\<lparr>pp_Sample := pp_Sample (pb_profile b') @ [sample']\<rparr>\<rparr>)"

definition full_stack :: "goroutine \<Rightarrow> gs_frame list" where
  "full_stack g =
    (let stack = (case go_CreatedBy g of Some f \<Rightarrow> go_Stack g @ [f] | None \<Rightarrow> go_Stack g)
     in if go_FramesElided g then stack @ [\<lparr>gf_Func = ''...additional frames elided...'', gf_File = [], gf_Line = 0\<rparr>] else stack)"

definition goroutine_sample :: "goroutine \<Rightarrow> pprof_sample" where
  "goroutine_sample g = zero_sample\<lparr>sm_Value := [go_Wait g],
     sm_Label := [(''state'', [go_State g]), (''lockedm'', [if go_LockedToThread g then ''true'' else ''false''])],
     sm_NumUnit := [(''goid'', [''id''])], sm_NumLabel := [(''goid'', [go_ID g])]\<rparr>"

definition new_builder :: "pprofile \<Rightarrow> pprof_builder" where
  "new_builder p = \<lparr>pb_functionID = 1, pb_locationID = 1, pb_profile = p\<rparr>"

definition goroutine_profile :: "int \<Rightarrow> goroutine list \<Rightarrow> string list \<Rightarrow> pprofile" where
  "goroutine_profile t goroutines errs =
    (let p = pb_profile (fold (\<lambda>g. add_sample (full_stack g) (goroutine_sample g)) goroutines
           (new_builder (zero_profile\<lparr>pp_TimeNanos := t, pp_SampleType := [(''waitduration'', ''nanoseconds'')]\<rparr>)))
     in p\<lparr>pp_Comments := pp_Comments p @ map (\<lambda>e. ''error: '' @ e) errs\<rparr>)"

text \<open>\<open>parsed\<close> is what gostackparse returns: goroutines and errors, or \<open>Inl\<close> the value of a panic.\<close>

definition goroutineDebug2ToPprof :: "pprof_lib \<Rightarrow> string + goroutine list \<times> string list \<Rightarrow> int \<Rightarrow> byte list \<times> string option" where
  "goroutineDebug2ToPprof lib parsed t =
    (case parsed of
       Inl r \<Rightarrow> ([], Some (''panic: '' @ r))
     | Inr (goroutines, errs) \<Rightarrow>
         let p = goroutine_profile t goroutines errs
         in case pl_CheckValid lib p of
           Some e \<Rightarrow> ([], Some (''marshalGoroutineDebug2Profile: '' @ e))
         | None \<Rightarrow> (case pl_Write lib p of (b, e) \<Rightarrow> (b, map_option (\<lambda>e. ''marshalGoroutineDebug2Profile: '' @ e) e)))"

subsection \<open>Folded text (text.go, protobuf.go)\<close>

datatype text_error = BadHeader nat string | BadLine nat string | InvalidProfile string

definition looksLikeHeader :: "string \<Rightarrow> bool" where
  "looksLikeHeader line = list_all (\<lambda>st. CHR ''/'' \<in> set st) (split_on CHR '' '' line)"

definition header_type :: "string \<Rightarrow> pprofValueType option" where
  "header_type st = (case split_on CHR ''/'' st of [t, u] \<Rightarrow> Some (t, u) | _ \<Rightarrow> None)"

definition text_line :: "nat \<Rightarrow> string \<Rightarrow> pprof_builder \<Rightarrow> text_error + pprof_builder" where
  "text_line n line b =
    (if TrimSpace line = [] then Inr b
     else if n = 0 \<and> looksLikeHeader line then
       (let sts = map header_type (split_on CHR '' '' line)
        in if None \<in> set sts then Inl (BadHeader n line)
           else Inr (b\<lparr>pb_profile := (pb_profile b)\<lparr>pp_SampleType := map the sts\<rparr>\<rparr>))
     else
       let parts = split_on CHR '' '' line; vals = map parse_int (tl parts)
       in if length parts \<noteq> length (pp_SampleType (pb_profile b)) + 1 then Inl (BadLine n line)
          else if None \<in> set vals then Inl (BadLine n line)
          else Inr (add_sample (map (\<lambda>name. \<lparr>gf_Func = name, gf_File = [], gf_Line = 0\<rparr>) (rev (split_on CHR '';'' (hd parts))))
                      (zero_sample\<lparr>sm_Value := map the vals\<rparr>) b))"

fun text_lines :: "nat \<Rightarrow> string list \<Rightarrow> pprof_builder \<Rightarrow> text_error + pprof_builder" where
  "text_lines n [] b = Inr b"
| "text_lines n (l # ls) b = (case text_line n l b of Inl e \<Rightarrow> Inl e | Inr b' \<Rightarrow> text_lines (Suc n) ls b')"

definition Text_Convert :: "pprof_lib \<Rightarrow> int \<Rightarrow> string \<Rightarrow> text_error + pprofile" where
  "Text_Convert lib now text =
    (case text_lines 0 (split_on CHR 0x0A text)
            (new_builder (zero_profile\<lparr>pp_TimeNanos := now, pp_SampleType := [(''samples'', ''count'')], pp_PeriodType := Some ([], [])\<rparr>)) of
       Inl e \<Rightarrow> Inl e
     | Inr b \<Rightarrow> (case pl_CheckValid lib (pb_profile b) of Some e \<Rightarrow> Inl (InvalidProfile e) | None \<Rightarrow> Inr (pb_profile b)))"

definition sample_frames :: "pprof_sample \<Rightarrow> string list" where
  "sample_frames s = concat (map (\<lambda>loc. map (\<lambda>l. fn_Name (ln_Function l)) (rev (lc_Line loc))) (rev (sm_Location s)))"

definition sample_line :: "bool \<Rightarrow> pprof_sample \<Rightarrow> string" where
  "sample_line sampleTypes s =
    join_with '';'' (sample_frames s) @ '' ''
      @ join_with '' '' (map itoa (if sampleTypes then sm_Value s else take 1 (sm_Value s))) @ [CHR 0x0A]"

text \<open>
  Samples are sorted by their first value, the largest first (a sample without values is an index out of
  range); \<^verbatim>\<open>sort.Slice\<close> promises no order of equal ones, the model keeps it.
\<close>

definition Protobuf_Convert :: "pprof_lib \<Rightarrow> bool \<Rightarrow> pprofile \<Rightarrow> string + string" where
  "Protobuf_Convert lib sampleTypes p =
    (let header = (if sampleTypes then join_with '' '' (map (\<lambda>(t, u). t @ ''/'' @ u) (pp_SampleType p)) @ [CHR 0x0A] else [])
     in case pl_Aggregate lib p of
       Inl e \<Rightarrow> Inl e
     | Inr p' \<Rightarrow>
         let ss = pp_Sample (pl_Compact lib p')
         in if length ss > 1 \<and> list_ex (\<lambda>s. sm_Value s = []) ss then Inl ''panic: index out of range''
            else Inr (header @ concat (map (sample_line sampleTypes) (sort_key (\<lambda>s. - hd (sm_Value s)) ss))))"

subsection \<open>Laws of differences\<close>

text \<open>
  What the code relies on of google/pprof, for the value \<open>val p k i\<close> that a profile \<open>p\<close> has for a stack \<open>k\<close> and the
  sample type of index \<open>i\<close>: scaling multiplies (it computes in float64, so it is exact up to \<open>2 ^ 53\<close>), merging
  adds profiles of the same sample types, and what is written can be read.
\<close>

definition pprof_laws :: "pprof_lib \<Rightarrow> (pprofile \<Rightarrow> 'k \<Rightarrow> nat \<Rightarrow> int) \<Rightarrow> bool" where
  "pprof_laws lib val \<longleftrightarrow>
    (\<forall>p rs k i. length rs = length (pp_SampleType p) \<and> i < length rs \<and> rs ! i \<in> {Fin 0, Fin (- 1)} \<and> \<bar>val p k i\<bar> \<le> 2 ^ 53
       \<longrightarrow> val (pl_ScaleN lib rs p) k i = (if rs ! i = Fin (- 1) then - val p k i else 0))
    \<and> (\<forall>p rs. pp_SampleType (pl_ScaleN lib rs p) = pp_SampleType p)
    \<and> (\<forall>a b d. pl_Merge lib [a, b] = Inr d \<longrightarrow> pp_SampleType a = pp_SampleType b)
    \<and> (\<forall>a b d k i. pl_Merge lib [a, b] = Inr d \<and> int64_range (val a k i + val b k i) \<longrightarrow> val d k i = val a k i + val b k i)
    \<and> (\<forall>p t n k i. val (p\<lparr>pp_TimeNanos := t, pp_DurationNanos := n\<rparr>) k i = val p k i)
    \<and> (\<forall>p b. pl_Write lib p = (b, None) \<longrightarrow> (\<exists>q. pl_ParseData lib b = Inr q \<and> (\<forall>k i. val q k i = val p k i)))"

lemma pprof_lawsD:
  assumes "pprof_laws lib val"
  shows "length rs = length (pp_SampleType p) \<Longrightarrow> i < length rs \<Longrightarrow> rs ! i \<in> {Fin 0, Fin (- 1)} \<Longrightarrow> \<bar>val p k i\<bar> \<le> 2 ^ 53
      \<Longrightarrow> val (pl_ScaleN lib rs p) k i = (if rs ! i = Fin (- 1) then - val p k i else 0)"
    "pp_SampleType (pl_ScaleN lib rs p) = pp_SampleType p"
    "pl_Merge lib [a, b] = Inr d \<Longrightarrow> pp_SampleType a = pp_SampleType b"
    "pl_Merge lib [a, b] = Inr d \<Longrightarrow> int64_range (val a k i + val b k i) \<Longrightarrow> val d k i = val a k i + val b k i"
    "pl_Write lib (p\<lparr>pp_TimeNanos := t, pp_DurationNanos := n\<rparr>) = (out, None) \<Longrightarrow> (case pl_ParseData lib out of Inr q \<Rightarrow> val q k i | Inl _ \<Rightarrow> 0) = val p k i"
proof -
  note L1 = assms[unfolded pprof_laws_def]
  note L2 = conjunct2[OF L1] note L3 = conjunct2[OF L2] note L4 = conjunct2[OF L3] note L5 = conjunct2[OF L4]
  show "length rs = length (pp_SampleType p) \<Longrightarrow> i < length rs \<Longrightarrow> rs ! i \<in> {Fin 0, Fin (- 1)} \<Longrightarrow> \<bar>val p k i\<bar> \<le> 2 ^ 53
      \<Longrightarrow> val (pl_ScaleN lib rs p) k i = (if rs ! i = Fin (- 1) then - val p k i else 0)"
    using conjunct1[OF L1] by blast
  show "pp_SampleType (pl_ScaleN lib rs p) = pp_SampleType p" using conjunct1[OF L2] by blast
  show "pl_Merge lib [a, b] = Inr d \<Longrightarrow> pp_SampleType a = pp_SampleType b" using conjunct1[OF L3] by blast
  show "pl_Merge lib [a, b] = Inr d \<Longrightarrow> int64_range (val a k i + val b k i) \<Longrightarrow> val d k i = val a k i + val b k i"
    using conjunct1[OF L4] by blast
  assume "pl_Write lib (p\<lparr>pp_TimeNanos := t, pp_DurationNanos := n\<rparr>) = (out, None)"
  then obtain q where "pl_ParseData lib out = Inr q" "val q k i = val (p\<lparr>pp_TimeNanos := t, pp_DurationNanos := n\<rparr>) k i"
    using conjunct2[OF L5] by blast
  then show "(case pl_ParseData lib out of Inr q \<Rightarrow> val q k i | Inl _ \<Rightarrow> 0) = val p k i"
    using conjunct1[OF L5] by simp
qed

definition data_val :: "pprof_lib \<Rightarrow> (pprofile \<Rightarrow> 'k \<Rightarrow> nat \<Rightarrow> int) \<Rightarrow> 'k \<Rightarrow> nat \<Rightarrow> byte list \<Rightarrow> int" where
  "data_val lib val k i b = (case pl_ParseData lib b of Inr p \<Rightarrow> val p k i | Inl _ \<Rightarrow> 0)"

text \<open>The calls of \<open>Delta\<close> for one profile type.\<close>

fun deltas :: "pprof_lib \<Rightarrow> byte list list \<Rightarrow> deltaProfiler \<Rightarrow> (string + byte list) list" where
  "deltas lib [] d = []"
| "deltas lib (b # bs) d = (case Delta lib b d of (r, d') \<Rightarrow> r # deltas lib bs d')"

lemma Delta_Convert_val:
  assumes laws: "pprof_laws lib val" and c: "Delta_Convert lib types a b = (Inr delta, a')"
    and i: "i < length (pp_SampleType a)" and r: "0 \<le> val a k i" "val a k i \<le> 2 ^ 53" "0 \<le> val b k i" "val b k i \<le> 2 ^ 53"
  shows "pp_SampleType b = pp_SampleType a"
    "val delta k i = (if pp_SampleType a ! i \<in> set types then val b k i - val a k i else val b k i)"
proof -
  let ?rs = "delta_ratios types a"
  have a': "a' = pl_ScaleN lib ?rs a" and m: "pl_Merge lib [a', b] = Inr delta"
    using c by (auto simp: Delta_Convert_def Let_def split: if_splits sum.splits option.splits)
  have "pp_SampleType a' = pp_SampleType a" using pprof_lawsD(2)[OF laws] by (simp add: a')
  moreover have "pp_SampleType a' = pp_SampleType b" by (rule pprof_lawsD(3)[OF laws m])
  ultimately show "pp_SampleType b = pp_SampleType a" by simp
  have "?rs ! i = (if pp_SampleType a ! i \<in> set types then Fin (- 1) else Fin 0)" "length ?rs = length (pp_SampleType a)"
    using i by (simp_all add: delta_ratios_def)
  then have "val a' k i = (if pp_SampleType a ! i \<in> set types then - val a k i else 0)"
    using pprof_lawsD(1)[OF laws, of ?rs a i k] i r(1,2) by (simp add: a')
  moreover have "int64_range (val a' k i + val b k i)" using calculation r by (auto simp: int64_range_def)
  then have "val delta k i = val a' k i + val b k i" by (rule pprof_lawsD(4)[OF laws m])
  ultimately show "val delta k i = (if pp_SampleType a ! i \<in> set types then val b k i - val a k i else val b k i)" by simp
qed

lemma Delta_next:
  assumes laws: "pprof_laws lib val" and D: "Delta lib data d = (Inr out, d')" and prev: "dp_prev d = Some a" and cur: "pl_ParseData lib data = Inr b"
    and i: "i < length (pp_SampleType a)" and r: "0 \<le> val a k i" "val a k i \<le> 2 ^ 53" "0 \<le> val b k i" "val b k i \<le> 2 ^ 53"
  shows "d' = d\<lparr>dp_prev := Some b\<rparr>" "pp_SampleType b = pp_SampleType a"
    "data_val lib val k i out = (if pp_SampleType a ! i \<in> set (dp_types d) then val b k i - val a k i else val b k i)"
proof -
  obtain delta a' t n where c: "Delta_Convert lib (dp_types d) a b = (Inr delta, a')"
    and w: "pl_Write lib (delta\<lparr>pp_TimeNanos := t, pp_DurationNanos := n\<rparr>) = (out, None)" and d': "d' = d\<lparr>dp_prev := Some b\<rparr>"
    using D unfolding Delta_def cur prev by (auto split: prod.splits sum.splits option.splits)
  show "d' = d\<lparr>dp_prev := Some b\<rparr>" by (rule d')
  note v = Delta_Convert_val[OF laws c i r]
  show "pp_SampleType b = pp_SampleType a" by (rule v)
  show "data_val lib val k i out = (if pp_SampleType a ! i \<in> set (dp_types d) then val b k i - val a k i else val b k i)"
    using v(2) pprof_lawsD(5)[OF laws w] by (simp add: data_val_def)
qed

definition small :: "int \<Rightarrow> bool" where
  "small v \<longleftrightarrow> 0 \<le> v \<and> v \<le> 2 ^ 53"

lemma deltas_after:
  assumes laws: "pprof_laws lib val"
  shows "list_all2 (\<lambda>b p. pl_ParseData lib b = Inr p) datas profs \<Longrightarrow> deltas lib datas d = map Inr outs \<Longrightarrow> dp_prev d = Some a
    \<Longrightarrow> i < length (pp_SampleType a) \<Longrightarrow> list_all (\<lambda>p. small (val p k i)) (a # profs)
    \<Longrightarrow> (if pp_SampleType a ! i \<in> set (dp_types d) then sum_list (map (data_val lib val k i) outs) = val (last (a # profs)) k i - val a k i
        else map (data_val lib val k i) outs = map (\<lambda>p. val p k i) profs)"
proof (induction datas profs arbitrary: d a outs rule: list_all2_induct)
  case (Cons data datas p profs)
  obtain r d' where D: "Delta lib data d = (r, d')" by fastforce
  with Cons.prems(1) obtain out outs' where o: "outs = out # outs'" "r = Inr out" "deltas lib datas d' = map Inr outs'" by auto
  note n = Delta_next[OF laws D[unfolded o(2)] Cons.prems(2) Cons.hyps(1) Cons.prems(3), of k]
  have n: "d' = d\<lparr>dp_prev := Some p\<rparr>" "pp_SampleType p = pp_SampleType a"
    "data_val lib val k i out = (if pp_SampleType a ! i \<in> set (dp_types d) then val p k i - val a k i else val p k i)"
    by (rule n; use Cons.prems(4) in \<open>simp add: small_def\<close>)+
  have "if pp_SampleType p ! i \<in> set (dp_types d') then sum_list (map (data_val lib val k i) outs') = val (last (p # profs)) k i - val p k i
      else map (data_val lib val k i) outs' = map (\<lambda>p. val p k i) profs"
    using Cons.prems n o by (intro Cons.IH) simp_all
  then show ?case using n o(1) by (auto split: if_splits)
qed simp


text \<open>A pprof package whose profiles have one counter, written in unary.\<close>

definition sample_profile :: "nat \<Rightarrow> pprofile" where
  "sample_profile n = zero_profile\<lparr>pp_SampleType := [(''alloc'', ''count'')], pp_Sample := [zero_sample\<lparr>sm_Value := [int n]\<rparr>]\<rparr>"

definition sample_total :: "pprofile \<Rightarrow> int" where
  "sample_total p = sum_list (map (\<lambda>s. case sm_Value s of [] \<Rightarrow> 0 | v # _ \<Rightarrow> v) (pp_Sample p))"

definition sample_val :: "pprofile \<Rightarrow> unit \<Rightarrow> nat \<Rightarrow> int" where
  "sample_val p k i = (if i = 0 then sample_total p else 0)"

definition sample_scale :: "float64 list \<Rightarrow> pprof_sample \<Rightarrow> pprof_sample" where
  "sample_scale rs s = s\<lparr>sm_Value := map2 (\<lambda>r v. if r = Fin (- 1) then - v else 0) rs (sm_Value s)\<rparr>"

definition sample_lib :: pprof_lib where
  "sample_lib = \<lparr>pl_ParseData = (\<lambda>b. Inr (sample_profile (length b))),
     pl_ScaleN = (\<lambda>rs p. p\<lparr>pp_Sample := map (sample_scale rs) (pp_Sample p)\<rparr>),
     pl_Merge = (\<lambda>ps. case ps of
         [a, b] \<Rightarrow> if pp_SampleType a = pp_SampleType b then Inr (a\<lparr>pp_Sample := pp_Sample a @ pp_Sample b\<rparr>) else Inl ''incompatible''
       | _ \<Rightarrow> Inl ''unsupported''),
     pl_CheckValid = (\<lambda>_. None),
     pl_Write = (\<lambda>p. if sample_total p \<ge> 0 then (replicate (nat (sample_total p)) 0, None) else ([], Some ''negative'')),
     pl_Aggregate = Inr, pl_Compact = (\<lambda>p. p)\<rparr>"

lemma sample_total_scale:
  "rs \<noteq> [] \<Longrightarrow> sample_total (p\<lparr>pp_Sample := map (sample_scale rs) (pp_Sample p)\<rparr>) = (if hd rs = Fin (- 1) then - sample_total p else 0)"
proof -
  assume "rs \<noteq> []"
  then obtain r rs' where rs: "rs = r # rs'" by (cases rs) auto
  have "sum_list (map (\<lambda>s. case sm_Value s of [] \<Rightarrow> 0 | v # _ \<Rightarrow> v) (map (sample_scale rs) ss))
      = (if r = Fin (- 1) then - sum_list (map (\<lambda>s. case sm_Value s of [] \<Rightarrow> 0 | v # _ \<Rightarrow> v) ss) else 0)" for ss
    by (induction ss) (auto simp: sample_scale_def rs split: list.splits)
  then show ?thesis by (simp add: sample_total_def rs)
qed

lemma sample_laws: "pprof_laws sample_lib sample_val"
  unfolding pprof_laws_def
proof (intro conjI allI impI)
  fix p rs k i
  assume "length rs = length (pp_SampleType p) \<and> i < length rs \<and> rs ! i \<in> {Fin 0, Fin (- 1)} \<and> \<bar>sample_val p k i\<bar> \<le> 2 ^ 53"
  then show "sample_val (pl_ScaleN sample_lib rs p) k i = (if rs ! i = Fin (- 1) then - sample_val p k i else 0)"
    by (cases rs) (auto simp: sample_val_def sample_lib_def sample_total_scale)
next
  fix p b
  assume "pl_Write sample_lib p = (b, None)"
  then have "b = replicate (nat (sample_total p)) 0" "0 \<le> sample_total p" by (auto simp: sample_lib_def split: if_splits)
  then show "\<exists>q. pl_ParseData sample_lib b = Inr q \<and> (\<forall>k i. sample_val q k i = sample_val p k i)"
    by (simp add: sample_lib_def sample_val_def) (simp add: sample_total_def sample_profile_def zero_sample_def)
qed (auto simp: sample_lib_def sample_val_def sample_total_def split: if_splits)

lemma sample_deltas:
  "deltas sample_lib [[0, 0, 0], [0, 0, 0, 0, 0]] (newDeltaProfiler [(''alloc'', ''count'')]) = map Inr [[0, 0, 0], [0, 0]]"
  by (simp add: Delta_def newDeltaProfiler_def Delta_Convert_def delta_ratios_def sample_lib_def sample_profile_def sample_total_def
      sample_scale_def zero_profile_def zero_sample_def numeral_2_eq_2 Let_def)


text \<open>
  A difference that fails after the scaling leaves the negated profile behind as the previous one; the next
  difference, which negates it again, is a sum.
\<close>

lemma failed_delta_keeps_scaled:
  assumes "pl_ParseData lib data = Inr b" "dp_prev d = Some a" "sum_list (map (count_list (dp_types d)) (pp_SampleType a)) = length (dp_types d)"
    "pl_Merge lib [pl_ScaleN lib (delta_ratios (dp_types d) a) a, b] = Inl e"
  shows "dp_prev (snd (Delta lib data d)) = Some (pl_ScaleN lib (delta_ratios (dp_types d) a) a)"
  using assms by (simp add: Delta_def Delta_Convert_def Let_def)

lemma failed_delta_next_adds:
  assumes laws: "pprof_laws lib val" and "pl_ParseData lib data = Inr b" "dp_prev d = Some (pl_ScaleN lib (delta_ratios (dp_types d) a) a)"
    and D: "Delta lib data d = (Inr out, d')" and i: "i < length (pp_SampleType a)" "pp_SampleType a ! i \<in> set (dp_types d)"
    and s: "small (val a k i)" "small (val b k i)"
  shows "data_val lib val k i out = val b k i + val a k i"
proof -
  let ?rs = "delta_ratios (dp_types d) a" let ?a = "pl_ScaleN lib ?rs a"
  have st: "pp_SampleType ?a = pp_SampleType a" and rs: "?rs ! i = Fin (- 1)" "length ?rs = length (pp_SampleType a)"
    using pprof_lawsD(2)[OF laws] i by (simp_all add: delta_ratios_def)
  then have rs': "delta_ratios (dp_types d) ?a = ?rs" by (simp add: delta_ratios_def)
  have neg: "val (pl_ScaleN lib ?rs p) k i = - val p k i" if "pp_SampleType p = pp_SampleType a" "\<bar>val p k i\<bar> \<le> 2 ^ 53" for p
    using pprof_lawsD(1)[OF laws, of ?rs p i k] i rs that by simp
  have v: "val ?a k i = - val a k i" "val (pl_ScaleN lib ?rs ?a) k i = val a k i"
    using neg[of a] neg[OF st] s(1) by (simp_all add: small_def)
  obtain r a' where c: "Delta_Convert lib (dp_types d) ?a b = (r, a')" by fastforce
  obtain delta t n where r: "r = Inr delta" and w: "pl_Write lib (delta\<lparr>pp_TimeNanos := t, pp_DurationNanos := n\<rparr>) = (out, None)"
    using D unfolding Delta_def assms(2,3) sum.case option.case c by (auto split: prod.splits sum.splits option.splits)
  have m: "pl_Merge lib [pl_ScaleN lib ?rs ?a, b] = Inr delta"
    using c unfolding r Delta_Convert_def Let_def rs' by (auto split: sum.splits option.splits if_splits)
  have "int64_range (val (pl_ScaleN lib ?rs ?a) k i + val b k i)" using v s by (auto simp: int64_range_def small_def)
  then have "val delta k i = val a k i + val b k i" using pprof_lawsD(4)[OF laws m] v(2) by simp
  then show ?thesis using pprof_lawsD(5)[OF laws w] by (simp add: data_val_def)
qed

subsection \<open>Laws of built profiles\<close>

abbreviation builder_ids :: "pprof_builder \<Rightarrow> bool" where
  "builder_ids b \<equiv> pb_functionID b = of_nat (Suc (length (pp_Function (pb_profile b)))) \<and> pb_locationID b = pb_functionID b
    \<and> map fn_ID (pp_Function (pb_profile b)) = map (\<lambda>n. of_nat (Suc n)) [0..<length (pp_Function (pb_profile b))]
    \<and> map lc_ID (pp_Location (pb_profile b)) = map fn_ID (pp_Function (pb_profile b))"

abbreviation frame_of :: "pprof_location \<Rightarrow> gs_frame" where
  "frame_of loc \<equiv> \<lparr>gf_Func = fn_Name (ln_Function (hd (lc_Line loc))), gf_File = fn_Filename (ln_Function (hd (lc_Line loc))), gf_Line = ln_Line (hd (lc_Line loc))\<rparr>"

lemma add_calls:
  assumes "fold add_call stack (b, s) = (b', s')" "builder_ids b"
  shows "builder_ids b'" "pp_Sample (pb_profile b') = pp_Sample (pb_profile b)"
    "length (pp_Function (pb_profile b')) = length (pp_Function (pb_profile b)) + length stack"
    "map frame_of (sm_Location s') = map frame_of (sm_Location s) @ stack" "sm_Value s' = sm_Value s"
    "pp_SampleType (pb_profile b') = pp_SampleType (pb_profile b)" "sample_frames s' = rev (map gf_Func stack) @ sample_frames s"
proof -
  have "builder_ids b' \<and> pp_Sample (pb_profile b') = pp_Sample (pb_profile b)
    \<and> length (pp_Function (pb_profile b')) = length (pp_Function (pb_profile b)) + length stack
    \<and> map frame_of (sm_Location s') = map frame_of (sm_Location s) @ stack \<and> sm_Value s' = sm_Value s
    \<and> pp_SampleType (pb_profile b') = pp_SampleType (pb_profile b) \<and> sample_frames s' = rev (map gf_Func stack) @ sample_frames s"
    using assms
  proof (induction stack arbitrary: b s)
    case (Cons c cs)
    obtain b1 s1 where a: "add_call c (b, s) = (b1, s1)" by fastforce
    then have "builder_ids b1" "pp_Sample (pb_profile b1) = pp_Sample (pb_profile b)"
      "length (pp_Function (pb_profile b1)) = length (pp_Function (pb_profile b)) + 1"
      "map frame_of (sm_Location s1) = map frame_of (sm_Location s) @ [c]" "sm_Value s1 = sm_Value s"
      "pp_SampleType (pb_profile b1) = pp_SampleType (pb_profile b)" "sample_frames s1 = gf_Func c # sample_frames s"
      using Cons.prems(2) by (auto simp: add_call_def sample_frames_def Let_def)
    moreover have "fold add_call cs (b1, s1) = (b', s')" using Cons.prems(1) a by simp
    ultimately show ?case using Cons.IH[of b1 s1] by simp
  qed simp
  then show "builder_ids b'" "pp_Sample (pb_profile b') = pp_Sample (pb_profile b)"
    "length (pp_Function (pb_profile b')) = length (pp_Function (pb_profile b)) + length stack"
    "map frame_of (sm_Location s') = map frame_of (sm_Location s) @ stack" "sm_Value s' = sm_Value s"
    "pp_SampleType (pb_profile b') = pp_SampleType (pb_profile b)" "sample_frames s' = rev (map gf_Func stack) @ sample_frames s" by simp_all
qed

lemma add_sample_props:
  assumes "builder_ids b" "sm_Location s = []"
  obtains s' where "builder_ids (add_sample stack s b)" "pp_Sample (pb_profile (add_sample stack s b)) = pp_Sample (pb_profile b) @ [s']"
    "map frame_of (sm_Location s') = stack" "sm_Value s' = sm_Value s"
    "length (pp_Function (pb_profile (add_sample stack s b))) = length (pp_Function (pb_profile b)) + length stack"
    "pp_SampleType (pb_profile (add_sample stack s b)) = pp_SampleType (pb_profile b)" "sample_frames s' = rev (map gf_Func stack)"
proof -
  obtain b' s' where f: "fold add_call stack (b, s) = (b', s')" by fastforce
  show thesis using add_calls[OF f assms(1)] assms(2) by (intro that[of s']) (simp_all add: add_sample_def f sample_frames_def)
qed

lemma distinct_ids: "N < 2 ^ 64 \<Longrightarrow> distinct (map (\<lambda>n. of_nat (Suc n) :: u64) [0..<N])"
  by (auto simp: distinct_map inj_on_def word_of_nat_eq_iff take_bit_nat_eq_self simp del: of_nat_Suc)

text \<open>
  Every goroutine becomes one sample with its whole stack, the frame that created it and the mark of an elided
  stack included; functions and locations get different ids as long as there are fewer than \<open>2 ^ 64\<close> frames.
\<close>

theorem goroutine_profile_stacks:
  assumes "p = goroutine_profile t gs errs"
  shows "map (\<lambda>s. (map frame_of (sm_Location s), sm_Value s)) (pp_Sample p) = map (\<lambda>g. (full_stack g, [go_Wait g])) gs"
    "sum_list (map (length \<circ> full_stack) gs) < 2 ^ 64 \<Longrightarrow> distinct (map fn_ID (pp_Function p)) \<and> distinct (map lc_ID (pp_Location p))"
proof -
  let ?step = "\<lambda>g. add_sample (full_stack g) (goroutine_sample g)"
  have "builder_ids b \<Longrightarrow> builder_ids (fold ?step gs b)
      \<and> map (\<lambda>s. (map frame_of (sm_Location s), sm_Value s)) (pp_Sample (pb_profile (fold ?step gs b)))
        = map (\<lambda>s. (map frame_of (sm_Location s), sm_Value s)) (pp_Sample (pb_profile b)) @ map (\<lambda>g. (full_stack g, [go_Wait g])) gs
      \<and> length (pp_Function (pb_profile (fold ?step gs b))) = length (pp_Function (pb_profile b)) + sum_list (map (length \<circ> full_stack) gs)" for b
  proof (induction gs arbitrary: b)
    case (Cons g gs)
    obtain s' where s': "builder_ids (?step g b)" "pp_Sample (pb_profile (?step g b)) = pp_Sample (pb_profile b) @ [s']"
      "map frame_of (sm_Location s') = full_stack g" "sm_Value s' = sm_Value (goroutine_sample g)"
      "length (pp_Function (pb_profile (?step g b))) = length (pp_Function (pb_profile b)) + length (full_stack g)"
      by (rule add_sample_props[OF Cons.prems, of "goroutine_sample g" "full_stack g"]) (simp_all add: goroutine_sample_def zero_sample_def)
    then show ?case using Cons.IH[OF s'(1)] by (simp add: goroutine_sample_def)
  qed simp
  note built = this
  define b0 where "b0 = new_builder (zero_profile\<lparr>pp_TimeNanos := t, pp_SampleType := [(''waitduration'', ''nanoseconds'')]\<rparr>)"
  define b where "b = fold ?step gs b0"
  have "builder_ids b0" "pp_Sample (pb_profile b0) = []" "pp_Function (pb_profile b0) = []"
    by (simp_all add: b0_def new_builder_def zero_profile_def)
  then have b: "builder_ids b" "map (\<lambda>s. (map frame_of (sm_Location s), sm_Value s)) (pp_Sample (pb_profile b)) = map (\<lambda>g. (full_stack g, [go_Wait g])) gs"
    "length (pp_Function (pb_profile b)) = sum_list (map (length \<circ> full_stack) gs)"
    using built[of b0] by (simp_all add: b_def)
  have p: "pp_Sample p = pp_Sample (pb_profile b)" "pp_Function p = pp_Function (pb_profile b)" "pp_Location p = pp_Location (pb_profile b)"
    by (simp_all add: assms goroutine_profile_def b_def b0_def Let_def)
  show "map (\<lambda>s. (map frame_of (sm_Location s), sm_Value s)) (pp_Sample p) = map (\<lambda>g. (full_stack g, [go_Wait g])) gs"
    unfolding p by (rule b(2))
  assume "sum_list (map (length \<circ> full_stack) gs) < 2 ^ 64"
  then show "distinct (map fn_ID (pp_Function p)) \<and> distinct (map lc_ID (pp_Location p))"
    unfolding p using b(1) distinct_ids[of "length (pp_Function (pb_profile b))"] b(3) by simp
qed

end
