(* ===== verification/Pprof_Text.thy ===== *)
theory Pprof_Text
  imports Pprof Config_Laws
begin

section \<open>Parsing and printing folded text\<close>

text \<open>
  A folded text with its header: the rows are frames, the outermost first, and values.
\<close>

definition folded :: "pprofValueType list \<Rightarrow> (string list \<times> int list) list \<Rightarrow> string" where
  "folded types rows = join_with '' '' (map (\<lambda>(t, u). t @ ''/'' @ u) types) @ [CHR 0x0A]
     @ concat (map (\<lambda>(fs, vs). join_with '';'' fs @ '' '' @ join_with '' '' (map itoa vs) @ [CHR 0x0A]) rows)"

abbreviation free_of :: "string \<Rightarrow> string \<Rightarrow> bool" where
  "free_of cs w \<equiv> set w \<inter> set cs = {}"

definition row_ok :: "nat \<Rightarrow> string list \<times> int list \<Rightarrow> bool" where
  "row_ok n = (\<lambda>(fs, vs). fs \<noteq> [] \<and> list_all (free_of [CHR '' '', CHR '';'', CHR 0x0A]) fs \<and> length vs = n \<and> list_all int64_range vs)"

definition type_ok :: "pprofValueType \<Rightarrow> bool" where
  "type_ok = (\<lambda>(t, u). free_of [CHR '' '', CHR ''/'', CHR 0x0A] t \<and> free_of [CHR '' '', CHR ''/'', CHR 0x0A] u)"

definition pprof_rows :: "pprofile \<Rightarrow> (string list \<times> int list) list" where
  "pprof_rows p = map (\<lambda>s. (sample_frames s, sm_Value s)) (pp_Sample p)"

abbreviation type_text :: "pprofValueType \<Rightarrow> string" where
  "type_text \<equiv> \<lambda>(t, u). t @ ''/'' @ u"

abbreviation row_line :: "string list \<times> int list \<Rightarrow> string" where
  "row_line \<equiv> \<lambda>(fs, vs). join_with '' '' (join_with '';'' fs # map itoa vs)"

lemma trim_by_keeps: "c \<in> set s \<Longrightarrow> \<forall>w\<in>set ws. c \<notin> set w \<Longrightarrow> c \<in> set (trim_by ws s)"
proof (induction ws s rule: trim_by.induct)
  case (1 ws s)
  show ?case
  proof (cases "find (\<lambda>w. w \<noteq> [] \<and> prefix w s) ws")
    case None
    then show ?thesis using 1(2) by (simp add: trim_by.simps[of ws s])
  next
    case (Some w)
    then have "w \<in> set ws" "prefix w s" by (auto simp: find_Some_iff)
    then have "c \<in> set (drop (length w) s)" using 1(2,3) by (auto simp: prefix_def)
    then show ?thesis using 1(1)[OF Some] 1(3) Some by (simp add: trim_by.simps[of ws s])
  qed
qed

lemma TrimSpace_not_empty:
  assumes "c \<in> set s" "\<forall>w\<in>set space_runes. c \<notin> set w"
  shows "TrimSpace s \<noteq> []"
proof -
  have "c \<in> set (TrimSpace s)" using assms by (auto simp: TrimSpace_def intro!: trim_by_keeps)
  then show ?thesis by auto
qed

lemma split_on_lines: "list_all (\<lambda>l. c \<notin> set l) ls \<Longrightarrow> split_on c (concat (map (\<lambda>l. l @ [c]) ls)) = ls @ [[]]"
  by (induction ls) (simp_all add: split_on_sep)

lemma itoa_free: "free_of [CHR '' '', CHR '';'', CHR ''/'', CHR 0x0A] (itoa v)"
proof -
  have f: "free_of [CHR '' '', CHR '';'', CHR ''/'', CHR 0x0A] (fmt_base 10 n)" if "0 \<le> n" for n
  proof -
    have "set (fmt_base 10 n) \<subseteq> set ''0123456789abcdef''" by (rule subsetI, rule fmt_base_digits[OF that, of 10]) simp_all
    then show ?thesis by (auto simp: subset_iff)
  qed
  then show ?thesis by (simp add: itoa_def)
qed

lemma itoa_digit: "\<exists>c. c \<in> set (itoa v) \<and> is_digit c"
proof -
  have "last (fmt_base 10 n) = digit_char (n mod 10)" if "0 \<le> n" for n using that by (subst fmt_base.simps) simp
  then have "is_digit (last (fmt_base 10 n))" if "0 \<le> n" for n using that digit_val_decimal(1)[of "digit_char (n mod 10)" "n mod 10"] by simp
  then have "is_digit (last (itoa v))" by (simp add: itoa_def)
  moreover have "last (itoa v) \<in> set (itoa v)" by (intro last_in_set) (simp add: itoa_def)
  ultimately show ?thesis by blast
qed

lemma space_runes_plain: "is_digit c \<or> c = CHR ''/'' \<Longrightarrow> \<forall>w\<in>set space_runes. c \<notin> set w"
  by (auto simp: space_runes_def)

lemma row_words:
  assumes "row_ok n (fs, vs)" "w \<in> set (join_with '';'' fs # map itoa vs)"
  shows "CHR '' '' \<notin> set w" "CHR 0x0A \<notin> set w"
proof -
  have "CHR '' '' \<notin> set (join_with '';'' fs) \<and> CHR 0x0A \<notin> set (join_with '';'' fs)"
    using assms(1) by (auto simp: row_ok_def list_all_iff dest!: join_with_mem)
  then show "CHR '' '' \<notin> set w" "CHR 0x0A \<notin> set w" using assms(2) itoa_free by auto
qed

lemma text_line_row:
  assumes "row_ok (length (pp_SampleType (pb_profile b))) (fs, vs)" "vs \<noteq> []" "builder_ids b" "n \<noteq> 0"
  obtains b' where "text_line n (row_line (fs, vs)) b = Inr b'" "builder_ids b'" "pp_SampleType (pb_profile b') = pp_SampleType (pb_profile b)"
    "pprof_rows (pb_profile b') = pprof_rows (pb_profile b) @ [(fs, vs)]"
proof -
  let ?l = "row_line (fs, vs)" let ?ws = "join_with '';'' fs # map itoa vs"
  have sp: "split_on CHR '' '' ?l = ?ws"
    using row_words(1)[OF assms(1)] unfolding prod.case by (intro split_on_joined) blast+
  obtain v vs' where v: "vs = v # vs'" using assms(2) by (cases vs) auto
  obtain c where c: "c \<in> set (itoa v)" "is_digit c" using itoa_digit by blast
  have "c \<in> set ?l" using c(1) by (cases vs') (simp_all add: v)
  then have ne: "TrimSpace ?l \<noteq> []" using TrimSpace_not_empty space_runes_plain c(2) by blast
  have fs: "split_on CHR '';'' (join_with '';'' fs) = fs"
    using assms(1) by (intro split_on_joined) (auto simp: row_ok_def list_all_iff)
  have vals: "map parse_int (map itoa vs) = map Some vs" using assms(1) by (simp add: row_ok_def list_all_iff)
  let ?stack = "map (\<lambda>name. \<lparr>gf_Func = name, gf_File = [], gf_Line = 0\<rparr>) (rev fs)"
  let ?b = "add_sample ?stack (zero_sample\<lparr>sm_Value := vs\<rparr>) b"
  have "text_line n ?l b = Inr ?b"
    using assms(1,4) ne unfolding text_line_def sp Let_def list.sel fs vals by (simp add: row_ok_def o_def)
  moreover obtain s' where "builder_ids ?b" "pp_Sample (pb_profile ?b) = pp_Sample (pb_profile b) @ [s']" "sm_Value s' = vs"
    "pp_SampleType (pb_profile ?b) = pp_SampleType (pb_profile b)" "sample_frames s' = rev (map gf_Func ?stack)"
    by (rule add_sample_props[OF assms(3), of "zero_sample\<lparr>sm_Value := vs\<rparr>" ?stack]) (simp_all add: zero_sample_def)
  ultimately show thesis by (intro that[of ?b]) (simp_all add: pprof_rows_def rev_map o_def)
qed

lemma text_lines_rows:
  assumes "list_all (row_ok m) rows" "0 < m" "builder_ids b" "length (pp_SampleType (pb_profile b)) = m" "n \<noteq> 0"
  shows "\<exists>b'. text_lines n (map row_line rows @ [[]]) b = Inr b' \<and> pp_SampleType (pb_profile b') = pp_SampleType (pb_profile b)
    \<and> pprof_rows (pb_profile b') = pprof_rows (pb_profile b) @ rows"
  using assms
proof (induction rows arbitrary: b n)
  case Nil
  have "TrimSpace [] = []" by code_simp
  then show ?case by (simp add: text_line_def)
next
  case (Cons r rows)
  obtain fs vs where r: "r = (fs, vs)" by (cases r)
  have ok: "row_ok (length (pp_SampleType (pb_profile b))) (fs, vs)" using Cons.prems r by simp
  then have "vs \<noteq> []" using Cons.prems(2,4) by (auto simp: row_ok_def)
  then obtain b1 where b1: "text_line n (row_line (fs, vs)) b = Inr b1" "builder_ids b1"
    "pp_SampleType (pb_profile b1) = pp_SampleType (pb_profile b)" "pprof_rows (pb_profile b1) = pprof_rows (pb_profile b) @ [(fs, vs)]"
    by (rule text_line_row[OF ok _ Cons.prems(3,5)])
  have "\<exists>b'. text_lines (Suc n) (map row_line rows @ [[]]) b1 = Inr b' \<and> pp_SampleType (pb_profile b') = pp_SampleType (pb_profile b1)
    \<and> pprof_rows (pb_profile b') = pprof_rows (pb_profile b1) @ rows"
    using Cons.prems b1(2,3) by (intro Cons.IH) simp_all
  then show ?case using b1 by (simp add: r)
qed

lemma text_line_header:
  assumes "types \<noteq> []" "list_all type_ok types"
  shows "text_line 0 (join_with '' '' (map type_text types)) b = Inr (b\<lparr>pb_profile := (pb_profile b)\<lparr>pp_SampleType := types\<rparr>\<rparr>)"
proof -
  let ?l = "join_with '' '' (map type_text types)"
  have ty: "CHR '' '' \<notin> set (type_text x) \<and> CHR ''/'' \<in> set (type_text x) \<and> header_type (type_text x) = Some x" if "x \<in> set types" for x
  proof -
    obtain t u where x: "x = (t, u)" by (cases x)
    then have "CHR '' '' \<notin> set t" "CHR '' '' \<notin> set u" "CHR ''/'' \<notin> set t" "CHR ''/'' \<notin> set u"
      using assms(2) that by (auto simp: type_ok_def list_all_iff)
    then show ?thesis by (simp add: x header_type_def split_on_sep split_on_plain)
  qed
  then have sp: "split_on CHR '' '' ?l = map type_text types" using assms(1) by (intro split_on_joined) auto
  obtain x xs where xs: "types = x # xs" using assms(1) by (cases types) auto
  then have "CHR ''/'' \<in> set (type_text x)" using ty by simp
  then have "CHR ''/'' \<in> set ?l" by (cases xs) (auto simp: xs)
  then have "TrimSpace ?l \<noteq> []" using TrimSpace_not_empty space_runes_plain by blast
  moreover have "looksLikeHeader ?l" using ty unfolding looksLikeHeader_def sp by (auto simp: list_all_iff)
  moreover have m: "map header_type (map type_text types) = map Some types" using ty by simp
  ultimately show ?thesis unfolding text_line_def sp Let_def m by (simp add: o_def)
qed



end
