(* ===== verification/Profiler_Ops.thy ===== *)
theory Profiler_Ops
  imports Pprof Telemetry
begin

section \<open>profiler: collecting and uploading profiles\<close>

text \<open>
  The metrics of the runtime (metrics.go), the collection of every profile type (profile.go), the upload with its
  retries (upload.go) and the life of the profiler (profiler.go).  What the Go runtime reports is the record \<open>rt_data\<close>;
  times are nanoseconds.  A sleep has no effect of its own: the state machine of the profiler covers what happens
  meanwhile.
\<close>

subsection \<open>Metrics (metrics.go)\<close>

record memStats =
  ms_TotalAlloc :: u64
  ms_Mallocs :: u64
  ms_Frees :: u64
  ms_HeapAlloc :: u64
  ms_PauseTotalNs :: u64
  ms_NumGC :: u32
  ms_PauseNs :: "u64 list"
  ms_PauseEnd :: "u64 list"

type_synonym point = "string \<times> float64"

datatype metrics_error = collectionTooFrequent int int | metricsMarshal

record metrics =
  mt_collectedAt :: int
  mt_stats :: memStats

definition metrics_reset :: "memStats \<Rightarrow> int \<Rightarrow> metrics \<Rightarrow> metrics" where
  "metrics_reset stats now m = m\<lparr>mt_collectedAt := now, mt_stats := stats\<rparr>"

definition prof_rate :: "u64 \<Rightarrow> u64 \<Rightarrow> int \<Rightarrow> float64" where
  "prof_rate cur prev period = f64_div (f64_of_int (wrap64 (sint cur - sint prev))) (f64_of_int period)"

text \<open>The slots of the ring of pauses, the most recent first.\<close>

definition pause_offsets :: "u32 \<Rightarrow> nat list" where
  "pause_offsets numGC = map (\<lambda>i. (unat numGC + 255 - i) mod 256) [0..<256]"

fun max_pause :: "memStats \<Rightarrow> int \<Rightarrow> nat list \<Rightarrow> u64 \<Rightarrow> u64" where
  "max_pause stats periodStart [] m = m"
| "max_pause stats periodStart (offset # os) m =
    (if sint (ms_PauseEnd stats ! offset) < periodStart then m
     else max_pause stats periodStart os (if ms_PauseNs stats ! offset > m then ms_PauseNs stats ! offset else m))"

definition maxPauseNs :: "memStats \<Rightarrow> int \<Rightarrow> u64" where
  "maxPauseNs stats periodStart = max_pause stats periodStart (pause_offsets (ms_NumGC stats)) 0"

definition computeMetrics :: "memStats \<Rightarrow> memStats \<Rightarrow> int \<Rightarrow> int \<Rightarrow> point list" where
  "computeMetrics prev cur period now =
    [(''go_alloc_bytes_per_sec'', prof_rate (ms_TotalAlloc cur) (ms_TotalAlloc prev) (go_div period Second)),
     (''go_allocs_per_sec'', prof_rate (ms_Mallocs cur) (ms_Mallocs prev) (go_div period Second)),
     (''go_frees_per_sec'', prof_rate (ms_Frees cur) (ms_Frees prev) (go_div period Second)),
     (''go_heap_growth_bytes_per_sec'', prof_rate (ms_HeapAlloc cur) (ms_HeapAlloc prev) (go_div period Second)),
     (''go_gcs_per_sec'', prof_rate (ucast (ms_NumGC cur)) (ucast (ms_NumGC prev)) (go_div period Second)),
     (''go_gc_pause_time'', prof_rate (ms_PauseTotalNs cur) (ms_PauseTotalNs prev) period),
     (''go_max_gc_pause_time'', f64_of_int (uint (maxPauseNs cur (now - period))))]"

fun f64_finite :: "float64 \<Rightarrow> bool" where
  "f64_finite (Fin _) = True"
| "f64_finite _ = False"

definition removeInvalid :: "point list \<Rightarrow> point list" where
  "removeInvalid points = filter (\<lambda>(_, v). f64_finite v) points"

text \<open>\<open>time.Sub\<close> saturates at the bounds of a duration.\<close>

definition time_Sub :: "int \<Rightarrow> int \<Rightarrow> int" where
  "time_Sub t u = max (- (2 ^ 63)) (min (2 ^ 63 - 1) (t - u))"

definition metrics_report :: "(point list \<Rightarrow> byte list option) \<Rightarrow> memStats \<Rightarrow> int \<Rightarrow> metrics \<Rightarrow> (metrics_error + byte list) \<times> metrics" where
  "metrics_report marshal stats now m =
    (let period = time_Sub now (mt_collectedAt m)
     in if period < Second then (Inl (collectionTooFrequent Second period), m)
        else
          let m' = metrics_reset stats now m
          in (case marshal (removeInvalid (computeMetrics (mt_stats m) stats period now)) of
                Some data \<Rightarrow> Inr data | None \<Rightarrow> Inl metricsMarshal, m'))"

subsection \<open>Collecting (profile.go)\<close>

record prof_profile =
  pf_name :: string
  pf_data :: "byte list"

record batch =
  bt_seq :: u64
  bt_start :: int
  bt_end :: int
  bt_host :: string
  bt_profiles :: "prof_profile list"

text \<open>
  What the runtime and the extensions return at the time of a collection: a started CPU profile or an error, the
  other profiles by name and debug level with an error, parsed stacks, the number of goroutines, the C allocation
  profiler (when one is registered) and the memory statistics.
\<close>

record rt_data =
  rd_cpu :: "string + byte list"
  rd_lookup :: "string \<Rightarrow> nat \<Rightarrow> byte list \<times> string option"
  rd_stacks :: "byte list \<Rightarrow> string + goroutine list \<times> string list"
  rd_NumGoroutine :: int
  rd_cAlloc :: "(string + pprofile) option"
  rd_stats :: memStats
  rd_now :: int
  rd_marshal :: "point list \<Rightarrow> byte list option"

record prof_collector =
  co_cfg :: prof_config
  co_deltas :: "(ProfileType \<times> deltaProfiler) list"
  co_met :: metrics

definition c_allocations :: "rt_data \<Rightarrow> prof_config \<Rightarrow> ProfileType \<Rightarrow> pprofile option" where
  "c_allocations rd cfg pt =
    (case rd_cAlloc rd of
       Some (Inr profile) \<Rightarrow> if pc_cmemprofEnabled cfg \<and> pc_deltaProfiles cfg \<and> pt = HeapProfile then Some profile else None
     | _ \<Rightarrow> None)"

definition merge_extra :: "pprof_lib \<Rightarrow> byte list \<Rightarrow> pprofile \<Rightarrow> string + byte list" where
  "merge_extra lib delta extra =
    (case pl_ParseData lib delta of
       Inl e \<Rightarrow> Inl e
     | Inr extended \<Rightarrow>
         (case pl_Merge lib [extended, extra] of
            Inl e \<Rightarrow> Inl e
          | Inr extended \<Rightarrow> (case pl_Write lib extended of (b, None) \<Rightarrow> Inr b | (_, Some e) \<Rightarrow> Inl e)))"

definition collectGenericProfile :: "pprof_lib \<Rightarrow> rt_data \<Rightarrow> string \<Rightarrow> ProfileType \<Rightarrow> prof_collector \<Rightarrow> (string + byte list) \<times> prof_collector" where
  "collectGenericProfile lib rd name pt p =
    (let (data, err) = rd_lookup rd name 0
     in case map_of (co_deltas p) pt of
       Some dp \<Rightarrow>
         if \<not> pc_deltaProfiles (co_cfg p) then (case err of None \<Rightarrow> (Inr data, p) | Some e \<Rightarrow> (Inl e, p))
         else
           (case Delta lib data dp of (r, dp') \<Rightarrow>
              let p' = p\<lparr>co_deltas := AList.update pt dp' (co_deltas p)\<rparr>
              in case r of
                Inl e \<Rightarrow> (Inl (''delta profile error: '' @ e), p')
              | Inr delta \<Rightarrow>
                  (case c_allocations rd (co_cfg p) pt of
                     None \<Rightarrow> (Inr delta, p')
                   | Some extra \<Rightarrow> (merge_extra lib delta extra, p')))
     | None \<Rightarrow> (case err of None \<Rightarrow> (Inr data, p) | Some e \<Rightarrow> (Inl e, p)))"

definition collect_wait :: "pprof_lib \<Rightarrow> rt_data \<Rightarrow> prof_config \<Rightarrow> string + byte list" where
  "collect_wait lib rd cfg =
    (if rd_NumGoroutine rd > pc_maxGoroutinesWait cfg then
       Inl (''skipping goroutines wait profile: '' @ itoa (rd_NumGoroutine rd)
         @ '' goroutines exceeds DD_PROFILING_WAIT_PROFILE_MAX_GOROUTINES limit of '' @ itoa (pc_maxGoroutinesWait cfg))
     else case rd_lookup rd ''goroutine'' 2 of
       (_, Some e) \<Rightarrow> Inl e
     | (text, None) \<Rightarrow>
         (case goroutineDebug2ToPprof lib (rd_stacks rd text) (rd_now rd) of (b, None) \<Rightarrow> Inr b | (_, Some e) \<Rightarrow> Inl e))"

definition metrics_error_text :: "metrics_error \<Rightarrow> string" where
  "metrics_error_text e =
    (case e of
       collectionTooFrequent mn observed \<Rightarrow> ''period between metrics collection is too small min='' @ Duration_String mn @ '' observed='' @ Duration_String observed
     | metricsMarshal \<Rightarrow> ''json'')"

definition pt_Collect :: "pprof_lib \<Rightarrow> rt_data \<Rightarrow> ProfileType \<Rightarrow> prof_collector \<Rightarrow> (string + byte list) \<times> prof_collector" where
  "pt_Collect lib rd pt p =
    (if pt = CPUProfile then (rd_cpu rd, p)
     else if pt \<in> {HeapProfile, MutexProfile, BlockProfile, GoroutineProfile} then collectGenericProfile lib rd (pt_Name (pt_lookup pt)) pt p
     else if pt = expGoroutineWaitProfile then (collect_wait lib rd (co_cfg p), p)
     else if pt = MetricsProfile then
       (case metrics_report (rd_marshal rd) (rd_stats rd) (rd_now rd) (co_met p) of (r, m) \<Rightarrow>
          (case r of Inl e \<Rightarrow> Inl (metrics_error_text e) | Inr b \<Rightarrow> Inr b, p\<lparr>co_met := m\<rparr>))
     else (Inl ''profile type not implemented'', p))"

definition runProfile :: "pprof_lib \<Rightarrow> rt_data \<Rightarrow> ProfileType \<Rightarrow> prof_collector \<Rightarrow> (string + prof_profile) \<times> prof_collector" where
  "runProfile lib rd pt p =
    (case pt_Collect lib rd pt p of
       (Inl e, p') \<Rightarrow> (Inl e, p')
     | (Inr data, p') \<Rightarrow>
         let t = pt_lookup pt;
             filename = (if pc_deltaProfiles (co_cfg p) \<and> pt_DeltaValues t \<noteq> [] then ''delta-'' @ pt_Filename t else pt_Filename t)
         in (Inr \<lparr>pf_name = filename, pf_data = data\<rparr>, p'))"

definition enabledProfileTypes :: "prof_config \<Rightarrow> ProfileType list" where
  "enabledProfileTypes cfg = filter (\<lambda>t. t \<in> set (pc_types cfg))
     [CPUProfile, HeapProfile, BlockProfile, MutexProfile, GoroutineProfile, expGoroutineWaitProfile, MetricsProfile]"

text \<open>The profiles of one batch; the types are in the order in which their goroutines finish.\<close>

fun run_profiles :: "pprof_lib \<Rightarrow> rt_data \<Rightarrow> ProfileType list \<Rightarrow> prof_collector \<Rightarrow> prof_profile list \<times> prof_collector" where
  "run_profiles lib rd [] p = ([], p)"
| "run_profiles lib rd (t # ts) p =
    (case runProfile lib rd t p of (r, p1) \<Rightarrow>
       case run_profiles lib rd ts p1 of (profs, p2) \<Rightarrow>
         (case r of Inl _ \<Rightarrow> profs | Inr prof \<Rightarrow> prof # profs, p2))"

subsection \<open>Uploading (upload.go)\<close>

record uploadEvent =
  ev_Start :: string
  ev_End :: string
  ev_Attachments :: "string list"
  ev_Tags :: string
  ev_Family :: string
  ev_Version :: string

definition upload_tags :: "prof_config \<Rightarrow> batch \<Rightarrow> string list" where
  "upload_tags cfg bat = pc_tags cfg @ [''service:'' @ pc_service cfg, ''env:'' @ pc_env cfg, ''profile_seq:'' @ format_uint (bt_seq bat) 10]"

text \<open>The form of a request: the files and the event; \<open>RFC3339\<close> is the time format.\<close>

definition prof_encode :: "(int \<Rightarrow> string) \<Rightarrow> batch \<Rightarrow> string list \<Rightarrow> prof_profile list \<times> uploadEvent" where
  "prof_encode RFC3339 bat tags =
    (let tags = (if bt_host bat \<noteq> [] then tags @ [''host:'' @ bt_host bat] else tags) @ [''runtime:go'']
     in (bt_profiles bat, \<lparr>ev_Start = RFC3339 (bt_start bat), ev_End = RFC3339 (bt_end bat),
          ev_Attachments = map pf_name (bt_profiles bat), ev_Tags = join_with '','' tags, ev_Family = ''go'', ev_Version = ''4''\<rparr>))"

text \<open>The status line of an answer is its code.\<close>

datatype upload_error =
  badRequest | retriableError send_error | errOldAgent | badStatus nat | failedRetries "upload_error option"

record upload_env =
  ue_RFC3339 :: "int \<Rightarrow> string"
  ue_multipart :: "prof_profile list \<times> uploadEvent \<Rightarrow> string \<times> byte list"
  ue_containerID :: string

definition upload_request :: "upload_env \<Rightarrow> prof_config \<Rightarrow> batch \<Rightarrow> request" where
  "upload_request ue cfg bat =
    (let (contentType, body) = ue_multipart ue (prof_encode (ue_RFC3339 ue) bat (upload_tags cfg bat));
         hs = (if pc_apiKey cfg \<noteq> [] then HTTPHeadersCarrier_Set ''DD-API-KEY'' (pc_apiKey cfg) [] else []);
         hs = (if ue_containerID ue \<noteq> [] then HTTPHeadersCarrier_Set ''Datadog-Container-ID'' (ue_containerID ue) hs else hs);
         hs = HTTPHeadersCarrier_Set ''Content-Type'' contentType hs
     in \<lparr>rq_url = pc_targetURL cfg, rq_headers = hs, rq_body = body\<rparr>)"

definition upload_status :: "prof_config \<Rightarrow> nat \<Rightarrow> upload_error option" where
  "upload_status cfg code =
    (if code div 100 = 5 then Some (retriableError (StatusError (itoa (int code))))
     else if code = 404 \<and> pc_targetURL cfg = pc_agentURL cfg then Some errOldAgent
     else if 200 \<le> code \<and> code \<le> 299 then None
     else Some (badStatus code))"

definition doRequest :: "network \<Rightarrow> upload_env \<Rightarrow> prof_config \<Rightarrow> batch \<Rightarrow> upload_error option" where
  "doRequest nw ue cfg bat =
    (if \<not> nw_url_ok nw (pc_targetURL cfg) then Some badRequest
     else case nw_Do nw (pc_httpClient cfg) (upload_request ue cfg bat) of
       DoError e \<Rightarrow> Some (retriableError (NetworkError e))
     | DoResponse code _ \<Rightarrow> upload_status cfg code)"

abbreviation (input) "maxRetries \<equiv> (2 :: nat)"

text \<open>
  The loop of \<open>upload\<close> from attempt \<open>i\<close> on: \<open>exits i\<close> tells whether the profiler is stopped then, \<open>results i\<close> what the request
  returns.  The second component counts the events.
\<close>

fun upload_from :: "nat \<Rightarrow> nat \<Rightarrow> (nat \<Rightarrow> bool) \<Rightarrow> (nat \<Rightarrow> upload_error option) \<Rightarrow> int \<Rightarrow> upload_error option \<Rightarrow> upload_error option \<times> (string \<times> int) list" where
  "upload_from 0 i exits results bytes err = (Some (failedRetries err), [])"
| "upload_from (Suc n) i exits results bytes err =
    (if exits i then (None, [])
     else case results i of
       Some (retriableError e) \<Rightarrow>
         (case upload_from n (Suc i) exits results bytes (Some (retriableError e)) of (r, c) \<Rightarrow> (r, (''upload_retry'', 1) # c))
     | Some e \<Rightarrow> (Some e, [(''upload_error'', 1)])
     | None \<Rightarrow> (None, [(''upload_success'', 1), (''uploaded_profile_bytes'', bytes)]))"

definition upload :: "(nat \<Rightarrow> bool) \<Rightarrow> (nat \<Rightarrow> upload_error option) \<Rightarrow> batch \<Rightarrow> upload_error option \<times> (string \<times> int) list" where
  "upload exits results bat = upload_from maxRetries 0 exits results (int (sum_list (map (length \<circ> pf_data) (bt_profiles bat)))) None"

text \<open>The files that \<open>outputDir\<close> writes, as the elements of their paths, up to the first error.\<close>

fun write_files :: "(string list \<Rightarrow> bool) \<Rightarrow> string list \<Rightarrow> prof_profile list \<Rightarrow> (string list \<times> byte list) list \<times> bool" where
  "write_files writable dir [] = ([], True)"
| "write_files writable dir (p # ps) =
    (if writable (dir @ [pf_name p]) then (case write_files writable dir ps of (fs, ok) \<Rightarrow> ((dir @ [pf_name p], pf_data p) # fs, ok))
     else ([], False))"

definition prof_outputDir :: "(int \<Rightarrow> string) \<Rightarrow> (string list \<Rightarrow> bool) \<Rightarrow> prof_config \<Rightarrow> batch \<Rightarrow> string list option \<times> (string list \<times> byte list) list \<times> bool" where
  "prof_outputDir utc writable cfg bat =
    (if pc_outputDir cfg = [] then (None, [], True)
     else
       let dir = [pc_outputDir cfg, utc (bt_end bat)]
       in if \<not> writable dir then (None, [], False)
          else (Some dir, write_files writable dir (bt_profiles bat)))"

subsection \<open>Laws\<close>

text \<open>The largest pause is the maximum over the recent entries of the ring, up to the first one that ended before the period.\<close>

lemma max_pause_eq:
  "max_pause st start os m = fold (\<lambda>k m. max (ms_PauseNs st ! k) m) (takeWhile (\<lambda>k. start \<le> sint (ms_PauseEnd st ! k)) os) m"
  by (induction st start os m rule: max_pause.induct) (auto simp: max_def not_less)

lemma ring_slot_inj:
  assumes "(n + 255 - i) mod 256 = (n + 255 - j) mod (256 :: nat)" "i \<le> j" "j < 256"
  shows "i = j"
proof -
  have "256 dvd (n + 255 - i) - (n + 255 - j)" using assms by (intro mod_eq_dvd_iff_nat[THEN iffD1]) simp_all
  moreover have "(n + 255 - i) - (n + 255 - j) = j - i" using assms(2,3) by simp
  ultimately show ?thesis using assms(2,3) by (auto dest: dvd_imp_le)
qed

lemma pause_offsets_ring: "length (pause_offsets n) = 256" "distinct (pause_offsets n)" "set (pause_offsets n) = {..<256}"
proof -
  show l: "length (pause_offsets n) = 256" by (simp add: pause_offsets_def)
  show d: "distinct (pause_offsets n)"
    unfolding pause_offsets_def distinct_map
  proof (intro conjI inj_onI)
    fix i j :: nat
    assume a: "i \<in> set [0..<256]" "j \<in> set [0..<256]" "(unat n + 255 - i) mod 256 = (unat n + 255 - j) mod 256"
    then have "i < 256" "j < 256" by auto
    with a(3) show "i = j" using ring_slot_inj[of "unat n" i j] ring_slot_inj[of "unat n" j i] by (cases "i \<le> j") simp_all
  qed simp
  have "set (pause_offsets n) \<subseteq> {..<256}" by (auto simp: pause_offsets_def)
  then show "set (pause_offsets n) = {..<256}" using l d by (intro card_subset_eq) (simp_all add: distinct_card)
qed

lemma maxPauseNs_upper:
  assumes "k \<in> set (takeWhile (\<lambda>k. start \<le> sint (ms_PauseEnd st ! k)) (pause_offsets (ms_NumGC st)))"
  shows "ms_PauseNs st ! k \<le> maxPauseNs st start"
proof -
  have "ms_PauseNs st ! k \<le> fold (\<lambda>k m. max (ms_PauseNs st ! k) m) ks m" if "k \<in> set ks" for ks m
  proof -
    have mono: "m \<le> fold (\<lambda>k m. max (ms_PauseNs st ! k) m) ks m" for ks m
      by (induction ks arbitrary: m) (auto intro: order.trans[OF max.cobounded2])
    show ?thesis using that
    proof (induction ks arbitrary: m)
      case (Cons j ks)
      then show ?case using mono[of "max (ms_PauseNs st ! j) m" ks] by auto
    qed simp
  qed
  then show ?thesis using assms by (simp add: maxPauseNs_def max_pause_eq)
qed

text \<open>Only finite values are marshalled, which JSON can represent.\<close>

lemma metrics_report_marshals:
  assumes "\<And>ps. list_all (f64_finite \<circ> snd) ps \<Longrightarrow> marshal ps \<noteq> None"
  shows "fst (metrics_report marshal stats now m) \<noteq> Inl metricsMarshal"
proof -
  have "list_all (f64_finite \<circ> snd) (removeInvalid ps)" for ps by (auto simp: removeInvalid_def list_all_iff)
  from assms[OF this, of "computeMetrics (mt_stats m) stats (time_Sub now (mt_collectedAt m)) now"] show ?thesis
    by (auto simp: metrics_report_def Let_def)
qed

text \<open>Every batch has at most one profile of each enabled type, whatever the order in which the types finish.\<close>

lemma run_profiles_length: "length (fst (run_profiles lib rd ts p)) \<le> length ts"
proof (induction ts arbitrary: p)
  case (Cons t ts)
  obtain r p1 where r: "runProfile lib rd t p = (r, p1)" by fastforce
  obtain profs p2 where ps: "run_profiles lib rd ts p1 = (profs, p2)" by fastforce
  show ?case using Cons.IH[of p1] by (simp add: r ps split: sum.split)
qed simp

lemma enabledProfileTypes_props:
  "distinct (enabledProfileTypes cfg)" "CPUProfile \<in> set (pc_types cfg) \<Longrightarrow> hd (enabledProfileTypes cfg) = CPUProfile"
  by (simp_all add: enabledProfileTypes_def)

text \<open>
  An error of the lookup is lost when differences are enabled: the difference of what was written so far is
  returned instead.
\<close>

lemma lookup_error_lost:
  assumes "rd_lookup rd name 0 = (data, Some e)" "map_of (co_deltas p) pt = Some dp" "pc_deltaProfiles (co_cfg p)"
    "Delta lib data dp = (Inr delta, dp')" "c_allocations rd (co_cfg p) pt = None"
  shows "fst (collectGenericProfile lib rd name pt p) = Inr delta"
  using assms by (simp add: collectGenericProfile_def Let_def)

text \<open>
  The upload stops at the first answer that is final.  A batch whose requests all fail is given up after two
  requests, that is after one retry, although the error tells of two retries.
\<close>

lemma upload_cases:
  "upload exits results bat =
    (let bytes = int (sum_list (map (length \<circ> pf_data) (bt_profiles bat)));
         final = (\<lambda>r. case r of None \<Rightarrow> (None, [(''upload_success'', 1), (''uploaded_profile_bytes'', bytes)]) | Some e \<Rightarrow> (Some e, [(''upload_error'', 1)]))
     in if exits 0 then (None, [])
        else case results 0 of
          Some (retriableError _) \<Rightarrow>
            (if exits 1 then (None, [(''upload_retry'', 1)])
             else case results 1 of
               Some (retriableError e) \<Rightarrow> (Some (failedRetries (Some (retriableError e))), [(''upload_retry'', 1), (''upload_retry'', 1)])
             | r \<Rightarrow> map_prod id ((#) (''upload_retry'', 1)) (final r))
        | r \<Rightarrow> final r)"
  by (auto simp: upload_def numeral_2_eq_2 Let_def split: option.splits upload_error.splits prod.splits)

end
