(* ===== verification/Profiler.thy ===== *)
theory Profiler
  imports Profiler_Ops
begin

section \<open>profiler/profiler.go: the queue between collection and upload\<close>

text \<open>
  Two goroutines: \<open>collect\<close> builds a batch in every period and offers it to a channel of five, evicting the
  oldest batch when there is no room; \<open>send\<close> takes batches, writes them to a directory and uploads them.  \<open>prof_step\<close>
  interleaves them at every operation on the channel and at every attempt of an upload, together with \<open>stop\<close>.  The
  fields \<open>ps_built\<close>, \<open>ps_taken\<close> and \<open>ps_requests\<close> are the history.
\<close>

subsection \<open>A new profiler and its start\<close>

record profiler =
  pr_co :: prof_collector
  pr_seq :: u64
  pr_telemetry :: tclient
  pr_runtime :: "(string \<times> int) list"

definition zero_memStats :: memStats where
  "zero_memStats = \<lparr>ms_TotalAlloc = 0, ms_Mallocs = 0, ms_Frees = 0, ms_HeapAlloc = 0, ms_PauseTotalNs = 0, ms_NumGC = 0,
     ms_PauseNs = replicate 256 0, ms_PauseEnd = replicate 256 0\<rparr>"

definition new_deltas :: "prof_config \<Rightarrow> (ProfileType \<times> deltaProfiler) list" where
  "new_deltas cfg = concat (map (\<lambda>pt. let d = pt_DeltaValues (pt_lookup pt) in if length d > 0 then [(pt, newDeltaProfiler d)] else []) (pc_types cfg))"

text \<open>\<open>proxied\<close> parses the URL of the agent and sets its path to the one of the telemetry proxy.\<close>

definition prof_telemetry :: "process \<Rightarrow> (string \<Rightarrow> string option) \<Rightarrow> prof_config \<Rightarrow> tclient" where
  "prof_telemetry os proxied cfg =
    (let c = \<lparr>tc_URL = [], tc_APIKey = pc_apiKey cfg, tc_SubmissionInterval = 0, tc_heartbeatInterval = 0, tc_Namespace = ''profilers'',
           tc_Service = pc_service cfg, tc_Env = pc_env cfg, tc_Version = [],
           tc_Disabled = (\<not> BoolEnv os ''DD_INSTRUMENTATION_TELEMETRY_ENABLED'' False), tc_debug = False, tc_started = False, tc_seqID = 0,
           tc_flushT = False, tc_heartbeatT = False, tc_requests = [], tc_metrics = [], tc_newMetrics = False, tc_submitted = []\<rparr>
     in if pc_agentless cfg then c\<lparr>tc_URL := ''https://instrumentation-telemetry-intake.datadoghq.com/api/v2/apmtelemetry''\<rparr>
        else case proxied (pc_agentURL cfg) of
          Some u \<Rightarrow> c\<lparr>tc_URL := u\<rparr>
        | None \<Rightarrow> c\<lparr>tc_Disabled := True\<rparr>)"

definition newProfiler ::
  "process \<Rightarrow> prof_runtime \<Rightarrow> (string \<Rightarrow> string option) \<Rightarrow> globals \<Rightarrow> string \<Rightarrow> ProfOption list \<Rightarrow> prof_error + profiler" where
  "newProfiler os rt proxied g versionTag opts =
    (case newProfiler_config os rt g versionTag opts of
       Inl e \<Rightarrow> Inl e
     | Inr cfg \<Rightarrow> Inr \<lparr>pr_co = \<lparr>co_cfg = cfg, co_deltas = new_deltas cfg, co_met = \<lparr>mt_collectedAt = 0, mt_stats = zero_memStats\<rparr>\<rparr>,
         pr_seq = 0, pr_telemetry = prof_telemetry os proxied cfg, pr_runtime = []\<rparr>)"

definition profile_configuration :: "prof_config \<Rightarrow> Configuration list" where
  "profile_configuration cfg =
    (let on = (\<lambda>t. VBool (t \<in> set (pc_types cfg)))
     in map (\<lambda>(n, v). \<lparr>co_Name = n, co_Value = v\<rparr>)
       [(''delta_profiles'', VBool (pc_deltaProfiles cfg)), (''agentless'', VBool (pc_agentless cfg)),
        (''profile_period'', VString (Duration_String (pc_period cfg))), (''cpu_duration'', VString (Duration_String (pc_cpuDuration cfg))),
        (''cpu_profile_rate'', VInt (pc_cpuProfileRate cfg)), (''block_profile_rate'', VInt (pc_blockRate cfg)),
        (''mutex_profile_fraction'', VInt (pc_mutexFraction cfg)), (''max_goroutines_wait'', VInt (pc_maxGoroutinesWait cfg)),
        (''cpu_profile_enabled'', on CPUProfile), (''heap_profile_enabled'', on HeapProfile), (''block_profile_enabled'', on BlockProfile),
        (''mutex_profile_enabled'', on MutexProfile), (''goroutine_profile_enabled'', on GoroutineProfile),
        (''goroutine_wait_profile_enabled'', on expGoroutineWaitProfile), (''upload_timeout'', VString (Duration_String (pc_uploadTimeout cfg)))])"

text \<open>\<open>run\<close> up to the start of the two goroutines; the baseline of the metrics is what the first one collects.\<close>

definition prof_run :: "process \<Rightarrow> globals \<Rightarrow> string \<Rightarrow> Dependency list \<Rightarrow> int \<Rightarrow> memStats \<Rightarrow> profiler \<Rightarrow> profiler" where
  "prof_run os g versionTag deps now stats p =
    (let cfg = co_cfg (pr_co p)
     in p\<lparr>pr_telemetry := tel_Start os g versionTag deps now [] (profile_configuration cfg) (pr_telemetry p),
          pr_runtime := pr_runtime p @ (if MutexProfile \<in> set (pc_types cfg) then [(''SetMutexProfileFraction'', pc_mutexFraction cfg)] else [])
            @ (if BlockProfile \<in> set (pc_types cfg) then [(''SetBlockProfileRate'', pc_blockRate cfg)] else []),
          pr_co := (pr_co p)\<lparr>co_met := metrics_reset stats now (co_met (pr_co p))\<rparr>\<rparr>)"

subsection \<open>The two goroutines\<close>

datatype collect_pc = CLoop | CEnqueue batch | CEvict batch | CWait | CDone
datatype send_pc = SIdle | SUpload batch nat | SDone

record prof_state =
  ps_prof :: profiler
  ps_collect :: collect_pc
  ps_send :: send_pc
  ps_out :: "batch list"
  ps_closed :: bool
  ps_exit :: bool
  ps_built :: "batch list"
  ps_taken :: "(bool \<times> batch) list"
  ps_requests :: "batch list"
  ps_dirs :: "string list list"

abbreviation (input) "outChannelSize \<equiv> (5 :: nat)"

definition prof_init :: "profiler \<Rightarrow> prof_state" where
  "prof_init p = \<lparr>ps_prof = p, ps_collect = CLoop, ps_send = SIdle, ps_out = [], ps_closed = False, ps_exit = False,
     ps_built = [], ps_taken = [], ps_requests = [], ps_dirs = []\<rparr>"

abbreviation ps_cfg :: "prof_state \<Rightarrow> prof_config" where
  "ps_cfg s \<equiv> co_cfg (pr_co (ps_prof s))"

text \<open>One round of \<open>collect\<close> up to the complete batch; \<open>ts\<close> is the order in which the types finish.\<close>

definition collect_batch :: "pprof_lib \<Rightarrow> rt_data \<Rightarrow> ProfileType list \<Rightarrow> int \<Rightarrow> prof_state \<Rightarrow> prof_state" where
  "collect_batch lib rd ts now s =
    (let p = ps_prof s;
         (profs, co) = run_profiles lib rd ts (pr_co p);
         bat = \<lparr>bt_seq = pr_seq p, bt_start = now, bt_end = now + pc_cpuDuration (ps_cfg s), bt_host = pc_hostname (ps_cfg s), bt_profiles = profs\<rparr>
     in s\<lparr>ps_prof := p\<lparr>pr_seq := pr_seq p + 1, pr_co := co\<rparr>, ps_collect := CEnqueue bat, ps_built := ps_built s @ [bat]\<rparr>)"

text \<open>\<open>enqueueUpload\<close>: an offer to the channel, or a turn of eviction when it is full; somebody else may take between both.\<close>

definition enqueue_offer :: "batch \<Rightarrow> prof_state \<Rightarrow> prof_state" where
  "enqueue_offer bat s =
    (if length (ps_out s) < outChannelSize then s\<lparr>ps_out := ps_out s @ [bat], ps_collect := CWait\<rparr>
     else s\<lparr>ps_collect := CEvict bat\<rparr>)"

definition enqueue_evict :: "batch \<Rightarrow> prof_state \<Rightarrow> prof_state" where
  "enqueue_evict bat s =
    (case ps_out s of
       [] \<Rightarrow> s\<lparr>ps_collect := CEnqueue bat\<rparr>
     | old # rest \<Rightarrow> s\<lparr>ps_out := rest, ps_taken := ps_taken s @ [(False, old)], ps_collect := CEnqueue bat\<rparr>)"

definition collect_finish :: "prof_state \<Rightarrow> prof_state" where
  "collect_finish s = s\<lparr>ps_collect := CDone, ps_closed := True\<rparr>"

text \<open>What \<open>send\<close> does with a batch before the upload.\<close>

definition write_batch :: "(int \<Rightarrow> string) \<Rightarrow> (string list \<Rightarrow> bool) \<Rightarrow> batch \<Rightarrow> prof_state \<Rightarrow> prof_state" where
  "write_batch utc writable bat s =
    (case prof_outputDir utc writable (ps_cfg s) bat of (dir, _, _) \<Rightarrow>
       s\<lparr>ps_send := SUpload bat 0, ps_dirs := ps_dirs s @ (case dir of Some d \<Rightarrow> [d] | None \<Rightarrow> [])\<rparr>)"

text \<open>A receive from the channel; from a closed one that is empty it gives the zero batch.\<close>

definition zero_batch :: batch where
  "zero_batch = \<lparr>bt_seq = 0, bt_start = 0, bt_end = 0, bt_host = [], bt_profiles = []\<rparr>"

definition send_receive :: "(int \<Rightarrow> string) \<Rightarrow> (string list \<Rightarrow> bool) \<Rightarrow> prof_state \<Rightarrow> prof_state option" where
  "send_receive utc writable s =
    (case ps_out s of
       bat # rest \<Rightarrow> Some (write_batch utc writable bat (s\<lparr>ps_out := rest, ps_taken := ps_taken s @ [(True, bat)]\<rparr>))
     | [] \<Rightarrow> if ps_closed s then Some (write_batch utc writable zero_batch s) else None)"

text \<open>One turn of the loop of \<open>upload\<close>.\<close>

definition upload_attempt :: "network \<Rightarrow> upload_env \<Rightarrow> batch \<Rightarrow> nat \<Rightarrow> prof_state \<Rightarrow> prof_state" where
  "upload_attempt nw ue bat i s =
    (if i \<ge> maxRetries \<or> ps_exit s then s\<lparr>ps_send := SIdle\<rparr>
     else
       let s' = s\<lparr>ps_requests := ps_requests s @ [bat]\<rparr>
       in case doRequest nw ue (ps_cfg s) bat of
         Some (retriableError _) \<Rightarrow> s'\<lparr>ps_send := SUpload bat (Suc i)\<rparr>
       | _ \<Rightarrow> s'\<lparr>ps_send := SIdle\<rparr>)"

text \<open>\<open>stop\<close> without its wait: \<open>stopOnce\<close> closes the channel and stops the telemetry.\<close>

definition prof_stop :: "globals \<Rightarrow> string \<Rightarrow> int \<Rightarrow> prof_state \<Rightarrow> prof_state" where
  "prof_stop g versionTag now s =
    (if ps_exit s then s
     else s\<lparr>ps_exit := True, ps_prof := (ps_prof s)\<lparr>pr_telemetry := tel_Stop g versionTag now (pr_telemetry (ps_prof s))\<rparr>\<rparr>)"

inductive prof_step :: "pprof_lib \<Rightarrow> upload_env \<Rightarrow> (int \<Rightarrow> string) \<Rightarrow> prof_state \<Rightarrow> prof_state \<Rightarrow> bool" for lib ue utc where
  collect: "ps_collect s = CLoop \<Longrightarrow> mset ts = mset (enabledProfileTypes (ps_cfg s)) \<Longrightarrow> prof_step lib ue utc s (collect_batch lib rd ts now s)"
| offer: "ps_collect s = CEnqueue bat \<Longrightarrow> prof_step lib ue utc s (enqueue_offer bat s)"
| evict: "ps_collect s = CEvict bat \<Longrightarrow> prof_step lib ue utc s (enqueue_evict bat s)"
| tick: "ps_collect s = CWait \<Longrightarrow> prof_step lib ue utc s (s\<lparr>ps_collect := CLoop\<rparr>)"
| finish: "ps_collect s = CWait \<Longrightarrow> ps_exit s \<Longrightarrow> prof_step lib ue utc s (collect_finish s)"
| receive: "ps_send s = SIdle \<Longrightarrow> send_receive utc writable s = Some s' \<Longrightarrow> prof_step lib ue utc s s'"
| quit: "ps_send s = SIdle \<Longrightarrow> ps_exit s \<Longrightarrow> prof_step lib ue utc s (s\<lparr>ps_send := SDone\<rparr>)"
| attempt: "ps_send s = SUpload bat i \<Longrightarrow> prof_step lib ue utc s (upload_attempt nw ue bat i s)"
| stop: "prof_step lib ue utc s (prof_stop g versionTag now s)"

subsection \<open>Starting and stopping (the globals of the package)\<close>

text \<open>The active profiler; \<open>Start\<close> stops the one before, also when the new one is refused.\<close>

definition prof_Start ::
  "(ProfOption list \<Rightarrow> prof_error + profiler) \<Rightarrow> (profiler \<Rightarrow> profiler) \<Rightarrow> (prof_state \<Rightarrow> prof_state) \<Rightarrow> ProfOption list \<Rightarrow> prof_state option
    \<Rightarrow> prof_error option \<times> prof_state option" where
  "prof_Start create run stop opts active =
    (let active = map_option stop active
     in case create opts of
       Inl e \<Rightarrow> (Some e, active)
     | Inr p \<Rightarrow> (None, Some (prof_init (run p))))"

definition prof_Stop :: "(prof_state \<Rightarrow> prof_state) \<Rightarrow> prof_state option \<Rightarrow> prof_state option \<times> prof_state option" where
  "prof_Stop stop active = (map_option stop active, None)"

subsection \<open>The invariant\<close>

definition pending :: "prof_state \<Rightarrow> batch list" where
  "pending s = (case ps_collect s of CEnqueue b \<Rightarrow> [b] | CEvict b \<Rightarrow> [b] | _ \<Rightarrow> [])"

definition received :: "prof_state \<Rightarrow> batch list" where
  "received s = map snd (filter fst (ps_taken s))"

definition attempts :: "nat list \<Rightarrow> batch list \<Rightarrow> batch list" where
  "attempts ks bs = concat (map2 replicate ks bs)"

lemma attempts_snoc: "length ks = length bs \<Longrightarrow> attempts (ks @ [k]) (bs @ [b]) = attempts ks bs @ replicate k b"
  by (simp add: attempts_def)

text \<open>The queue: what was built is what was taken, what waits and what is being offered, in this order.\<close>

definition queue_inv :: "prof_state \<Rightarrow> bool" where
  "queue_inv s \<longleftrightarrow> length (ps_out s) \<le> outChannelSize \<and> map snd (ps_taken s) @ ps_out s @ pending s = ps_built s
    \<and> pr_seq (ps_prof s) = of_nat (length (ps_built s)) \<and> map bt_seq (ps_built s) = map of_nat [0..<length (ps_built s)]
    \<and> (ps_closed s \<longrightarrow> ps_exit s)"

text \<open>The upload: \<open>ks\<close> are the numbers of requests of the batches that were received.\<close>

definition send_inv :: "nat list \<Rightarrow> prof_state \<Rightarrow> bool" where
  "send_inv ks s \<longleftrightarrow> length ks = length (received s) \<and> list_all (\<lambda>k. k \<le> maxRetries) ks \<and> ps_requests s = attempts ks (received s)
    \<and> (case ps_send s of
         SUpload b i \<Rightarrow> ps_exit s \<or> (\<exists>ks' bs. ks = ks' @ [i] \<and> received s = bs @ [b])
       | _ \<Rightarrow> True)"

lemmas prof_defs = pending_def received_def collect_finish_def prof_stop_def

lemma collect_batch_sel:
  "\<exists>bat p. collect_batch lib rd ts now s = s\<lparr>ps_prof := p, ps_collect := CEnqueue bat, ps_built := ps_built s @ [bat]\<rparr>
    \<and> bt_seq bat = pr_seq (ps_prof s) \<and> pr_seq p = pr_seq (ps_prof s) + 1"
  by (simp add: collect_batch_def Let_def split: prod.split) (auto intro!: exI)

lemma send_receive_cases:
  assumes "send_receive utc writable s = Some s'"
  obtains (batch) bat rest ds where "ps_out s = bat # rest"
      "s' = s\<lparr>ps_out := rest, ps_taken := ps_taken s @ [(True, bat)], ps_send := SUpload bat 0, ps_dirs := ds\<rparr>"
  | (closed) ds where "ps_out s = []" "ps_closed s" "s' = s\<lparr>ps_send := SUpload zero_batch 0, ps_dirs := ds\<rparr>"
  using assms by (auto simp: send_receive_def write_batch_def split: list.splits if_splits prod.splits)

lemma upload_attempt_cases:
  obtains (stopped) "upload_attempt nw ue bat i s = s\<lparr>ps_send := SIdle\<rparr>"
  | (request) pc where "i < maxRetries" "\<not> ps_exit s" "pc = SIdle \<or> pc = SUpload bat (Suc i)"
      "upload_attempt nw ue bat i s = s\<lparr>ps_requests := ps_requests s @ [bat], ps_send := pc\<rparr>"
proof (cases "i \<ge> maxRetries \<or> ps_exit s")
  case True
  then show thesis by (intro stopped) (simp add: upload_attempt_def)
next
  case False
  let ?pc = "case doRequest nw ue (ps_cfg s) bat of Some (retriableError _) \<Rightarrow> SUpload bat (Suc i) | _ \<Rightarrow> SIdle"
  show thesis
    by (rule request[of ?pc])
      (use False in \<open>auto simp: upload_attempt_def Let_def split: option.splits upload_error.splits\<close>)
qed

lemma prof_step_queue:
  assumes "prof_step lib ue utc s s'" "queue_inv s"
  shows "queue_inv s'"
  using assms
proof (induction rule: prof_step.induct)
  case (collect s ts rd now)
  obtain bat p where c: "collect_batch lib rd ts now s = s\<lparr>ps_prof := p, ps_collect := CEnqueue bat, ps_built := ps_built s @ [bat]\<rparr>"
    "bt_seq bat = pr_seq (ps_prof s)" "pr_seq p = pr_seq (ps_prof s) + 1" using collect_batch_sel by blast
  then show ?case using collect by (auto simp: queue_inv_def pending_def)
next
  case (receive s writable s')
  from receive(2) show ?case
    by (cases rule: send_receive_cases) (use receive in \<open>auto simp: queue_inv_def pending_def\<close>)
next
  case (attempt s bat i nw)
  then show ?case by (cases rule: upload_attempt_cases[of nw ue bat i s]) (auto simp: queue_inv_def pending_def)
qed (auto simp: queue_inv_def enqueue_offer_def enqueue_evict_def prof_defs split: list.splits)

lemma received_cong: "ps_taken s' = ps_taken s \<Longrightarrow> received s' = received s"
  by (simp add: received_def)

lemma send_inv_cong:
  "send_inv ks s \<Longrightarrow> received s' = received s \<Longrightarrow> ps_requests s' = ps_requests s \<Longrightarrow> ps_send s' = ps_send s \<Longrightarrow> (ps_exit s \<Longrightarrow> ps_exit s') \<Longrightarrow> send_inv ks s'"
  by (auto simp: send_inv_def split: send_pc.splits)

lemma send_inv_idle:
  "send_inv ks s \<Longrightarrow> received s' = received s \<Longrightarrow> ps_requests s' = ps_requests s \<Longrightarrow> ps_send s' \<in> {SIdle, SDone} \<Longrightarrow> send_inv ks s'"
  by (auto simp: send_inv_def)

lemma prof_step_send:
  assumes "prof_step lib ue utc s s'" "queue_inv s" "send_inv ks s"
  shows "\<exists>ks'. send_inv ks' s'"
  using assms
proof (induction rule: prof_step.induct)
  case (collect s ts rd now)
  obtain bat p where "collect_batch lib rd ts now s = s\<lparr>ps_prof := p, ps_collect := CEnqueue bat, ps_built := ps_built s @ [bat]\<rparr>"
    using collect_batch_sel by blast
  then have "send_inv ks (collect_batch lib rd ts now s)" by (intro send_inv_cong[OF collect(4)]) (simp_all add: received_def)
  then show ?case by blast
next
  case (offer s bat)
  then have "send_inv ks (enqueue_offer bat s)" by (intro send_inv_cong[OF offer(3)]) (simp_all add: enqueue_offer_def received_def)
  then show ?case by blast
next
  case (evict s bat)
  then have "send_inv ks (enqueue_evict bat s)" by (intro send_inv_cong[OF evict(3)]) (simp_all add: enqueue_evict_def received_def split: list.splits)
  then show ?case by blast
next
  case (tick s)
  then have "send_inv ks (s\<lparr>ps_collect := CLoop\<rparr>)" by (intro send_inv_cong[OF tick(3)]) (simp_all add: received_def)
  then show ?case by blast
next
  case (finish s)
  then have "send_inv ks (collect_finish s)" by (intro send_inv_cong[OF finish(4)]) (simp_all add: collect_finish_def received_def)
  then show ?case by blast
next
  case (stop s g versionTag now)
  then have "send_inv ks (prof_stop g versionTag now s)" by (intro send_inv_cong[OF stop(2)]) (simp_all add: prof_stop_def received_def)
  then show ?case by blast
next
  case (quit s)
  then have "send_inv ks (s\<lparr>ps_send := SDone\<rparr>)" by (intro send_inv_idle[OF quit(4)]) (simp_all add: received_def)
  then show ?case by blast
next
  case (receive s writable s')
  from receive(2) show ?case
  proof (cases rule: send_receive_cases)
    case (batch bat rest ds)
    then have "received s' = received s @ [bat]" by (simp add: received_def)
    then have "send_inv (ks @ [0]) s'" using receive batch by (auto simp: send_inv_def attempts_snoc)
    then show ?thesis by blast
  next
    case (closed ds)
    then have "send_inv ks s'" using receive by (auto simp: send_inv_def queue_inv_def received_def)
    then show ?thesis by blast
  qed
next
  case (attempt s bat i nw)
  show ?case
  proof (cases rule: upload_attempt_cases[of nw ue bat i s])
    case stopped
    then have "send_inv ks (upload_attempt nw ue bat i s)" by (intro send_inv_idle[OF attempt(3)]) (simp_all add: received_def)
    then show ?thesis by blast
  next
    case (request pc)
    let ?s = "upload_attempt nw ue bat i s"
    obtain ks' bs where k: "ks = ks' @ [i]" "received s = bs @ [bat]" using attempt request(2) by (auto simp: send_inv_def)
    have r: "received ?s = bs @ [bat]" using k(2) request(4) by (simp add: received_def)
    have "ps_requests ?s = attempts (ks' @ [Suc i]) (bs @ [bat])"
      using attempt(3) k request(4) by (auto simp: send_inv_def attempts_snoc replicate_append_same)
    then have "send_inv (ks' @ [Suc i]) ?s"
      using attempt(3) k request(1,3,4) r by (auto simp: send_inv_def)
    then show ?thesis by blast
  qed
qed

definition prof_inv :: "prof_state \<Rightarrow> bool" where
  "prof_inv s \<longleftrightarrow> queue_inv s \<and> (\<exists>ks. send_inv ks s)"

lemma prof_reach_inv: "(prof_step lib ue utc)\<^sup>*\<^sup>* s s' \<Longrightarrow> prof_inv s \<Longrightarrow> prof_inv s'"
  by (induction rule: rtranclp_induct) (auto simp: prof_inv_def intro: prof_step_queue dest: prof_step_send)

lemma prof_init_inv: "pr_seq p = 0 \<Longrightarrow> prof_inv (prof_init p)"
  by (auto simp: prof_inv_def queue_inv_def send_inv_def prof_init_def pending_def received_def attempts_def)

lemma newProfiler_seq: "newProfiler os rt proxied g ver opts = Inr p \<Longrightarrow> pr_seq (prof_run os g ver deps now stats p) = 0"
  by (auto simp: newProfiler_def prof_run_def Let_def split: sum.splits)

text \<open>
  C33: however collection, eviction, upload and stop interleave, no batch is lost or duplicated in the queue of five:
  the batches that were built, numbered without a gap, are those that were evicted or received, those that wait
  and the one on offer, in this order.  Requests go out in the order of the batches, at most two for each
  batch that was received, and none for an evicted one.
\<close>

theorem profiler_queue:
  assumes "newProfiler os rt proxied g ver opts = Inr p"
    "(prof_step lib ue utc)\<^sup>*\<^sup>* (prof_init (prof_run os g ver deps now stats p)) s"
  shows "length (ps_out s) \<le> outChannelSize \<and> map snd (ps_taken s) @ ps_out s @ pending s = ps_built s
    \<and> map bt_seq (ps_built s) = map of_nat [0..<length (ps_built s)]
    \<and> (\<exists>ks. length ks = length (received s) \<and> list_all (\<lambda>k. k \<le> maxRetries) ks \<and> ps_requests s = attempts ks (received s))"
proof -
  have "prof_inv s" using prof_reach_inv[OF assms(2)] prof_init_inv newProfiler_seq[OF assms(1)] by blast
  then show ?thesis by (auto simp: prof_inv_def queue_inv_def send_inv_def)
qed

subsection \<open>Stopping\<close>

lemma exit_stays: "(prof_step lib ue utc)\<^sup>*\<^sup>* s s' \<Longrightarrow> ps_exit s \<Longrightarrow> ps_exit s'"
proof (induction rule: rtranclp_induct)
  case (step s' s'')
  then have "ps_exit s'" by blast
  with step(2) show ?case
  proof (induction rule: prof_step.induct)
    case (collect s ts rd now)
    then show ?case using collect_batch_sel[of lib rd ts now s] by auto
  next
    case (receive s writable s')
    from receive(2) show ?case by (cases rule: send_receive_cases) (use receive in simp_all)
  next
    case (attempt s bat i nw)
    then show ?case by (cases rule: upload_attempt_cases[of nw ue bat i s]) auto
  qed (auto simp: enqueue_offer_def enqueue_evict_def collect_finish_def prof_stop_def split: list.splits)
qed simp

text \<open>A batch on offer gets into the queue, after at most one eviction.\<close>

lemma offer_ends:
  assumes "ps_collect s = CEnqueue bat" "length (ps_out s) \<le> outChannelSize"
  shows "\<exists>s'. (prof_step lib ue utc)\<^sup>*\<^sup>* s s' \<and> ps_collect s' = CWait \<and> ps_send s' = ps_send s"
proof (cases "length (ps_out s) < outChannelSize")
  case True
  then show ?thesis using prof_step.offer[OF assms(1)] by (auto simp: enqueue_offer_def intro!: exI[of _ "enqueue_offer bat s"])
next
  case False
  then obtain old rest where out: "ps_out s = old # rest" by (cases "ps_out s") auto
  let ?s1 = "enqueue_offer bat s" let ?s2 = "enqueue_evict bat ?s1" let ?s3 = "enqueue_offer bat ?s2"
  have s1: "ps_collect ?s1 = CEvict bat" "ps_out ?s1 = old # rest" "ps_send ?s1 = ps_send s" using False out by (simp_all add: enqueue_offer_def)
  have s2: "ps_collect ?s2 = CEnqueue bat" "ps_out ?s2 = rest" "ps_send ?s2 = ps_send s" using s1 by (simp_all add: enqueue_evict_def)
  have "ps_collect ?s3 = CWait" "ps_send ?s3 = ps_send s" using s2 assms(2) out by (simp_all add: enqueue_offer_def)
  moreover have "(prof_step lib ue utc)\<^sup>*\<^sup>* s ?s3"
    using prof_step.offer[OF assms(1), of lib ue utc] prof_step.evict[OF s1(1), of lib ue utc] prof_step.offer[OF s2(1), of lib ue utc]
    by (meson converse_rtranclp_into_rtranclp rtranclp.rtrancl_refl)
  ultimately show ?thesis by blast
qed

lemma collect_ends:
  assumes "ps_exit s" "queue_inv s"
  shows "\<exists>s'. (prof_step lib ue utc)\<^sup>*\<^sup>* s s' \<and> ps_collect s' = CDone \<and> ps_send s' = ps_send s"
proof -
  have wait: "\<exists>s'. (prof_step lib ue utc)\<^sup>*\<^sup>* s s' \<and> ps_collect s' = CDone \<and> ps_send s' = pc"
    if r: "(prof_step lib ue utc)\<^sup>*\<^sup>* s t" "ps_collect t = CWait" "ps_send t = pc" for t pc
  proof -
    have "prof_step lib ue utc t (collect_finish t)" using exit_stays[OF r(1) assms(1)] r(2) by (intro prof_step.finish)
    then show ?thesis using r by (intro exI[of _ "collect_finish t"]) (auto simp: collect_finish_def)
  qed
  have enq: "\<exists>s'. (prof_step lib ue utc)\<^sup>*\<^sup>* s s' \<and> ps_collect s' = CDone \<and> ps_send s' = ps_send s"
    if r: "(prof_step lib ue utc)\<^sup>*\<^sup>* s t" "ps_collect t = CEnqueue bat" "ps_send t = ps_send s" "length (ps_out t) \<le> outChannelSize" for t bat
  proof -
    obtain t' where t': "(prof_step lib ue utc)\<^sup>*\<^sup>* t t'" "ps_collect t' = CWait" "ps_send t' = ps_send t"
      using offer_ends[OF r(2,4), of lib ue utc] by blast
    show ?thesis by (rule wait[OF rtranclp_trans[OF r(1) t'(1)] t'(2)]) (simp add: t'(3) r(3))
  qed
  have out: "length (ps_out s) \<le> outChannelSize" using assms(2) by (simp add: queue_inv_def)
  show ?thesis
  proof (cases "ps_collect s")
    case CLoop
    let ?rd = "\<lparr>rd_cpu = Inr [], rd_lookup = (\<lambda>_ _. ([], None)), rd_stacks = (\<lambda>_. Inr ([], [])), rd_NumGoroutine = 0, rd_cAlloc = None,
        rd_stats = zero_memStats, rd_now = 0, rd_marshal = (\<lambda>_. None)\<rparr>"
    let ?t = "collect_batch lib ?rd (enabledProfileTypes (ps_cfg s)) 0 s"
    have "prof_step lib ue utc s ?t" by (rule prof_step.collect[OF CLoop refl])
    moreover obtain bat p where "?t = s\<lparr>ps_prof := p, ps_collect := CEnqueue bat, ps_built := ps_built s @ [bat]\<rparr>" using collect_batch_sel by blast
    ultimately show ?thesis using out by (intro enq[OF r_into_rtranclp, of ?t bat]) simp_all
  next
    case (CEnqueue bat)
    then show ?thesis using out by (intro enq[OF rtranclp.rtrancl_refl, of bat]) simp_all
  next
    case (CEvict bat)
    let ?t = "enqueue_evict bat s"
    have "prof_step lib ue utc s ?t" using CEvict by (rule prof_step.evict)
    moreover have "ps_collect ?t = CEnqueue bat" "ps_send ?t = ps_send s" "length (ps_out ?t) \<le> outChannelSize"
      using out by (auto simp: enqueue_evict_def split: list.splits)
    ultimately show ?thesis by (intro enq[OF r_into_rtranclp, of ?t bat])
  next
    case CWait
    then show ?thesis by (intro wait[OF rtranclp.rtrancl_refl]) simp_all
  next
    case CDone
    then show ?thesis by (intro exI[of _ s]) simp
  qed
qed

lemma send_ends:
  assumes "ps_exit s"
  shows "\<exists>s'. (prof_step lib ue utc)\<^sup>*\<^sup>* s s' \<and> ps_send s' = SDone \<and> ps_collect s' = ps_collect s"
proof (cases "ps_send s")
  case SIdle
  then show ?thesis using prof_step.quit[OF SIdle assms, of lib ue utc] by (intro exI[of _ "s\<lparr>ps_send := SDone\<rparr>"]) auto
next
  case (SUpload b i)
  let ?nw = "\<lparr>nw_url_ok = (\<lambda>_. True), nw_Do = (\<lambda>_ _. DoError [])\<rparr>"
  let ?t = "s\<lparr>ps_send := SIdle\<rparr>"
  have "upload_attempt ?nw ue b i s = ?t" using assms by (simp add: upload_attempt_def)
  then have "prof_step lib ue utc s ?t" using prof_step.attempt[OF SUpload, of lib ue utc ?nw] by simp
  moreover have "prof_step lib ue utc ?t (?t\<lparr>ps_send := SDone\<rparr>)" using assms by (intro prof_step.quit) simp_all
  ultimately show ?thesis by (intro exI[of _ "?t\<lparr>ps_send := SDone\<rparr>"]) (auto intro: converse_rtranclp_into_rtranclp)
qed auto

text \<open>
  From every reachable state in which the profiler is being stopped both goroutines can run to their ends: the wait of
  \<open>stop\<close> is never a deadlock.
\<close>

theorem stop_can_return:
  assumes "newProfiler os rt proxied g ver opts = Inr p"
    "(prof_step lib ue utc)\<^sup>*\<^sup>* (prof_init (prof_run os g ver deps now stats p)) s" "ps_exit s"
  shows "\<exists>s'. (prof_step lib ue utc)\<^sup>*\<^sup>* s s' \<and> ps_collect s' = CDone \<and> ps_send s' = SDone"
proof -
  have "prof_inv s" using prof_reach_inv[OF assms(2)] prof_init_inv newProfiler_seq[OF assms(1)] by blast
  then obtain s1 where s1: "(prof_step lib ue utc)\<^sup>*\<^sup>* s s1" "ps_collect s1 = CDone"
    using collect_ends[OF assms(3)] unfolding prof_inv_def by blast
  then obtain s2 where "(prof_step lib ue utc)\<^sup>*\<^sup>* s1 s2" "ps_send s2 = SDone" "ps_collect s2 = CDone"
    using send_ends[OF exit_stays[OF s1(1) assms(3)], of lib ue utc] by auto
  with s1(1) show ?thesis by (meson rtranclp_trans)
qed

text \<open>
  The closed channel is ready as well: before the sender sees that the profiler is stopped, it may receive a zero batch
  any number of times, which is not uploaded but for which a directory is made.
\<close>

lemma closed_queue_writes_zero_batch:
  assumes "ps_send s = SIdle" "ps_closed s" "ps_out s = []" "pc_outputDir (ps_cfg s) \<noteq> []"
  shows "\<exists>s'. prof_step lib ue utc s s' \<and> ps_send s' = SUpload zero_batch 0 \<and> ps_dirs s' = ps_dirs s @ [[pc_outputDir (ps_cfg s), utc 0]]"
proof -
  let ?s = "write_batch utc (\<lambda>_. True) zero_batch s"
  have "send_receive utc (\<lambda>_. True) s = Some ?s" using assms(2,3) by (simp add: send_receive_def)
  then have "prof_step lib ue utc s ?s" using assms(1) by (intro prof_step.receive)
  then show ?thesis using assms(4) by (intro exI[of _ ?s]) (simp add: write_batch_def prof_outputDir_def Let_def zero_batch_def)
qed

text \<open>A \<open>Start\<close> that fails leaves no profiler running: the one before is stopped already.\<close>

lemma failed_Start_stops:
  assumes "create opts = Inl e"
  shows "prof_Start create run stop opts active = (Some e, map_option stop active)"
  using assms by (simp add: prof_Start_def Let_def)

subsection \<open>A concrete run\<close>

definition sample_upload_env :: upload_env where
  "sample_upload_env = \<lparr>ue_RFC3339 = itoa, ue_multipart = (\<lambda>_. (''multipart/form-data'', [])), ue_containerID = []\<rparr>"

definition sample_rt_data :: rt_data where
  "sample_rt_data = \<lparr>rd_cpu = Inr [1], rd_lookup = (\<lambda>_ _. ([0, 0], None)), rd_stacks = (\<lambda>_. Inr ([], [])), rd_NumGoroutine = 1, rd_cAlloc = None,
     rd_stats = zero_memStats, rd_now = 0, rd_marshal = (\<lambda>_. Some [2])\<rparr>"

abbreviation "sample_created \<equiv> newProfiler sample_prof_process sample_prof_runtime (\<lambda>u. Some u) sample_prof_globals ''v1'' []"

abbreviation "sample_started p \<equiv> prof_init (prof_run sample_prof_process sample_prof_globals ''v1'' [] 0 zero_memStats p)"

lemma sample_created_ok: "\<exists>p. sample_created = Inr p"
  using sample_defaultConfig
  by (auto simp: newProfiler_def newProfiler_config_def sample_prof_process_def Getenv_def target_config_def hostname_config_def check_config_def profileTypes_def)

theorem profiler_queue_witness:
  "\<exists>p s. sample_created = Inr p \<and> (prof_step sample_lib sample_upload_env itoa)\<^sup>*\<^sup>* (sample_started p) s
    \<and> length (ps_out s) = 1 \<and> ps_out s = ps_built s \<and> map bt_seq (ps_built s) = [0]"
proof -
  obtain p where p: "sample_created = Inr p" using sample_created_ok by blast
  let ?s0 = "sample_started p"
  let ?s1 = "collect_batch sample_lib sample_rt_data (enabledProfileTypes (ps_cfg ?s0)) 5 ?s0"
  have c: "ps_collect ?s0 = CLoop" by (simp add: prof_init_def)
  obtain bat p' where s1: "?s1 = ?s0\<lparr>ps_prof := p', ps_collect := CEnqueue bat, ps_built := ps_built ?s0 @ [bat]\<rparr>" using collect_batch_sel by blast
  let ?s2 = "enqueue_offer bat ?s1"
  have "prof_step sample_lib sample_upload_env itoa ?s0 ?s1" using c by (intro prof_step.collect) simp_all
  moreover have "prof_step sample_lib sample_upload_env itoa ?s1 ?s2" by (rule prof_step.offer) (simp add: s1)
  ultimately have r: "(prof_step sample_lib sample_upload_env itoa)\<^sup>*\<^sup>* ?s0 ?s2" by (meson converse_rtranclp_into_rtranclp rtranclp.rtrancl_refl)
  have s2: "ps_out ?s2 = [bat]" "ps_taken ?s2 = []" "pending ?s2 = []" unfolding s1 by (simp_all add: enqueue_offer_def prof_init_def pending_def)
  from profiler_queue[OF p r] s2 have "ps_built ?s2 = [bat]" "map bt_seq (ps_built ?s2) = map of_nat [0..<length (ps_built ?s2)]" by auto
  with p r s2(1) show ?thesis by (intro exI[of _ p] exI[of _ ?s2]) simp
qed

end
