(* ===== verification/Msgp.thy ===== *)
theory Msgp
  imports Stats
begin

section \<open>ddtrace/tracer/span_msgp.go, stats_payload_msgp.go: the wire format\<close>

text \<open>
  The methods that the msgp generator wrote for spans, traces and statistics.  The package msgp is the
  record \<open>msgp_lib\<close>: a writer appends bytes to a buffer, which does not fail; a reader returns a value and the rest of
  the bytes, or \<open>None\<close> for any error.  Keys and the header of a struct are literal bytes in the code.
\<close>

record msgp_lib =
  mp_WriteString :: "string \<Rightarrow> byte list"
  mp_WriteInt64 :: "int \<Rightarrow> byte list"
  mp_WriteInt32 :: "int \<Rightarrow> byte list"
  mp_WriteUint64 :: "u64 \<Rightarrow> byte list"
  mp_WriteUint32 :: "int \<Rightarrow> byte list"
  mp_WriteFloat64 :: "float64 \<Rightarrow> byte list"
  mp_WriteBytes :: "byte list \<Rightarrow> byte list"
  mp_WriteBool :: "bool \<Rightarrow> byte list"
  mp_WriteMapHeader :: "u32 \<Rightarrow> byte list"
  mp_WriteArrayHeader :: "u32 \<Rightarrow> byte list"
  mp_WriteNil :: "byte list"
  mp_ReadString :: "byte list \<Rightarrow> (string \<times> byte list) option"
  mp_ReadInt64 :: "byte list \<Rightarrow> (int \<times> byte list) option"
  mp_ReadInt32 :: "byte list \<Rightarrow> (int \<times> byte list) option"
  mp_ReadUint64 :: "byte list \<Rightarrow> (u64 \<times> byte list) option"
  mp_ReadUint32 :: "byte list \<Rightarrow> (int \<times> byte list) option"
  mp_ReadFloat64 :: "byte list \<Rightarrow> (float64 \<times> byte list) option"
  mp_ReadBytes :: "byte list \<Rightarrow> (byte list \<times> byte list) option"
  mp_ReadBool :: "byte list \<Rightarrow> (bool \<times> byte list) option"
  mp_ReadMapHeader :: "byte list \<Rightarrow> (u32 \<times> byte list) option"
  mp_ReadArrayHeader :: "byte list \<Rightarrow> (u32 \<times> byte list) option"
  mp_ReadMapKey :: "byte list \<Rightarrow> (string \<times> byte list) option"
  mp_IsNil :: "byte list \<Rightarrow> bool"
  mp_ReadNil :: "byte list \<Rightarrow> byte list option"
  mp_Skip :: "byte list \<Rightarrow> byte list option"

text \<open>The literal bytes: a short string (below 32 bytes) and the header of a map with less than 16 entries.\<close>

definition char_byte :: "char \<Rightarrow> byte" where
  "char_byte c = of_nat (of_char c)"

definition fixstr :: "string \<Rightarrow> byte list" where
  "fixstr k = (0xa0 + of_nat (length k)) # map char_byte k"

definition fixmap :: "nat \<Rightarrow> byte list" where
  "fixmap n = [0x80 + of_nat n]"

subsection \<open>What the generated decoders share\<close>

type_synonym 's field_decoder = "string \<Rightarrow> 's \<Rightarrow> byte list \<Rightarrow> ('s \<times> byte list) option"

text \<open>A field that is read into a component.\<close>

definition read_field :: "(byte list \<Rightarrow> ('v \<times> byte list) option) \<Rightarrow> ('v \<Rightarrow> 's \<Rightarrow> 's) \<Rightarrow> 's \<Rightarrow> byte list \<Rightarrow> ('s \<times> byte list) option" where
  "read_field read upd z bs = (case read bs of None \<Rightarrow> None | Some (v, r) \<Rightarrow> Some (upd v z, r))"

definition skip_field :: "msgp_lib \<Rightarrow> 's \<Rightarrow> byte list \<Rightarrow> ('s \<times> byte list) option" where
  "skip_field lib z bs = (case mp_Skip lib bs of None \<Rightarrow> None | Some r \<Rightarrow> Some (z, r))"

text \<open>The loop over the keys of a struct.\<close>

fun decode_fields :: "msgp_lib \<Rightarrow> 's field_decoder \<Rightarrow> nat \<Rightarrow> 's \<Rightarrow> byte list \<Rightarrow> ('s \<times> byte list) option" where
  "decode_fields lib f 0 z bs = Some (z, bs)"
| "decode_fields lib f (Suc n) z bs =
    (case mp_ReadMapKey lib bs of
       None \<Rightarrow> None
     | Some (k, r) \<Rightarrow> (case f k z r of None \<Rightarrow> None | Some (z', r') \<Rightarrow> decode_fields lib f n z' r'))"

definition decode_struct :: "msgp_lib \<Rightarrow> 's field_decoder \<Rightarrow> 's \<Rightarrow> byte list \<Rightarrow> ('s \<times> byte list) option" where
  "decode_struct lib f z bs = (case mp_ReadMapHeader lib bs of None \<Rightarrow> None | Some (n, r) \<Rightarrow> decode_fields lib f (unat n) z r)"

text \<open>The loop over the elements of a slice, each decoded into the element that is there.\<close>

fun decode_items :: "('e \<Rightarrow> byte list \<Rightarrow> ('e \<times> byte list) option) \<Rightarrow> 'e list \<Rightarrow> byte list \<Rightarrow> ('e list \<times> byte list) option" where
  "decode_items dec [] bs = Some ([], bs)"
| "decode_items dec (e # es) bs =
    (case dec e bs of
       None \<Rightarrow> None
     | Some (e', r) \<Rightarrow> (case decode_items dec es r of None \<Rightarrow> None | Some (es', r') \<Rightarrow> Some (e' # es', r')))"

text \<open>A slice is reused when its capacity suffices; \<open>old\<close> has the elements up to the capacity.\<close>

definition decode_slice :: "msgp_lib \<Rightarrow> ('e \<Rightarrow> byte list \<Rightarrow> ('e \<times> byte list) option) \<Rightarrow> 'e \<Rightarrow> 'e list \<Rightarrow> byte list \<Rightarrow> ('e list \<times> byte list) option" where
  "decode_slice lib dec zero old bs =
    (case mp_ReadArrayHeader lib bs of
       None \<Rightarrow> None
     | Some (n, r) \<Rightarrow> decode_items dec (if length old \<ge> unat n then take (unat n) old else replicate (unat n) zero) r)"

subsection \<open>Spans\<close>

fun read_pairs :: "msgp_lib \<Rightarrow> (byte list \<Rightarrow> ('v \<times> byte list) option) \<Rightarrow> nat \<Rightarrow> (string, 'v) gomap \<Rightarrow> byte list
    \<Rightarrow> ((string, 'v) gomap \<times> byte list) option" where
  "read_pairs lib readv 0 m bs = Some (m, bs)"
| "read_pairs lib readv (Suc n) m bs =
    (case mp_ReadString lib bs of
       None \<Rightarrow> None
     | Some (k, r) \<Rightarrow> (case readv r of None \<Rightarrow> None | Some (v, r') \<Rightarrow> read_pairs lib readv n (m_put k v m) r'))"

definition read_map :: "msgp_lib \<Rightarrow> (byte list \<Rightarrow> ('v \<times> byte list) option) \<Rightarrow> (string, 'v) gomap \<Rightarrow> byte list
    \<Rightarrow> ((string, 'v) gomap \<times> byte list) option" where
  "read_map lib readv m bs =
    (case mp_ReadMapHeader lib bs of
       None \<Rightarrow> None
     | Some (n, r) \<Rightarrow> read_pairs lib readv (unat n) (if m = None \<and> n = 0 then None else Some []) r)"

definition span_field :: "msgp_lib \<Rightarrow> span field_decoder" where
  "span_field lib k z =
    (if k = ''name'' then read_field (mp_ReadString lib) (\<lambda>v. s_Name_update (\<lambda>_. v)) z
     else if k = ''service'' then read_field (mp_ReadString lib) (\<lambda>v. s_Service_update (\<lambda>_. v)) z
     else if k = ''resource'' then read_field (mp_ReadString lib) (\<lambda>v. s_Resource_update (\<lambda>_. v)) z
     else if k = ''type'' then read_field (mp_ReadString lib) (\<lambda>v. s_Type_update (\<lambda>_. v)) z
     else if k = ''start'' then read_field (mp_ReadInt64 lib) (\<lambda>v. s_Start_update (\<lambda>_. v)) z
     else if k = ''duration'' then read_field (mp_ReadInt64 lib) (\<lambda>v. s_Duration_update (\<lambda>_. v)) z
     else if k = ''meta'' then read_field (read_map lib (mp_ReadString lib) (s_Meta z)) (\<lambda>v. s_Meta_update (\<lambda>_. v)) z
     else if k = ''metrics'' then read_field (read_map lib (mp_ReadFloat64 lib) (s_Metrics z)) (\<lambda>v. s_Metrics_update (\<lambda>_. v)) z
     else if k = ''span_id'' then read_field (mp_ReadUint64 lib) (\<lambda>v. s_SpanID_update (\<lambda>_. v)) z
     else if k = ''trace_id'' then read_field (mp_ReadUint64 lib) (\<lambda>v. s_TraceID_update (\<lambda>_. v)) z
     else if k = ''parent_id'' then read_field (mp_ReadUint64 lib) (\<lambda>v. s_ParentID_update (\<lambda>_. v)) z
     else if k = ''error'' then read_field (mp_ReadInt32 lib) (\<lambda>v. s_Error_update (\<lambda>_. v)) z
     else skip_field lib z)"

definition span_DecodeMsg :: "msgp_lib \<Rightarrow> span \<Rightarrow> byte list \<Rightarrow> (span \<times> byte list) option" where
  "span_DecodeMsg lib = decode_struct lib (span_field lib)"

definition write_map :: "msgp_lib \<Rightarrow> ('v \<Rightarrow> byte list) \<Rightarrow> (string, 'v) gomap \<Rightarrow> byte list" where
  "write_map lib writev m = mp_WriteMapHeader lib (of_nat (length (m_items m)))
     @ concat (map (\<lambda>(k, v). mp_WriteString lib k @ writev v) (m_items m))"

definition span_EncodeMsg :: "msgp_lib \<Rightarrow> span \<Rightarrow> byte list" where
  "span_EncodeMsg lib z = fixmap 12
     @ fixstr ''name'' @ mp_WriteString lib (s_Name z) @ fixstr ''service'' @ mp_WriteString lib (s_Service z)
     @ fixstr ''resource'' @ mp_WriteString lib (s_Resource z) @ fixstr ''type'' @ mp_WriteString lib (s_Type z)
     @ fixstr ''start'' @ mp_WriteInt64 lib (s_Start z) @ fixstr ''duration'' @ mp_WriteInt64 lib (s_Duration z)
     @ fixstr ''meta'' @ write_map lib (mp_WriteString lib) (s_Meta z) @ fixstr ''metrics'' @ write_map lib (mp_WriteFloat64 lib) (s_Metrics z)
     @ fixstr ''span_id'' @ mp_WriteUint64 lib (s_SpanID z) @ fixstr ''trace_id'' @ mp_WriteUint64 lib (s_TraceID z)
     @ fixstr ''parent_id'' @ mp_WriteUint64 lib (s_ParentID z) @ fixstr ''error'' @ mp_WriteInt32 lib (s_Error z)"

text \<open>An element of a trace is a pointer: nil, or a span; a new span is the zero one.\<close>

definition decode_span_ptr :: "msgp_lib \<Rightarrow> span option \<Rightarrow> byte list \<Rightarrow> (span option \<times> byte list) option" where
  "decode_span_ptr lib e bs =
    (if mp_IsNil lib bs then (case mp_ReadNil lib bs of None \<Rightarrow> None | Some r \<Rightarrow> Some (None, r))
     else case span_DecodeMsg lib (case e of None \<Rightarrow> zero_span | Some z \<Rightarrow> z) bs of None \<Rightarrow> None | Some (z, r) \<Rightarrow> Some (Some z, r))"

definition spanList_DecodeMsg :: "msgp_lib \<Rightarrow> span option list \<Rightarrow> byte list \<Rightarrow> (span option list \<times> byte list) option" where
  "spanList_DecodeMsg lib old bs = decode_slice lib (decode_span_ptr lib) None old bs"

definition spanList_EncodeMsg :: "msgp_lib \<Rightarrow> span option list \<Rightarrow> byte list" where
  "spanList_EncodeMsg lib z = mp_WriteArrayHeader lib (of_nat (length z))
     @ concat (map (\<lambda>e. case e of None \<Rightarrow> mp_WriteNil lib | Some s \<Rightarrow> span_EncodeMsg lib s) z)"

definition spanLists_DecodeMsg :: "msgp_lib \<Rightarrow> span option list list \<Rightarrow> byte list \<Rightarrow> (span option list list \<times> byte list) option" where
  "spanLists_DecodeMsg lib old bs = decode_slice lib (spanList_DecodeMsg lib) [] old bs"

definition spanLists_EncodeMsg :: "msgp_lib \<Rightarrow> span option list list \<Rightarrow> byte list" where
  "spanLists_EncodeMsg lib z = mp_WriteArrayHeader lib (of_nat (length z)) @ concat (map (spanList_EncodeMsg lib) z)"

subsection \<open>Statistics\<close>

definition groupedStats_field :: "msgp_lib \<Rightarrow> groupedStats field_decoder" where
  "groupedStats_field lib k z =
    (if k = ''Service'' then read_field (mp_ReadString lib) (\<lambda>v. gs_Service_update (\<lambda>_. v)) z
     else if k = ''Name'' then read_field (mp_ReadString lib) (\<lambda>v. gs_Name_update (\<lambda>_. v)) z
     else if k = ''Resource'' then read_field (mp_ReadString lib) (\<lambda>v. gs_Resource_update (\<lambda>_. v)) z
     else if k = ''HTTPStatusCode'' then read_field (mp_ReadUint32 lib) (\<lambda>v. gs_HTTPStatusCode_update (\<lambda>_. v)) z
     else if k = ''Type'' then read_field (mp_ReadString lib) (\<lambda>v. gs_Type_update (\<lambda>_. v)) z
     else if k = ''DBType'' then read_field (mp_ReadString lib) (\<lambda>v. gs_DBType_update (\<lambda>_. v)) z
     else if k = ''Hits'' then read_field (mp_ReadUint64 lib) (\<lambda>v. gs_Hits_update (\<lambda>_. v)) z
     else if k = ''Errors'' then read_field (mp_ReadUint64 lib) (\<lambda>v. gs_Errors_update (\<lambda>_. v)) z
     else if k = ''Duration'' then read_field (mp_ReadUint64 lib) (\<lambda>v. gs_Duration_update (\<lambda>_. v)) z
     else if k = ''OkSummary'' then read_field (mp_ReadBytes lib) (\<lambda>v. gs_OkSummary_update (\<lambda>_. v)) z
     else if k = ''ErrorSummary'' then read_field (mp_ReadBytes lib) (\<lambda>v. gs_ErrorSummary_update (\<lambda>_. v)) z
     else if k = ''Synthetics'' then read_field (mp_ReadBool lib) (\<lambda>v. gs_Synthetics_update (\<lambda>_. v)) z
     else if k = ''TopLevelHits'' then read_field (mp_ReadUint64 lib) (\<lambda>v. gs_TopLevelHits_update (\<lambda>_. v)) z
     else skip_field lib z)"

definition groupedStats_DecodeMsg :: "msgp_lib \<Rightarrow> groupedStats \<Rightarrow> byte list \<Rightarrow> (groupedStats \<times> byte list) option" where
  "groupedStats_DecodeMsg lib = decode_struct lib (groupedStats_field lib)"

definition groupedStats_EncodeMsg :: "msgp_lib \<Rightarrow> groupedStats \<Rightarrow> byte list" where
  "groupedStats_EncodeMsg lib z = fixmap 13
     @ fixstr ''Service'' @ mp_WriteString lib (gs_Service z) @ fixstr ''Name'' @ mp_WriteString lib (gs_Name z)
     @ fixstr ''Resource'' @ mp_WriteString lib (gs_Resource z) @ fixstr ''HTTPStatusCode'' @ mp_WriteUint32 lib (gs_HTTPStatusCode z)
     @ fixstr ''Type'' @ mp_WriteString lib (gs_Type z) @ fixstr ''DBType'' @ mp_WriteString lib (gs_DBType z)
     @ fixstr ''Hits'' @ mp_WriteUint64 lib (gs_Hits z) @ fixstr ''Errors'' @ mp_WriteUint64 lib (gs_Errors z)
     @ fixstr ''Duration'' @ mp_WriteUint64 lib (gs_Duration z) @ fixstr ''OkSummary'' @ mp_WriteBytes lib (gs_OkSummary z)
     @ fixstr ''ErrorSummary'' @ mp_WriteBytes lib (gs_ErrorSummary z) @ fixstr ''Synthetics'' @ mp_WriteBool lib (gs_Synthetics z)
     @ fixstr ''TopLevelHits'' @ mp_WriteUint64 lib (gs_TopLevelHits z)"

definition statsBucket_field :: "msgp_lib \<Rightarrow> statsBucket field_decoder" where
  "statsBucket_field lib k z =
    (if k = ''Start'' then read_field (mp_ReadUint64 lib) (\<lambda>v. sb_Start_update (\<lambda>_. v)) z
     else if k = ''Duration'' then read_field (mp_ReadUint64 lib) (\<lambda>v. sb_Duration_update (\<lambda>_. v)) z
     else if k = ''Stats'' then read_field (decode_slice lib (groupedStats_DecodeMsg lib) zero_groupedStats (sb_Stats z)) (\<lambda>v. sb_Stats_update (\<lambda>_. v)) z
     else skip_field lib z)"

definition statsBucket_DecodeMsg :: "msgp_lib \<Rightarrow> statsBucket \<Rightarrow> byte list \<Rightarrow> (statsBucket \<times> byte list) option" where
  "statsBucket_DecodeMsg lib = decode_struct lib (statsBucket_field lib)"

definition statsBucket_EncodeMsg :: "msgp_lib \<Rightarrow> statsBucket \<Rightarrow> byte list" where
  "statsBucket_EncodeMsg lib z = fixmap 3 @ fixstr ''Start'' @ mp_WriteUint64 lib (sb_Start z)
     @ fixstr ''Duration'' @ mp_WriteUint64 lib (sb_Duration z)
     @ fixstr ''Stats'' @ mp_WriteArrayHeader lib (of_nat (length (sb_Stats z))) @ concat (map (groupedStats_EncodeMsg lib) (sb_Stats z))"

definition zero_statsBucket :: statsBucket where
  "zero_statsBucket = \<lparr>sb_Start = 0, sb_Duration = 0, sb_Stats = []\<rparr>"

definition statsPayload_field :: "msgp_lib \<Rightarrow> statsPayload field_decoder" where
  "statsPayload_field lib k z =
    (if k = ''Hostname'' then read_field (mp_ReadString lib) (\<lambda>v. sp_Hostname_update (\<lambda>_. v)) z
     else if k = ''Env'' then read_field (mp_ReadString lib) (\<lambda>v. sp_Env_update (\<lambda>_. v)) z
     else if k = ''Version'' then read_field (mp_ReadString lib) (\<lambda>v. sp_Version_update (\<lambda>_. v)) z
     else if k = ''Stats'' then read_field (decode_slice lib (statsBucket_DecodeMsg lib) zero_statsBucket (sp_Stats z)) (\<lambda>v. sp_Stats_update (\<lambda>_. v)) z
     else skip_field lib z)"

definition statsPayload_DecodeMsg :: "msgp_lib \<Rightarrow> statsPayload \<Rightarrow> byte list \<Rightarrow> (statsPayload \<times> byte list) option" where
  "statsPayload_DecodeMsg lib = decode_struct lib (statsPayload_field lib)"

definition statsPayload_EncodeMsg :: "msgp_lib \<Rightarrow> statsPayload \<Rightarrow> byte list" where
  "statsPayload_EncodeMsg lib z = fixmap 4 @ fixstr ''Hostname'' @ mp_WriteString lib (sp_Hostname z)
     @ fixstr ''Env'' @ mp_WriteString lib (sp_Env z) @ fixstr ''Version'' @ mp_WriteString lib (sp_Version z)
     @ fixstr ''Stats'' @ mp_WriteArrayHeader lib (of_nat (length (sp_Stats z))) @ concat (map (statsBucket_EncodeMsg lib) (sp_Stats z))"

subsection \<open>Laws\<close>

text \<open>
  What the methods rely on of package msgp: every value is read back behind what was written of it, keys and map headers in
  their short forms as well, array headers in all their forms; the start of a map is not taken for nil.
\<close>

definition f64_value :: "float64 \<Rightarrow> bool" where
  "f64_value f = (case f of Fin q \<Rightarrow> f64_round q = Fin q | _ \<Rightarrow> True)"

definition msgp_laws :: "msgp_lib \<Rightarrow> bool" where
  "msgp_laws lib \<longleftrightarrow>
    (\<forall>s r. length s < 2 ^ 32 \<longrightarrow> mp_ReadString lib (mp_WriteString lib s @ r) = Some (s, r))
    \<and> (\<forall>i r. int64_range i \<longrightarrow> mp_ReadInt64 lib (mp_WriteInt64 lib i @ r) = Some (i, r))
    \<and> (\<forall>i r. - (2 ^ 31) \<le> i \<and> i < 2 ^ 31 \<longrightarrow> mp_ReadInt32 lib (mp_WriteInt32 lib i @ r) = Some (i, r))
    \<and> (\<forall>n r. mp_ReadUint64 lib (mp_WriteUint64 lib n @ r) = Some (n, r))
    \<and> (\<forall>i r. 0 \<le> i \<and> i < 2 ^ 32 \<longrightarrow> mp_ReadUint32 lib (mp_WriteUint32 lib i @ r) = Some (i, r))
    \<and> (\<forall>f r. f64_value f \<longrightarrow> mp_ReadFloat64 lib (mp_WriteFloat64 lib f @ r) = Some (f, r))
    \<and> (\<forall>b r. length b < 2 ^ 32 \<longrightarrow> mp_ReadBytes lib (mp_WriteBytes lib b @ r) = Some (b, r))
    \<and> (\<forall>b r. mp_ReadBool lib (mp_WriteBool lib b @ r) = Some (b, r))
    \<and> (\<forall>n r. mp_ReadMapHeader lib (mp_WriteMapHeader lib n @ r) = Some (n, r))
    \<and> (\<forall>n r. n < 16 \<longrightarrow> mp_ReadMapHeader lib (fixmap n @ r) = Some (of_nat n, r) \<and> \<not> mp_IsNil lib (fixmap n @ r))
    \<and> (\<forall>n r. mp_ReadArrayHeader lib (mp_WriteArrayHeader lib n @ r) = Some (n, r))
    \<and> (\<forall>n r. n < 2 ^ 32 \<longrightarrow> mp_ReadArrayHeader lib (msgpack_array n @ r) = Some (of_nat n, r))
    \<and> (\<forall>k r. length k < 32 \<longrightarrow> mp_ReadMapKey lib (fixstr k @ r) = Some (k, r))
    \<and> (\<forall>r. mp_IsNil lib (mp_WriteNil lib @ r) \<and> mp_ReadNil lib (mp_WriteNil lib @ r) = Some r)"

lemma msgp_lawsD:
  assumes "msgp_laws lib"
  shows "length s < 2 ^ 32 \<Longrightarrow> mp_ReadString lib (mp_WriteString lib s @ r) = Some (s, r)"
    "int64_range i \<Longrightarrow> mp_ReadInt64 lib (mp_WriteInt64 lib i @ r) = Some (i, r)"
    "- (2 ^ 31) \<le> i \<Longrightarrow> i < 2 ^ 31 \<Longrightarrow> mp_ReadInt32 lib (mp_WriteInt32 lib i @ r) = Some (i, r)"
    "mp_ReadUint64 lib (mp_WriteUint64 lib n @ r) = Some (n, r)"
    "0 \<le> i \<Longrightarrow> i < 2 ^ 32 \<Longrightarrow> mp_ReadUint32 lib (mp_WriteUint32 lib i @ r) = Some (i, r)"
    "f64_value f \<Longrightarrow> mp_ReadFloat64 lib (mp_WriteFloat64 lib f @ r) = Some (f, r)"
    "length b < 2 ^ 32 \<Longrightarrow> mp_ReadBytes lib (mp_WriteBytes lib b @ r) = Some (b, r)"
    "mp_ReadBool lib (mp_WriteBool lib t @ r) = Some (t, r)"
    "mp_ReadMapHeader lib (mp_WriteMapHeader lib w @ r) = Some (w, r)"
    "m < 16 \<Longrightarrow> mp_ReadMapHeader lib (fixmap m @ r) = Some (of_nat m, r)" "m < 16 \<Longrightarrow> \<not> mp_IsNil lib (fixmap m @ r)"
    "mp_ReadArrayHeader lib (mp_WriteArrayHeader lib w @ r) = Some (w, r)"
    "m < 2 ^ 32 \<Longrightarrow> mp_ReadArrayHeader lib (msgpack_array m @ r) = Some (of_nat m, r)"
    "length k < 32 \<Longrightarrow> mp_ReadMapKey lib (fixstr k @ r) = Some (k, r)"
    "mp_IsNil lib (mp_WriteNil lib @ r)" "mp_ReadNil lib (mp_WriteNil lib @ r) = Some r"
  using assms unfolding msgp_laws_def by simp_all

text \<open>The short forms are the literals of the source, for instance of the first field.\<close>

lemma literal_name: "fixmap 12 @ fixstr ''name'' = [0x8c, 0xa4, 0x6e, 0x61, 0x6d, 0x65]"
  by code_simp

subsection \<open>Round trips of the shared parts\<close>

text \<open>A decoder reads back an encoder: behind its bytes it gives the value, made from what was there before.\<close>

definition reads_back :: "('e \<Rightarrow> byte list) \<Rightarrow> ('e \<Rightarrow> byte list \<Rightarrow> ('e \<times> byte list) option) \<Rightarrow> 'e \<Rightarrow> ('e \<Rightarrow> 'e) \<Rightarrow> 'e \<Rightarrow> bool" where
  "reads_back enc dec zero canon e \<longleftrightarrow> (\<forall>r. dec zero (enc e @ r) = Some (canon e, r))"

lemma decode_key:
  assumes "msgp_laws lib" "length k < 32" "0 < n"
  shows "decode_fields lib f n z (fixstr k @ bs) = (case f k z bs of None \<Rightarrow> None | Some (z', r') \<Rightarrow> decode_fields lib f (n - 1) z' r')"
proof -
  obtain m where n: "n = Suc m" using assms(3) by (cases n) auto
  show ?thesis unfolding n diff_Suc_1 by (simp add: msgp_lawsD(14)[OF assms(1,2)])
qed

lemma decode_struct_fixmap:
  "msgp_laws lib \<Longrightarrow> n < 16 \<Longrightarrow> decode_struct lib f z (fixmap n @ bs) = decode_fields lib f n z bs"
  by (simp add: decode_struct_def msgp_lawsD(10) unsigned_of_nat take_bit_nat_eq_self)

lemma decode_items_back:
  assumes "list_all (reads_back enc dec zero canon) es"
  shows "decode_items dec (replicate (length es) zero) (concat (map enc es) @ r) = Some (map canon es, r)"
  using assms by (induction es) (simp_all add: reads_back_def)

lemma u32_length: "n < 2 ^ 32 \<Longrightarrow> unat (of_nat n :: u32) = n"
  by (simp add: unsigned_of_nat take_bit_nat_eq_self)

lemma decode_slice_back:
  assumes "mp_ReadArrayHeader lib (h @ concat (map enc es) @ r) = Some (of_nat (length es), concat (map enc es) @ r)"
    "list_all (reads_back enc dec zero canon) es" "length es < 2 ^ 32"
  shows "decode_slice lib dec zero [] (h @ concat (map enc es) @ r) = Some (map canon es, r)"
  using decode_items_back[OF assms(2)] assms(1) u32_length[OF assms(3)] by (cases es) (simp_all add: decode_slice_def)

text \<open>A map comes back with its entries; an empty one as nil.\<close>

definition canon_map :: "(string, 'v) gomap \<Rightarrow> (string, 'v) gomap" where
  "canon_map m = (if m_items m = [] then None else m)"

lemma read_pairs_back:
  assumes "msgp_laws lib" "list_all (\<lambda>(k, v). length k < 2 ^ 32 \<and> (\<forall>r. readv (writev v @ r) = Some (v, r))) xs" "distinct (map fst (ys @ xs))"
  shows "read_pairs lib readv (length xs) (Some ys) (concat (map (\<lambda>(k, v). mp_WriteString lib k @ writev v) xs) @ r) = Some (Some (ys @ xs), r)"
  using assms(2,3)
proof (induction xs arbitrary: ys)
  case (Cons x xs)
  obtain k v where x: "x = (k, v)" by (cases x)
  have "m_put k v (Some ys) = Some (ys @ [(k, v)])" using Cons.prems(2) x by (auto simp: m_put_def update_fresh)
  then show ?case using Cons.IH[of "ys @ [(k, v)]"] Cons.prems x by (simp add: msgp_lawsD(1)[OF assms(1)])
qed simp

lemma read_map_back:
  assumes "msgp_laws lib" "list_all (\<lambda>(k, v). length k < 2 ^ 32 \<and> (\<forall>r. readv (writev v @ r) = Some (v, r))) (m_items m)" "m_wf m" "length (m_items m) < 2 ^ 32"
  shows "read_map lib readv None (write_map lib writev m @ r) = Some (canon_map m, r)"
proof -
  let ?xs = "m_items m"
  have n: "(of_nat (length ?xs) = (0 :: u32)) = (?xs = [])" "unat (of_nat (length ?xs) :: u32) = length ?xs"
    using u32_length[OF assms(4)] by (auto simp: unat_eq_0 dest: sym)
  have "read_pairs lib readv (length ?xs) (if ?xs = [] then None else Some []) (concat (map (\<lambda>(k, v). mp_WriteString lib k @ writev v) ?xs) @ r)
      = Some (canon_map m, r)"
    using read_pairs_back[OF assms(1,2), of "[]" r] assms(3) by (cases m) (auto simp: m_wf_def canon_map_def)
  then show ?thesis by (simp add: read_map_def write_map_def msgp_lawsD(9)[OF assms(1)] n)
qed

subsection \<open>Round trips of spans\<close>

definition span_ok :: "span \<Rightarrow> bool" where
  "span_ok z \<longleftrightarrow> length (s_Name z) < 2 ^ 32 \<and> length (s_Service z) < 2 ^ 32 \<and> length (s_Resource z) < 2 ^ 32 \<and> length (s_Type z) < 2 ^ 32
    \<and> int64_range (s_Start z) \<and> int64_range (s_Duration z) \<and> - (2 ^ 31) \<le> s_Error z \<and> s_Error z < 2 ^ 31
    \<and> m_wf (s_Meta z) \<and> length (m_items (s_Meta z)) < 2 ^ 32 \<and> list_all (\<lambda>(k, v). length k < 2 ^ 32 \<and> length v < 2 ^ 32) (m_items (s_Meta z))
    \<and> m_wf (s_Metrics z) \<and> length (m_items (s_Metrics z)) < 2 ^ 32 \<and> list_all (\<lambda>(k, v). length k < 2 ^ 32 \<and> f64_value v) (m_items (s_Metrics z))"

text \<open>What the wire format keeps of a span; the other fields are those of a new one.\<close>

definition wire :: "span \<Rightarrow> span" where
  "wire z = zero_span\<lparr>s_Name := s_Name z, s_Service := s_Service z, s_Resource := s_Resource z, s_Type := s_Type z, s_Start := s_Start z,
     s_Duration := s_Duration z, s_Meta := canon_map (s_Meta z), s_Metrics := canon_map (s_Metrics z), s_SpanID := s_SpanID z,
     s_TraceID := s_TraceID z, s_ParentID := s_ParentID z, s_Error := s_Error z\<rparr>"

lemma span_field_keys:
  "span_field lib ''name'' z = read_field (mp_ReadString lib) (\<lambda>v. s_Name_update (\<lambda>_. v)) z"
  "span_field lib ''service'' z = read_field (mp_ReadString lib) (\<lambda>v. s_Service_update (\<lambda>_. v)) z"
  "span_field lib ''resource'' z = read_field (mp_ReadString lib) (\<lambda>v. s_Resource_update (\<lambda>_. v)) z"
  "span_field lib ''type'' z = read_field (mp_ReadString lib) (\<lambda>v. s_Type_update (\<lambda>_. v)) z"
  "span_field lib ''start'' z = read_field (mp_ReadInt64 lib) (\<lambda>v. s_Start_update (\<lambda>_. v)) z"
  "span_field lib ''duration'' z = read_field (mp_ReadInt64 lib) (\<lambda>v. s_Duration_update (\<lambda>_. v)) z"
  "span_field lib ''meta'' z = read_field (read_map lib (mp_ReadString lib) (s_Meta z)) (\<lambda>v. s_Meta_update (\<lambda>_. v)) z"
  "span_field lib ''metrics'' z = read_field (read_map lib (mp_ReadFloat64 lib) (s_Metrics z)) (\<lambda>v. s_Metrics_update (\<lambda>_. v)) z"
  "span_field lib ''span_id'' z = read_field (mp_ReadUint64 lib) (\<lambda>v. s_SpanID_update (\<lambda>_. v)) z"
  "span_field lib ''trace_id'' z = read_field (mp_ReadUint64 lib) (\<lambda>v. s_TraceID_update (\<lambda>_. v)) z"
  "span_field lib ''parent_id'' z = read_field (mp_ReadUint64 lib) (\<lambda>v. s_ParentID_update (\<lambda>_. v)) z"
  "span_field lib ''error'' z = read_field (mp_ReadInt32 lib) (\<lambda>v. s_Error_update (\<lambda>_. v)) z"
  by (simp_all add: span_field_def)

lemma span_maps_back:
  assumes "msgp_laws lib" "span_ok z"
  shows "read_map lib (mp_ReadString lib) None (write_map lib (mp_WriteString lib) (s_Meta z) @ r) = Some (canon_map (s_Meta z), r)"
    "read_map lib (mp_ReadFloat64 lib) None (write_map lib (mp_WriteFloat64 lib) (s_Metrics z) @ r') = Some (canon_map (s_Metrics z), r')"
proof -
  have "list_all (\<lambda>(k, v). length k < 2 ^ 32 \<and> (\<forall>r. mp_ReadString lib (mp_WriteString lib v @ r) = Some (v, r))) (m_items (s_Meta z))"
    "list_all (\<lambda>(k, v). length k < 2 ^ 32 \<and> (\<forall>r. mp_ReadFloat64 lib (mp_WriteFloat64 lib v @ r) = Some (v, r))) (m_items (s_Metrics z))"
    using assms(2) unfolding span_ok_def
    by (auto elim!: list.pred_mono_strong simp: msgp_lawsD(1,6)[OF assms(1)])
  then show "read_map lib (mp_ReadString lib) None (write_map lib (mp_WriteString lib) (s_Meta z) @ r) = Some (canon_map (s_Meta z), r)"
    "read_map lib (mp_ReadFloat64 lib) None (write_map lib (mp_WriteFloat64 lib) (s_Metrics z) @ r') = Some (canon_map (s_Metrics z), r')"
    using assms(2) unfolding span_ok_def by (auto intro!: read_map_back[OF assms(1)])
qed

lemma span_roundtrip:
  assumes "msgp_laws lib" "span_ok z"
  shows "span_DecodeMsg lib zero_span (span_EncodeMsg lib z @ r) = Some (wire z, r)"
proof -
  note laws = msgp_lawsD[OF assms(1)] and ok = assms(2)[unfolded span_ok_def]
  have z: "s_Meta zero_span = None" "s_Metrics zero_span = None" by (simp_all add: zero_span_def)
  show ?thesis
    unfolding span_DecodeMsg_def span_EncodeMsg_def append_assoc using ok
    by (simp add: decode_struct_fixmap[OF assms(1)] decode_key[OF assms(1)] span_field_keys read_field_def laws span_maps_back[OF assms] z wire_def)
qed

lemma span_ptr_back:
  assumes "msgp_laws lib" "pred_option span_ok e"
  shows "reads_back (\<lambda>e. case e of None \<Rightarrow> mp_WriteNil lib | Some s \<Rightarrow> span_EncodeMsg lib s) (decode_span_ptr lib) None (map_option wire) e"
proof (cases e)
  case None
  then show ?thesis by (simp add: reads_back_def decode_span_ptr_def msgp_lawsD(15,16)[OF assms(1)])
next
  case (Some z)
  have "\<not> mp_IsNil lib (span_EncodeMsg lib z @ r)" for r
    unfolding span_EncodeMsg_def append_assoc by (rule msgp_lawsD(11)[OF assms(1)]) simp
  then show ?thesis using span_roundtrip[OF assms(1)] assms(2) Some by (simp add: reads_back_def decode_span_ptr_def)
qed

definition trace_ok :: "span option list \<Rightarrow> bool" where
  "trace_ok t \<longleftrightarrow> length t < 2 ^ 32 \<and> list_all (pred_option span_ok) t"

lemma spanList_back:
  assumes "msgp_laws lib" "trace_ok t"
  shows "reads_back (spanList_EncodeMsg lib) (spanList_DecodeMsg lib) [] (map (map_option wire)) t"
  unfolding reads_back_def spanList_DecodeMsg_def spanList_EncodeMsg_def append_assoc
  using assms(2) span_ptr_back[OF assms(1)] msgp_lawsD(12)[OF assms(1)]
  by (intro allI decode_slice_back) (auto simp: trace_ok_def list_all_iff)

text \<open>The two codecs of many traces.\<close>

lemma spanLists_roundtrip:
  assumes "msgp_laws lib" "list_all trace_ok ts" "length ts < 2 ^ 32"
  shows "spanLists_DecodeMsg lib [] (spanLists_EncodeMsg lib ts @ r) = Some (map (map (map_option wire)) ts, r)"
  unfolding spanLists_DecodeMsg_def spanLists_EncodeMsg_def append_assoc
  using assms(2,3) spanList_back[OF assms(1)] msgp_lawsD(12)[OF assms(1)]
  by (intro decode_slice_back) (auto simp: list_all_iff)

text \<open>
  C21: from the tracer to the agent: traces that are pushed to a payload, which is then read to its end with any
  slice, are decoded from the bytes as the same traces, span by span, with every field of the wire format.
\<close>

theorem payload_delivers_traces:
  assumes "msgp_laws lib" "list_all trace_ok ts" "ts \<noteq> []" "length ts < 2 ^ 32" "0 < k"
    "length (payload_content (push_all (\<lambda>t. (spanList_EncodeMsg lib t, True)) ts newPayload)) < fuel"
  shows "\<exists>bs. read_all payload_Read fuel k (push_all (\<lambda>t. (spanList_EncodeMsg lib t, True)) ts newPayload) = Some bs
    \<and> spanLists_DecodeMsg lib [] bs = Some (map (map (map_option wire)) ts, [])"
proof -
  let ?bs = "msgpack_array (length ts) @ concat (map (spanList_EncodeMsg lib) ts)"
  have "read_all payload_Read fuel k (push_all (\<lambda>t. (spanList_EncodeMsg lib t, True)) ts newPayload) = Some ?bs"
    using payload_stream[OF _ assms(3-6)] by (simp add: encodings_def o_def)
  moreover have "spanLists_DecodeMsg lib [] (?bs @ []) = Some (map (map (map_option wire)) ts, [])"
    unfolding spanLists_DecodeMsg_def append_assoc
    using assms(2,4) spanList_back[OF assms(1)] msgp_lawsD(13)[OF assms(1,4)]
    by (intro decode_slice_back) (auto simp: list_all_iff)
  ultimately show ?thesis by simp
qed

subsection \<open>Round trips of statistics\<close>

definition group_ok :: "groupedStats \<Rightarrow> bool" where
  "group_ok z \<longleftrightarrow> length (gs_Service z) < 2 ^ 32 \<and> length (gs_Name z) < 2 ^ 32 \<and> length (gs_Resource z) < 2 ^ 32 \<and> length (gs_Type z) < 2 ^ 32
    \<and> length (gs_DBType z) < 2 ^ 32 \<and> length (gs_OkSummary z) < 2 ^ 32 \<and> length (gs_ErrorSummary z) < 2 ^ 32
    \<and> 0 \<le> gs_HTTPStatusCode z \<and> gs_HTTPStatusCode z < 2 ^ 32"

lemma groupedStats_field_keys:
  "groupedStats_field lib ''Service'' z = read_field (mp_ReadString lib) (\<lambda>v. gs_Service_update (\<lambda>_. v)) z"
  "groupedStats_field lib ''Name'' z = read_field (mp_ReadString lib) (\<lambda>v. gs_Name_update (\<lambda>_. v)) z"
  "groupedStats_field lib ''Resource'' z = read_field (mp_ReadString lib) (\<lambda>v. gs_Resource_update (\<lambda>_. v)) z"
  "groupedStats_field lib ''HTTPStatusCode'' z = read_field (mp_ReadUint32 lib) (\<lambda>v. gs_HTTPStatusCode_update (\<lambda>_. v)) z"
  "groupedStats_field lib ''Type'' z = read_field (mp_ReadString lib) (\<lambda>v. gs_Type_update (\<lambda>_. v)) z"
  "groupedStats_field lib ''DBType'' z = read_field (mp_ReadString lib) (\<lambda>v. gs_DBType_update (\<lambda>_. v)) z"
  "groupedStats_field lib ''Hits'' z = read_field (mp_ReadUint64 lib) (\<lambda>v. gs_Hits_update (\<lambda>_. v)) z"
  "groupedStats_field lib ''Errors'' z = read_field (mp_ReadUint64 lib) (\<lambda>v. gs_Errors_update (\<lambda>_. v)) z"
  "groupedStats_field lib ''Duration'' z = read_field (mp_ReadUint64 lib) (\<lambda>v. gs_Duration_update (\<lambda>_. v)) z"
  "groupedStats_field lib ''OkSummary'' z = read_field (mp_ReadBytes lib) (\<lambda>v. gs_OkSummary_update (\<lambda>_. v)) z"
  "groupedStats_field lib ''ErrorSummary'' z = read_field (mp_ReadBytes lib) (\<lambda>v. gs_ErrorSummary_update (\<lambda>_. v)) z"
  "groupedStats_field lib ''Synthetics'' z = read_field (mp_ReadBool lib) (\<lambda>v. gs_Synthetics_update (\<lambda>_. v)) z"
  "groupedStats_field lib ''TopLevelHits'' z = read_field (mp_ReadUint64 lib) (\<lambda>v. gs_TopLevelHits_update (\<lambda>_. v)) z"
  by (simp_all add: groupedStats_field_def)

lemma groupedStats_back:
  assumes "msgp_laws lib" "group_ok z"
  shows "reads_back (groupedStats_EncodeMsg lib) (groupedStats_DecodeMsg lib) zero_groupedStats id z"
proof -
  note laws = msgp_lawsD[OF assms(1)] and ok = assms(2)[unfolded group_ok_def]
  show ?thesis
    unfolding reads_back_def groupedStats_DecodeMsg_def groupedStats_EncodeMsg_def append_assoc using ok
    by (simp add: decode_struct_fixmap[OF assms(1)] decode_key[OF assms(1)] groupedStats_field_keys read_field_def laws zero_groupedStats_def)
qed

definition bucket_ok :: "statsBucket \<Rightarrow> bool" where
  "bucket_ok z \<longleftrightarrow> length (sb_Stats z) < 2 ^ 32 \<and> list_all group_ok (sb_Stats z)"

lemma slice_written_back:
  assumes "msgp_laws lib" "list_all (reads_back enc dec zero id) es" "length es < 2 ^ 32"
  shows "decode_slice lib dec zero [] (mp_WriteArrayHeader lib (of_nat (length es)) @ concat (map enc es) @ r) = Some (es, r)"
  using decode_slice_back[OF msgp_lawsD(12)[OF assms(1)] assms(2,3)] by simp

lemma statsBucket_back:
  assumes "msgp_laws lib" "bucket_ok z"
  shows "reads_back (statsBucket_EncodeMsg lib) (statsBucket_DecodeMsg lib) zero_statsBucket id z"
proof -
  have "list_all (reads_back (groupedStats_EncodeMsg lib) (groupedStats_DecodeMsg lib) zero_groupedStats id) (sb_Stats z)"
    using assms groupedStats_back by (auto simp: bucket_ok_def list_all_iff)
  note sl = slice_written_back[OF assms(1) this]
  show ?thesis
    unfolding reads_back_def statsBucket_DecodeMsg_def statsBucket_EncodeMsg_def append_assoc using assms(2)
    by (simp add: decode_struct_fixmap[OF assms(1)] decode_key[OF assms(1)] statsBucket_field_def read_field_def msgp_lawsD(4,14)[OF assms(1)]
        sl bucket_ok_def zero_statsBucket_def)
qed

definition stats_ok :: "statsPayload \<Rightarrow> bool" where
  "stats_ok z \<longleftrightarrow> length (sp_Hostname z) < 2 ^ 32 \<and> length (sp_Env z) < 2 ^ 32 \<and> length (sp_Version z) < 2 ^ 32
    \<and> length (sp_Stats z) < 2 ^ 32 \<and> list_all bucket_ok (sp_Stats z)"

text \<open>The statistics that the concentrator sends are decoded as they are.\<close>

theorem statsPayload_roundtrip:
  assumes "msgp_laws lib" "stats_ok z"
  shows "statsPayload_DecodeMsg lib \<lparr>sp_Hostname = [], sp_Env = [], sp_Version = [], sp_Stats = []\<rparr> (statsPayload_EncodeMsg lib z @ r) = Some (z, r)"
proof -
  have "list_all (reads_back (statsBucket_EncodeMsg lib) (statsBucket_DecodeMsg lib) zero_statsBucket id) (sp_Stats z)"
    using assms statsBucket_back by (auto simp: stats_ok_def list_all_iff)
  note sl = slice_written_back[OF assms(1) this]
  show ?thesis
    unfolding statsPayload_DecodeMsg_def statsPayload_EncodeMsg_def append_assoc using assms(2)
    by (simp add: decode_struct_fixmap[OF assms(1)] decode_key[OF assms(1)] statsPayload_field_def read_field_def msgp_lawsD(1,14)[OF assms(1)]
        sl stats_ok_def)
qed

subsection \<open>A package with these laws\<close>

text \<open>Numbers in unary with a sign, texts behind their length; headers and keys as in the format.\<close>

definition toy_nat :: "nat \<Rightarrow> byte list" where
  "toy_nat n = replicate n 1 @ [0]"

definition toy_read_nat :: "byte list \<Rightarrow> (nat \<times> byte list) option" where
  "toy_read_nat bs = Some (length (takeWhile (\<lambda>b. b = 1) bs), tl (dropWhile (\<lambda>b. b = 1) bs))"

definition toy_int :: "int \<Rightarrow> byte list" where
  "toy_int i = (if i < 0 then 1 else 0) # toy_nat (nat \<bar>i\<bar>)"

definition toy_read_int :: "byte list \<Rightarrow> (int \<times> byte list) option" where
  "toy_read_int bs = map_option (map_prod (\<lambda>n. if hd bs = 1 then - int n else int n) id) (toy_read_nat (tl bs))"

definition toy_list :: "('a \<Rightarrow> byte) \<Rightarrow> 'a list \<Rightarrow> byte list" where
  "toy_list f s = toy_nat (length s) @ map f s"

definition toy_read_list :: "(byte \<Rightarrow> 'a) \<Rightarrow> byte list \<Rightarrow> ('a list \<times> byte list) option" where
  "toy_read_list g bs = map_option (\<lambda>(n, r). (map g (take n r), drop n r)) (toy_read_nat bs)"

lemma toy_read_nat [simp]: "toy_read_nat (toy_nat n @ r) = Some (n, r)"
proof -
  have "takeWhile (\<lambda>b. b = 1) (replicate n 1 @ 0 # r) = replicate n (1 :: byte)" "dropWhile (\<lambda>b. b = 1) (replicate n 1 @ 0 # r) = (0 :: byte) # r"
    by (induction n) simp_all
  then show ?thesis by (simp add: toy_read_nat_def toy_nat_def)
qed

lemma toy_read_int [simp]: "toy_read_int (toy_int i @ r) = Some (i, r)"
  by (simp add: toy_read_int_def toy_int_def)

lemma toy_read_list [simp]: "(\<And>x. g (f x) = x) \<Longrightarrow> toy_read_list g (toy_list f s @ r) = Some (s, r)"
  by (simp add: toy_read_list_def toy_list_def o_def)

definition toy_float :: "float64 \<Rightarrow> byte list" where
  "toy_float f = (case f of Fin q \<Rightarrow> 0 # toy_int (fst (quotient_of q)) @ toy_int (snd (quotient_of q)) | PInf \<Rightarrow> [1] | NInf \<Rightarrow> [2] | NaN \<Rightarrow> [3])"

definition toy_read_float :: "byte list \<Rightarrow> (float64 \<times> byte list) option" where
  "toy_read_float bs =
    (if hd bs = 0 then
       (case toy_read_int (tl bs) of
          None \<Rightarrow> None
        | Some (a, r) \<Rightarrow> (case toy_read_int r of None \<Rightarrow> None | Some (b, r') \<Rightarrow> Some (Fin (of_int a / of_int b), r')))
     else Some (if hd bs = 1 then PInf else if hd bs = 2 then NInf else NaN, tl bs))"

lemma toy_read_float [simp]: "toy_read_float (toy_float f @ r) = Some (f, r)"
proof (cases f)
  case (Fin q)
  have "of_int (fst (quotient_of q)) / of_int (snd (quotient_of q)) = q" using quotient_of_div[of q] by (metis prod.collapse)
  then show ?thesis using Fin by (simp add: toy_float_def toy_read_float_def)
qed (simp_all add: toy_float_def toy_read_float_def)

definition toy_key :: "byte list \<Rightarrow> (string \<times> byte list) option" where
  "toy_key bs = (let n = unat (hd bs) - 160 in Some (map (\<lambda>b. char_of (unat b)) (take n (tl bs)), drop n (tl bs)))"

definition toy_map :: "byte list \<Rightarrow> (u32 \<times> byte list) option" where
  "toy_map bs = (if hd bs = 0xdf then map_option (map_prod of_nat id) (toy_read_nat (tl bs)) else Some (of_nat (unat (hd bs) - 128), tl bs))"

definition toy_array :: "byte list \<Rightarrow> (u32 \<times> byte list) option" where
  "toy_array bs =
    (if hd bs = 0xdc then Some (of_nat (unat (bs ! 1) * 2 ^ 8 + unat (bs ! 2)), drop 3 bs)
     else if hd bs = 0xdd then Some (of_nat (unat (bs ! 1) * 2 ^ 24 + unat (bs ! 2) * 2 ^ 16 + unat (bs ! 3) * 2 ^ 8 + unat (bs ! 4)), drop 5 bs)
     else Some (of_nat (unat (hd bs) - 144), tl bs))"

lemma unat_byte_sum: "a + n < 256 \<Longrightarrow> unat (of_nat a + of_nat n :: byte) = a + n"
proof -
  assume "a + n < 256"
  then have "unat (of_nat (a + n) :: byte) = a + n" by (simp only: unsigned_of_nat) (simp add: take_bit_nat_eq_self)
  then show ?thesis by simp
qed

lemma unat_short [simp]:
  "n < 16 \<Longrightarrow> unat (0x80 + of_nat n :: byte) = 128 + n" "n < 16 \<Longrightarrow> unat (144 + of_nat n :: byte) = 144 + n"
  "n < 32 \<Longrightarrow> unat (0xa0 + of_nat n :: byte) = 160 + n"
  using unat_byte_sum[of 128 n] unat_byte_sum[of 144 n] unat_byte_sum[of 160 n] by simp_all

lemma unat_byte: "unat (of_nat n :: byte) = n mod 256"
  by (simp add: unsigned_of_nat take_bit_eq_mod)

lemma char_of_byte [simp]: "char_of (unat (char_byte c)) = c"
  using nat_of_char_less_256[of c] by (simp add: char_byte_def unat_byte)

lemma toy_key_back: "length k < 32 \<Longrightarrow> toy_key (fixstr k @ r) = Some (k, r)"
  by (simp add: toy_key_def fixstr_def Let_def o_def)

lemma short_not: "n < 16 \<Longrightarrow> (0x80 + of_nat n :: byte) \<noteq> 0xdf" "n < 16 \<Longrightarrow> (0x80 + of_nat n :: byte) \<noteq> 0xc0"
  "n < 16 \<Longrightarrow> (144 + of_nat n :: byte) \<noteq> 0xdc" "n < 16 \<Longrightarrow> (144 + of_nat n :: byte) \<noteq> 0xdd"
  by (auto dest!: arg_cong[where f = unat] simp: unat_byte)

lemma toy_array_back: "n < 2 ^ 32 \<Longrightarrow> toy_array (msgpack_array n @ r) = Some (of_nat n, r)"
proof -
  assume n: "n < 2 ^ 32"
  consider "n \<le> 15" | "15 < n" "n < 2 ^ 16" | "2 ^ 16 \<le> n" by linarith
  then show ?thesis
  proof cases
    case 1
    then show ?thesis using short_not(3,4)[of n] by (simp add: toy_array_def msgpack_array_def)
  next
    case 2
    have "n div 256 mod 256 * 256 + n mod 256 = n" using 2(2) by simp
    then show ?thesis using 2 by (simp add: toy_array_def msgpack_array_def unat_byte)
  next
    case 3
    define a where "a = n div 2 ^ 8"
    define b where "b = a div 256"
    define c where "c = b div 256"
    have d: "n div 2 ^ 16 = b" "n div 2 ^ 24 = c" by (simp_all add: a_def b_def c_def div_mult2_eq[symmetric])
    have "c * 256 + b mod 256 = b" "b * 256 + a mod 256 = a" "a * 256 + n mod 256 = n" by (simp_all add: a_def b_def c_def)
    moreover have c: "n div 2 ^ 24 mod 256 = n div 2 ^ 24" using n by simp
    ultimately have "c * 16777216 + b mod 256 * 65536 + a mod 256 * 256 + n mod 256 = n" by linarith
    then have "n div 2 ^ 24 * 2 ^ 24 + n div 2 ^ 16 mod 256 * 2 ^ 16 + n div 2 ^ 8 mod 256 * 2 ^ 8 + n mod 256 = n"
      unfolding d a_def[symmetric] by simp
    then show ?thesis using 3 c by (simp add: toy_array_def msgpack_array_def unat_byte del: of_nat_add of_nat_mult)
  qed
qed

definition toy_msgp :: msgp_lib where
  "toy_msgp = \<lparr>mp_WriteString = toy_list char_byte, mp_WriteInt64 = toy_int, mp_WriteInt32 = toy_int, mp_WriteUint64 = (\<lambda>n. toy_nat (unat n)),
     mp_WriteUint32 = toy_int, mp_WriteFloat64 = toy_float, mp_WriteBytes = toy_list id, mp_WriteBool = (\<lambda>b. [if b then 1 else 0]),
     mp_WriteMapHeader = (\<lambda>n. 0xdf # toy_nat (unat n)), mp_WriteArrayHeader = (\<lambda>n. msgpack_array (unat n)), mp_WriteNil = [0xc0],
     mp_ReadString = toy_read_list (\<lambda>b. char_of (unat b)), mp_ReadInt64 = toy_read_int, mp_ReadInt32 = toy_read_int,
     mp_ReadUint64 = (\<lambda>bs. map_option (map_prod of_nat id) (toy_read_nat bs)), mp_ReadUint32 = toy_read_int, mp_ReadFloat64 = toy_read_float,
     mp_ReadBytes = toy_read_list id, mp_ReadBool = (\<lambda>bs. Some (hd bs = 1, tl bs)), mp_ReadMapHeader = toy_map, mp_ReadArrayHeader = toy_array,
     mp_ReadMapKey = toy_key, mp_IsNil = (\<lambda>bs. bs \<noteq> [] \<and> hd bs = 0xc0), mp_ReadNil = (\<lambda>bs. Some (tl bs)), mp_Skip = (\<lambda>_. None)\<rparr>"

lemma toy_laws: "msgp_laws toy_msgp"
proof -
  have "toy_array (msgpack_array (unat w) @ r) = Some (w, r)" for w :: u32 and r
    using toy_array_back[of "unat w" r] unsigned_less[of w] by simp
  then show ?thesis
    using toy_key_back toy_array_back short_not unfolding msgp_laws_def
    by (simp add: toy_msgp_def toy_map_def fixmap_def)
qed

definition sample_wire_span :: span where
  "sample_wire_span = zero_span\<lparr>s_Name := ''op'', s_Meta := Some [(''k'', ''v'')], s_Metrics := Some [(''m'', Fin 2)], s_SpanID := 7, s_Duration := -5\<rparr>"

theorem payload_delivers_traces_witness:
  "\<exists>bs. read_all payload_Read (Suc (length (payload_content (push_all (\<lambda>t. (spanList_EncodeMsg toy_msgp t, True)) [[Some sample_wire_span], []] newPayload)))) 3
      (push_all (\<lambda>t. (spanList_EncodeMsg toy_msgp t, True)) [[Some sample_wire_span], []] newPayload) = Some bs
    \<and> spanLists_DecodeMsg toy_msgp [] bs = Some ([[Some sample_wire_span], []], [])"
proof -
  let ?ts = "[[Some sample_wire_span], []]"
  have two: "f64_round 2 = Fin 2" using f64_of_int_exact[of 2] by (simp add: f64_of_int_def)
  have ok: "span_ok sample_wire_span"
    by (simp add: span_ok_def sample_wire_span_def zero_span_def int64_range_def m_wf_def f64_value_def two)
  have "wire sample_wire_span = sample_wire_span" by (simp add: wire_def sample_wire_span_def zero_span_def canon_map_def)
  moreover have "list_all trace_ok ?ts" using ok by (simp add: trace_ok_def)
  ultimately show ?thesis using payload_delivers_traces[OF toy_laws _ _ _ _ lessI, of ?ts 3] by simp
qed

end
