(* ===== verification/Waf_Object.thy ===== *)
theory Waf_Object
  imports Go_Prelude
begin

section \<open>internal/appsec/waf: WAF objects in C memory\<close>

text \<open>
  Go values are encoded into objects of libddwaf, which live in C memory and are freed by hand.  The
  store \<open>cmem\<close> has the blocks that are allocated; \<open>cm_bad\<close> records a \<open>free\<close> of a block that is not.
  A pointer is the number of its allocation; \<open>cm_null\<close> says which calls of \<open>calloc\<close> fail (\<open>C.CString\<close> never
  does).  A string keeps its bytes beside its pointer.  A Go value is the tree that package reflect shows;
  \<open>GPtr\<close> is a pointer or an interface, \<open>GOther\<close> every kind without encoding.
\<close>

subsection \<open>C memory\<close>

record cmem =
  cm_next :: nat
  cm_live :: "nat set"
  cm_null :: "nat \<Rightarrow> bool"
  cm_bad :: bool

definition malloc :: "cmem \<Rightarrow> nat \<times> cmem" where
  "malloc m = (cm_next m, m\<lparr>cm_next := Suc (cm_next m), cm_live := insert (cm_next m) (cm_live m)\<rparr>)"

definition calloc :: "cmem \<Rightarrow> nat option \<times> cmem" where
  "calloc m = (if cm_null m (cm_next m) then (None, m\<lparr>cm_next := Suc (cm_next m)\<rparr>) else apfst Some (malloc m))"

definition cFree :: "nat \<Rightarrow> cmem \<Rightarrow> cmem" where
  "cFree p m = m\<lparr>cm_live := cm_live m - {p}, cm_bad := (cm_bad m \<or> p \<notin> cm_live m)\<rparr>"

subsection \<open>Objects and values\<close>

datatype waf_error =
  ErrInternal | ErrInvalidObject | ErrInvalidArgument | ErrTimeout | ErrOutOfMemory | ErrEmptyRuleAddresses | ErrUnknownCode int
  | errMaxDepth | errUnsupportedValue | errInvalidMapKey | errRuleJSON | errRuleInit

datatype wafObject = WO (wo_key: "(nat \<times> string) option") (wo_val: wafValue)
and wafValue =
    WInvalid | WUint u64 | WInt int | WString nat string
  | WArray "nat option" "wafObject list" | WMap "nat option" "wafObject list"

datatype goany =
    GBool bool | GStr string | GBytes string | GInt int | GUint u64 | GFloat float64
  | GPtr "goany option" | GStruct "(string \<times> goany) list" | GMap "(goany \<times> goany) list" | GArray "goany list" | GOther

record encoder =
  maxDepth :: int
  maxStringLength :: nat
  maxArrayLength :: nat
  maxMapLength :: nat

abbreviation "zeroWO \<equiv> WO None WInvalid"

definition isIgnoredValueError :: "waf_error \<Rightarrow> bool" where
  "isIgnoredValueError err \<longleftrightarrow> err = errUnsupportedValue \<or> err = errMaxDepth"

definition cstring :: "string \<Rightarrow> nat \<Rightarrow> cmem \<Rightarrow> (nat \<times> string) \<times> cmem" where
  "cstring str maxLength m = (case malloc m of (p, m') \<Rightarrow> ((p, take maxLength str), m'))"

text \<open>A container without entries has no array.  The result \<open>None\<close> is the error of a failed allocation.\<close>

definition setContainer :: "nat \<Rightarrow> cmem \<Rightarrow> nat option option \<times> cmem" where
  "setContainer n m = (if n > 0 then (case calloc m of (None, m') \<Rightarrow> (None, m') | (Some p, m') \<Rightarrow> (Some (Some p), m')) else (Some None, m))"

subsection \<open>Freeing\<close>

text \<open>An object without value keeps its key when it is freed: the function returns before \<open>setInvalid\<close>.\<close>

fun freeWO :: "wafObject \<Rightarrow> cmem \<Rightarrow> wafObject \<times> cmem" where
  "freeWO (WO k v) m =
    (let m1 = (case k of Some (p, _) \<Rightarrow> cFree p m | None \<Rightarrow> m)
     in case v of
          WInvalid \<Rightarrow> (WO k v, m1)
        | WString p _ \<Rightarrow> (zeroWO, cFree p m1)
        | WMap a ws \<Rightarrow> (zeroWO, (case a of Some p \<Rightarrow> cFree p | None \<Rightarrow> id) (fold (\<lambda>w m. snd (freeWO w m)) ws m1))
        | WArray a ws \<Rightarrow> (zeroWO, (case a of Some p \<Rightarrow> cFree p | None \<Rightarrow> id) (fold (\<lambda>w m. snd (freeWO w m)) ws m1))
        | _ \<Rightarrow> (zeroWO, m1))"

declare freeWO.simps [simp del]

subsection \<open>Encoding\<close>

type_synonym 'a encoded = "waf_error option \<times> 'a \<times> cmem"

definition encodeString :: "encoder \<Rightarrow> string \<Rightarrow> cmem \<Rightarrow> wafValue encoded" where
  "encodeString e str m = (case cstring str (maxStringLength e) m of ((p, s), m') \<Rightarrow> (None, WString p s, m'))"

definition encodeInt64 :: "encoder \<Rightarrow> int \<Rightarrow> cmem \<Rightarrow> wafValue encoded" where
  "encodeInt64 e n = encodeString e (itoa n)"

definition encodeUint64 :: "encoder \<Rightarrow> u64 \<Rightarrow> cmem \<Rightarrow> wafValue encoded" where
  "encodeUint64 e n = encodeString e (format_uint n 10)"

text \<open>\<open>math.Round\<close>: halves are rounded away from zero.\<close>

fun math_Round :: "float64 \<Rightarrow> float64" where
  "math_Round (Fin q) = Fin (of_int (if q \<ge> 0 then \<lfloor>q + 1 / 2\<rfloor> else - \<lfloor>- q + 1 / 2\<rfloor>))"
| "math_Round f = f"

text \<open>The key of a map entry; \<open>None\<close> is \<open>errUnsupportedValue\<close>.\<close>

fun encodeMapKey :: "encoder \<Rightarrow> goany \<Rightarrow> cmem \<Rightarrow> (nat \<times> string) option \<times> cmem" where
  "encodeMapKey e (GPtr (Some v)) m = encodeMapKey e v m"
| "encodeMapKey e (GStr s) m = apfst Some (cstring s (maxStringLength e) m)"
| "encodeMapKey e _ m = (None, m)"

text \<open>
  The loops over entries, with the encoder \<open>enc\<close> of the values: \<open>ws\<close> are the entries that are done.  An entry
  that cannot be encoded is skipped, any other error ends the loop with the entry as it was left.
\<close>

fun map_loop :: "encoder \<Rightarrow> (goany \<Rightarrow> cmem \<Rightarrow> wafValue encoded) \<Rightarrow> nat \<Rightarrow> (goany \<times> goany) list \<Rightarrow> wafObject list \<Rightarrow> cmem \<Rightarrow> wafObject list encoded" where
  "map_loop e enc capacity [] ws m = (None, ws, m)"
| "map_loop e enc capacity ((k, v) # kvs) ws m =
    (if length ws = capacity then (None, ws, m)
     else case encodeMapKey e k m of
       (None, m1) \<Rightarrow> map_loop e enc capacity kvs ws m1
     | (Some key, m1) \<Rightarrow>
         (case enc v m1 of
            (None, w, m2) \<Rightarrow> map_loop e enc capacity kvs (ws @ [WO (Some key) w]) m2
          | (Some err, w, m2) \<Rightarrow>
              (case freeWO (WO (Some key) w) m2 of (entry, m3) \<Rightarrow>
                 if isIgnoredValueError err then map_loop e enc capacity kvs ws m3 else (Some err, ws @ [entry], m3))))"

fun array_loop :: "(goany \<Rightarrow> cmem \<Rightarrow> wafValue encoded) \<Rightarrow> nat \<Rightarrow> goany list \<Rightarrow> wafObject list \<Rightarrow> cmem \<Rightarrow> wafObject list encoded" where
  "array_loop enc capacity [] ws m = (None, ws, m)"
| "array_loop enc capacity (v # vs) ws m =
    (if length ws = capacity then (None, ws, m)
     else case enc v m of
       (None, w, m1) \<Rightarrow> array_loop enc capacity vs (ws @ [WO None w]) m1
     | (Some err, w, m1) \<Rightarrow>
         if isIgnoredValueError err then array_loop enc capacity vs ws m1 else (Some err, ws @ [WO None w], m1))"

text \<open>After the loop the length is set to the number of entries; after an error it is still the capacity.\<close>

definition encode_container ::
  "(nat option \<Rightarrow> wafObject list \<Rightarrow> wafValue) \<Rightarrow> nat \<Rightarrow> (cmem \<Rightarrow> wafObject list encoded) \<Rightarrow> cmem \<Rightarrow> wafValue encoded" where
  "encode_container V capacity loop m =
    (case setContainer capacity m of
       (None, m1) \<Rightarrow> (Some ErrOutOfMemory, WInvalid, m1)
     | (Some a, m1) \<Rightarrow>
         (case loop m1 of (err, ws, m2) \<Rightarrow>
            (err, V a (if err = None then ws else ws @ replicate (capacity - length ws) zeroWO), m2)))"

text \<open>\<open>unicode.IsLower\<close> on the first byte of a field name, taken as a rune of Latin-1.\<close>

definition private_field :: "string \<Rightarrow> bool" where
  "private_field n \<longleftrightarrow> n = [] \<or>
    (let c = of_char (hd n) :: nat in 97 \<le> c \<and> c \<le> 122 \<or> c = 0xB5 \<or> 0xDF \<le> c \<and> c \<le> 0xF6 \<or> 0xF8 \<le> c)"

definition struct_entries :: "(string \<times> goany) list \<Rightarrow> (goany \<times> goany) list" where
  "struct_entries fs = map (\<lambda>(n, v). (GStr n, v)) (filter (\<lambda>(n, v). \<not> private_field n) fs)"

lemma map_loop_cong [fundef_cong]:
  assumes "kvs = kvs'" "\<And>k v m. (k, v) \<in> set kvs' \<Longrightarrow> enc v m = enc' v m" "e = e'" "n = n'" "ws = ws'" "m = m'"
  shows "map_loop e enc n kvs ws m = map_loop e' enc' n' kvs' ws' m'"
proof -
  have "(\<And>k v m. (k, v) \<in> set kvs' \<Longrightarrow> enc v m = enc' v m) \<Longrightarrow> map_loop e' enc n' kvs' ws' m' = map_loop e' enc' n' kvs' ws' m'"
  proof (induction kvs' arbitrary: ws' m')
    case (Cons kv kvs)
    obtain k v where kv: "kv = (k, v)" by force
    have "enc v = enc' v" using Cons.prems[of k v] kv by (intro ext) simp
    moreover have "map_loop e' enc n' kvs ws m = map_loop e' enc' n' kvs ws m" for ws m
      by (rule Cons.IH, rule Cons.prems[OF list.set_intros(2)], assumption)
    ultimately show ?case by (simp add: kv split: option.split prod.split)
  qed simp
  then show ?thesis using assms by blast
qed

lemma array_loop_cong [fundef_cong]:
  assumes "vs = vs'" "\<And>v m. v \<in> set vs' \<Longrightarrow> enc v m = enc' v m" "n = n'" "ws = ws'" "m = m'"
  shows "array_loop enc n vs ws m = array_loop enc' n' vs' ws' m'"
proof -
  have "(\<And>v m. v \<in> set vs' \<Longrightarrow> enc v m = enc' v m) \<Longrightarrow> array_loop enc n' vs' ws' m' = array_loop enc' n' vs' ws' m'"
  proof (induction vs' arbitrary: ws' m')
    case (Cons v vs)
    have "enc v = enc' v" using Cons.prems[of v] by (intro ext) simp
    moreover have "array_loop enc n' vs ws m = array_loop enc' n' vs ws m" for ws m
      by (rule Cons.IH) (rule Cons.prems, simp)
    ultimately show ?case by (simp split: option.split prod.split)
  qed simp
  then show ?thesis using assms by blast
qed

lemma encode_container_cong [fundef_cong]:
  assumes "V = V'" "n = n'" "m = m'" "\<And>m. loop m = loop' m"
  shows "encode_container V n loop m = encode_container V' n' loop' m'"
proof -
  have "loop = loop'" using assms(4) by blast
  then show ?thesis using assms by simp
qed

lemma entry_size: "(k, v) \<in> set kvs \<Longrightarrow> size v < Suc (size_list (size_prod f size) kvs)"
  using size_list_estimation'[of "(k, v)" kvs "size v" "size_prod f size"] by simp

lemma item_size: "v \<in> set vs \<Longrightarrow> size v < Suc (size_list size vs)"
  using size_list_estimation'[of v vs "size v" size] by simp

lemma struct_entry_size: "(k, v) \<in> set (struct_entries fs) \<Longrightarrow> size v < Suc (size_list (size_prod f size) fs)"
  by (auto simp: struct_entries_def intro: entry_size)

function (sequential) encodeValue :: "encoder \<Rightarrow> goany \<Rightarrow> int \<Rightarrow> cmem \<Rightarrow> wafValue encoded" where
  "encodeValue e (GBool b) depth m = encodeString e (if b then ''true'' else ''false'') m"
| "encodeValue e (GPtr None) depth m = (Some errUnsupportedValue, WInvalid, m)"
| "encodeValue e (GPtr (Some v)) depth m = encodeValue e v depth m"
| "encodeValue e (GStr s) depth m = encodeString e s m"
| "encodeValue e (GStruct fs) depth m =
    (if depth < 0 then (Some errMaxDepth, WInvalid, m)
     else let capacity = min (length fs) (maxMapLength e)
       in encode_container WMap capacity (map_loop e (\<lambda>v m. encodeValue e v (depth - 1) m) capacity (struct_entries fs) []) m)"
| "encodeValue e (GMap kvs) depth m =
    (if depth < 0 then (Some errMaxDepth, WInvalid, m)
     else let capacity = min (length kvs) (maxMapLength e)
       in encode_container WMap capacity (map_loop e (\<lambda>v m. encodeValue e v (depth - 1) m) capacity kvs []) m)"
| "encodeValue e (GBytes s) depth m = (if depth < 0 then (Some errMaxDepth, WInvalid, m) else encodeString e s m)"
| "encodeValue e (GArray vs) depth m =
    (if depth < 0 then (Some errMaxDepth, WInvalid, m)
     else let capacity = min (length vs) (maxArrayLength e)
       in encode_container WArray capacity (array_loop (\<lambda>v m. encodeValue e v (depth - 1) m) capacity vs []) m)"
| "encodeValue e (GInt n) depth m = encodeInt64 e n m"
| "encodeValue e (GFloat f) depth m = encodeInt64 e (f64_to_int (math_Round f)) m"
| "encodeValue e (GUint n) depth m = encodeUint64 e n m"
| "encodeValue e GOther depth m = (Some errUnsupportedValue, WInvalid, m)"
  by pat_completeness auto
termination
  by (relation "measure (\<lambda>(e, v, depth, m). size v)")
     (auto intro: entry_size struct_entry_size item_size)

text \<open>On an error the result is nil, and so nothing is freed.\<close>

definition encode :: "encoder \<Rightarrow> goany \<Rightarrow> cmem \<Rightarrow> (waf_error + wafObject) \<times> cmem" where
  "encode e v m =
    (case encodeValue e v (maxDepth e) m of
       (Some err, w, m') \<Rightarrow> (Inl err, m')
     | (None, w, m') \<Rightarrow> (Inr (WO None w), m'))"

subsection \<open>Decoding\<close>

text \<open>A length that does not fit into a C int is an invalid argument.\<close>

definition gostring :: "string \<Rightarrow> waf_error + string" where
  "gostring s = (if length s < 2 ^ 31 then Inr s else Inl ErrInvalidArgument)"

definition decodeMapKey :: "wafObject \<Rightarrow> waf_error + string" where
  "decodeMapKey w = (case wo_key w of Some (p, k) \<Rightarrow> if k = [] then Inl errInvalidMapKey else gostring k | None \<Rightarrow> Inl errInvalidMapKey)"

fun decode_array :: "(wafObject \<Rightarrow> waf_error + goany) \<Rightarrow> wafObject list \<Rightarrow> waf_error + goany list" where
  "decode_array dec [] = Inr []"
| "decode_array dec (w # ws) = (case dec w of Inl err \<Rightarrow> Inl err | Inr v \<Rightarrow> map_sum id (Cons v) (decode_array dec ws))"

fun decode_map :: "(wafObject \<Rightarrow> waf_error + goany) \<Rightarrow> wafObject list \<Rightarrow> (string \<times> goany) list \<Rightarrow> waf_error + (string \<times> goany) list" where
  "decode_map dec [] kvs = Inr kvs"
| "decode_map dec (w # ws) kvs =
    (case decodeMapKey w of
       Inl err \<Rightarrow> Inl err
     | Inr k \<Rightarrow> (case dec w of Inl err \<Rightarrow> Inl err | Inr v \<Rightarrow> decode_map dec ws (AList.update k v kvs)))"

lemma decode_array_cong [fundef_cong]:
  "ws = ws' \<Longrightarrow> (\<And>w. w \<in> set ws' \<Longrightarrow> dec w = dec' w) \<Longrightarrow> decode_array dec ws = decode_array dec' ws'"
  by (induction ws arbitrary: ws') (auto split: sum.split)

lemma decode_map_cong [fundef_cong]:
  assumes "ws = ws'" "\<And>w. w \<in> set ws' \<Longrightarrow> dec w = dec' w" "kvs = kvs'"
  shows "decode_map dec ws kvs = decode_map dec' ws' kvs'"
proof -
  have "(\<And>w. w \<in> set ws' \<Longrightarrow> dec w = dec' w) \<Longrightarrow> decode_map dec ws' kvs' = decode_map dec' ws' kvs'"
    by (induction dec ws' kvs' rule: decode_map.induct) (simp_all split: sum.split)
  then show ?thesis using assms by blast
qed

fun decodeObject :: "wafObject \<Rightarrow> waf_error + goany" where
  "decodeObject (WO k v) =
    (case v of
       WUint n \<Rightarrow> Inr (GUint n)
     | WInt n \<Rightarrow> Inr (GInt n)
     | WString p s \<Rightarrow> map_sum id GStr (gostring s)
     | WArray a ws \<Rightarrow> map_sum id GArray (decode_array decodeObject ws)
     | WMap a ws \<Rightarrow> map_sum id (\<lambda>kvs. GMap (map (apfst GStr) kvs)) (decode_map decodeObject ws [])
     | WInvalid \<Rightarrow> Inl errUnsupportedValue)"

declare decodeObject.simps [simp del]

text \<open>\<open>decodeErrors\<close> reads the entries of the object whatever its type is; an empty map is nil.\<close>

definition decodeErrors :: "wafObject list \<Rightarrow> waf_error + (string, goany) gomap" where
  "decodeErrors ws = map_sum id (\<lambda>kvs. if kvs = [] then None else Some kvs) (decode_map decodeObject ws [])"

subsection \<open>Blocks of an object\<close>

fun wptrs :: "wafObject \<Rightarrow> nat list" where
  "wptrs (WO k v) = (case k of Some (p, _) \<Rightarrow> [p] | None \<Rightarrow> []) @
    (case v of
       WString p _ \<Rightarrow> [p]
     | WMap a ws \<Rightarrow> concat (map wptrs ws) @ (case a of Some p \<Rightarrow> [p] | None \<Rightarrow> [])
     | WArray a ws \<Rightarrow> concat (map wptrs ws) @ (case a of Some p \<Rightarrow> [p] | None \<Rightarrow> [])
     | _ \<Rightarrow> [])"

declare wptrs.simps [simp del]

abbreviation "vptrs v \<equiv> wptrs (WO None v)"

lemma wptrs_key: "wptrs (WO (Some (p, s)) v) = p # vptrs v"
  by (simp add: wptrs.simps)

lemma vptrs_simps [simp]:
  "vptrs WInvalid = []" "vptrs (WString p s) = [p]" "vptrs (WUint n) = []" "vptrs (WInt i) = []"
  "vptrs (WMap None ws) = concat (map wptrs ws)" "vptrs (WMap (Some p) ws) = concat (map wptrs ws) @ [p]"
  "vptrs (WArray None ws) = concat (map wptrs ws)" "vptrs (WArray (Some p) ws) = concat (map wptrs ws) @ [p]"
  by (simp_all add: wptrs.simps)

lemma cFree_live: "p \<in> cm_live m \<Longrightarrow> cFree p m = m\<lparr>cm_live := cm_live m - {p}\<rparr>"
  by (cases m) (simp add: cFree_def)

lemma free_all:
  assumes "\<And>w m. w \<in> set ws \<Longrightarrow> distinct (wptrs w) \<Longrightarrow> set (wptrs w) \<subseteq> cm_live m \<Longrightarrow> snd (freeWO w m) = m\<lparr>cm_live := cm_live m - set (wptrs w)\<rparr>"
    and "distinct (concat (map wptrs ws))" "set (concat (map wptrs ws)) \<subseteq> cm_live m"
  shows "fold (\<lambda>w m. snd (freeWO w m)) ws m = m\<lparr>cm_live := cm_live m - set (concat (map wptrs ws))\<rparr>"
  using assms
proof (induction ws arbitrary: m)
  case (Cons w ws)
  let ?m = "m\<lparr>cm_live := cm_live m - set (wptrs w)\<rparr>"
  have w: "snd (freeWO w m) = ?m" using Cons.prems by simp
  have "fold (\<lambda>w m. snd (freeWO w m)) ws ?m = ?m\<lparr>cm_live := cm_live ?m - set (concat (map wptrs ws))\<rparr>"
    by (rule Cons.IH) (use Cons.prems in auto)
  then show ?case by (simp add: w Diff_eq Int_assoc)
qed simp

abbreviation "array_ptr a \<equiv> (case a of Some p \<Rightarrow> [p] | None \<Rightarrow> [])"

lemma free_array:
  assumes "distinct (ps @ array_ptr a)" "set (ps @ array_ptr a) \<subseteq> cm_live m" "m' = m\<lparr>cm_live := cm_live m - set ps\<rparr>"
  shows "(case a of Some p \<Rightarrow> cFree p | None \<Rightarrow> id) m' = m\<lparr>cm_live := cm_live m - set (ps @ array_ptr a)\<rparr>"
proof (cases a)
  case (Some p)
  have "p \<in> cm_live m'" using assms Some by auto
  moreover have "cm_live m - set ps - {p} = cm_live m - set (ps @ [p])" by auto
  ultimately show ?thesis using assms(3) Some by (simp add: cFree_live del: set_append)
qed (use assms(3) in simp)

text \<open>Freeing an object frees each of its blocks once.\<close>

lemma freeWO_frees:
  "distinct (wptrs w) \<Longrightarrow> set (wptrs w) \<subseteq> cm_live m \<Longrightarrow> snd (freeWO w m) = m\<lparr>cm_live := cm_live m - set (wptrs w)\<rparr>"
proof (induction w m rule: freeWO.induct)
  case (1 k v m)
  define m1 where "m1 = (case k of Some (p, _) \<Rightarrow> cFree p m | None \<Rightarrow> m)"
  have ptrs: "wptrs (WO k v) = (case k of Some (p, _) \<Rightarrow> [p] | None \<Rightarrow> []) @ vptrs v" by (simp add: wptrs.simps)
  have m1: "m1 = m\<lparr>cm_live := cm_live m - set (case k of Some (p, _) \<Rightarrow> [p] | None \<Rightarrow> [])\<rparr>"
    using 1 by (auto simp: m1_def ptrs cFree_live split: option.splits)
  have d: "distinct (vptrs v)" "set (vptrs v) \<subseteq> cm_live m1" using "1.prems" by (auto simp: ptrs m1)
  have "snd (freeWO (WO k v) m) = m1\<lparr>cm_live := cm_live m1 - set (vptrs v)\<rparr>"
  proof (cases v)
    case (WString p s)
    then show ?thesis using d by (simp add: freeWO.simps m1_def[symmetric] cFree_live)
  next
    case (WArray a ws)
    have "fold (\<lambda>w m. snd (freeWO w m)) ws m1 = m1\<lparr>cm_live := cm_live m1 - set (concat (map wptrs ws))\<rparr>"
      by (rule free_all) (use "1.IH"(1)[OF m1_def WArray] d WArray in \<open>auto split: option.splits simp: wptrs.simps\<close>)
    moreover have vp: "vptrs v = concat (map wptrs ws) @ array_ptr a" by (simp add: WArray wptrs.simps)
    ultimately show ?thesis using free_array[of "concat (map wptrs ws)" a m1] d
      by (simp add: WArray vp freeWO.simps m1_def[symmetric] del: set_concat set_append distinct_append)
  next
    case (WMap a ws)
    have "fold (\<lambda>w m. snd (freeWO w m)) ws m1 = m1\<lparr>cm_live := cm_live m1 - set (concat (map wptrs ws))\<rparr>"
      by (rule free_all) (use "1.IH"(2)[OF m1_def WMap] d WMap in \<open>auto split: option.splits simp: wptrs.simps\<close>)
    moreover have vp: "vptrs v = concat (map wptrs ws) @ array_ptr a" by (simp add: WMap wptrs.simps)
    ultimately show ?thesis using free_array[of "concat (map wptrs ws)" a m1] d
      by (simp add: WMap vp freeWO.simps m1_def[symmetric] del: set_concat set_append distinct_append)
  qed (simp_all add: freeWO.simps m1_def[symmetric])
  then show ?case by (simp add: ptrs m1 Diff_eq Int_assoc)
qed

subsection \<open>What encoding allocates\<close>

definition wf_mem :: "cmem \<Rightarrow> bool" where
  "wf_mem m \<longleftrightarrow> (\<forall>p \<in> cm_live m. p < cm_next m)"

definition no_oom :: "cmem \<Rightarrow> bool" where
  "no_oom m \<longleftrightarrow> (\<forall>p. \<not> cm_null m p)"

definition allocated :: "nat list \<Rightarrow> cmem \<Rightarrow> cmem \<Rightarrow> bool" where
  "allocated ps m m' \<longleftrightarrow> distinct ps \<and> set ps \<subseteq> {cm_next m..<cm_next m'} \<and> cm_next m \<le> cm_next m'
     \<and> cm_live m' = cm_live m \<union> set ps \<and> cm_null m' = cm_null m \<and> cm_bad m' = cm_bad m"

lemma allocated_refl [simp]: "allocated [] m m"
  by (simp add: allocated_def)

lemma allocated_trans: "allocated ps m m1 \<Longrightarrow> allocated qs m1 m2 \<Longrightarrow> allocated (ps @ qs) m m2"
proof -
  assume a: "allocated ps m m1" and b: "allocated qs m1 m2"
  have "set ps \<inter> set qs = {}" using a b unfolding allocated_def by fastforce
  then show ?thesis using a b by (fastforce simp: allocated_def)
qed

lemma allocated_wf: "allocated ps m m' \<Longrightarrow> wf_mem m \<Longrightarrow> wf_mem m'" "allocated ps m m' \<Longrightarrow> no_oom m \<Longrightarrow> no_oom m'"
  by (fastforce simp: allocated_def wf_mem_def no_oom_def)+

lemma allocated_perm: "allocated ps m m' \<Longrightarrow> distinct qs \<Longrightarrow> set qs = set ps \<Longrightarrow> allocated qs m m'"
  by (auto simp: allocated_def)

lemma allocated_free:
  assumes "allocated ps m m'" "wf_mem m" "wptrs w = ps"
  shows "allocated [] m (snd (freeWO w m'))" "cm_live (snd (freeWO w m')) = cm_live m"
proof -
  have "cm_live m \<inter> set ps = {}" using assms(1,2) by (fastforce simp: allocated_def wf_mem_def)
  moreover have "snd (freeWO w m') = m'\<lparr>cm_live := cm_live m' - set (wptrs w)\<rparr>"
    by (rule freeWO_frees) (use assms in \<open>auto simp: allocated_def\<close>)
  ultimately show "allocated [] m (snd (freeWO w m'))" "cm_live (snd (freeWO w m')) = cm_live m"
    using assms by (auto simp: allocated_def)
qed

lemma malloc_allocated: "malloc m = (p, m') \<Longrightarrow> allocated [p] m m'"
  by (auto simp: malloc_def allocated_def)

lemma cstring_allocated: "cstring s n m = ((p, t), m') \<Longrightarrow> allocated [p] m m'"
  by (auto simp: cstring_def malloc_allocated split: prod.splits)

lemma encodeMapKey_allocated:
  "encodeMapKey e k m = (r, m') \<Longrightarrow> (case r of None \<Rightarrow> m' = m | Some (p, s) \<Rightarrow> allocated [p] m m')"
proof (induction e k m rule: encodeMapKey.induct)
  case (2 e s m)
  obtain q m2 where "cstring s (maxStringLength e) m = (q, m2)" by (cases "cstring s (maxStringLength e) m") blast
  then show ?case using 2 cstring_allocated[of s "maxStringLength e" m "fst q" "snd q" m2] by (auto split: prod.split)
qed auto

definition good_enc :: "cmem \<Rightarrow> wafValue encoded \<Rightarrow> bool" where
  "good_enc m r = (case r of
     (None, w, m') \<Rightarrow> allocated (vptrs w) m m'
   | (Some err, w, m') \<Rightarrow> isIgnoredValueError err \<and> w = WInvalid \<and> m' = m)"

definition good_loop :: "wafObject list \<Rightarrow> cmem \<Rightarrow> wafObject list encoded \<Rightarrow> bool" where
  "good_loop ws m r = (\<exists>us m'. r = (None, ws @ us, m') \<and> allocated (concat (map wptrs us)) m m')"

lemma good_loop_step:
  assumes "allocated (concat (map wptrs us)) m m1" "good_loop (ws @ us) m1 r"
  shows "good_loop ws m r"
proof -
  obtain vs m' where "r = (None, ws @ us @ vs, m')" "allocated (concat (map wptrs vs)) m1 m'"
    using assms(2) by (auto simp: good_loop_def)
  then show ?thesis using allocated_trans[OF assms(1)] by (auto simp: good_loop_def)
qed

lemma encodeString_good: "good_enc m (encodeString e s m)"
  using cstring_allocated by (auto simp: encodeString_def good_enc_def split: prod.splits)

lemma array_loop_good:
  assumes "\<And>v m. v \<in> set vs \<Longrightarrow> wf_mem m \<Longrightarrow> no_oom m \<Longrightarrow> good_enc m (enc v m)" "wf_mem m" "no_oom m"
  shows "good_loop ws m (array_loop enc n vs ws m)"
  using assms
proof (induction vs arbitrary: ws m)
  case Nil
  show ?case by (auto simp: good_loop_def intro: exI[of _ "[]"])
next
  case (Cons v vs)
  obtain err w m1 where r: "enc v m = (err, w, m1)" using prod_cases3 by blast
  have g: "good_enc m (err, w, m1)" using Cons.prems(1)[of v m] Cons.prems(2,3) r by simp
  have IH: "good_loop ws' m' (array_loop enc n vs ws' m')" if "wf_mem m'" "no_oom m'" for ws' m'
    by (rule Cons.IH[OF _ that]) (use Cons.prems(1) in auto)
  show ?case
  proof (cases err)
    case None
    then have a: "allocated (concat (map wptrs [WO None w])) m m1" using g by (simp add: good_enc_def)
    have "good_loop (ws @ [WO None w]) m1 (array_loop enc n vs (ws @ [WO None w]) m1)"
      by (rule IH) (use allocated_wf[OF a] Cons.prems in auto)
    then have "good_loop ws m (array_loop enc n vs (ws @ [WO None w]) m1)" using good_loop_step[OF a] by simp
    then show ?thesis by (auto simp: r None good_loop_def intro: exI[of _ "[]"])
  next
    case (Some x)
    then show ?thesis using g IH[OF Cons.prems(2,3), of ws] by (auto simp: r good_enc_def good_loop_def intro: exI[of _ "[]"])
  qed
qed

lemma map_loop_good:
  assumes "\<And>k v m. (k, v) \<in> set kvs \<Longrightarrow> wf_mem m \<Longrightarrow> no_oom m \<Longrightarrow> good_enc m (enc v m)" "wf_mem m" "no_oom m"
  shows "good_loop ws m (map_loop e enc n kvs ws m)"
  using assms
proof (induction kvs arbitrary: ws m)
  case Nil
  show ?case by (auto simp: good_loop_def intro: exI[of _ "[]"])
next
  case (Cons kv kvs)
  obtain k v where kv: "kv = (k, v)" by force
  obtain ko m1 where key: "encodeMapKey e k m = (ko, m1)" by force
  have IH: "good_loop ws' m' (map_loop e enc n kvs ws' m')" if "wf_mem m'" "no_oom m'" for ws' m'
    by (rule Cons.IH[OF _ that]) (use Cons.prems(1) in auto)
  have stop: "good_loop ws m (None, ws, m)" by (auto simp: good_loop_def intro: exI[of _ "[]"])
  show ?case
  proof (cases ko)
    case None
    then show ?thesis using encodeMapKey_allocated[OF key] IH[OF Cons.prems(2,3)] stop by (simp add: kv key)
  next
    case (Some pk)
    obtain p s where ko: "ko = Some (p, s)" using Some by (cases pk) auto
    have a1: "allocated [p] m m1" using encodeMapKey_allocated[OF key] ko by simp
    note wf1 = allocated_wf(1)[OF a1 Cons.prems(2)] allocated_wf(2)[OF a1 Cons.prems(3)]
    obtain err w m2 where r: "enc v m1 = (err, w, m2)" using prod_cases3 by blast
    have g: "good_enc m1 (err, w, m2)" using Cons.prems(1)[of k v m1] wf1 r kv by simp
    show ?thesis
    proof (cases err)
      case None
      let ?u = "WO (Some (p, s)) w"
      have a: "allocated (concat (map wptrs [?u])) m m2"
        using allocated_trans[OF a1, of "vptrs w" m2] g None by (simp add: good_enc_def wptrs_key)
      have "good_loop (ws @ [?u]) m2 (map_loop e enc n kvs (ws @ [?u]) m2)"
        by (rule IH) (use allocated_wf[OF a] Cons.prems in auto)
      then have "good_loop ws m (map_loop e enc n kvs (ws @ [?u]) m2)" using good_loop_step[OF a] by simp
      then show ?thesis using stop by (simp add: kv key ko r None)
    next
      case (Some x)
      then have x: "isIgnoredValueError x" "w = WInvalid" "m2 = m1" using g by (auto simp: good_enc_def)
      obtain w3 m3 where f: "freeWO (WO (Some (p, s)) WInvalid) m1 = (w3, m3)" by force
      have a3: "allocated (concat (map wptrs [])) m m3"
        using allocated_free(1)[OF a1 Cons.prems(2), of "WO (Some (p, s)) WInvalid"] f by (simp add: wptrs_key)
      have "good_loop (ws @ []) m3 (map_loop e enc n kvs ws m3)"
        using IH[of m3 ws] allocated_wf[OF a3] Cons.prems by simp
      then have "good_loop ws m (map_loop e enc n kvs ws m3)" by (rule good_loop_step[OF a3])
      then show ?thesis using stop x by (simp add: kv key ko r Some f)
    qed
  qed
qed

lemma container_good:
  assumes "wf_mem m" "no_oom m" and loop: "\<And>m. wf_mem m \<Longrightarrow> no_oom m \<Longrightarrow> good_loop [] m (loop m)"
    and V: "\<And>a ws. vptrs (V a ws) = concat (map wptrs ws) @ (case a of Some p \<Rightarrow> [p] | None \<Rightarrow> [])"
  shows "good_enc m (encode_container V n loop m)"
proof (cases "n > 0")
  case False
  then show ?thesis using loop[OF assms(1,2)] by (auto simp: encode_container_def setContainer_def good_loop_def good_enc_def V)
next
  case True
  obtain p m1 where p: "malloc m = (p, m1)" by force
  have a: "allocated [p] m m1" by (rule malloc_allocated[OF p])
  have s: "setContainer n m = (Some (Some p), m1)" using True assms(2) p by (simp add: setContainer_def calloc_def no_oom_def)
  obtain us m2 where l: "loop m1 = (None, us, m2)" "allocated (concat (map wptrs us)) m1 m2"
    using loop[OF allocated_wf[OF a]] assms by (auto simp: good_loop_def)
  have "allocated (concat (map wptrs us) @ [p]) m m2"
    by (rule allocated_perm[OF allocated_trans[OF a l(2)]]) (use allocated_trans[OF a l(2)] in \<open>auto simp: allocated_def\<close>)
  then show ?thesis by (simp add: encode_container_def s l(1) good_enc_def V)
qed

lemma encodeValue_good: "wf_mem m \<Longrightarrow> no_oom m \<Longrightarrow> good_enc m (encodeValue e v depth m)"
proof (induction e v depth m rule: encodeValue.induct)
  case (5 e fs depth m)
  then show ?case
    by (cases "depth < 0")
       (simp add: good_enc_def isIgnoredValueError_def,
        auto simp: Let_def vptrs_simps wptrs.simps intro!: container_good map_loop_good)
next
  case (6 e kvs depth m)
  then show ?case
    by (cases "depth < 0")
       (simp add: good_enc_def isIgnoredValueError_def,
        auto simp: Let_def vptrs_simps wptrs.simps intro!: container_good map_loop_good)
next
  case (8 e vs depth m)
  then show ?case
    by (cases "depth < 0")
       (simp add: good_enc_def isIgnoredValueError_def,
        auto simp: Let_def vptrs_simps wptrs.simps intro!: container_good array_loop_good)
qed (simp_all add: encodeString_good encodeInt64_def encodeUint64_def good_enc_def[of _ "(Some _, _)"] isIgnoredValueError_def)

text \<open>
  C36: If no allocation fails, then an encoding that fails has allocated nothing, and an encoded object that is
  freed leaves the memory as it was before, no block being freed twice.
\<close>

theorem encode_balanced:
  assumes "wf_mem m" "no_oom m"
  shows "case encode e v m of
      (Inl err, m') \<Rightarrow> m' = m
    | (Inr w, m') \<Rightarrow> cm_live (snd (freeWO w m')) = cm_live m \<and> cm_bad (snd (freeWO w m')) = cm_bad m"
proof -
  obtain err w m' where r: "encodeValue e v (maxDepth e) m = (err, w, m')" using prod_cases3 by blast
  have g: "good_enc m (err, w, m')" using encodeValue_good[OF assms, of e v "maxDepth e"] r by simp
  show ?thesis
  proof (cases err)
    case None
    then have a: "allocated (vptrs w) m m'" using g by (simp add: good_enc_def)
    show ?thesis using allocated_free[OF a assms(1) refl] None by (simp add: encode_def r allocated_def)
  next
    case (Some x)
    then show ?thesis using g by (simp add: encode_def r good_enc_def)
  qed
qed

text \<open>
  When an allocation fails inside a nested map, the key of the entry is freed, and a second time when the
  entry of the map around it is.
\<close>

theorem encode_double_free:
  "cm_bad (snd (encode \<lparr>maxDepth = 20, maxStringLength = 4096, maxArrayLength = 256, maxMapLength = 256\<rparr>
     (GMap [(GStr ''a'', GMap [(GStr ''b'', GMap [(GStr ''c'', GBool True)])])])
     \<lparr>cm_next = 0, cm_live = {}, cm_null = (\<lambda>p. p = 4), cm_bad = False\<rparr>))"
  by (simp add: encode_def encode_container_def setContainer_def calloc_def malloc_def cstring_def freeWO.simps cFree_def
      isIgnoredValueError_def)

subsection \<open>Limits\<close>

text \<open>The object is within the limits of the encoder; \<open>depth\<close> is what is left of the depth.\<close>

fun fits :: "encoder \<Rightarrow> int \<Rightarrow> wafObject \<Rightarrow> bool" where
  "fits e depth (WO k v) \<longleftrightarrow>
    (case k of Some (p, s) \<Rightarrow> length s \<le> maxStringLength e | None \<Rightarrow> True) \<and>
    (case v of
       WString p s \<Rightarrow> length s \<le> maxStringLength e
     | WArray a ws \<Rightarrow> 0 \<le> depth \<and> length ws \<le> maxArrayLength e \<and> (\<forall>w \<in> set ws. fits e (depth - 1) w)
     | WMap a ws \<Rightarrow> 0 \<le> depth \<and> length ws \<le> maxMapLength e \<and> (\<forall>w \<in> set ws. fits e (depth - 1) w)
     | _ \<Rightarrow> True)"

declare fits.simps [simp del]

lemma fits_key: "fits e d (WO (Some (p, s)) v) \<longleftrightarrow> length s \<le> maxStringLength e \<and> fits e d (WO None v)"
  by (simp add: fits.simps)

lemma encodeString_fits: "encodeString e s m = (r, w, m') \<Longrightarrow> fits e d (WO None w)"
  by (auto simp: encodeString_def cstring_def fits.simps split: prod.splits)

lemma encodeMapKey_fits: "encodeMapKey e k m = (Some (p, s), m') \<Longrightarrow> length s \<le> maxStringLength e"
  by (induction e k m rule: encodeMapKey.induct) (auto simp: cstring_def split: prod.splits)

lemma array_loop_fits:
  assumes "\<And>v m w m'. v \<in> set vs \<Longrightarrow> enc v m = (None, w, m') \<Longrightarrow> fits e d (WO None w)"
    and "array_loop enc n vs ws m = (None, us, m')" "length ws \<le> n" "\<forall>w \<in> set ws. fits e d w"
  shows "length us \<le> n \<and> (\<forall>w \<in> set us. fits e d w)"
  using assms
proof (induction vs arbitrary: ws m)
  case (Cons v vs)
  obtain err w m1 where r: "enc v m = (err, w, m1)" using prod_cases3 by blast
  have IH: "length us \<le> n \<and> (\<forall>w \<in> set us. fits e d w)"
    if "array_loop enc n vs ws' m2 = (None, us, m')" "length ws' \<le> n" "\<forall>w \<in> set ws'. fits e d w" for ws' m2
    by (rule Cons.IH[OF _ that]) (use Cons.prems(1) in auto)
  show ?case
  proof (cases err)
    case None
    then have "fits e d (WO None w)" using Cons.prems(1)[of v m w m1] r by simp
    then show ?thesis using Cons.prems(2-4) r None IH[of "ws @ [WO None w]" m1] by (auto split: if_splits)
  next
    case (Some x)
    then show ?thesis using Cons.prems(2-4) r IH[of ws m1] by (auto split: if_splits)
  qed
qed auto

lemma map_loop_fits:
  assumes "\<And>k v m w m'. (k, v) \<in> set kvs \<Longrightarrow> enc v m = (None, w, m') \<Longrightarrow> fits e d (WO None w)"
    and "map_loop e enc n kvs ws m = (None, us, m')" "length ws \<le> n" "\<forall>w \<in> set ws. fits e d w"
  shows "length us \<le> n \<and> (\<forall>w \<in> set us. fits e d w)"
  using assms
proof (induction kvs arbitrary: ws m)
  case (Cons kv kvs)
  obtain k v where kv: "kv = (k, v)" by force
  obtain ko m1 where key: "encodeMapKey e k m = (ko, m1)" by force
  have IH: "length us \<le> n \<and> (\<forall>w \<in> set us. fits e d w)"
    if "map_loop e enc n kvs ws' m2 = (None, us, m')" "length ws' \<le> n" "\<forall>w \<in> set ws'. fits e d w" for ws' m2
    by (rule Cons.IH[OF _ that], rule Cons.prems(1)[OF list.set_intros(2)], assumption+)
  show ?case
  proof (cases ko)
    case None
    then show ?thesis using Cons.prems(2-4) IH[of ws m1] by (auto simp: kv key split: if_splits)
  next
    case (Some pk)
    obtain p s where ko: "ko = Some (p, s)" using Some by (cases pk) auto
    obtain err w m2 where r: "enc v m1 = (err, w, m2)" using prod_cases3 by blast
    obtain w3 m3 where f: "freeWO (WO (Some (p, s)) w) m2 = (w3, m3)" by force
    show ?thesis
    proof (cases err)
      case None
      then have "fits e d (WO (Some (p, s)) w)"
        using Cons.prems(1)[of k v m1 w m2] r kv encodeMapKey_fits[of e k m p s m1] key ko by (simp add: fits_key)
      then show ?thesis using Cons.prems(2-4) IH[of "ws @ [WO (Some (p, s)) w]" m2] by (auto simp: kv key ko r None split: if_splits)
    next
      case (Some x)
      then show ?thesis using Cons.prems(2-4) IH[of ws m3] by (auto simp: kv key ko r f split: if_splits)
    qed
  qed
qed auto

lemma container_None:
  assumes "encode_container V n loop m = (None, w, m')"
  obtains a ws m1 where "w = V a ws" "loop m1 = (None, ws, m')"
  using assms by (auto simp: encode_container_def split: prod.splits option.splits)

lemma encodeValue_fits: "encodeValue e v depth m = (None, w, m') \<Longrightarrow> fits e depth (WO None w)"
proof (induction e v depth m arbitrary: w m' rule: encodeValue.induct)
  case (5 e fs depth m)
  let ?n = "min (length fs) (maxMapLength e)"
  have d: "\<not> depth < 0" using "5.prems" by auto
  have "encode_container WMap ?n (map_loop e (\<lambda>v m. encodeValue e v (depth - 1) m) ?n (struct_entries fs) []) m = (None, w, m')"
    using "5.prems" d by (simp add: Let_def)
  then obtain a ws m1 where "w = WMap a ws" and "map_loop e (\<lambda>v m. encodeValue e v (depth - 1) m) ?n (struct_entries fs) [] m1 = (None, ws, m')"
    by (rule container_None)
  then show ?case
    using map_loop_fits[of "struct_entries fs" "\<lambda>v m. encodeValue e v (depth - 1) m" e "depth - 1" ?n "[]" m1 ws m'] "5.IH"[OF d refl] d
    by (auto simp: fits.simps)
next
  case (6 e kvs depth m)
  let ?n = "min (length kvs) (maxMapLength e)"
  have d: "\<not> depth < 0" using "6.prems" by auto
  have "encode_container WMap ?n (map_loop e (\<lambda>v m. encodeValue e v (depth - 1) m) ?n kvs []) m = (None, w, m')"
    using "6.prems" d by (simp add: Let_def)
  then obtain a ws m1 where "w = WMap a ws" and "map_loop e (\<lambda>v m. encodeValue e v (depth - 1) m) ?n kvs [] m1 = (None, ws, m')"
    by (rule container_None)
  then show ?case
    using map_loop_fits[of kvs "\<lambda>v m. encodeValue e v (depth - 1) m" e "depth - 1" ?n "[]" m1 ws m'] "6.IH"[OF d refl] d
    by (auto simp: fits.simps)
next
  case (8 e vs depth m)
  let ?n = "min (length vs) (maxArrayLength e)"
  have d: "\<not> depth < 0" using "8.prems" by auto
  have "encode_container WArray ?n (array_loop (\<lambda>v m. encodeValue e v (depth - 1) m) ?n vs []) m = (None, w, m')"
    using "8.prems" d by (simp add: Let_def)
  then obtain a ws m1 where "w = WArray a ws" and "array_loop (\<lambda>v m. encodeValue e v (depth - 1) m) ?n vs [] m1 = (None, ws, m')"
    by (rule container_None)
  then show ?case
    using array_loop_fits[of vs "\<lambda>v m. encodeValue e v (depth - 1) m" e "depth - 1" ?n "[]" m1 ws m'] "8.IH"[OF d refl] d
    by (auto simp: fits.simps)
qed (auto simp: encodeInt64_def encodeUint64_def encodeString_fits split: if_splits)

text \<open>Whatever the value, an encoded object is within the limits of its encoder.\<close>

theorem encode_bounded: "encode e v m = (Inr w, m') \<Longrightarrow> fits e (maxDepth e) w"
  by (auto simp: encode_def encodeValue_fits split: prod.splits option.splits)

subsection \<open>Decoding what was encoded\<close>

abbreviation "plain_string e s \<equiv> length s \<le> maxStringLength e \<and> length s < 2 ^ 31"

text \<open>Values of strings, arrays and maps within the limits, as JSON has them.\<close>

fun plain :: "encoder \<Rightarrow> int \<Rightarrow> goany \<Rightarrow> bool" where
  "plain e d (GStr s) \<longleftrightarrow> plain_string e s"
| "plain e d (GArray vs) \<longleftrightarrow> 0 \<le> d \<and> length vs \<le> maxArrayLength e \<and> (\<forall>v \<in> set vs. plain e (d - 1) v)"
| "plain e d (GMap kvs) \<longleftrightarrow> 0 \<le> d \<and> length kvs \<le> maxMapLength e \<and> distinct (map fst kvs)
     \<and> (\<forall>kv \<in> set kvs. (case fst kv of GStr s \<Rightarrow> s \<noteq> [] \<and> plain_string e s | _ \<Rightarrow> False) \<and> plain e (d - 1) (snd kv))"
| "plain e d _ \<longleftrightarrow> False"

definition decodes :: "goany \<Rightarrow> wafValue encoded \<Rightarrow> bool" where
  "decodes v r = (\<exists>w m'. r = (None, w, m') \<and> no_oom m' \<and> (\<forall>k. decodeObject (WO k w) = Inr v))"

lemma malloc_no_oom: "no_oom m \<Longrightarrow> no_oom (snd (malloc m))"
  by (simp add: malloc_def no_oom_def)

lemma array_loop_plain:
  assumes "\<And>v m. v \<in> set vs \<Longrightarrow> no_oom m \<Longrightarrow> decodes v (enc v m)" "no_oom m" "length ws + length vs \<le> n"
  shows "\<exists>us m'. array_loop enc n vs ws m = (None, ws @ us, m') \<and> no_oom m' \<and> decode_array decodeObject us = Inr vs"
  using assms
proof (induction vs arbitrary: ws m)
  case (Cons v vs)
  obtain w m1 where r: "enc v m = (None, w, m1)" "no_oom m1" "decodeObject (WO None w) = Inr v"
    using Cons.prems(1)[of v m] Cons.prems(2) by (auto simp: decodes_def)
  obtain us m' where IH: "array_loop enc n vs (ws @ [WO None w]) m1 = (None, (ws @ [WO None w]) @ us, m')" "no_oom m'"
    "decode_array decodeObject us = Inr vs"
    using Cons.IH[of m1 "ws @ [WO None w]"] Cons.prems r(2) by auto
  then show ?case using r Cons.prems(3) by (intro exI[of _ "WO None w # us"] exI[of _ m']) simp
qed simp

lemma map_loop_plain:
  assumes "\<And>k v m. (k, v) \<in> set kvs \<Longrightarrow> no_oom m \<Longrightarrow> decodes v (enc v m)" "no_oom m" "length ws + length kvs \<le> n"
    and "\<forall>kv \<in> set kvs. case fst kv of GStr s \<Rightarrow> s \<noteq> [] \<and> plain_string e s | _ \<Rightarrow> False"
  shows "\<exists>us m'. map_loop e enc n kvs ws m = (None, ws @ us, m') \<and> no_oom m'
    \<and> list_all2 (\<lambda>kv u. \<exists>s. fst kv = GStr s \<and> decodeMapKey u = Inr s \<and> decodeObject u = Inr (snd kv)) kvs us"
  using assms
proof (induction kvs arbitrary: ws m)
  case (Cons kv kvs)
  obtain s v where kv: "kv = (GStr s, v)" "s \<noteq> []" "plain_string e s"
    using Cons.prems(4) by (cases kv) (auto split: goany.splits)
  obtain p m1 where m1: "encodeMapKey e (GStr s) m = (Some (p, s), m1)" "no_oom m1"
    using malloc_no_oom[OF Cons.prems(2)] kv(3) by (cases "malloc m") (auto simp: cstring_def)
  obtain w m2 where r: "enc v m1 = (None, w, m2)" "no_oom m2" "decodeObject (WO (Some (p, s)) w) = Inr v"
    using Cons.prems(1)[of "GStr s" v m1] m1(2) kv(1) by (auto simp: decodes_def)
  let ?u = "WO (Some (p, s)) w"
  have key: "decodeMapKey ?u = Inr s" using kv by (simp add: decodeMapKey_def gostring_def)
  have "\<exists>us m'. map_loop e enc n kvs (ws @ [?u]) m2 = (None, (ws @ [?u]) @ us, m') \<and> no_oom m'
    \<and> list_all2 (\<lambda>kv u. \<exists>s. fst kv = GStr s \<and> decodeMapKey u = Inr s \<and> decodeObject u = Inr (snd kv)) kvs us"
    by (rule Cons.IH, erule Cons.prems(1)[OF list.set_intros(2)]) (use Cons.prems r(2) in auto)
  then obtain us m' where IH: "map_loop e enc n kvs (ws @ [?u]) m2 = (None, (ws @ [?u]) @ us, m')" "no_oom m'"
    "list_all2 (\<lambda>kv u. \<exists>s. fst kv = GStr s \<and> decodeMapKey u = Inr s \<and> decodeObject u = Inr (snd kv)) kvs us"
    by blast
  show ?case
    using IH r key m1 kv Cons.prems(3) by (intro exI[of _ "?u # us"] exI[of _ m']) (simp del: encodeMapKey.simps)
qed simp

lemma decode_map_plain:
  assumes "list_all2 (\<lambda>kv u. \<exists>s. fst kv = GStr s \<and> decodeMapKey u = Inr s \<and> decodeObject u = Inr (snd kv)) kvs us"
    and "distinct (map (\<lambda>a. GStr (fst a)) acc @ map fst kvs)"
  shows "\<exists>ps. decode_map decodeObject us acc = Inr (acc @ ps) \<and> map (apfst GStr) ps = kvs"
  using assms
proof (induction kvs us arbitrary: acc rule: list_all2_induct)
  case (Cons kv kvs u us)
  obtain s where s: "fst kv = GStr s" "decodeMapKey u = Inr s" "decodeObject u = Inr (snd kv)" using Cons.hyps by blast
  have fresh: "s \<notin> fst ` set acc" using Cons.prems s(1) by force
  have "distinct (map (\<lambda>a. GStr (fst a)) (acc @ [(s, snd kv)]) @ map fst kvs)" using Cons.prems s(1) by auto
  then obtain ps where "decode_map decodeObject us (acc @ [(s, snd kv)]) = Inr ((acc @ [(s, snd kv)]) @ ps)" "map (apfst GStr) ps = kvs"
    using Cons.IH by blast
  then show ?case using s fresh
    by (intro exI[of _ "(s, snd kv) # ps"]) (simp add: update_fresh apfst_def map_prod_def split: prod.split, cases kv, simp)
qed simp

lemma setContainer_ok: "no_oom m \<Longrightarrow> \<exists>a m1. setContainer n m = (Some a, m1) \<and> no_oom m1"
  using malloc_no_oom[of m] by (cases "malloc m") (auto simp: setContainer_def calloc_def no_oom_def)

lemma encodeValue_decodes: "plain e depth v \<Longrightarrow> no_oom m \<Longrightarrow> decodes v (encodeValue e v depth m)"
proof (induction e v depth m rule: encodeValue.induct)
  case (4 e s depth m)
  then show ?case using malloc_no_oom[of m]
    by (auto simp: encodeString_def cstring_def decodes_def decodeObject.simps gostring_def split: prod.splits)
next
  case (6 e kvs depth m)
  let ?n = "min (length kvs) (maxMapLength e)"
  have d: "\<not> depth < 0" using "6.prems" by simp
  obtain a m1 where c: "setContainer ?n m = (Some a, m1)" "no_oom m1" using setContainer_ok "6.prems"(2) by blast
  have enc: "decodes v (encodeValue e v (depth - 1) m)" if "(k, v) \<in> set kvs" "no_oom m" for k v m
    using "6.IH"[OF d refl that(1)] "6.prems"(1) that by fastforce
  have "\<exists>us m'. map_loop e (\<lambda>v m. encodeValue e v (depth - 1) m) ?n kvs [] m1 = (None, [] @ us, m') \<and> no_oom m'
      \<and> list_all2 (\<lambda>kv u. \<exists>s. fst kv = GStr s \<and> decodeMapKey u = Inr s \<and> decodeObject u = Inr (snd kv)) kvs us"
    by (rule map_loop_plain, erule enc) (use c(2) "6.prems"(1) in auto)
  then obtain us m' where l: "map_loop e (\<lambda>v m. encodeValue e v (depth - 1) m) ?n kvs [] m1 = (None, us, m')" "no_oom m'"
    and us: "list_all2 (\<lambda>kv u. \<exists>s. fst kv = GStr s \<and> decodeMapKey u = Inr s \<and> decodeObject u = Inr (snd kv)) kvs us"
    by auto
  obtain ps where "decode_map decodeObject us [] = Inr ps" "map (apfst GStr) ps = kvs"
    using decode_map_plain[OF us, of "[]"] "6.prems"(1) by auto
  then show ?case using c l d by (simp add: Let_def encode_container_def decodes_def decodeObject.simps)
next
  case (8 e vs depth m)
  let ?n = "min (length vs) (maxArrayLength e)"
  have d: "\<not> depth < 0" using "8.prems" by simp
  obtain a m1 where c: "setContainer ?n m = (Some a, m1)" "no_oom m1" using setContainer_ok "8.prems"(2) by blast
  have enc: "decodes v (encodeValue e v (depth - 1) m)" if "v \<in> set vs" "no_oom m" for v m
    using "8.IH"[OF d refl that(1)] "8.prems"(1) that by fastforce
  have "\<exists>us m'. array_loop (\<lambda>v m. encodeValue e v (depth - 1) m) ?n vs [] m1 = (None, [] @ us, m') \<and> no_oom m'
      \<and> decode_array decodeObject us = Inr vs"
    by (rule array_loop_plain, erule enc) (use c(2) "8.prems"(1) in auto)
  then obtain us m' where l: "array_loop (\<lambda>v m. encodeValue e v (depth - 1) m) ?n vs [] m1 = (None, us, m')" "no_oom m'"
    and us: "decode_array decodeObject us = Inr vs"
    by auto
  then show ?case using c l d by (simp add: Let_def encode_container_def decodes_def decodeObject.simps)
qed auto


definition sample_value :: goany where
  "sample_value = GMap [(GStr ''a'', GArray [GStr ''x'', GMap []]), (GStr ''b'', GStr ''y'')]"

definition sample_encoder :: encoder where
  "sample_encoder = \<lparr>maxDepth = 20, maxStringLength = 4096, maxArrayLength = 256, maxMapLength = 256\<rparr>"

definition empty_mem :: cmem where
  "empty_mem = \<lparr>cm_next = 0, cm_live = {}, cm_null = (\<lambda>_. False), cm_bad = False\<rparr>"


theorem encode_balanced_witness:
  "case encode sample_encoder sample_value empty_mem of
     (Inl err, m') \<Rightarrow> m' = empty_mem
   | (Inr w, m') \<Rightarrow> cm_live (snd (freeWO w m')) = {} \<and> \<not> cm_bad (snd (freeWO w m'))"
  using encode_balanced[of empty_mem sample_encoder sample_value]
  by (auto simp: empty_mem_def wf_mem_def no_oom_def split: prod.splits sum.splits)

end
