(* ===== verification/Waf_Handle.thy ===== *)
theory Waf_Handle
  imports Waf_Object
begin

section \<open>internal/appsec/waf: handles and contexts\<close>

text \<open>
  A handle is an instance of libddwaf for a set of rules, a context runs it on the values of a request.
  The C library and encoding/json are the argument \<open>ddwaf\<close>.  The library owns the object of a run that
  succeeds and frees it, by the function it is given, when the context is destroyed; it frees an invalid
  object at once.  The lock of a handle counts its contexts: the step relation \<open>hstep\<close> has a step for
  every lock operation, so that its runs are all interleavings of requests with \<open>Close\<close>.
\<close>

subsection \<open>NewHandle\<close>

record ddwaf_config =
  max_container_size :: nat
  max_container_depth :: nat
  max_string_length :: nat
  key_regex :: string
  value_regex :: string

record ruleset_info =
  ri_loaded :: nat
  ri_failed :: nat
  ri_version :: string
  ri_errors :: "wafObject list"

record ddwaf =
  json_Unmarshal :: "string \<Rightarrow> goany option"
  ddwaf_init :: "wafObject \<Rightarrow> ddwaf_config \<Rightarrow> ruleset_info option"
  ddwaf_required_addresses :: "string list"

record RulesetInfo =
  rs_Loaded :: nat
  rs_Failed :: nat
  rs_Errors :: "(string, goany) gomap"
  rs_Version :: string

record Handle =
  wh_handle :: nat
  wh_encoder :: encoder
  wh_addresses :: "string list"
  wh_rulesetInfo :: RulesetInfo

abbreviation (input) "go_maxInt \<equiv> (2 ^ 63 - 1 :: nat)"

definition rule_encoder :: encoder where
  "rule_encoder = \<lparr>maxDepth = int go_maxInt, maxStringLength = go_maxInt, maxArrayLength = go_maxInt, maxMapLength = go_maxInt\<rparr>"

definition run_encoder :: encoder where
  "run_encoder = \<lparr>maxDepth = 20, maxStringLength = 4096, maxArrayLength = 256, maxMapLength = 256\<rparr>"

definition waf_config :: "encoder \<Rightarrow> string \<Rightarrow> string \<Rightarrow> ddwaf_config" where
  "waf_config e keyRegex valueRegex =
    \<lparr>max_container_size = maxArrayLength e, max_container_depth = maxMapLength e, max_string_length = maxStringLength e,
     key_regex = keyRegex, value_regex = valueRegex\<rparr>"

text \<open>The temporary objects are freed by deferred calls on every return.\<close>

definition NewHandle :: "ddwaf \<Rightarrow> string \<Rightarrow> string \<Rightarrow> string \<Rightarrow> cmem \<Rightarrow> (waf_error + Handle) \<times> cmem" where
  "NewHandle lib jsonRule keyRegex valueRegex m =
    (case json_Unmarshal lib jsonRule of
       None \<Rightarrow> (Inl errRuleJSON, m)
     | Some rule \<Rightarrow>
         (case encode rule_encoder rule m of
            (Inl err, m1) \<Rightarrow> (Inl err, m1)
          | (Inr wafRule, m1) \<Rightarrow>
              (case cstring keyRegex (maxStringLength run_encoder) m1 of ((kp, k), m2) \<Rightarrow>
               case cstring valueRegex (maxStringLength run_encoder) m2 of ((vp, v), m3) \<Rightarrow>
                 let free = (\<lambda>m. snd (freeWO wafRule (cFree kp (cFree vp m))))
                 in case ddwaf_init lib wafRule (waf_config run_encoder k v) of
                      None \<Rightarrow> (Inl errRuleInit, free m3)
                    | Some ri \<Rightarrow>
                        (case malloc m3 of (h, m4) \<Rightarrow>
                           (case decodeErrors (ri_errors ri) of
                              Inl err \<Rightarrow> (Inl err, free (cFree h m4))
                            | Inr errs \<Rightarrow>
                                if ddwaf_required_addresses lib = [] then (Inl ErrEmptyRuleAddresses, free (cFree h m4))
                                else (Inr \<lparr>wh_handle = h, wh_encoder = run_encoder, wh_addresses = ddwaf_required_addresses lib,
                                  wh_rulesetInfo = \<lparr>rs_Loaded = ri_loaded ri mod 2 ^ 16, rs_Failed = ri_failed ri mod 2 ^ 16,
                                    rs_Errors = errs, rs_Version = ri_version ri\<rparr>\<rparr>, free m4))))))"

definition Handle_Close :: "Handle \<Rightarrow> cmem \<Rightarrow> cmem" where
  "Handle_Close h = cFree (wh_handle h)"

text \<open>The container depth of the configuration is the map length of the encoder, not its depth.\<close>

lemma waf_config_depth:
  "max_container_depth (waf_config run_encoder k v) = 256" "maxDepth run_encoder = 20"
  by (simp_all add: waf_config_def run_encoder_def)

lemma encode_allocated:
  assumes "wf_mem m" "no_oom m" "encode e v m = (r, m')"
  shows "case r of Inl err \<Rightarrow> m' = m | Inr w \<Rightarrow> allocated (wptrs w) m m'"
  using encodeValue_good[OF assms(1,2), of e v "maxDepth e"] assms(3)
  by (auto simp: encode_def good_enc_def split: prod.splits option.splits)

lemma free_temporaries:
  assumes d: "distinct (wptrs w @ [kp, vp])" and L: "cm_live m = L \<union> set (wptrs w @ [kp, vp])"
  shows "snd (freeWO w (cFree kp (cFree vp m))) = m\<lparr>cm_live := cm_live m - set (wptrs w @ [kp, vp])\<rparr>"
proof -
  have "cFree kp (cFree vp m) = m\<lparr>cm_live := cm_live m - {vp} - {kp}\<rparr>" using L d by (auto simp: cFree_live)
  moreover have "cm_live m - {vp} - {kp} - set (wptrs w) = cm_live m - set (wptrs w @ [kp, vp])" by auto
  ultimately show ?thesis by (subst freeWO_frees) (use L d in auto)
qed

text \<open>
  A handle that cannot be made leaves no C memory behind, a new handle only itself.
\<close>

theorem NewHandle_balanced:
  assumes wf: "wf_mem m" "no_oom m"
  shows "case NewHandle lib rules keyRegex valueRegex m of
      (Inl err, m') \<Rightarrow> cm_live m' = cm_live m \<and> cm_bad m' = cm_bad m
    | (Inr h, m') \<Rightarrow> wh_handle h \<notin> cm_live m \<and> cm_live m' = insert (wh_handle h) (cm_live m) \<and> cm_bad m' = cm_bad m"
proof (cases "json_Unmarshal lib rules")
  case None
  then show ?thesis by (simp add: NewHandle_def)
next
  case (Some rule)
  obtain r m1 where enc: "encode rule_encoder rule m = (r, m1)" by (cases "encode rule_encoder rule m") blast
  show ?thesis
  proof (cases r)
    case (Inl err)
    then show ?thesis using encode_allocated[OF wf enc] Some enc by (simp add: NewHandle_def)
  next
    case (Inr w)
    have a1: "allocated (wptrs w) m m1" using encode_allocated[OF wf enc] Inr by simp
    obtain kp k m2 where k: "cstring keyRegex (maxStringLength run_encoder) m1 = ((kp, k), m2)" by (metis prod.exhaust)
    obtain vp v m3 where v: "cstring valueRegex (maxStringLength run_encoder) m2 = ((vp, v), m3)" by (metis prod.exhaust)
    obtain h m4 where h: "malloc m3 = (h, m4)" by force
    note a3 = allocated_trans[OF allocated_trans[OF a1 cstring_allocated[OF k]] cstring_allocated[OF v]]
    note a4 = allocated_trans[OF a3 malloc_allocated[OF h]]
    have fresh: "p \<notin> cm_live m" if "p \<in> set (wptrs w @ [kp] @ [vp] @ [h])" for p
      using that a4 wf(1) by (fastforce simp: allocated_def wf_mem_def)
    define free where "free m = snd (freeWO w (cFree kp (cFree vp m)))" for m
    have "distinct (wptrs w @ [kp, vp])" using a3 by (simp add: allocated_def)
    note free = free_temporaries[OF this, folded free_def]
    have live3: "cm_live m3 = cm_live m \<union> set (wptrs w @ [kp, vp])" "cm_bad m3 = cm_bad m"
      using a3 by (auto simp: allocated_def)
    have live4: "cm_live m4 = insert h (cm_live m) \<union> set (wptrs w @ [kp, vp])" "cm_bad m4 = cm_bad m" "h \<in> cm_live m4" "h \<notin> set (wptrs w @ [kp, vp])"
      using a4 by (auto simp: allocated_def)
    have f3: "cm_live (free m3) = cm_live m" "cm_bad (free m3) = cm_bad m"
      using free[OF live3(1)] live3 fresh by auto
    have f4: "cm_live (free m4) = insert h (cm_live m)" "cm_bad (free m4) = cm_bad m"
      using free[OF live4(1)] live4 fresh by auto
    have c4: "cFree h m4 = m4\<lparr>cm_live := cm_live m \<union> set (wptrs w @ [kp, vp])\<rparr>"
      using live4 fresh by (simp add: cFree_live) (rule arg_cong[where f = "\<lambda>L. m4\<lparr>cm_live := L\<rparr>"], auto)
    have f5: "cm_live (free (cFree h m4)) = cm_live m" "cm_bad (free (cFree h m4)) = cm_bad m"
      using free[of "cFree h m4" "cm_live m"] live4(2) fresh unfolding c4 by auto
    have N: "NewHandle lib rules keyRegex valueRegex m =
       (case ddwaf_init lib w (waf_config run_encoder k v) of
          None \<Rightarrow> (Inl errRuleInit, free m3)
        | Some ri \<Rightarrow>
            (case decodeErrors (ri_errors ri) of
               Inl err \<Rightarrow> (Inl err, free (cFree h m4))
             | Inr errs \<Rightarrow>
                 if ddwaf_required_addresses lib = [] then (Inl ErrEmptyRuleAddresses, free (cFree h m4))
                 else (Inr \<lparr>wh_handle = h, wh_encoder = run_encoder, wh_addresses = ddwaf_required_addresses lib,
                   wh_rulesetInfo = \<lparr>rs_Loaded = ri_loaded ri mod 2 ^ 16, rs_Failed = ri_failed ri mod 2 ^ 16,
                     rs_Errors = errs, rs_Version = ri_version ri\<rparr>\<rparr>, free m4)))"
      by (simp only: NewHandle_def Some enc Inr k v h option.case prod.case sum.case Let_def free_def)
    show ?thesis unfolding N using f3 f4 f5 fresh[of h] by (auto split: option.split sum.split)
  qed
qed

subsection \<open>Contexts\<close>

datatype DDWAF_RET_CODE =
  DDWAF_OK | DDWAF_MATCH | DDWAF_ERR_INTERNAL | DDWAF_ERR_INVALID_OBJECT | DDWAF_ERR_INVALID_ARGUMENT | DDWAF_CODE int

record ddwaf_result =
  dr_code :: DDWAF_RET_CODE
  dr_timeout :: bool
  dr_data :: "string option"
  dr_total_runtime :: u64

record Context =
  cx_context :: nat
  cx_objects :: "wafObject list"
  cx_totalRuntimeNs :: u64
  cx_totalOverallRuntimeNs :: u64
  cx_timeoutCount :: u64

definition new_context :: "cmem \<Rightarrow> Context \<times> cmem" where
  "new_context m = (case malloc m of (p, m') \<Rightarrow>
     (\<lparr>cx_context = p, cx_objects = [], cx_totalRuntimeNs = 0, cx_totalOverallRuntimeNs = 0, cx_timeoutCount = 0\<rparr>, m'))"

definition goRunError :: "DDWAF_RET_CODE \<Rightarrow> waf_error" where
  "goRunError rc = (case rc of
     DDWAF_ERR_INTERNAL \<Rightarrow> ErrInternal
   | DDWAF_ERR_INVALID_OBJECT \<Rightarrow> ErrInvalidObject
   | DDWAF_ERR_INVALID_ARGUMENT \<Rightarrow> ErrInvalidArgument
   | DDWAF_CODE n \<Rightarrow> ErrUnknownCode n
   | _ \<Rightarrow> ErrUnknownCode 0)"

text \<open>The matches, nil as \<open>None\<close>, and the error: both can be there after a timeout.\<close>

definition goReturnValues :: "ddwaf_result \<Rightarrow> string option \<times> waf_error option" where
  "goReturnValues r =
    (let err = (if dr_timeout r then Some ErrTimeout else None)
     in if dr_code r = DDWAF_OK then (None, err)
        else if dr_code r = DDWAF_MATCH then (dr_data r, err)
        else (None, Some (goRunError (dr_code r))))"

text \<open>\<open>ddwaf_run\<close> keeps the data, frees it, or (for an invalid context and an internal error) leaves it to the caller.\<close>

definition own_data :: "DDWAF_RET_CODE \<Rightarrow> wafObject \<Rightarrow> Context \<times> cmem \<Rightarrow> Context \<times> cmem" where
  "own_data rc w cm =
    (if rc = DDWAF_OK \<or> rc = DDWAF_MATCH then apfst (\<lambda>c. c\<lparr>cx_objects := cx_objects c @ [w]\<rparr>) cm
     else if rc = DDWAF_ERR_INVALID_OBJECT then apsnd (\<lambda>m. snd (freeWO w m)) cm
     else cm)"

definition Context_runWAF :: "(wafObject \<Rightarrow> u64 \<Rightarrow> ddwaf_result) \<Rightarrow> wafObject \<Rightarrow> int \<Rightarrow> Context \<times> cmem
    \<Rightarrow> (string option \<times> waf_error option) \<times> Context \<times> cmem" where
  "Context_runWAF run w timeout cm =
    (let r = run w (word_of_int (go_div timeout 1000));
         cm1 = own_data (dr_code r) w cm;
         res = goReturnValues r
     in (res, apfst (\<lambda>c. c\<lparr>cx_totalRuntimeNs := cx_totalRuntimeNs c + dr_total_runtime r,
           cx_timeoutCount := (if snd res = Some ErrTimeout then cx_timeoutCount c + 1 else cx_timeoutCount c)\<rparr>) cm1))"

definition Context_run :: "(wafObject \<Rightarrow> u64 \<Rightarrow> ddwaf_result) \<Rightarrow> encoder \<Rightarrow> (string \<times> goany) list \<Rightarrow> int \<Rightarrow> Context \<times> cmem
    \<Rightarrow> (string option \<times> waf_error option) \<times> Context \<times> cmem" where
  "Context_run run e values timeout cm =
    (if values = [] then ((None, None), cm)
     else case encode e (GMap (map (apfst GStr) values)) (snd cm) of
       (Inl err, m1) \<Rightarrow> ((None, Some err), (fst cm, m1))
     | (Inr w, m1) \<Rightarrow> Context_runWAF run w timeout (fst cm, m1))"

text \<open>\<open>dt\<close> are the nanoseconds of the run.\<close>

definition Context_Run :: "(wafObject \<Rightarrow> u64 \<Rightarrow> ddwaf_result) \<Rightarrow> encoder \<Rightarrow> u64 \<Rightarrow> (string \<times> goany) list \<Rightarrow> int \<Rightarrow> Context \<times> cmem
    \<Rightarrow> (string option \<times> waf_error option) \<times> Context \<times> cmem" where
  "Context_Run run e dt values timeout cm =
    (case Context_run run e values timeout cm of (res, c, m) \<Rightarrow>
       (res, c\<lparr>cx_totalOverallRuntimeNs := cx_totalOverallRuntimeNs c + dt\<rparr>, m))"

definition Context_Close :: "Context \<Rightarrow> cmem \<Rightarrow> cmem" where
  "Context_Close c m = cFree (cx_context c) (fold (\<lambda>w m. snd (freeWO w m)) (cx_objects c) m)"

definition TotalRuntime :: "Context \<Rightarrow> u64 \<times> u64" where
  "TotalRuntime c = (cx_totalOverallRuntimeNs c, cx_totalRuntimeNs c)"

text \<open>
  A context owns its block and those of its objects; a run whose data the library keeps or frees
  preserves that, and closing the context frees them all.
\<close>

definition cx_ptrs :: "Context \<Rightarrow> nat list" where
  "cx_ptrs c = cx_context c # concat (map wptrs (cx_objects c))"

lemma new_context_owns: "new_context m = (c, m') \<Longrightarrow> allocated (cx_ptrs c) m m'"
  using malloc_allocated by (auto simp: new_context_def cx_ptrs_def split: prod.splits)

lemma Context_Run_owns:
  assumes wf: "wf_mem m0" "no_oom m0" and a: "allocated (cx_ptrs c) m0 m"
    and known: "\<And>w t. dr_code (run w t) \<in> {DDWAF_OK, DDWAF_MATCH, DDWAF_ERR_INVALID_OBJECT}"
    and R: "Context_Run run e dt values timeout (c, m) = (res, c', m')"
  shows "allocated (cx_ptrs c') m0 m'"
proof (cases "values = []")
  case True
  then show ?thesis using R a by (auto simp: Context_Run_def Context_run_def cx_ptrs_def)
next
  case False
  note wf' = allocated_wf(1)[OF a wf(1)] allocated_wf(2)[OF a wf(2)]
  obtain r m1 where enc: "encode e (GMap (map (apfst GStr) values)) m = (r, m1)" by (cases "encode e (GMap (map (apfst GStr) values)) m") blast
  show ?thesis
  proof (cases r)
    case (Inl err)
    then show ?thesis using R False enc encode_allocated[OF wf' enc] a by (auto simp: Context_Run_def Context_run_def cx_ptrs_def)
  next
    case (Inr w)
    have a1: "allocated (wptrs w) m m1" using encode_allocated[OF wf' enc] Inr by simp
    let ?r = "run w (word_of_int (go_div timeout 1000))"
    show ?thesis
    proof (cases "dr_code ?r = DDWAF_ERR_INVALID_OBJECT")
      case True
      have "allocated (cx_ptrs c @ []) m0 (snd (freeWO w m1))"
        using allocated_trans[OF a allocated_free(1)[OF a1 wf'(1) refl]] .
      moreover have "m' = snd (freeWO w m1)" "cx_ptrs c' = cx_ptrs c"
        using R False enc Inr True by (auto simp: Context_Run_def Context_run_def Context_runWAF_def own_data_def cx_ptrs_def Let_def)
      ultimately show ?thesis by simp
    next
      case False2: False
      then have "dr_code ?r = DDWAF_OK \<or> dr_code ?r = DDWAF_MATCH" using known[of w "word_of_int (go_div timeout 1000)"] by auto
      then have "m' = m1" "cx_ptrs c' = cx_ptrs c @ wptrs w"
        using R False enc Inr by (auto simp: Context_Run_def Context_run_def Context_runWAF_def own_data_def cx_ptrs_def Let_def)
      then show ?thesis using allocated_trans[OF a a1] by simp
    qed
  qed
qed

theorem Context_Close_frees:
  assumes "wf_mem m0" "allocated (cx_ptrs c) m0 m"
  shows "cm_live (Context_Close c m) = cm_live m0 \<and> cm_bad (Context_Close c m) = cm_bad m0"
proof -
  let ?ps = "concat (map wptrs (cx_objects c))"
  have a: "distinct ?ps" "cx_context c \<notin> set ?ps" "cm_live m = cm_live m0 \<union> set (cx_ptrs c)" "cm_bad m = cm_bad m0"
    using assms(2) by (auto simp: allocated_def cx_ptrs_def)
  have fresh: "p \<notin> cm_live m0" if "p \<in> set (cx_ptrs c)" for p
    using that assms by (fastforce simp: allocated_def wf_mem_def)
  have "fold (\<lambda>w m. snd (freeWO w m)) (cx_objects c) m = m\<lparr>cm_live := cm_live m - set ?ps\<rparr>"
    by (rule free_all) (use a freeWO_frees in \<open>auto simp: cx_ptrs_def\<close>)
  moreover have "cm_live m - set ?ps - {cx_context c} = cm_live m0" "cx_context c \<in> cm_live m - set ?ps"
    using a fresh by (auto simp: cx_ptrs_def)
  ultimately show ?thesis using a(4) by (simp add: Context_Close_def cFree_live)
qed

text \<open>A request: a new context, its runs and the end of the context.\<close>

definition request_runs :: "(wafObject \<Rightarrow> u64 \<Rightarrow> ddwaf_result) \<Rightarrow> encoder \<Rightarrow> int \<Rightarrow> (u64 \<times> (string \<times> goany) list) list \<Rightarrow> Context \<times> cmem \<Rightarrow> Context \<times> cmem" where
  "request_runs run e timeout = fold (\<lambda>(dt, values) cm. snd (Context_Run run e dt values timeout cm))"

theorem request_balanced:
  assumes "wf_mem m" "no_oom m" "\<And>w t. dr_code (run w t) \<in> {DDWAF_OK, DDWAF_MATCH, DDWAF_ERR_INVALID_OBJECT}"
  shows "case request_runs run e timeout rs (new_context m) of (c, m') \<Rightarrow>
    cm_live (Context_Close c m') = cm_live m \<and> cm_bad (Context_Close c m') = cm_bad m"
proof -
  have "allocated (cx_ptrs (fst cm)) m (snd cm) \<Longrightarrow>
      (case request_runs run e timeout rs cm of (c, m') \<Rightarrow> allocated (cx_ptrs c) m m')" for cm
  proof (induction rs arbitrary: cm)
    case Nil
    then show ?case by (cases cm) (simp add: request_runs_def)
  next
    case (Cons x rs)
    obtain dt vs where x: "x = (dt, vs)" by force
    obtain res c' m' where R: "Context_Run run e dt vs timeout (fst cm, snd cm) = (res, c', m')" using prod_cases3 by blast
    have "allocated (cx_ptrs c') m m'" by (rule Context_Run_owns[OF assms(1,2) Cons.prems assms(3) R])
    then show ?case using Cons.IH[of "(c', m')"] R by (simp add: request_runs_def x)
  qed
  moreover obtain c0 m1 where "new_context m = (c0, m1)" by force
  ultimately show ?thesis using new_context_owns Context_Close_frees[OF assms(1)] by (fastforce split: prod.splits)
qed

theorem request_balanced_witness:
  "case request_runs (\<lambda>w t. \<lparr>dr_code = DDWAF_MATCH, dr_timeout = False, dr_data = Some ''[]'', dr_total_runtime = 5\<rparr>) run_encoder 1000
       [(7, [(''server.request.uri.raw'', GStr ''/'')])] (new_context empty_mem) of
     (c, m') \<Rightarrow> cm_live (Context_Close c m') = {} \<and> \<not> cm_bad (Context_Close c m')"
  using request_balanced[of empty_mem "\<lambda>w t. \<lparr>dr_code = DDWAF_MATCH, dr_timeout = False, dr_data = Some ''[]'', dr_total_runtime = 5\<rparr>"
      run_encoder 1000 "[(7, [(''server.request.uri.raw'', GStr ''/'')])]"]
  by (simp add: empty_mem_def wf_mem_def no_oom_def)

subsection \<open>The lock of a handle\<close>

text \<open>
  The lock is a \<open>sync.RWMutex\<close>: a waiting writer keeps new readers out, and gets the lock when there are no
  readers.  \<open>hs_handle\<close> tells whether the handle is not nil, \<open>hs_contexts\<close> counts the contexts in use.
\<close>

record handle_state =
  hs_handle :: bool
  hs_readers :: nat
  hs_waiting :: nat
  hs_contexts :: nat

text \<open>\<open>NewContext\<close>; \<open>init\<close> tells whether \<open>ddwaf_context_init\<close> returns a context.  When it does not, the read lock is kept.\<close>

definition NewContext :: "bool \<Rightarrow> handle_state \<Rightarrow> bool \<times> handle_state" where
  "NewContext init s =
    (let s1 = s\<lparr>hs_readers := hs_readers s + 1\<rparr>
     in if \<not> hs_handle s1 then (False, s1\<lparr>hs_readers := hs_readers s1 - 1\<rparr>)
        else if \<not> init then (False, s1)
        else (True, s1\<lparr>hs_contexts := hs_contexts s1 + 1\<rparr>))"

definition context_closed :: "handle_state \<Rightarrow> handle_state" where
  "context_closed s = s\<lparr>hs_contexts := hs_contexts s - 1, hs_readers := hs_readers s - 1\<rparr>"

definition close_locked :: "handle_state \<Rightarrow> handle_state" where
  "close_locked s = s\<lparr>hs_handle := False, hs_waiting := hs_waiting s - 1\<rparr>"

inductive hstep :: "handle_state \<Rightarrow> handle_state \<Rightarrow> bool" where
  new: "hs_waiting s = 0 \<Longrightarrow> hstep s (snd (NewContext init s))"
| closed: "hs_contexts s > 0 \<Longrightarrow> hstep s (context_closed s)"
| close: "hstep s (s\<lparr>hs_waiting := hs_waiting s + 1\<rparr>)"
| locked: "hs_waiting s > 0 \<Longrightarrow> hs_readers s = 0 \<Longrightarrow> hstep s (close_locked s)"

inductive_simps hstep_simps: "hstep s t"

definition fresh_handle :: handle_state where
  "fresh_handle = \<lparr>hs_handle = True, hs_readers = 0, hs_waiting = 0, hs_contexts = 0\<rparr>"

lemma hstep_inv:
  assumes "hstep s t" "hs_contexts s \<le> hs_readers s" "\<not> hs_handle s \<Longrightarrow> hs_contexts s = 0"
  shows "hs_contexts t \<le> hs_readers t \<and> (\<not> hs_handle t \<longrightarrow> hs_contexts t = 0)"
  using assms by (cases rule: hstep.cases) (auto simp: NewContext_def context_closed_def close_locked_def Let_def)

text \<open>
  C37: The handle is never destroyed while a context uses it, whatever runs at the same time.
\<close>

theorem no_use_after_close:
  assumes "hstep\<^sup>*\<^sup>* fresh_handle s" "hs_contexts s > 0"
  shows "hs_handle s \<and> hs_contexts s \<le> hs_readers s"
proof -
  have "hs_contexts s \<le> hs_readers s \<and> (\<not> hs_handle s \<longrightarrow> hs_contexts s = 0)"
    using assms(1) by (induction rule: rtranclp_induct) (auto simp: fresh_handle_def dest: hstep_inv)
  then show ?thesis using assms(2) by auto
qed

theorem no_use_after_close_witness:
  "hs_contexts (snd (NewContext True fresh_handle)) > 0 \<and> hs_handle (snd (NewContext True fresh_handle))"
proof -
  let ?s = "snd (NewContext True fresh_handle)"
  have "hstep\<^sup>*\<^sup>* fresh_handle ?s" by (intro r_into_rtranclp hstep.new) (simp add: fresh_handle_def)
  moreover have "hs_contexts ?s > 0" by (simp add: NewContext_def fresh_handle_def Let_def)
  ultimately show ?thesis using no_use_after_close by blast
qed

text \<open>While no context could be refused by the library, \<open>Close\<close> gets the lock once the contexts are closed.\<close>

lemma close_progress:
  assumes "hs_readers s = hs_contexts s" "hs_waiting s > 0"
  shows "\<exists>t. hstep\<^sup>*\<^sup>* s t \<and> hs_waiting t < hs_waiting s \<and> \<not> hs_handle t"
  using assms
proof (induction "hs_contexts s" arbitrary: s)
  case 0
  then have "hstep s (close_locked s)" by (auto intro: hstep.locked)
  then show ?case using 0 by (intro exI[of _ "close_locked s"]) (auto simp: close_locked_def)
next
  case (Suc n)
  let ?t = "context_closed s"
  have t: "hs_contexts ?t = n" "hs_readers ?t = n" "hs_waiting ?t = hs_waiting s"
    using Suc by (auto simp: context_closed_def)
  have st: "hstep s ?t" by (rule hstep.closed) (use Suc in simp)
  obtain t' where "hstep\<^sup>*\<^sup>* ?t t'" "hs_waiting t' < hs_waiting ?t" "\<not> hs_handle t'" using Suc.hyps(1)[of ?t] Suc.prems t by auto
  then show ?case using t st by (metis converse_rtranclp_into_rtranclp)
qed

text \<open>
  A context that the library refuses keeps its read lock for ever: \<open>Close\<close> never gets the lock after that,
  and since it waits, no new context is made either.
\<close>

theorem refused_context_blocks_close:
  assumes "hstep\<^sup>*\<^sup>* (snd (NewContext False fresh_handle)) s"
  shows "hs_handle s \<and> hs_readers s > hs_contexts s \<and> \<not> (\<exists>t. hstep s t \<and> hs_waiting t < hs_waiting s)"
proof -
  have "hs_handle s \<and> hs_readers s > hs_contexts s"
    using assms
  proof (induction rule: rtranclp_induct)
    case base
    then show ?case by (simp add: NewContext_def fresh_handle_def Let_def)
  next
    case (step s t)
    from step(2) step(3) show ?case
      by (cases rule: hstep.cases) (auto simp: NewContext_def context_closed_def close_locked_def Let_def)
  qed
  then show ?thesis
    by (auto simp: hstep_simps NewContext_def context_closed_def close_locked_def Let_def)
qed

end
