(* ===== verification/Appsec_Waf.thy ===== *)
theory Appsec_Waf
  imports Waf_Handle Dyngo Appsec_Limiter "HOL-Library.Char_ord" "HOL-Library.List_Lexorder"
begin

section \<open>internal/appsec/waf.go: the listeners that run the WAF\<close>

text \<open>
  AppSec listens to the operations of HTTP and gRPC requests and runs the WAF on their values.  The C
  library answers a run by the argument \<open>run\<close>, the limiter by \<open>allow\<close>; \<open>dt\<close> is the time of a run and \<open>marshal\<close> is
  \<open>json.Marshal\<close>.  A context is what \<open>NewContext\<close> returned with the memory it left, \<open>None\<close> if it is nil.
  Log messages are left out.
\<close>

subsection \<open>Tags and events of an operation (instrumentation/common.go)\<close>

record sec_op =
  so_tags :: "(string, goval) gomap"
  so_events :: "string list"

definition AddTag :: "string \<Rightarrow> goval \<Rightarrow> sec_op \<Rightarrow> sec_op" where
  "AddTag k v op = op\<lparr>so_tags := m_put k v (so_tags op)\<rparr>"

definition AddSecurityEvents :: "string list \<Rightarrow> sec_op \<Rightarrow> sec_op" where
  "AddSecurityEvents es op = op\<lparr>so_events := so_events op @ es\<rparr>"

definition NewTagsHolder :: "(string, goval) gomap" where
  "NewTagsHolder = Some []"

text \<open>\<open>unmarshal\<close> reads a JSON array of raw messages, \<open>tag_json\<close> is the JSON of the tag with the given triggers.\<close>

fun concat_events :: "(string \<Rightarrow> string list option) \<Rightarrow> string list \<Rightarrow> string list option" where
  "concat_events unmarshal [] = Some []"
| "concat_events unmarshal (e # es) =
    (case unmarshal e of None \<Rightarrow> None | Some ts \<Rightarrow> map_option ((@) ts) (concat_events unmarshal es))"

definition makeEventTagValue ::
  "(string \<Rightarrow> string list option) \<Rightarrow> (string + string list \<Rightarrow> string option) \<Rightarrow> string list \<Rightarrow> string option" where
  "makeEventTagValue unmarshal tag_json events =
    (if length events = 1 then tag_json (Inl (hd events))
     else case concat_events unmarshal events of None \<Rightarrow> None | Some ts \<Rightarrow> tag_json (Inr ts))"

subsection \<open>Addresses\<close>

abbreviation "serverRequestRawURIAddr \<equiv> ''server.request.uri.raw''"
abbreviation "serverRequestHeadersNoCookiesAddr \<equiv> ''server.request.headers.no_cookies''"
abbreviation "serverRequestCookiesAddr \<equiv> ''server.request.cookies''"
abbreviation "serverRequestQueryAddr \<equiv> ''server.request.query''"
abbreviation "serverRequestPathParams \<equiv> ''server.request.path_params''"
abbreviation "serverRequestBody \<equiv> ''server.request.body''"
abbreviation "serverResponseStatusAddr \<equiv> ''server.response.status''"
abbreviation "grpcServerRequestMessage \<equiv> ''grpc.server.request.message''"
abbreviation "grpcServerRequestMetadata \<equiv> ''grpc.server.request.metadata''"

text \<open>The lists are sorted when the package is loaded.\<close>

definition httpAddresses :: "string list" where
  "httpAddresses = sort [serverRequestRawURIAddr, serverRequestHeadersNoCookiesAddr, serverRequestCookiesAddr,
     serverRequestQueryAddr, serverRequestPathParams, serverRequestBody, serverResponseStatusAddr]"

definition grpcAddresses :: "string list" where
  "grpcAddresses = sort [grpcServerRequestMessage, grpcServerRequestMetadata]"

definition SearchStrings :: "string list \<Rightarrow> string \<Rightarrow> nat" where
  "SearchStrings a x = sort_Search (length a) (\<lambda>i. a ! i \<ge> x)"

definition address_found :: "string list \<Rightarrow> string \<Rightarrow> bool" where
  "address_found a x = (let i = SearchStrings a x in i < length a \<and> a ! i = x)"

fun supportedAddresses :: "string list \<Rightarrow> string list \<times> string list \<times> string list" where
  "supportedAddresses [] = ([], [], [])"
| "supportedAddresses (addr # as) =
    (case supportedAddresses as of (http, grpc, notSupported) \<Rightarrow>
       if address_found httpAddresses addr then (addr # http, grpc, notSupported)
       else if address_found grpcAddresses addr then (http, addr # grpc, notSupported)
       else (http, grpc, addr # notSupported))"

subsection \<open>Monitoring tags\<close>

abbreviation "eventRulesVersionTag \<equiv> ''_dd.appsec.event_rules.version''"
abbreviation "eventRulesErrorsTag \<equiv> ''_dd.appsec.event_rules.errors''"
abbreviation "eventRulesLoadedTag \<equiv> ''_dd.appsec.event_rules.loaded''"
abbreviation "eventRulesFailedTag \<equiv> ''_dd.appsec.event_rules.error_count''"
abbreviation "wafDurationTag \<equiv> ''_dd.appsec.waf.duration''"
abbreviation "wafDurationExtTag \<equiv> ''_dd.appsec.waf.duration_ext''"
abbreviation "wafTimeoutTag \<equiv> ''_dd.appsec.waf.timeouts''"
abbreviation "wafVersionTag \<equiv> ''_dd.appsec.waf.version''"

definition addRulesMonitoringTags :: "((string, goany) gomap \<Rightarrow> string option) \<Rightarrow> string \<Rightarrow> RulesetInfo \<Rightarrow> sec_op \<Rightarrow> sec_op" where
  "addRulesMonitoringTags marshal wafVersion rInfo op =
    (let errs = (if m_items (rs_Errors rInfo) = [] then None else rs_Errors rInfo);
         rulesetErrors = (case marshal errs of Some s \<Rightarrow> s | None \<Rightarrow> [])
     in AddTag wafVersionTag (VString wafVersion)
          (AddTag eventRulesFailedTag (VFloat64 (f64_of_int (int (rs_Failed rInfo))))
            (AddTag eventRulesLoadedTag (VFloat64 (f64_of_int (int (rs_Loaded rInfo))))
              (AddTag eventRulesErrorsTag (VString rulesetErrors) op))))"

definition addWAFMonitoringTags :: "string \<Rightarrow> u64 \<Rightarrow> u64 \<Rightarrow> u64 \<Rightarrow> sec_op \<Rightarrow> sec_op" where
  "addWAFMonitoringTags rulesVersion overallRuntimeNs internalRuntimeNs timeouts op =
    AddTag wafDurationExtTag (VFloat64 (f64_div (f64_of_int (uint overallRuntimeNs)) (Fin 1000)))
      (AddTag wafDurationTag (VFloat64 (f64_div (f64_of_int (uint internalRuntimeNs)) (Fin 1000)))
        (AddTag wafTimeoutTag (VFloat64 (f64_of_int (uint timeouts)))
          (AddTag eventRulesVersionTag (VString rulesVersion) op)))"

text \<open>\<open>runWAF\<close>: the matches of a run, also after a timeout, but not after another error.\<close>

definition runWAF :: "string option \<times> waf_error option \<Rightarrow> string option" where
  "runWAF r = (case r of
     (matches, None) \<Rightarrow> matches
   | (matches, Some err) \<Rightarrow> if err = ErrTimeout then matches else None)"

definition no_matches :: "string option \<Rightarrow> bool" where
  "no_matches matches \<longleftrightarrow> matches = None \<or> matches = Some []"

text \<open>The parts of a listener; \<open>li_monitored\<close> tells whether \<open>monitorRulesOnce\<close> was done.\<close>

record waf_listener =
  li_handle :: Handle
  li_addresses :: "string list"
  li_timeout :: int
  li_monitored :: bool

definition monitor_rules :: "((string, goany) gomap \<Rightarrow> string option) \<Rightarrow> string \<Rightarrow> waf_listener \<times> sec_op \<Rightarrow> waf_listener \<times> sec_op" where
  "monitor_rules marshal wafVersion lo =
    (case lo of (l, op) \<Rightarrow>
       if li_monitored l then (l, op)
       else (l\<lparr>li_monitored := True\<rparr>,
             AddTag ext_ManualKeep (VSamplerName (sampler_code AppSec))
               (addRulesMonitoringTags marshal wafVersion (wh_rulesetInfo (li_handle l)) op)))"

subsection \<open>HTTP\<close>

text \<open>Nil maps and a nil body are \<open>None\<close>.\<close>

record http_args =
  ha_RequestURI :: string
  ha_Headers :: "goany option"
  ha_Cookies :: "goany option"
  ha_Query :: "goany option"
  ha_PathParams :: "goany option"

definition http_value :: "http_args \<Rightarrow> goany option \<Rightarrow> int \<Rightarrow> string \<Rightarrow> goany option" where
  "http_value args body status addr =
    (if addr = serverRequestRawURIAddr then Some (GStr (ha_RequestURI args))
     else if addr = serverRequestHeadersNoCookiesAddr then ha_Headers args
     else if addr = serverRequestCookiesAddr then ha_Cookies args
     else if addr = serverRequestQueryAddr then ha_Query args
     else if addr = serverRequestPathParams then ha_PathParams args
     else if addr = serverRequestBody then body
     else if addr = serverResponseStatusAddr then Some (GInt status)
     else None)"

definition http_values :: "string list \<Rightarrow> http_args \<Rightarrow> goany option \<Rightarrow> int \<Rightarrow> (string \<times> goany) list" where
  "http_values addresses args body status =
    fold (\<lambda>addr vs. case http_value args body status addr of Some v \<Rightarrow> AList.update addr v vs | None \<Rightarrow> vs) addresses []"

definition http_finish ::
  "((string, goany) gomap \<Rightarrow> string option) \<Rightarrow> string \<Rightarrow> (wafObject \<Rightarrow> u64 \<Rightarrow> ddwaf_result) \<Rightarrow> u64 \<Rightarrow> bool
    \<Rightarrow> http_args \<Rightarrow> goany option \<Rightarrow> int \<Rightarrow> Context option \<times> cmem \<Rightarrow> waf_listener \<times> sec_op \<Rightarrow> (waf_listener \<times> sec_op) \<times> cmem" where
  "http_finish marshal wafVersion run dt allow args body status cm lo =
    (case cm of
       (None, m) \<Rightarrow> (lo, m)
     | (Some wafCtx, m) \<Rightarrow>
         let l = fst lo; values = http_values (li_addresses l) args body status
         in case Context_Run run (wh_encoder (li_handle l)) dt values (li_timeout l) (wafCtx, m) of
              (res, c, m1) \<Rightarrow>
                let matches = runWAF res;
                    op1 = addWAFMonitoringTags (rs_Version (wh_rulesetInfo (li_handle l))) (fst (TotalRuntime c)) (snd (TotalRuntime c))
                            (cx_timeoutCount c) (snd lo);
                    (l2, op2) = monitor_rules marshal wafVersion (l, op1);
                    op3 = (if no_matches matches \<or> \<not> allow then op2 else AddSecurityEvents [the matches] op2)
                in ((l2, op3), Context_Close c m1))"

subsection \<open>gRPC\<close>

abbreviation (input) "maxWAFEventsPerRequest \<equiv> (10 :: u32)"

record grpc_state =
  gs_nbEvents :: u32
  gs_overallRuntimeNs :: u64
  gs_internalRuntimeNs :: u64
  gs_nbTimeouts :: u64
  gs_events :: "string list"

definition new_grpc :: grpc_state where
  "new_grpc = \<lparr>gs_nbEvents = 0, gs_overallRuntimeNs = 0, gs_internalRuntimeNs = 0, gs_nbTimeouts = 0, gs_events = []\<rparr>"

definition grpc_full :: "grpc_state \<Rightarrow> bool" where
  "grpc_full g \<longleftrightarrow> gs_nbEvents g = maxWAFEventsPerRequest"

definition grpc_values :: "goany \<Rightarrow> (goany \<times> goany) list \<Rightarrow> (string \<times> goany) list" where
  "grpc_values message metadata =
    (grpcServerRequestMessage, message) # (if metadata \<noteq> [] then [(grpcServerRequestMetadata, GMap metadata)] else [])"

text \<open>What a message adds to the request behind the run of the WAF.\<close>

definition grpc_record :: "Context \<Rightarrow> string option \<Rightarrow> grpc_state \<Rightarrow> grpc_state" where
  "grpc_record c event g =
    (let g1 = g\<lparr>gs_overallRuntimeNs := gs_overallRuntimeNs g + fst (TotalRuntime c),
                gs_internalRuntimeNs := gs_internalRuntimeNs g + snd (TotalRuntime c),
                gs_nbTimeouts := gs_nbTimeouts g + cx_timeoutCount c\<rparr>
     in if no_matches event then g1
        else g1\<lparr>gs_nbEvents := gs_nbEvents g1 + 1, gs_events := gs_events g1 @ [the event]\<rparr>)"

definition grpc_receive ::
  "(wafObject \<Rightarrow> u64 \<Rightarrow> ddwaf_result) \<Rightarrow> waf_listener \<Rightarrow> (goany \<times> goany) list \<Rightarrow> u64 \<Rightarrow> goany
    \<Rightarrow> Context option \<times> cmem \<Rightarrow> grpc_state \<Rightarrow> grpc_state \<times> cmem" where
  "grpc_receive run l metadata dt message cm g =
    (if grpc_full g then (g, snd cm)
     else case cm of
       (None, m) \<Rightarrow> (g, m)
     | (Some wafCtx, m) \<Rightarrow>
         (case Context_Run run (wh_encoder (li_handle l)) dt (grpc_values message metadata) (li_timeout l) (wafCtx, m) of
            (res, c, m1) \<Rightarrow> (grpc_record c (runWAF res) g, Context_Close c m1)))"

definition grpc_finish ::
  "((string, goany) gomap \<Rightarrow> string option) \<Rightarrow> string \<Rightarrow> bool \<Rightarrow> grpc_state \<Rightarrow> waf_listener \<times> sec_op \<Rightarrow> waf_listener \<times> sec_op" where
  "grpc_finish marshal wafVersion allow g lo =
    (let op1 = addWAFMonitoringTags (rs_Version (wh_rulesetInfo (li_handle (fst lo)))) (gs_overallRuntimeNs g)
                 (gs_internalRuntimeNs g) (gs_nbTimeouts g) (snd lo)
     in apsnd (\<lambda>op. if gs_events g \<noteq> [] \<and> allow then AddSecurityEvents (gs_events g) op else op)
          (monitor_rules marshal wafVersion (fst lo, op1)))"

subsection \<open>Registration\<close>

abbreviation "http_listener \<equiv> \<lparr>ev_type = ''httpsec.HandlerOperationArgs'', ev_fn = 1\<rparr>"
abbreviation "grpc_listener \<equiv> \<lparr>ev_type = ''grpcsec.HandlerOperationArgs'', ev_fn = 2\<rparr>"

datatype waf_start_error = WafError waf_error | NoAddresses | NotSupported "string list"

text \<open>
  The listeners are registered with the root operation; the result has the indices of the functions that
  unregister them.  An error behind the creation of the handle closes it.
\<close>

definition registerWAF :: "ddwaf \<Rightarrow> string \<Rightarrow> string \<Rightarrow> string \<Rightarrow> dyngo \<times> cmem
    \<Rightarrow> (waf_start_error + Handle \<times> (string \<times> u32) list \<times> (string \<times> u32) list) \<times> dyngo \<times> cmem" where
  "registerWAF lib rules keyRegex valueRegex dm =
    (case dm of (d, m) \<Rightarrow>
     case NewHandle lib rules keyRegex valueRegex m of
       (Inl err, m1) \<Rightarrow> (Inl (WafError err), d, m1)
     | (Inr h, m1) \<Rightarrow>
         if wh_addresses h = [] then (Inl NoAddresses, d, Handle_Close h m1)
         else case supportedAddresses (wh_addresses h) of
           (http, grpc, notSupported) \<Rightarrow>
             if http = [] \<and> grpc = [] then (Inl (NotSupported notSupported), d, Handle_Close h m1)
             else
               let (ix1, d1) = (if http \<noteq> [] then op_register rootOperation [Some http_listener] d else ([], d));
                   (ix2, d2) = (if grpc \<noteq> [] then op_register rootOperation [Some grpc_listener] d1 else ([], d1))
               in (Inr (h, ix1, ix2), d2, m1))"

definition unregisterWAF :: "Handle \<times> (string \<times> u32) list \<times> (string \<times> u32) list \<Rightarrow> dyngo \<times> cmem \<Rightarrow> dyngo \<times> cmem" where
  "unregisterWAF r dm =
    (case (r, dm) of ((h, ix1, ix2), (d, m)) \<Rightarrow>
       (unregister rootOperation ix2 (unregister rootOperation ix1 d), Handle_Close h m))"

subsection \<open>Which addresses are supported\<close>

lemma SearchStrings_found:
  assumes "sorted a"
  shows "address_found a x \<longleftrightarrow> x \<in> set a"
proof -
  let ?i = "SearchStrings a x"
  have mono: "a ! k \<ge> x" if "i \<le> k" "k < length a" "a ! i \<ge> x" for i k
    using sorted_nth_mono[OF assms that(1,2)] that(3) by (rule order_trans[rotated])
  have before: "\<not> a ! k \<ge> x" if "k < ?i" for k
    using sort_Search_least(2)[of "length a" "\<lambda>i. a ! i \<ge> x" k] mono that unfolding SearchStrings_def by blast
  have at_i: "a ! ?i \<ge> x" if "?i < length a"
    using sort_Search_least(3)[of "length a" "\<lambda>i. a ! i \<ge> x"] mono that unfolding SearchStrings_def by blast
  show ?thesis
  proof
    assume "x \<in> set a"
    then obtain j where j: "j < length a" "a ! j = x" by (auto simp: in_set_conv_nth)
    then have "\<not> j < ?i" using before[of j] by auto
    then have i: "?i \<le> j" "?i < length a" using j by auto
    then have "a ! ?i = x" using at_i[OF i(2)] sorted_nth_mono[OF assms i(1) j(1)] j(2) by auto
    then show "address_found a x" using i by (simp add: address_found_def)
  qed (auto simp: address_found_def Let_def in_set_conv_nth)
qed

text \<open>Every address of the rule is in exactly the list it belongs to, in the order of the rule.\<close>

theorem supportedAddresses_filter:
  "supportedAddresses as =
    (filter (\<lambda>a. a \<in> set httpAddresses) as,
     filter (\<lambda>a. a \<in> set grpcAddresses) as,
     filter (\<lambda>a. a \<notin> set httpAddresses \<and> a \<notin> set grpcAddresses) as)"
proof -
  have "address_found httpAddresses a \<longleftrightarrow> a \<in> set httpAddresses" "address_found grpcAddresses a \<longleftrightarrow> a \<in> set grpcAddresses" for a
    by (rule SearchStrings_found, simp add: httpAddresses_def grpcAddresses_def)+
  moreover have "a \<in> set httpAddresses \<Longrightarrow> a \<notin> set grpcAddresses" for a
    by (auto simp: httpAddresses_def grpcAddresses_def)
  ultimately show ?thesis by (induction as) auto
qed

subsection \<open>HTTP requests\<close>

text \<open>A request leaves the C memory as it was, and records the matches of the WAF if the limiter allows it.\<close>

theorem http_finish_balanced:
  assumes "wf_mem m" "no_oom m" and known: "\<And>w t. dr_code (run w t) \<in> {DDWAF_OK, DDWAF_MATCH, DDWAF_ERR_INVALID_OBJECT}"
  shows "case http_finish marshal ver run dt allow args body status (apfst Some (new_context m)) lo of
    (lo', m') \<Rightarrow> cm_live m' = cm_live m \<and> cm_bad m' = cm_bad m"
proof -
  obtain c m1 where c: "new_context m = (c, m1)" by force
  obtain res c' m' where R: "Context_Run run (wh_encoder (li_handle (fst lo))) dt (http_values (li_addresses (fst lo)) args body status)
      (li_timeout (fst lo)) (c, m1) = (res, c', m')" using prod_cases3 by blast
  have "allocated (cx_ptrs c') m m'" by (rule Context_Run_owns[OF assms(1,2) new_context_owns[OF c] known R])
  then show ?thesis using Context_Close_frees[OF assms(1)]
    by (simp add: http_finish_def c R Let_def split: prod.split)
qed

theorem http_finish_balanced_witness:
  "case http_finish (\<lambda>_. Some ''null'') ''1.5.1'' (\<lambda>w t. \<lparr>dr_code = DDWAF_MATCH, dr_timeout = True, dr_data = Some ''[]'', dr_total_runtime = 5\<rparr>) 7 True
       \<lparr>ha_RequestURI = ''/'', ha_Headers = None, ha_Cookies = None, ha_Query = None, ha_PathParams = None\<rparr> None 200 (apfst Some (new_context empty_mem))
       (\<lparr>li_handle = \<lparr>wh_handle = 0, wh_encoder = run_encoder, wh_addresses = [serverRequestRawURIAddr],
          wh_rulesetInfo = \<lparr>rs_Loaded = 1, rs_Failed = 0, rs_Errors = None, rs_Version = ''1''\<rparr>\<rparr>,
         li_addresses = [serverRequestRawURIAddr], li_timeout = 4000000, li_monitored = False\<rparr>, \<lparr>so_tags = NewTagsHolder, so_events = []\<rparr>) of
     (lo', m') \<Rightarrow> cm_live m' = {} \<and> \<not> cm_bad m'"
  using http_finish_balanced[of empty_mem "\<lambda>w t. \<lparr>dr_code = DDWAF_MATCH, dr_timeout = True, dr_data = Some ''[]'', dr_total_runtime = 5\<rparr>"]
  by (simp add: empty_mem_def wf_mem_def no_oom_def)

lemma AddTag_get [simp]: "m_get (so_tags (AddTag k v op)) k' = (if k' = k then Some v else m_get (so_tags op) k')" "so_events (AddTag k v op) = so_events op"
  by (simp_all add: AddTag_def)

lemma waf_tags_get [simp]:
  "m_get (so_tags (addWAFMonitoringTags v a b c op)) ext_ManualKeep = m_get (so_tags op) ext_ManualKeep"
  "so_events (addWAFMonitoringTags v a b c op) = so_events op"
  by (simp_all add: addWAFMonitoringTags_def)

lemma monitor_rules_once:
  assumes "monitor_rules marshal ver (l, op) = (l', op')"
  shows "li_monitored l'" "so_events op' = so_events op"
    "m_get (so_tags op') ext_ManualKeep = (if li_monitored l then m_get (so_tags op) ext_ManualKeep else Some (VSamplerName 5))"
  using assms by (auto simp: monitor_rules_def addRulesMonitoringTags_def Let_def split: if_splits)

text \<open>
  Only the first request of a listener is kept for the monitoring of the rules; the others are kept if
  they have events.
\<close>

theorem http_finish_keeps_once:
  assumes "http_finish marshal ver run dt allow args body status (Some c, m) (l, op) = ((l', op'), m')"
  shows "li_monitored l' \<and> m_get (so_tags op') ext_ManualKeep
    = (if li_monitored l then m_get (so_tags op) ext_ManualKeep else Some (VSamplerName 5))"
proof -
  obtain res c1 m1 where R: "Context_Run run (wh_encoder (li_handle l)) dt (http_values (li_addresses l) args body status)
      (li_timeout l) (c, m) = (res, c1, m1)" using prod_cases3 by blast
  define op1 where "op1 = addWAFMonitoringTags (rs_Version (wh_rulesetInfo (li_handle l))) (fst (TotalRuntime c1)) (snd (TotalRuntime c1)) (cx_timeoutCount c1) op"
  obtain l2 op2 where M: "monitor_rules marshal ver (l, op1) = (l2, op2)" by force
  have "l' = l2" "so_tags op' = so_tags op2"
    using assms by (auto simp: http_finish_def R M op1_def[symmetric] Let_def AddSecurityEvents_def split: if_splits)
  then show ?thesis using monitor_rules_once[OF M] by (simp add: op1_def)
qed

text \<open>The WAF sees only values of the addresses of its rules.\<close>

lemma http_values_addresses: "fst ` set (http_values as args body status) \<subseteq> set as \<inter> set httpAddresses"
proof -
  have v: "http_value args body status addr = Some v \<Longrightarrow> addr \<in> set httpAddresses" for addr v
    by (auto simp: http_value_def httpAddresses_def split: if_splits)
  have "fst ` set (fold (\<lambda>addr vs. case http_value args body status addr of Some v \<Rightarrow> AList.update addr v vs | None \<Rightarrow> vs) as vs)
      \<subseteq> fst ` set vs \<union> set as \<inter> set httpAddresses" for vs
  proof (induction as arbitrary: vs)
    case (Cons a as)
    show ?case
    proof (cases "http_value args body status a")
      case None
      then show ?thesis using Cons.IH[of vs] by auto
    next
      case (Some x)
      have "fst ` set (AList.update a x vs) \<subseteq> insert a (fst ` set vs)" using in_set_update by fastforce
      then show ?thesis using Cons.IH[of "AList.update a x vs"] v[OF Some] by (simp add: Some) blast
    qed
  qed simp
  from this[of "[]"] show ?thesis by (simp add: http_values_def)
qed

subsection \<open>gRPC requests\<close>

lemma grpc_record_events:
  "gs_events (grpc_record c ev g) = gs_events g @ (if no_matches ev then [] else [the ev])"
  "gs_nbEvents (grpc_record c ev g) = gs_nbEvents g + (if no_matches ev then 0 else 1)"
  by (simp_all add: grpc_record_def Let_def)

definition grpc_inv :: "grpc_state \<Rightarrow> bool" where
  "grpc_inv g \<longleftrightarrow> unat (gs_nbEvents g) = length (gs_events g) \<and> length (gs_events g) \<le> 10"

lemma grpc_receive_inv:
  assumes "grpc_inv g"
  shows "grpc_inv (fst (grpc_receive run l md dt message cm g))"
proof -
  have rec: "grpc_inv (grpc_record c ev g)" if "\<not> grpc_full g" for c ev
  proof -
    have "unat (gs_nbEvents g) \<noteq> 10" using that by (simp add: grpc_full_def word_unat_eq_iff)
    then have "unat (gs_nbEvents g) < 10" using assms by (simp add: grpc_inv_def)
    then have "unat (gs_nbEvents g + 1) = unat (gs_nbEvents g) + 1" by (simp add: unat_word_ariths)
    then show ?thesis using assms \<open>unat (gs_nbEvents g) < 10\<close> by (simp add: grpc_inv_def grpc_record_events)
  qed
  show ?thesis using assms rec by (auto simp: grpc_receive_def split: prod.split option.split)
qed

text \<open>
  C39: However many messages a stream has, a request that receives them one after the other has at most ten
  events.
\<close>

theorem grpc_events_bounded:
  "length (gs_events (fold (\<lambda>(run, dt, message, cm) g. fst (grpc_receive run l md dt message cm g)) xs new_grpc)) \<le> 10"
proof -
  have "grpc_inv g \<Longrightarrow> grpc_inv (fold (\<lambda>(run, dt, message, cm) g. fst (grpc_receive run l md dt message cm g)) xs g)" for g
    by (induction xs arbitrary: g) (auto simp: grpc_receive_inv)
  from this[of new_grpc] show ?thesis by (simp add: grpc_inv_def new_grpc_def)
qed

text \<open>
  The listener is written for messages that are received at the same time (atomic counters, a mutex for
  the events).  The steps of such callbacks: the check of the limit, and the record of the result.
\<close>

inductive gstep :: "grpc_state \<times> nat \<Rightarrow> grpc_state \<times> nat \<Rightarrow> bool" where
  enter: "\<not> grpc_full g \<Longrightarrow> gstep (g, n) (g, Suc n)"
| leave: "gstep (g, Suc n) (grpc_record c ev g, n)"

lemma gstep_enter_many: "\<not> grpc_full g \<Longrightarrow> gstep\<^sup>*\<^sup>* (g, 0) (g, k)"
  by (induction k) (auto intro: rtranclp.rtrancl_into_rtrancl gstep.enter)

lemma gstep_leave_many: "\<exists>g'. gstep\<^sup>*\<^sup>* (g, k) (g', 0) \<and> length (gs_events g') = length (gs_events g) + k"
proof (induction k arbitrary: g)
  case 0
  then show ?case by auto
next
  case (Suc k)
  define c where "c = \<lparr>cx_context = 0, cx_objects = [], cx_totalRuntimeNs = 0, cx_totalOverallRuntimeNs = 0, cx_timeoutCount = 0\<rparr>"
  let ?g = "grpc_record c (Some ''[]'') g"
  obtain g' where "gstep\<^sup>*\<^sup>* (?g, k) (g', 0)" "length (gs_events g') = length (gs_events ?g) + k" using Suc by blast
  moreover have "length (gs_events ?g) = Suc (length (gs_events g))" by (simp add: grpc_record_events no_matches_def)
  ultimately show ?case using gstep.leave[of g k c "Some ''[]''"] by (metis add_Suc_right add_Suc converse_rtranclp_into_rtranclp)
qed

text \<open>With messages in flight the limit does not hold: any number of events is recorded.\<close>

theorem grpc_limit_races: "\<exists>g. gstep\<^sup>*\<^sup>* (new_grpc, 0) (g, 0) \<and> length (gs_events g) = k"
proof -
  have "\<not> grpc_full new_grpc" by (simp add: grpc_full_def new_grpc_def)
  then have "gstep\<^sup>*\<^sup>* (new_grpc, 0) (new_grpc, k)" by (rule gstep_enter_many)
  moreover obtain g' where "gstep\<^sup>*\<^sup>* (new_grpc, k) (g', 0)" "length (gs_events g') = length (gs_events new_grpc) + k"
    using gstep_leave_many by blast
  ultimately show ?thesis by (auto simp: new_grpc_def intro: rtranclp_trans)
qed

subsection \<open>Start and stop\<close>

text \<open>A failed registration leaves neither listeners nor C memory; \<open>unregisterWAF\<close> frees what a successful one holds.\<close>

theorem registerWAF_balanced:
  assumes "wf_mem m" "no_oom m"
  shows "case registerWAF lib rules keyRegex valueRegex (d, m) of
      (Inl err, d', m') \<Rightarrow> d' = d \<and> cm_live m' = cm_live m \<and> cm_bad m' = cm_bad m
    | (Inr r, d', m') \<Rightarrow> cm_live (snd (unregisterWAF r (d', m'))) = cm_live m \<and> cm_bad (snd (unregisterWAF r (d', m'))) = cm_bad m"
proof -
  obtain r m1 where N: "NewHandle lib rules keyRegex valueRegex m = (r, m1)" by force
  note B = NewHandle_balanced[OF assms, of lib rules keyRegex valueRegex, unfolded N prod.case]
  show ?thesis
  proof (cases r)
    case (Inl err)
    then show ?thesis using B by (simp add: registerWAF_def N)
  next
    case (Inr h)
    have close: "cm_live (Handle_Close h m1) = cm_live m" "cm_bad (Handle_Close h m1) = cm_bad m"
      using B Inr by (auto simp: Handle_Close_def cFree_def)
    then show ?thesis
      by (auto simp: registerWAF_def N Inr unregisterWAF_def split: prod.split)
  qed
qed

end
