(* ===== verification/Opentracer.thy ===== *)
theory Opentracer
  imports Start_Options Text_Map Span_Finish
begin

section \<open>ddtrace/opentracer and ddtrace/internal: the OpenTracing bridge and the global tracer\<close>

text \<open>
  The bridge gives the tracer the interface of OpenTracing.  The context of a reference is a pointer to a
  context of the tracer, or \<open>None\<close> for the context of another implementation; the tags are in the order in
  which the map is ranged over.  \<open>fmt.Sprint\<close> and the conversion of key-value pairs to fields, which is code
  of opentracing-go, are arguments.  \<open>None\<close> as a result is the panic of \<open>SetTag\<close>.
\<close>

subsection \<open>The global tracer (globaltracer.go)\<close>

text \<open>Tracers are numbered, 0 is the no-op tracer; \<open>gt_stopped\<close> are the tracers whose \<open>Stop\<close> was called.\<close>

record global_tracer =
  gt_current :: nat
  gt_stopped :: "nat list"

definition init_global :: global_tracer where
  "init_global = \<lparr>gt_current = 0, gt_stopped = []\<rparr>"

definition SetGlobalTracer :: "bool \<Rightarrow> nat \<Rightarrow> global_tracer \<Rightarrow> global_tracer" where
  "SetGlobalTracer testing t g =
    (let old = gt_current g; g1 = g\<lparr>gt_current := t\<rparr>
     in if \<not> testing then g1\<lparr>gt_stopped := gt_stopped g1 @ [old]\<rparr> else g1)"

definition GetGlobalTracer :: "global_tracer \<Rightarrow> nat" where
  "GetGlobalTracer g = gt_current g"

subsection \<open>Starting spans\<close>

record ot_start_options =
  ot_References :: "nat option list"
  ot_StartTime :: "int option"
  ot_Tags :: "(string \<times> goval) list"

text \<open>Only the first reference to a context of the tracer becomes the parent.\<close>

fun ot_parent :: "nat option list \<Rightarrow> nat option" where
  "ot_parent [] = None"
| "ot_parent (Some c # refs) = Some c"
| "ot_parent (None # refs) = ot_parent refs"

definition ot_options :: "ot_start_options \<Rightarrow> StartSpanOption list" where
  "ot_options sso =
    [StartTime (ot_StartTime sso)]
    @ (case ot_parent (ot_References sso) of Some c \<Rightarrow> [ChildOf (Some c)] | None \<Rightarrow> [])
    @ map (\<lambda>(k, v). Tag k v) (ot_Tags sso)"

definition ot_StartSpan :: "extlib \<Rightarrow> string \<Rightarrow> ot_start_options \<Rightarrow> int \<Rightarrow> u64 \<Rightarrow> frame list \<Rightarrow> heap \<Rightarrow> (nat \<times> heap) option" where
  "ot_StartSpan x operationName sso now rnd stk h = StartSpan_options x operationName (ot_options sso) now rnd stk h"

subsection \<open>Propagation\<close>

datatype ot_format = OtTextMap | OtHTTPHeaders | OtOtherFormat

datatype ot_error =
  OtUnsupportedFormat | OtSpanContextNotFound | OtInvalidCarrier | OtInvalidSpanContext | OtSpanContextCorrupted

fun translateError :: "propagation_error \<Rightarrow> ot_error" where
  "translateError ErrSpanContextNotFound = OtSpanContextNotFound"
| "translateError ErrInvalidCarrier = OtInvalidCarrier"
| "translateError ErrInvalidSpanContext = OtInvalidSpanContext"
| "translateError ErrSpanContextCorrupted = OtSpanContextCorrupted"

text \<open>\<open>sctx\<close> is \<open>None\<close> for a context that is not one of the tracer.\<close>

definition ot_Inject :: "Propagator list \<Rightarrow> (spanContext option \<times> trace option) option \<Rightarrow> ot_format \<Rightarrow> carrier
    \<Rightarrow> ot_error option \<times> (spanContext option \<times> trace option) option \<times> carrier" where
  "ot_Inject ps sctx format c =
    (case sctx of
       None \<Rightarrow> (Some OtUnsupportedFormat, None, c)
     | Some (ctx, tr) \<Rightarrow>
         if format = OtTextMap \<or> format = OtHTTPHeaders then
           (case chained_Inject ps ctx tr c of (err, tr', c') \<Rightarrow> (map_option translateError err, Some (ctx, tr'), c'))
         else (Some OtUnsupportedFormat, sctx, c))"

definition ot_Extract :: "Propagator list \<Rightarrow> ot_format \<Rightarrow> carrier \<Rightarrow> ot_error + ectx" where
  "ot_Extract ps format c =
    (if format = OtTextMap \<or> format = OtHTTPHeaders then map_sum translateError id (chained_Extract ps c)
     else Inl OtUnsupportedFormat)"

subsection \<open>Spans (span.go)\<close>

definition log_field :: "(goval \<Rightarrow> string) \<Rightarrow> nat \<Rightarrow> frame list \<Rightarrow> string \<times> goval \<Rightarrow> heap \<Rightarrow> heap option" where
  "log_field sprint p stk f h =
    (case f of (key, v) \<Rightarrow>
       if key = ''event'' then (if v = VString ''error'' then SetTag p ''error'' (VBool True) stk h else Some h)
       else if key = ''error'' \<or> key = ''error.object'' then (case v of VErr e \<Rightarrow> SetTag p ''error'' v stk h | _ \<Rightarrow> Some h)
       else if key = ''message'' then SetTag p ext_ErrorMsg (VString (sprint v)) stk h
       else if key = ''stack'' then SetTag p ext_ErrorStack (VString (sprint v)) stk h
       else Some h)"

fun LogFields :: "(goval \<Rightarrow> string) \<Rightarrow> nat \<Rightarrow> frame list \<Rightarrow> (string \<times> goval) list \<Rightarrow> heap \<Rightarrow> heap option" where
  "LogFields sprint p stk [] h = Some h"
| "LogFields sprint p stk (f # fs) h = (case log_field sprint p stk f h of None \<Rightarrow> None | Some h' \<Rightarrow> LogFields sprint p stk fs h')"

definition LogKV :: "(goval list \<Rightarrow> (string \<times> goval) list option) \<Rightarrow> (goval \<Rightarrow> string) \<Rightarrow> nat \<Rightarrow> frame list \<Rightarrow> goval list \<Rightarrow> heap \<Rightarrow> heap option" where
  "LogKV toFields sprint p stk keyVals h =
    (case toFields keyVals of None \<Rightarrow> Some h | Some fs \<Rightarrow> LogFields sprint p stk fs h)"

fun log_records :: "(goval \<Rightarrow> string) \<Rightarrow> nat \<Rightarrow> frame list \<Rightarrow> (string \<times> goval) list list \<Rightarrow> heap \<Rightarrow> heap option" where
  "log_records sprint p stk [] h = Some h"
| "log_records sprint p stk (fs # lrs) h =
    (if fs \<noteq> [] then (case LogFields sprint p stk fs h of None \<Rightarrow> None | Some h' \<Rightarrow> log_records sprint p stk lrs h')
     else log_records sprint p stk lrs h)"

definition FinishWithOptions ::
  "extlib \<Rightarrow> (goval \<Rightarrow> string) \<Rightarrow> nat \<Rightarrow> int \<Rightarrow> (string \<times> goval) list list \<Rightarrow> int option \<Rightarrow> frame list \<Rightarrow> heap \<Rightarrow> heap option" where
  "FinishWithOptions x sprint p now records finishTime stk h =
    map_option (Finish x p now [FinishTime finishTime] stk) (log_records sprint p stk records h)"

text \<open>\<open>ContextWithSpanHook\<close>; a span of another implementation is \<open>None\<close>.\<close>

definition ContextWithSpanHook :: "go_context \<Rightarrow> nat option \<Rightarrow> go_context" where
  "ContextWithSpanHook ctx openSpan = (case openSpan of None \<Rightarrow> ctx | Some s \<Rightarrow> ContextWithSpan ctx s)"

subsection \<open>Laws\<close>

text \<open>Every tracer that was replaced has been stopped, in the order of the replacements, and the current one has not.\<close>

theorem SetGlobalTracer_stops_old:
  "gt_stopped (fold (SetGlobalTracer False) ts init_global) @ [GetGlobalTracer (fold (SetGlobalTracer False) ts init_global)] = 0 # ts"
proof -
  have "gt_stopped (fold (SetGlobalTracer False) ts g) @ [gt_current (fold (SetGlobalTracer False) ts g)] = gt_stopped g @ gt_current g # ts" for g
    by (induction ts arbitrary: g) (simp_all add: SetGlobalTracer_def Let_def)
  then show ?thesis by (simp add: init_global_def GetGlobalTracer_def)
qed

lemma ot_parent_first: "ot_parent refs = Some c \<longleftrightarrow> (\<exists>us vs. refs = us @ Some c # vs \<and> set us \<subseteq> {None})"
proof (induction refs rule: ot_parent.induct)
  case (3 refs)
  then show ?case by (fastforce simp: Cons_eq_append_conv)
qed (auto simp: Cons_eq_append_conv)

lemma fold_tags:
  "fold (\<lambda>fn cfg. fn cfg) (map (\<lambda>(k, v). Tag k v) kvs) cfg = cfg\<lparr>sc_Tags := fold (\<lambda>(k, v). m_put k v) kvs (sc_Tags cfg)\<rparr>"
  by (induction kvs arbitrary: cfg) (auto simp: Tag_def)

text \<open>The configuration that the tracer starts a span with has the start time, the first parent and the tags.\<close>

theorem ot_options_config:
  "apply_options (ot_options sso) = \<lparr>sc_Parent = ot_parent (ot_References sso), sc_StartTime = ot_StartTime sso, sc_SpanID = 0,
     sc_Tags = fold (\<lambda>(k, v). m_put k v) (ot_Tags sso) None, sc_Context = None\<rparr>"
  by (cases "ot_parent (ot_References sso)")
     (simp_all add: ot_options_def apply_options_def fold_tags StartTime_def ChildOf_def)

text \<open>No two errors of the tracer are the same error of OpenTracing.\<close>

theorem translateError_faithful:
  "ot_Extract ps format c = Inl (translateError e) \<longleftrightarrow> format \<noteq> OtOtherFormat \<and> chained_Extract ps c = Inl e"
  "ot_Extract ps format c = Inr ctx \<longleftrightarrow> format \<noteq> OtOtherFormat \<and> chained_Extract ps c = Inr ctx"
proof -
  have inj: "translateError a = translateError b \<longleftrightarrow> a = b" "translateError a \<noteq> OtUnsupportedFormat" for a b
    by (cases a; cases b; simp)+
  show "ot_Extract ps format c = Inl (translateError e) \<longleftrightarrow> format \<noteq> OtOtherFormat \<and> chained_Extract ps c = Inl e"
    "ot_Extract ps format c = Inr ctx \<longleftrightarrow> format \<noteq> OtOtherFormat \<and> chained_Extract ps c = Inr ctx"
    by (cases format; cases "chained_Extract ps c"; auto simp: ot_Extract_def inj inj(2)[symmetric])+
qed

text \<open>Logging on a finished span changes nothing.\<close>

theorem LogFields_finished: "s_finished (h_span h p) \<Longrightarrow> LogFields sprint p stk fs h = Some h"
  by (induction fs) (auto simp: log_field_def SetTag_def split: goval.split)

end
