(* ===== verification/Dsn.thy ===== *)
theory Dsn
  imports Config_Laws Sql_Comment Log_Writer "HOL-Library.Char_ord" "HOL-Library.List_Lexorder"
begin

section \<open>contrib/database/sql/internal: data source names\<close>

text \<open>
  \<open>ParseDSN\<close> turns the data source name of a database driver into span tags: the formats of MySQL,
  of Postgres (URL and option string) and of SQL Server (URL and ADO string).  A data source name
  holds the password, the tags must not.  \<open>url.Parse\<close> is the argument \<open>parse\<close>, its result the record \<open>url\<close>.
  A rune is the string of its UTF-8 bytes.
\<close>

subsection \<open>Errors and URLs\<close>

datatype dsn_error =
  errInvalidDSNUnescaped | errInvalidDSNAddr | errInvalidDSNNoSlash | errInvalidDSNUnsafeCollation | UnknownNet string
  | MissingEquals string | MissingAfterBackslash | UnterminatedString | InvalidProtocol string | UrlError string

record url =
  u_Scheme :: string
  u_User :: "(string \<times> string) option"
  u_Host :: string
  u_Path :: string
  u_Query :: "(string \<times> string list) list"

text \<open>\<open>Values.Get\<close>: the first value of a key.\<close>

definition Query_Get :: "(string \<times> string list) list \<Rightarrow> string \<Rightarrow> string" where
  "Query_Get q k = (case map_of q k of Some (v # _) \<Rightarrow> v | _ \<Rightarrow> [])"

subsection \<open>MySQL (mysql.go)\<close>

text \<open>The fields that the parser sets or reads; all others keep their zero value.\<close>

record mySQLConfig =
  my_User :: string
  my_Passwd :: string
  my_Net :: string
  my_Addr :: string
  my_DBName :: string
  my_Collation :: string
  my_InterpolateParams :: bool

definition unsafeCollations :: "string list" where
  "unsafeCollations = [''big5_chinese_ci'', ''sjis_japanese_ci'', ''gbk_chinese_ci'', ''big5_bin'', ''gb2312_bin'',
     ''gbk_bin'', ''sjis_bin'', ''cp932_japanese_ci'', ''cp932_bin'']"

text \<open>The loops that run from the end of a string: what stands before and behind the last \<open>c\<close>.\<close>

definition cut_last :: "char \<Rightarrow> string \<Rightarrow> (string \<times> string) option" where
  "cut_last c s =
    (case dropWhile (\<lambda>x. x \<noteq> c) (rev s) of
       [] \<Rightarrow> None
     | _ # p \<Rightarrow> Some (rev p, rev (takeWhile (\<lambda>x. x \<noteq> c) (rev s))))"

text \<open>The part before the last slash: user and password up to the last at sign, network and address.\<close>

definition mysql_login :: "string \<Rightarrow> mySQLConfig \<Rightarrow> mySQLConfig" where
  "mysql_login u cfg =
    (case SplitN2 CHR '':'' u of (k, p) \<Rightarrow>
       (case p of None \<Rightarrow> cfg | Some pw \<Rightarrow> cfg\<lparr>my_Passwd := pw\<rparr>)\<lparr>my_User := k\<rparr>)"

definition mysql_address :: "string \<Rightarrow> mySQLConfig \<Rightarrow> dsn_error + mySQLConfig" where
  "mysql_address a cfg =
    (case SplitN2 CHR ''('' a of
       (net, None) \<Rightarrow> Inr (cfg\<lparr>my_Net := net\<rparr>)
     | (net, Some addr) \<Rightarrow>
         if last a \<noteq> CHR '')'' then Inl (if CHR '')'' \<in> set addr then errInvalidDSNUnescaped else errInvalidDSNAddr)
         else Inr (cfg\<lparr>my_Addr := butlast addr, my_Net := net\<rparr>))"

definition mysql_left :: "string \<Rightarrow> mySQLConfig \<Rightarrow> dsn_error + mySQLConfig" where
  "mysql_left l cfg =
    (if l = [] then Inr cfg
     else case cut_last CHR ''@'' l of
       None \<Rightarrow> mysql_address l cfg
     | Some (u, a) \<Rightarrow> mysql_address a (mysql_login u cfg))"

definition mysql_defaults :: "mySQLConfig \<Rightarrow> dsn_error + mySQLConfig" where
  "mysql_defaults c =
    (if my_InterpolateParams c \<and> my_Collation c \<in> set unsafeCollations then Inl errInvalidDSNUnsafeCollation
     else
       let cfg = (if my_Net c = [] then c\<lparr>my_Net := ''tcp''\<rparr> else c)
       in if my_Addr cfg = [] then
            (if my_Net cfg = ''tcp'' then Inr (cfg\<lparr>my_Addr := ''127.0.0.1:3306''\<rparr>)
             else if my_Net cfg = ''unix'' then Inr (cfg\<lparr>my_Addr := ''/tmp/mysql.sock''\<rparr>)
             else Inl (UnknownNet (my_Net cfg)))
          else Inr cfg)"

definition zero_mysql :: mySQLConfig where
  "zero_mysql = \<lparr>my_User = [], my_Passwd = [], my_Net = [], my_Addr = [], my_DBName = [],
     my_Collation = ''utf8_general_ci'', my_InterpolateParams = False\<rparr>"

definition mySQLConfigFromDSN :: "string \<Rightarrow> dsn_error + mySQLConfig" where
  "mySQLConfigFromDSN dsn =
    (case cut_last CHR ''/'' dsn of
       None \<Rightarrow> if dsn \<noteq> [] then Inl errInvalidDSNNoSlash else mysql_defaults zero_mysql
     | Some (l, db) \<Rightarrow>
         (case mysql_left l zero_mysql of
            Inl e \<Rightarrow> Inl e
          | Inr cfg \<Rightarrow> mysql_defaults (cfg\<lparr>my_DBName := takeWhile (\<lambda>x. x \<noteq> CHR ''?'') db\<rparr>)))"

text \<open>The error of \<open>SplitHostPort\<close> is ignored, and host and port are empty then.\<close>

definition parseMySQLDSN :: "string \<Rightarrow> dsn_error + (string, string) gomap" where
  "parseMySQLDSN dsn =
    (case mySQLConfigFromDSN dsn of
       Inl e \<Rightarrow> Inl e
     | Inr cfg \<Rightarrow>
         let (host, port) = (case SplitHostPort (my_Addr cfg) of Some hp \<Rightarrow> hp | None \<Rightarrow> ([], []))
         in Inr (Some [(''user'', my_User cfg), (''host'', host), (''port'', port), (''dbname'', my_DBName cfg)]))"

subsection \<open>Postgres (postgres.go)\<close>

text \<open>The conversion \<open>[]rune(s)\<close>: a byte that starts no valid rune is read as U+FFFD.\<close>

function runes :: "string \<Rightarrow> string list" where
  "runes [] = []"
| "runes (c # cs) =
    (if of_char c < (0x80 :: nat) then [c] # runes cs
     else case utf8_size (c # cs) of
       Some n \<Rightarrow> take n (c # cs) # runes (drop (n - 1) cs)
     | None \<Rightarrow> [CHR 0xEF, CHR 0xBF, CHR 0xBD] # runes cs)"
  by pat_completeness auto
termination
  by (relation "measure length") auto

abbreviation IsSpace :: "string \<Rightarrow> bool" where
  "IsSpace r \<equiv> r \<in> set space_runes"

abbreviation (input) "r_eq \<equiv> ''=''"
abbreviation (input) "r_quote \<equiv> [CHR 0x27]"
abbreviation (input) "r_backslash \<equiv> [CHR 0x5C]"

text \<open>The scanner is the list of the runes that are left.\<close>

fun SkipSpaces :: "string list \<Rightarrow> (string \<times> string list) option" where
  "SkipSpaces [] = None"
| "SkipSpaces (r # rs) = (if IsSpace r then SkipSpaces rs else Some (r, rs))"

text \<open>A value without quotes ends behind a space, a quoted one behind the quote; a backslash escapes the next rune.\<close>

fun plain_value :: "string list \<Rightarrow> dsn_error + string \<times> string list" where
  "plain_value [] = Inr ([], [])"
| "plain_value (r # rs) =
    (if IsSpace r then Inr ([], rs)
     else if r = r_backslash then
       (case rs of
          [] \<Rightarrow> Inl MissingAfterBackslash
        | r' # rs' \<Rightarrow> map_sum id (apfst ((@) r')) (plain_value rs'))
     else map_sum id (apfst ((@) r)) (plain_value rs))"

fun quoted_value :: "string list \<Rightarrow> dsn_error + string \<times> string list" where
  "quoted_value [] = Inl UnterminatedString"
| "quoted_value (r # rs) =
    (if r = r_quote then Inr ([], rs)
     else if r = r_backslash then
       (case rs of
          [] \<Rightarrow> Inl UnterminatedString
        | r' # rs' \<Rightarrow> map_sum id (apfst ((@) r')) (quoted_value rs'))
     else map_sum id (apfst ((@) r)) (quoted_value rs))"

abbreviation key_rune :: "string \<Rightarrow> bool" where
  "key_rune r \<equiv> \<not> IsSpace r \<and> r \<noteq> r_eq"

text \<open>One round of the loop behind the first rune of a key: the key, its value and the runes that are left.\<close>

definition parse_opt :: "string list \<Rightarrow> dsn_error + (string \<times> string) \<times> string list" where
  "parse_opt rs =
    (let key = concat (takeWhile key_rune rs)
     in case SkipSpaces (dropWhile key_rune rs) of
          None \<Rightarrow> Inl (MissingEquals key)
        | Some (r, rs1) \<Rightarrow>
            if r \<noteq> r_eq then Inl (MissingEquals key)
            else case SkipSpaces rs1 of
              None \<Rightarrow> Inr ((key, []), [])
            | Some (r, rs2) \<Rightarrow>
                map_sum id (\<lambda>(v, rs3). ((key, v), rs3)) (if r \<noteq> r_quote then plain_value (r # rs2) else quoted_value rs2))"

lemma SkipSpaces_length: "SkipSpaces rs = Some (r, rs') \<Longrightarrow> length rs' < length rs"
  by (induction rs) (auto split: if_splits)

lemma plain_value_length: "plain_value rs = Inr (v, rs') \<Longrightarrow> length rs' \<le> length rs"
  by (induction rs arbitrary: v rs' rule: plain_value.induct)
     (auto split: if_splits list.splits sum.splits simp: map_sum_def, (fastforce simp: le_Suc_eq)+)

lemma quoted_value_length: "quoted_value rs = Inr (v, rs') \<Longrightarrow> length rs' \<le> length rs"
  by (induction rs arbitrary: v rs' rule: quoted_value.induct)
     (auto split: if_splits list.splits sum.splits simp: map_sum_def, (fastforce simp: le_Suc_eq)+)

lemma parse_opt_length:
  assumes "parse_opt rs = Inr (kv, rs')"
  shows "rs' = [] \<or> length rs' < length rs"
proof -
  obtain r1 rs1 where 1: "SkipSpaces (dropWhile key_rune rs) = Some (r1, rs1)" and r1: "r1 = r_eq"
    using assms by (auto simp: parse_opt_def Let_def split: option.splits if_splits)
  have l1: "length rs1 < length rs"
    using SkipSpaces_length[OF 1] length_dropWhile_le[of key_rune rs] by simp
  show ?thesis
  proof (cases "SkipSpaces rs1")
    case None
    then show ?thesis using assms 1 r1 by (auto simp: parse_opt_def Let_def)
  next
    case (Some p)
    obtain r2 rs2 where 2: "SkipSpaces rs1 = Some (r2, rs2)" using Some by (cases p) auto
    obtain v where "(if r2 \<noteq> r_quote then plain_value (r2 # rs2) else quoted_value rs2) = Inr (v, rs')"
      using assms 1 2 r1
      by (cases "if r2 \<noteq> r_quote then plain_value (r2 # rs2) else quoted_value rs2") (auto simp: parse_opt_def Let_def split: if_splits)
    then have "length rs' \<le> Suc (length rs2)"
      by (auto split: if_splits dest!: plain_value_length quoted_value_length simp del: plain_value.simps)
    then show ?thesis using SkipSpaces_length[OF 2] l1 by simp
  qed
qed

function parse_loop :: "string list \<Rightarrow> (string, string) gomap \<Rightarrow> dsn_error + (string, string) gomap" where
  "parse_loop rs m =
    (case SkipSpaces rs of
       None \<Rightarrow> Inr m
     | Some (r, rs1) \<Rightarrow>
         (case parse_opt (r # rs1) of
            Inl e \<Rightarrow> Inl e
          | Inr ((k, v), rs2) \<Rightarrow> parse_loop rs2 (m_put k v m)))"
  by pat_completeness auto
termination
proof (relation "measure (\<lambda>(rs, m). length rs)", goal_cases)
  case 1
  then show ?case by simp
next
  case (2 rs m p r rs1 q kv rs2 k v)
  then have s: "SkipSpaces rs = Some (r, rs1)" and p: "parse_opt (r # rs1) = Inr ((k, v), rs2)" by auto
  then show ?case using SkipSpaces_length[OF s] parse_opt_length[OF p] by auto
qed

declare parse_loop.simps [simp del]

definition parseOpts :: "string \<Rightarrow> (string, string) gomap \<Rightarrow> dsn_error + (string, string) gomap" where
  "parseOpts name m = parse_loop (runes name) m"

definition escaper :: "string \<Rightarrow> string" where
  "escaper = replacer [(CHR '' '', [CHR 0x5C, CHR '' '']), (CHR 0x27, [CHR 0x5C, CHR 0x27]), (CHR 0x5C, [CHR 0x5C, CHR 0x5C])]"

text \<open>The pairs that \<open>accrue\<close> is called with; it drops those without a value.\<close>

definition host_pairs :: "url \<Rightarrow> (string \<times> string) list" where
  "host_pairs u = (case SplitHostPort (u_Host u) of None \<Rightarrow> [(''host'', u_Host u)] | Some (h, p) \<Rightarrow> [(''host'', h), (''port'', p)])"

definition url_options :: "url \<Rightarrow> (string \<times> string) list" where
  "url_options u =
    filter (\<lambda>(k, v). v \<noteq> [])
      ((case u_User u of None \<Rightarrow> [] | Some (n, p) \<Rightarrow> [(''user'', n), (''password'', p)])
       @ host_pairs u
       @ (if u_Path u \<noteq> [] then [(''dbname'', tl (u_Path u))] else [])
       @ map (\<lambda>(k, _). (k, Query_Get (u_Query u) k)) (u_Query u))"

definition parseURL :: "(string \<Rightarrow> string + url) \<Rightarrow> string \<Rightarrow> dsn_error + string" where
  "parseURL parse dsn =
    (case parse dsn of
       Inl e \<Rightarrow> Inl (UrlError e)
     | Inr u \<Rightarrow>
         if u_Scheme u \<noteq> ''postgres'' \<and> u_Scheme u \<noteq> ''postgresql'' then Inl (InvalidProtocol (u_Scheme u))
         else Inr (join_with '' '' (sort (map (\<lambda>kv. fst kv @ CHR ''='' # escaper (snd kv)) (url_options u)))))"

definition parsePostgresDSN :: "(string \<Rightarrow> string + url) \<Rightarrow> string \<Rightarrow> dsn_error + (string, string) gomap" where
  "parsePostgresDSN parse dsn =
    (case (if prefix ''postgres://'' dsn \<or> prefix ''postgresql://'' dsn then parseURL parse dsn else Inr dsn) of
       Inl e \<Rightarrow> Inl e
     | Inr opts \<Rightarrow> map_sum id (m_del ''password'') (parseOpts opts (Some [])))"

subsection \<open>SQL Server (sqlserver.go)\<close>

definition accrue :: "string \<times> string \<Rightarrow> (string, string) gomap \<Rightarrow> (string, string) gomap" where
  "accrue kv m = (if snd kv \<noteq> [] then m_put (fst kv) (escaper (snd kv)) m else m)"

definition parseSQLServerURL :: "(string \<Rightarrow> string + url) \<Rightarrow> string \<Rightarrow> dsn_error + (string, string) gomap" where
  "parseSQLServerURL parse dsn =
    (case parse dsn of
       Inl e \<Rightarrow> Inl (UrlError e)
     | Inr u \<Rightarrow>
         if u_Scheme u \<noteq> ''sqlserver'' then Inl (InvalidProtocol (u_Scheme u))
         else Inr (fold accrue
           ((case u_User u of None \<Rightarrow> [] | Some (n, _) \<Rightarrow> [(''user'', n)])
            @ host_pairs u
            @ (if u_Path u \<noteq> [] then [(''instanceName'', tl (u_Path u))] else [])
            @ map (\<lambda>(k, _). (''dbname'', Query_Get (u_Query u) k)) (filter (\<lambda>(k, _). k = ''database'') (u_Query u)))
           (Some [])))"

definition keySynonyms :: "(string \<times> string) list" where
  "keySynonyms = [(''server'', ''host''), (''data source'', ''host''), (''address'', ''host''), (''network address'', ''host''),
     (''addr'', ''host''), (''uid'', ''user''), (''user id'', ''user''), (''initial catalog'', ''dbname''), (''database'', ''dbname'')]"

definition ado_key :: "string \<Rightarrow> string" where
  "ado_key k = (case map_of keySynonyms k of Some s \<Rightarrow> s | None \<Rightarrow> k)"

definition ado_field :: "string \<Rightarrow> (string, string) gomap \<Rightarrow> (string, string) gomap" where
  "ado_field f kvs =
    (case SplitN2 CHR ''='' f of (p0, p1) \<Rightarrow>
       let key = TrimSpace (to_lower p0)
       in if f = [] \<or> key = [] then kvs
          else
            let val = (case p1 of Some v \<Rightarrow> TrimSpace v | None \<Rightarrow> [])
            in if ado_key key = ''host'' then
                 (case split_on CHR '','' (trim_prefix ''tcp:'' val) of
                    [h, p] \<Rightarrow> if p \<noteq> [] then m_put ''host'' h (m_put ''port'' p kvs)
                      else m_put ''host'' (trim_prefix ''tcp:'' val) kvs
                  | _ \<Rightarrow> m_put ''host'' (trim_prefix ''tcp:'' val) kvs)
               else m_put (ado_key key) val kvs)"

definition parseSQLServerADO :: "string \<Rightarrow> (string, string) gomap" where
  "parseSQLServerADO dsn = fold ado_field (split_on CHR '';'' dsn) (Some [])"

definition parseSQLServerDSN :: "(string \<Rightarrow> string + url) \<Rightarrow> string \<Rightarrow> dsn_error + (string, string) gomap" where
  "parseSQLServerDSN parse dsn =
    map_sum id (m_del ''password'')
      (if prefix ''sqlserver://'' dsn then parseSQLServerURL parse dsn else Inr (parseSQLServerADO dsn))"

subsection \<open>Tags (dsn.go)\<close>

definition keysOfInterest :: "(string \<times> string) list" where
  "keysOfInterest = [(''user'', ''db.user''), (''application_name'', ''db.application''), (''dbname'', ''db.name''),
     (''host'', ''out.host''), (''port'', ''out.port'')]"

definition reduceKeys :: "(string, string) gomap \<Rightarrow> (string, string) gomap" where
  "reduceKeys meta =
    fold (\<lambda>(k, v) m. case map_of keysOfInterest k of Some nk \<Rightarrow> m_put nk v m | None \<Rightarrow> m) (m_items meta) (Some [])"

definition ParseDSN :: "(string \<Rightarrow> string + url) \<Rightarrow> string \<Rightarrow> string \<Rightarrow> dsn_error + (string, string) gomap" where
  "ParseDSN parse driverName dsn =
    map_sum id reduceKeys
      (if driverName = ''mysql'' then parseMySQLDSN dsn
       else if driverName = ''postgres'' \<or> driverName = ''pgx'' then parsePostgresDSN parse dsn
       else if driverName = ''sqlserver'' then parseSQLServerDSN parse dsn
       else Inr (Some []))"

subsection \<open>MySQL names\<close>

lemma cut_last_found: "c \<notin> set b \<Longrightarrow> cut_last c (a @ c # b) = Some (a, b)"
proof -
  assume b: "c \<notin> set b"
  then have "dropWhile (\<lambda>x. x \<noteq> c) (rev b @ c # rev a) = c # rev a" "takeWhile (\<lambda>x. x \<noteq> c) (rev b @ c # rev a) = rev b"
    by (auto simp: dropWhile_append takeWhile_append)
  then show ?thesis by (simp add: cut_last_def)
qed

lemma SplitN2_found: "c \<notin> set a \<Longrightarrow> SplitN2 c (a @ c # b) = (a, Some b)"
  by (auto simp: SplitN2_def dropWhile_append takeWhile_append)

lemma mysql_config:
  assumes "CHR '':'' \<notin> set user" "CHR ''@'' \<notin> set net" "CHR ''@'' \<notin> set addr" "CHR ''('' \<notin> set net" "net \<noteq> []" "addr \<noteq> []"
    and "CHR ''/'' \<notin> set db" "CHR ''?'' \<notin> set db" "CHR ''/'' \<notin> set ps" "ps = [] \<or> hd ps = CHR ''?''"
  shows "mySQLConfigFromDSN (user @ '':'' @ pw @ ''@'' @ net @ ''('' @ addr @ '')/'' @ db @ ps)
    = Inr \<lparr>my_User = user, my_Passwd = pw, my_Net = net, my_Addr = addr, my_DBName = db,
        my_Collation = ''utf8_general_ci'', my_InterpolateParams = False\<rparr>"
proof -
  let ?u = "user @ '':'' @ pw" and ?a = "net @ ''('' @ addr @ '')''"
  have 1: "cut_last CHR ''/'' (user @ '':'' @ pw @ ''@'' @ net @ ''('' @ addr @ '')/'' @ db @ ps) = Some (?u @ ''@'' @ ?a, db @ ps)"
    using cut_last_found[of "CHR ''/''" "db @ ps" "?u @ ''@'' @ ?a"] assms by simp
  have 2: "cut_last CHR ''@'' (?u @ ''@'' @ ?a) = Some (?u, ?a)"
    using cut_last_found[of "CHR ''@''" ?a ?u] assms by simp
  have 3: "SplitN2 CHR '':'' ?u = (user, Some pw)" using SplitN2_found[of "CHR '':''" user pw] assms by simp
  have 4: "SplitN2 CHR ''('' ?a = (net, Some (addr @ '')''))" using SplitN2_found[of "CHR ''(''" net "addr @ '')''"] assms by simp
  have 5: "takeWhile (\<lambda>x. x \<noteq> CHR ''?'') (db @ ps) = db" using assms by (cases ps) (auto simp: takeWhile_append)
  have 6: "mysql_left (?u @ ''@'' @ ?a) zero_mysql
      = Inr (zero_mysql\<lparr>my_User := user, my_Passwd := pw, my_Net := net, my_Addr := addr\<rparr>)"
    using 2 3 4 by (simp add: mysql_left_def mysql_address_def mysql_login_def zero_mysql_def)
  show ?thesis
    using assms by (simp only: mySQLConfigFromDSN_def 1 6 option.case prod.case sum.case 5) (simp add: mysql_defaults_def zero_mysql_def)
qed

subsection \<open>Option strings\<close>

abbreviation "sing \<equiv> map (\<lambda>c :: char. [c])"

definition value_char :: "char \<Rightarrow> bool" where
  "value_char c \<longleftrightarrow> of_char c < (0x80 :: nat) \<and> (c = CHR '' '' \<or> \<not> IsSpace [c])"

definition key_char :: "char \<Rightarrow> bool" where
  "key_char c \<longleftrightarrow> of_char c < (0x80 :: nat) \<and> key_rune [c]"

definition opt_ok :: "string \<times> string \<Rightarrow> bool" where
  "opt_ok kv \<longleftrightarrow> list_all key_char (fst kv) \<and> list_all value_char (snd kv) \<and> snd kv \<noteq> []"

abbreviation print_opt :: "string \<times> string \<Rightarrow> string" where
  "print_opt kv \<equiv> fst kv @ CHR ''='' # escaper (snd kv)"

lemma runes_ascii: "(\<And>c. c \<in> set s \<Longrightarrow> of_char c < (0x80 :: nat)) \<Longrightarrow> runes s = sing s"
  by (induction s) auto

lemma escaper_simps [simp]:
  "escaper [] = []"
  "escaper (c # s) = (if c = CHR '' '' \<or> c = CHR 0x27 \<or> c = CHR 0x5C then [CHR 0x5C, c] else [c]) @ escaper s"
  by (auto simp: escaper_def replacer_def)

lemma space_rune_simps [simp]: "\<not> IsSpace [CHR 0x5C]" "\<not> IsSpace ''=''" "\<not> IsSpace [CHR 0x27]" "IsSpace '' ''"
  by (simp_all add: space_runes_def)

lemma print_opt_ascii: "opt_ok kv \<Longrightarrow> c \<in> set (print_opt kv) \<Longrightarrow> of_char c < (0x80 :: nat)"
proof -
  have "c \<in> set (escaper v) \<Longrightarrow> c \<in> set v \<or> c = CHR 0x5C" for v by (induction v) (auto split: if_splits)
  then show "opt_ok kv \<Longrightarrow> c \<in> set (print_opt kv) \<Longrightarrow> of_char c < (0x80 :: nat)"
    by (fastforce simp: opt_ok_def key_char_def value_char_def list_all_iff)
qed

lemma plain_value_escaper:
  "list_all value_char v \<Longrightarrow> plain_value (sing (escaper v) @ rs) = map_sum id (apfst ((@) v)) (plain_value rs)"
proof (induction v)
  case Nil
  show ?case by (cases "plain_value rs") auto
next
  case (Cons c v)
  then have IH: "plain_value (sing (escaper v) @ rs) = map_sum id (apfst ((@) v)) (plain_value rs)" and c: "value_char c" by (simp_all add: id_def)
  have sp: "\<not> IsSpace [c]" if "c \<noteq> CHR '' ''" using c that by (simp add: value_char_def)
  show ?case using IH sp by (cases "plain_value rs") auto
qed

lemma escaper_head:
  assumes "list_all value_char v" "v \<noteq> []"
  obtains r rs where "sing (escaper v) = r # rs" "\<not> IsSpace r" "r \<noteq> r_quote"
proof (cases v)
  case (Cons c w)
  let ?special = "c = CHR '' '' \<or> c = CHR 0x27 \<or> c = CHR 0x5C"
  show thesis
  proof (cases ?special)
    case True
    then have "sing (escaper v) = r_backslash # [c] # sing (escaper w)" using Cons by simp
    then show thesis by (rule that) simp_all
  next
    case False
    then have "sing (escaper v) = [c] # sing (escaper w)" using Cons by simp
    then show thesis by (rule that) (use False Cons assms(1) in \<open>auto simp: value_char_def\<close>)
  qed
qed (use assms(2) in simp)

lemma parse_opt_print:
  assumes ok: "opt_ok kv" and rest: "rs = [] \<and> rs' = [] \<or> rs = '' '' # rs'"
  shows "parse_opt (sing (print_opt kv) @ rs) = Inr (kv, rs')"
proof -
  obtain k v where kv: "kv = (k, v)" by force
  have k: "\<forall>r \<in> set (sing k). key_rune r" and v: "list_all value_char v" "v \<noteq> []"
    using ok by (auto simp: kv opt_ok_def key_char_def list_all_iff)
  obtain r rs2 where h: "sing (escaper v) = r # rs2" "\<not> IsSpace r" "r \<noteq> r_quote" using escaper_head[OF v] .
  have t: "takeWhile key_rune (sing k @ ''='' # sing (escaper v) @ rs) = sing k"
    and d: "dropWhile key_rune (sing k @ ''='' # sing (escaper v) @ rs) = ''='' # sing (escaper v) @ rs"
    using k by (auto simp: takeWhile_append dropWhile_append)
  have c: "concat (sing k) = k" by simp
  have s1: "SkipSpaces (''='' # sing (escaper v) @ rs) = Some (''='', r # rs2 @ rs)" by (simp add: h(1))
  have s2: "SkipSpaces (r # rs2 @ rs) = Some (r, rs2 @ rs)" using h(2) by simp
  have pv: "plain_value (r # rs2 @ rs) = Inr (v, rs')"
    using plain_value_escaper[OF v(1), of rs] rest unfolding h(1) by (auto simp del: plain_value.simps(2)) auto
  have "sing (print_opt kv) @ rs = sing k @ ''='' # sing (escaper v) @ rs" by (simp add: kv)
  then show ?thesis
    by (simp only: parse_opt_def Let_def t d c s1 s2 pv option.case prod.case h(3) kv simp_thms not_True_eq_False if_True if_False)
       (simp add: h(3) pv del: plain_value.simps)
qed

text \<open>An option string that is printed with escaped values is parsed back into its pairs.\<close>

lemma parse_loop_print:
  "list_all opt_ok kvs \<Longrightarrow> parse_loop (sing (join_with '' '' (map print_opt kvs))) m = Inr (fold (\<lambda>(k, v). m_put k v) kvs m)"
proof (induction kvs arbitrary: m)
  case Nil
  then show ?case by (simp add: parse_loop.simps)
next
  case (Cons kv kvs)
  obtain k v where kv: "kv = (k, v)" by force
  have ok: "opt_ok kv" and IH: "parse_loop (sing (join_with '' '' (map print_opt kvs))) m' = Inr (fold (\<lambda>(k, v). m_put k v) kvs m')" for m'
    using Cons by auto
  let ?rs' = "sing (join_with '' '' (map print_opt kvs))"
  define rs where "rs = (if kvs = [] then [] else '' '' # ?rs')"
  have tx: "sing (join_with '' '' (map print_opt (kv # kvs))) = sing (print_opt kv) @ rs"
    by (cases kvs) (simp_all add: rs_def)
  have po: "parse_opt (sing (print_opt kv) @ rs) = Inr ((k, v), ?rs')"
    using parse_opt_print[OF ok, of rs ?rs'] by (auto simp: rs_def kv)
  obtain r rs1 where h: "sing (print_opt kv) @ rs = r # rs1" "\<not> IsSpace r"
    using ok by (cases k) (auto simp: kv opt_ok_def key_char_def)
  then have "SkipSpaces (sing (print_opt kv) @ rs) = Some (r, rs1)" by simp
  then show ?case
    unfolding tx by (subst parse_loop.simps) (simp add: po[unfolded h(1)] IH kv)
qed

lemma parseOpts_print:
  assumes "list_all opt_ok kvs"
  shows "parseOpts (join_with '' '' (map print_opt kvs)) m = Inr (fold (\<lambda>(k, v). m_put k v) kvs m)"
proof -
  have "of_char c < (0x80 :: nat)" if "c \<in> set (join_with '' '' (map print_opt kvs))" for c
    using that assms
  proof (induction "'' ''" "map print_opt kvs" arbitrary: kvs rule: join_with.induct)
    case (2 w)
    then show ?case using print_opt_ascii by (auto simp: list_all_iff)
  next
    case (3 w w' ws)
    then obtain kv kvs' where k: "kvs = kv # kvs'" "map print_opt kvs' = w' # ws" "w = print_opt kv" by (auto simp: Cons_eq_map_conv)
    have "c \<in> set (print_opt kv) \<or> c = CHR '' '' \<or> c \<in> set (join_with '' '' (map print_opt kvs'))"
      using "3.prems"(1) k by (cases kvs') auto
    then show ?case
      using "3.hyps"(1)[of kvs'] "3.prems"(2) print_opt_ascii[of kv c] k by auto
  qed simp
  then show ?thesis by (simp add: parseOpts_def runes_ascii parse_loop_print[OF assms])
qed

subsection \<open>Tags\<close>

lemma m_get_puts: "m_get (fold (\<lambda>(k, v). m_put k v) kvs m) k = (case map_of (rev kvs) k of Some v \<Rightarrow> Some v | None \<Rightarrow> m_get m k)"
  by (induction kvs arbitrary: m) (auto simp: map_add_def split: option.splits)

lemma m_wf_puts: "m_wf m \<Longrightarrow> m_wf (fold (\<lambda>(k, v). m_put k v) kvs m)"
  by (induction kvs arbitrary: m) auto

lemma map_of_permuted:
  assumes "distinct (map fst xs)" "mset ys = mset xs"
  shows "map_of (rev ys) = map_of xs"
proof -
  have "mset (map fst ys) = mset (map fst xs)" using assms(2) by (simp add: mset_map)
  then have "distinct (map fst ys)" using assms(1) mset_eq_imp_distinct_iff by blast
  then show ?thesis using assms map_of_inject_set[of "rev ys" xs] mset_eq_setD[OF assms(2)] by (simp add: rev_map[symmetric])
qed

lemma sort_printed: "sort (map f xs) = map f (sort_key f xs)" for f :: "'a \<Rightarrow> 'b :: linorder"
  by (rule properties_for_sort) (simp_all add: mset_map)

text \<open>
  The tags of a map are its values at the five keys of interest, and nothing else.
\<close>

lemma reduce_step_get:
  "m_get (fold (\<lambda>(k, v) m. case map_of keysOfInterest k of Some nk \<Rightarrow> m_put nk v m | None \<Rightarrow> m) kvs m) t
    = (case map_of (rev (concat (map (\<lambda>(k, v). case map_of keysOfInterest k of Some nk \<Rightarrow> [(nk, v)] | None \<Rightarrow> []) kvs))) t of
         Some v \<Rightarrow> Some v | None \<Rightarrow> m_get m t)"
  by (induction kvs arbitrary: m) (auto simp: map_add_def split: option.splits)

lemma keysOfInterest_inj:
  "map_of keysOfInterest k = Some t \<longleftrightarrow> (k, t) \<in> set keysOfInterest"
  "(k, t) \<in> set keysOfInterest \<Longrightarrow> (k', t) \<in> set keysOfInterest \<Longrightarrow> k = k'"
  by (auto simp: keysOfInterest_def)

definition tag_items :: "(string \<times> string) list \<Rightarrow> (string \<times> string) list" where
  "tag_items kvs = concat (map (\<lambda>(k, v). case map_of keysOfInterest k of Some nk \<Rightarrow> [(nk, v)] | None \<Rightarrow> []) kvs)"

lemma tag_items_iff: "(t, v) \<in> set (tag_items kvs) \<longleftrightarrow> (\<exists>k. (k, v) \<in> set kvs \<and> (k, t) \<in> set keysOfInterest)"
  unfolding keysOfInterest_inj(1)[symmetric] by (induction kvs) (auto simp: tag_items_def split: option.splits)

lemma reduceKeys_items: "m_get (reduceKeys m) t = map_of (rev (tag_items (m_items m))) t"
  unfolding reduceKeys_def reduce_step_get tag_items_def by (simp split: option.splits)

lemma reduceKeys_get:
  assumes wf: "m_wf m" and kt: "(k, t) \<in> set keysOfInterest"
  shows "m_get (reduceKeys m) t = m_get m k"
proof -
  have iff: "(t, v) \<in> set (tag_items (m_items m)) \<longleftrightarrow> (k, v) \<in> set (m_items m)" for v
    using kt keysOfInterest_inj(2)[OF kt] unfolding tag_items_iff by blast
  show ?thesis
  proof (cases "map_of (rev (tag_items (m_items m))) t")
    case None
    then have "(t, v) \<notin> set (tag_items (m_items m))" for v unfolding map_of_eq_None_iff by force
    then have "m_get m k \<noteq> Some v" for v unfolding m_get_items[OF wf] iff .
    then show ?thesis using None by (cases "m_get m k") (auto simp: reduceKeys_items)
  next
    case (Some v)
    have "(t, v) \<in> set (tag_items (m_items m))" using map_of_SomeD[OF Some] by simp
    then have "m_get m k = Some v" unfolding m_get_items[OF wf] iff .
    then show ?thesis using Some by (simp add: reduceKeys_items)
  qed
qed

lemma reduceKeys_other:
  assumes "t \<notin> snd ` set keysOfInterest"
  shows "m_get (reduceKeys m) t = None"
proof (cases "map_of (rev (tag_items (m_items m))) t")
  case (Some v)
  have "(t, v) \<in> set (tag_items (m_items m))" using map_of_SomeD[OF Some] by simp
  then obtain k where "(k, t) \<in> set keysOfInterest" unfolding tag_items_iff by blast
  then show ?thesis using assms by force
qed (simp add: reduceKeys_items)

subsection \<open>What the tags show\<close>

text \<open>
  A MySQL name with user, password, network, address and database gives the tags of user, host, port
  and database.  The password may hold any character, slashes and at signs too, and no tag depends on it.
\<close>

theorem mysql_dsn_tags:
  assumes "CHR '':'' \<notin> set user" "CHR ''@'' \<notin> set net" "CHR ''@'' \<notin> set addr" "CHR ''('' \<notin> set net" "net \<noteq> []" "addr \<noteq> []"
    and "CHR ''/'' \<notin> set db" "CHR ''?'' \<notin> set db" "CHR ''/'' \<notin> set ps" "ps = [] \<or> hd ps = CHR ''?''"
    and "SplitHostPort addr = Some (host, port)"
  shows "ParseDSN parse ''mysql'' (user @ '':'' @ pw @ ''@'' @ net @ ''('' @ addr @ '')/'' @ db @ ps)
    = Inr (Some [(''db.user'', user), (''out.host'', host), (''out.port'', port), (''db.name'', db)])"
  using mysql_config[OF assms(1-10), of pw] assms(11)
  by (simp add: ParseDSN_def parseMySQLDSN_def reduceKeys_def keysOfInterest_def m_put_def)

text \<open>A Postgres URL whose options can be printed gives the map of its components, without the password.\<close>

lemma parsePostgresDSN_url:
  assumes pre: "prefix ''postgres://'' dsn \<or> prefix ''postgresql://'' dsn"
    and u: "parse dsn = Inr u" "u_Scheme u = ''postgres'' \<or> u_Scheme u = ''postgresql''"
    and ok: "list_all opt_ok (url_options u)" and d: "distinct (map fst (url_options u))"
  obtains m where "parsePostgresDSN parse dsn = Inr m" "m_wf m"
    "\<And>k. m_get m k = (if k = ''password'' then None else map_of (url_options u) k)"
proof -
  let ?kvs = "sort_key print_opt (url_options u)"
  let ?m = "fold (\<lambda>(k, v). m_put k v) ?kvs (Some [])"
  have ok': "list_all opt_ok ?kvs" using ok by (simp add: list_all_iff)
  have "parseURL parse dsn = Inr (join_with '' '' (map print_opt ?kvs))"
    using u by (simp add: parseURL_def sort_printed)
  then have "parsePostgresDSN parse dsn = Inr (m_del ''password'' ?m)"
    using pre by (simp add: parsePostgresDSN_def parseOpts_print[OF ok'])
  moreover have get: "m_get (m_del ''password'' ?m) k = (if k = ''password'' then None else map_of (url_options u) k)" for k
    using map_of_permuted[OF d, of ?kvs] by (simp add: m_get_puts split: option.splits)
  moreover have "m_wf (m_del ''password'' ?m)" by (intro m_wf_del m_wf_puts) simp
  ultimately show thesis using that by blast
qed


definition sample_url :: url where
  "sample_url = \<lparr>u_Scheme = ''postgres'', u_User = Some (''bob'', ''s'' @ [CHR 0x5C, CHR '' '', CHR 0x27] @ ''x''), u_Host = ''1.2.3.4:5432'',
     u_Path = ''/mydb'', u_Query = [(''sslmode'', [''verify-full''])]\<rparr>"


text \<open>
  The escapes do not cover a tab: a password with a tab splits in two options, and what stands
  behind the tab can become a tag although the option of the password is deleted.
\<close>

theorem postgres_password_leaks:
  "ParseDSN (\<lambda>_. Inr (sample_url\<lparr>u_User := Some (''bob'', ''p'' @ [CHR 0x09] @ ''application_name=q'')\<rparr>)) ''postgres'' ''postgres://x''
    = Inr (Some [(''db.name'', ''mydb''), (''out.host'', ''1.2.3.4''), (''db.application'', ''q''), (''out.port'', ''5432''), (''db.user'', ''bob'')])"
  by code_simp

text \<open>
  In an ADO string the password has no semicolon; it is a field of its own, and no tag depends on it.
\<close>

definition agree_but :: "string \<Rightarrow> (string, string) gomap \<Rightarrow> (string, string) gomap \<Rightarrow> bool" where
  "agree_but x m m' \<longleftrightarrow> m_wf m \<and> m_wf m' \<and> (\<forall>k. k \<noteq> x \<longrightarrow> m_get m k = m_get m' k)"

lemma agree_but_put: "agree_but x m m' \<Longrightarrow> agree_but x (m_put k v m) (m_put k v m')"
  by (simp add: agree_but_def)

lemma agree_but_ado: "agree_but x m m' \<Longrightarrow> agree_but x (ado_field f m) (ado_field f m')"
  by (auto simp: ado_field_def Let_def agree_but_put split: list.splits prod.splits)

lemma agree_but_ados: "agree_but x m m' \<Longrightarrow> agree_but x (fold ado_field fs m) (fold ado_field fs m')"
  by (induction fs arbitrary: m m') (simp_all add: agree_but_ado)

lemma split_on_mid: "split_on c (a @ c # b) = split_on c a @ split_on c b"
  by (induction a) (auto split: list.splits)

lemma ado_password_field: "ado_field (''password='' @ pw) m = m_put ''password'' (TrimSpace pw) m"
proof -
  have "SplitN2 CHR ''='' (''password='' @ pw) = (''password'', Some pw)"
    using SplitN2_found[of "CHR ''=''" "''password''" pw] by simp
  moreover have "TrimSpace (to_lower ''password'') = ''password''" "ado_key ''password'' = ''password''" by code_simp+
  ultimately show ?thesis by (simp add: ado_field_def)
qed

lemma prefix_before: "c \<notin> set p \<Longrightarrow> prefix p (a @ c # r) \<longleftrightarrow> prefix p a"
  by (auto simp: prefix_append prefix_Cons)

theorem sqlserver_ado_hides_password:
  assumes sc: "CHR '';'' \<notin> set pw" "CHR '';'' \<notin> set pw'" and a: "\<not> prefix ''sqlserver://'' a"
  shows "\<exists>tags tags'. ParseDSN parse ''sqlserver'' (a @ '';password='' @ pw @ '';'' @ b) = Inr tags
    \<and> ParseDSN parse ''sqlserver'' (a @ '';password='' @ pw' @ '';'' @ b) = Inr tags' \<and> m_get tags = m_get tags'"
proof -
  define M where "M p = parseSQLServerADO (a @ '';password='' @ p @ '';'' @ b)" for p
  have split: "split_on CHR '';'' (a @ '';password='' @ p @ '';'' @ b)
      = split_on CHR '';'' a @ (''password='' @ p) # split_on CHR '';'' b" if "CHR '';'' \<notin> set p" for p
    using that split_on_mid[of "CHR '';''" a "''password='' @ p @ '';'' @ b"] split_on_sep[of "CHR '';''" "''password='' @ p" b] by simp
  have wf: "m_wf (fold ado_field fs (Some []))" for fs
    using agree_but_ados[of "[]" "Some []" "Some []" fs] by (simp add: agree_but_def)
  have "agree_but ''password'' (M pw) (M pw')"
    unfolding M_def parseSQLServerADO_def split[OF sc(1)] split[OF sc(2)] fold_append fold_simps comp_apply ado_password_field
    by (rule agree_but_ados) (simp add: agree_but_def wf)
  then have wf: "m_wf (m_del ''password'' (M pw))" "m_wf (m_del ''password'' (M pw'))"
    and get: "m_get (m_del ''password'' (M pw)) k = m_get (m_del ''password'' (M pw')) k" for k
    by (auto simp: agree_but_def)
  have "m_get (reduceKeys (m_del ''password'' (M pw))) t = m_get (reduceKeys (m_del ''password'' (M pw'))) t" for t
    using reduceKeys_get[OF wf(1), where t = t] reduceKeys_get[OF wf(2), where t = t] get reduceKeys_other[of t]
    by (cases "t \<in> snd ` set keysOfInterest") (auto simp del: m_get_del)
  moreover have "ParseDSN parse ''sqlserver'' (a @ '';password='' @ p @ '';'' @ b) = Inr (reduceKeys (m_del ''password'' (M p)))" for p
    using a prefix_before[of "CHR '';''" "''sqlserver://''" a "''password='' @ p @ '';'' @ b"]
    by (simp add: ParseDSN_def parseSQLServerDSN_def M_def)
  ultimately show ?thesis by blast
qed

end
