(* ===== verification/Container_Id.thy ===== *)
theory Container_Id
  imports Dsn
begin

section \<open>internal/container.go: the id of the container\<close>

text \<open>
  The id is found in the lines of \<^verbatim>\<open>/proc/self/cgroup\<close> by two regular expressions.  Their matching is
  written out: the leftmost match, and at one place the first alternative that leads to a match.
\<close>

definition is_dec :: "char \<Rightarrow> bool" where
  "is_dec c = (c \<in> set ''0123456789'')"

definition is_hex :: "char \<Rightarrow> bool" where
  "is_hex c = (c \<in> set ''0123456789abcdef'')"

text \<open>The lines of \<open>bufio.Scanner\<close>, without a carriage return at their end; it stops at a line that does not fit its buffer.\<close>

definition drop_cr :: "string \<Rightarrow> string" where
  "drop_cr l = (if l \<noteq> [] \<and> last l = CHR 0x0D then butlast l else l)"

definition scan_lines :: "string \<Rightarrow> string list" where
  "scan_lines t =
    (let ls = split_on CHR 0x0A t; ls' = (if last ls = [] then butlast ls else ls)
     in map drop_cr (takeWhile (\<lambda>l. length l < 65536) ls'))"

text \<open>\<open>expLine\<close>: digits, a colon, a part without colon, a colon and the path.\<close>

definition expLine :: "string \<Rightarrow> string option" where
  "expLine l =
    (case dropWhile is_dec l of
       c # r \<Rightarrow>
         if takeWhile is_dec l = [] \<or> c \<noteq> CHR '':'' then None
         else (case dropWhile (\<lambda>x. x \<noteq> CHR '':'') r of _ # path \<Rightarrow> if path = [] then None else Some path | [] \<Rightarrow> None)
     | [] \<Rightarrow> None)"

text \<open>The ends of the three sources of \<open>expContainerID\<close> at the front of a text, in the order in which they are tried.\<close>

definition uuidSource :: "(char \<Rightarrow> bool) list" where
  "uuidSource =
    (let sep = [\<lambda>c. c = CHR ''-'' \<or> c = CHR ''_''] in
     replicate 8 is_hex @ sep @ replicate 4 is_hex @ sep @ replicate 4 is_hex @ sep @ replicate 4 is_hex @ sep @ replicate 12 is_hex)"

definition containerSource :: "(char \<Rightarrow> bool) list" where
  "containerSource = replicate 64 is_hex"

definition matches :: "(char \<Rightarrow> bool) list \<Rightarrow> string \<Rightarrow> bool" where
  "matches ps s \<longleftrightarrow> length ps \<le> length s \<and> list_all (\<lambda>(p, c). p c) (zip ps s)"

definition id_ends :: "string \<Rightarrow> nat list" where
  "id_ends s =
    (if matches uuidSource s then [length uuidSource] else [])
    @ (if matches containerSource s then [length containerSource] else [])
    @ (if matches (replicate 32 is_hex @ [\<lambda>c. c = CHR ''-'']) s
       then map (\<lambda>k. 33 + k) (rev [1..<Suc (length (takeWhile is_dec (drop 33 s)))]) else [])"

text \<open>What may follow an id: nothing, or any rune and \<^verbatim>\<open>scope\<close>.\<close>

definition scope_end :: "string \<Rightarrow> bool" where
  "scope_end r \<longleftrightarrow> r = [] \<or> (suffix ''scope'' r \<and> length (runes (take (length r - 5) r)) = 1)"

definition id_at :: "string \<Rightarrow> string option" where
  "id_at s = map_option (\<lambda>n. take n s) (find (\<lambda>n. scope_end (drop n s)) (id_ends s))"

fun expContainerID :: "string \<Rightarrow> string option" where
  "expContainerID [] = None"
| "expContainerID (c # s) = (case id_at (c # s) of Some i \<Rightarrow> Some i | None \<Rightarrow> expContainerID s)"

fun container_of :: "string list \<Rightarrow> string" where
  "container_of [] = []"
| "container_of (l # ls) =
    (case expLine l of
       None \<Rightarrow> container_of ls
     | Some path \<Rightarrow> (case expContainerID path of Some i \<Rightarrow> i | None \<Rightarrow> container_of ls))"

definition parseContainerID :: "string \<Rightarrow> string" where
  "parseContainerID r = container_of (scan_lines r)"

definition readContainerID :: "(string \<Rightarrow> string option) \<Rightarrow> string \<Rightarrow> string" where
  "readContainerID readFile fpath = (case readFile fpath of None \<Rightarrow> [] | Some r \<Rightarrow> parseContainerID r)"

subsection \<open>Finding an id\<close>

lemma runes_short: "length s \<le> 4 * length (runes s)"
proof (induction s rule: runes.induct)
  case (2 c cs)
  show ?case
  proof (cases "of_char c < (0x80 :: nat)")
    case True
    then show ?thesis using "2.IH"(1) by simp
  next
    case False
    show ?thesis
    proof (cases "utf8_size (c # cs)")
      case None
      then show ?thesis using "2.IH"(2)[OF False None] False by simp
    next
      case (Some n)
      have "n \<le> 4" using Some by (cases "c # cs" rule: utf8_size.cases) (auto split: if_splits list.splits)
      then show ?thesis using "2.IH"(3)[OF False Some] False Some by simp
    qed
  qed
qed simp

lemma scope_end_short: "scope_end r \<Longrightarrow> length r \<le> 9"
  using runes_short[of "take (length r - 5) r"] by (auto simp: scope_end_def suffix_def)

lemma hex_slash [simp]: "\<not> is_hex CHR ''/''" "\<not> is_dec CHR ''/''"
  by (simp_all add: is_hex_def is_dec_def)

lemma matches_slash:
  assumes "matches ps (q @ CHR ''/'' # r)" "\<forall>p \<in> set ps. \<not> p CHR ''/''"
  shows "length ps \<le> length q"
proof (rule ccontr)
  assume "\<not> length ps \<le> length q"
  then have n: "length q < length ps" by simp
  then have "(ps ! length q, CHR ''/'') \<in> set (zip ps (q @ CHR ''/'' # r))"
    using nth_mem[of "length q" "zip ps (q @ CHR ''/'' # r)"] by simp
  then have "(ps ! length q) CHR ''/''" using assms(1) unfolding matches_def list_all_iff by blast
  then show False using assms(2) nth_mem[OF n] by blast
qed

lemma id_ends_slash:
  assumes "n \<in> set (id_ends (q @ CHR ''/'' # r))"
  shows "n \<le> length q"
proof -
  let ?s = "q @ CHR ''/'' # r"
  have task: "33 + k \<le> length q"
    if "matches (replicate 32 is_hex @ [\<lambda>c. c = CHR ''-'']) ?s" "k < Suc (length (takeWhile is_dec (drop 33 ?s)))" for k
  proof -
    have l: "33 \<le> length q" using matches_slash[OF that(1)] by auto
    then have "takeWhile is_dec (drop 33 ?s) = takeWhile is_dec (drop 33 q)" by (simp add: takeWhile_tail)
    then have "k \<le> length (drop 33 q)" using that(2) length_takeWhile_le[of is_dec "drop 33 q"] by simp
    then show ?thesis using l by simp
  qed
  have "length uuidSource \<le> length q" if "matches uuidSource ?s" by (rule matches_slash[OF that]) (auto simp: uuidSource_def Let_def)
  moreover have "length containerSource \<le> length q" if "matches containerSource ?s" by (rule matches_slash[OF that]) (auto simp: containerSource_def)
  ultimately show ?thesis using assms task by (auto simp: id_ends_def split: if_splits)
qed

lemma no_id_before:
  assumes "length r \<ge> 9"
  shows "expContainerID (q @ CHR ''/'' # r) = expContainerID r"
proof -
  have none: "id_at (q @ CHR ''/'' # r) = None" for q
  proof -
    have "\<not> scope_end (drop n (q @ CHR ''/'' # r))" if "n \<in> set (id_ends (q @ CHR ''/'' # r))" for n
      using id_ends_slash[OF that] assms scope_end_short[of "drop n (q @ CHR ''/'' # r)"] by auto
    then show ?thesis by (auto simp: id_at_def find_None_iff)
  qed
  show ?thesis
  proof (induction q)
    case Nil
    then show ?case using none[of "[]"] by simp
  next
    case (Cons c q)
    then show ?case using none[of "c # q"] by simp
  qed
qed

text \<open>
  A container id behind a slash is found, whatever the path before it is, and also with the suffix that
  systemd gives it.
\<close>

theorem container_id_found:
  assumes "length i = 64" "list_all is_hex i"
  shows "expContainerID (q @ ''/'' @ i) = Some i" "expContainerID (q @ ''/'' @ i @ ''.scope'') = Some i"
proof -
  obtain c cs where i: "i = c # cs" using assms(1) by (cases i) auto
  have hex: "matches containerSource (i @ r)" for r
    using assms by (auto simp: matches_def containerSource_def list_all_length nth_append)
  have sep: "\<not> is_hex CHR ''-''" "\<not> is_hex CHR ''_''" by (simp_all add: is_hex_def)
  have nth: "(i @ r) ! k = i ! k" "is_hex (i ! k)" if "k < 64" for k r
    using that assms by (auto simp: nth_append list_all_length)
  have no_uuid: "\<not> matches uuidSource (i @ r)" for r
  proof
    assume "matches uuidSource (i @ r)"
    then have "list_all (\<lambda>(p, c). p c) (zip uuidSource (i @ r))" "length uuidSource \<le> length (i @ r)" by (simp_all add: matches_def)
    then have "(uuidSource ! 8) ((i @ r) ! 8)" using assms(1) by (auto simp: list_all_length uuidSource_def Let_def)
    then have "i ! 8 = CHR ''-'' \<or> i ! 8 = CHR ''_''" using nth(1)[of 8 r] by (simp add: uuidSource_def Let_def nth_append)
    then show False using nth(2)[of 8] sep by auto
  qed
  have at: "id_at (i @ r) = Some i" if "scope_end r" for r
    using hex[of r] no_uuid[of r] that assms(1) by (simp add: id_at_def id_ends_def containerSource_def)
  have "scope_end ''.scope''" by (simp add: scope_end_def suffix_def)
  then have "expContainerID (i @ []) = Some i" "expContainerID (i @ ''.scope'') = Some i"
    using at[of "[]"] at[of "''.scope''"] by (simp_all add: i scope_end_def)
  then show "expContainerID (q @ ''/'' @ i) = Some i" "expContainerID (q @ ''/'' @ i @ ''.scope'') = Some i"
    using no_id_before[of i q] no_id_before[of "i @ ''.scope''" q] assms(1) by simp_all
qed

end
