(* ===== verification/Spec2Isabelle.thy ===== *)
theory Spec2Isabelle
  imports Trace_Props Sampler_Laws Log_Writer Stats Sql_Comment Start_Options Tag_Types
    Config_Laws Transport Appsec_Limiter Tracer_Log Dyngo Telemetry
    Remote_Config Mock_Tracer Http_Trace Pprof_Text Profiler Msgp
    Appsec_Waf Opentracer Container_Id
begin

text \<open>
  \<^bold>\<open>dd-trace-go\<close>: the tracer of package \<^verbatim>\<open>ddtrace/tracer\<close>, the part of the repository that decides
  what becomes of a span between \<^verbatim>\<open>StartSpan\<close> and the request that carries it to the agent.

  \<^bold>\<open>The program.\<close>  \<^verbatim>\<open>StartSpan\<close> makes a span and its context and puts the span into the buffer of its
  trace; the root of a trace is sampled (rate sampler, rules, priority sampler).  Setters change tags
  and metrics.  \<^verbatim>\<open>Finish\<close> closes the span, feeds the statistics and counts it in its trace; when every
  span of the buffer is finished, the buffer goes as one chunk into a bounded channel.  A worker
  takes chunks from it, drops what sampling rejects (or keeps single spans of it) and hands the rest
  to a trace writer: the agent writer packs a payload and uploads it concurrently, the log writer
  prints JSON lines.  A concentrator aggregates statistics in time buckets.  Propagators carry a
  span context across processes in text maps, HTTP headers or SQL comments.

  \<^bold>\<open>Theories.\<close>
  \<^item> \<^verbatim>\<open>Go_Prelude\<close>: integers of Go (64-bit wrap-around, truncated division), float64 with IEEE
    rounding over the rationals, maps (nil or an association list, whose order stands for any
    iteration order), strings, numerals and their parsers, and the lemma collections.
  \<^item> \<^verbatim>\<open>Tracer_Util\<close> (util.go): tag values, numeric conversion, propagated tags.
  \<^item> \<^verbatim>\<open>Tracer_Types\<close>: the structs of span.go, spancontext.go, sampler.go, rules_sampler.go, stats.go
    and tracer.go as records, and the store \<open>heap\<close>.  Pointers are numbers, since spans, contexts and
    traces share objects; a method that takes a mutex is one step.
  \<^item> \<^verbatim>\<open>Rate_Sampler\<close>, \<^verbatim>\<open>Samplers\<close>, \<^verbatim>\<open>Sampler_Laws\<close> (sampler.go, rules_sampler.go): Knuth hashing, agent
    rates, glob rules, rate limiter; the locale \<open>limiter\<close> states what a limiter promises.
  \<^item> \<^verbatim>\<open>Span_Ops\<close>, \<^verbatim>\<open>Span_Finish\<close> (span.go, spancontext.go): setters, sampling priority, trace buffer,
    \<open>Finish\<close>, \<open>SetUser\<close>.
  \<^item> \<^verbatim>\<open>Tracer_Core\<close> (tracer.go): \<open>StartSpan\<close>, sampling, worker and drain loop.
  \<^item> \<^verbatim>\<open>Trace_Spec\<close>: an abstract machine for the life of spans and traces (which spans are open,
    buffered, sent) with its invariant.  \<^verbatim>\<open>Trace_Refine\<close>, \<^verbatim>\<open>Trace_Start\<close>: the store refines it, and the
    setters leave it alone (\<open>frame\<close>).  \<^verbatim>\<open>Trace_Machine\<close>: the step relation \<open>tstep\<close> of the whole tracer
    and its reachable states.  \<^verbatim>\<open>Trace_Props\<close>: what holds in all of them, with a concrete run.
  \<^item> \<^verbatim>\<open>Tag_Types\<close>: the string tags and the numeric tags of a span have disjoint keys in every step.
  \<^item> \<^verbatim>\<open>Start_Options\<close> (option.go, context.go): options of spans, Go contexts, ids and parents.
  \<^item> \<^verbatim>\<open>Tracer_Config\<close>, \<^verbatim>\<open>Config_Laws\<close> (option.go, internal/env.go, globalconfig.go): \<open>newConfig\<close> with its options,
    environment variables and agent features, and the tracer it makes; what it guarantees.
  \<^item> \<^verbatim>\<open>Transport\<close> (transport.go): requests to the agent, their headers and errors.
  \<^item> \<^verbatim>\<open>Text_Map\<close>, \<^verbatim>\<open>Text_Map_Laws\<close> (textmap.go, propagator.go): Datadog and B3 propagation; the locale
    \<open>text_map_carrier\<close> is interpreted on both carriers.
  \<^item> \<^verbatim>\<open>Sql_Comment\<close> (sqlcomment.go): the SQL carrier.
  \<^item> \<^verbatim>\<open>Payload\<close> (payload.go): the msgpack stream; the locale \<open>byte_reader\<close> is the contract of
    \<^verbatim>\<open>io.Reader\<close>.  \<^verbatim>\<open>Msgp\<close> (span_msgp.go, stats_payload_msgp.go): the wire format of spans and statistics.
  \<^item> \<^verbatim>\<open>Agent_Writer\<close>, \<^verbatim>\<open>Log_Writer\<close> (writer.go): the two trace writers; the locale \<open>trace_writer\<close> is
    interpreted on both.
  \<^item> \<^verbatim>\<open>Stats\<close> (stats.go, stats_payload.go): the concentrator.
  \<^item> \<^verbatim>\<open>Telemetry\<close> (internal/telemetry): the client and the protocol of its sessions.
  \<^item> \<^verbatim>\<open>Remote_Config\<close> (internal/remoteconfig): polling, updates and callbacks.  \<^verbatim>\<open>Mock_Tracer\<close>
    (ddtrace/mocktracer): the tracer for tests.
  \<^item> \<^verbatim>\<open>Http_Trace\<close> (contrib/internal/httptrace): the spans of HTTP requests, which the web integrations share.
  \<^item> \<^verbatim>\<open>Profiler_Config\<close>, \<^verbatim>\<open>Profiler_Ops\<close>, \<^verbatim>\<open>Profiler\<close> (profiler): options, collection of profiles, metrics, upload, and the
    machine of the two goroutines around the queue.  \<^verbatim>\<open>Pprof\<close>, \<^verbatim>\<open>Pprof_Text\<close> (profile.go, pprofutils): differences of
    profiles, goroutine stacks, folded text.  \<^verbatim>\<open>Go_Time\<close>: durations and their texts.
  \<^item> \<^verbatim>\<open>Tracer_Log\<close> (internal/log): levels, loggers, aggregated errors and their timer.
  \<^item> \<^verbatim>\<open>Appsec_Limiter\<close>, \<^verbatim>\<open>Dyngo\<close> (internal/appsec): start and stop, the lock-free rate limiter with a step for
    each atomic operation, operations and event listeners.
  \<^item> \<^verbatim>\<open>Waf_Object\<close>, \<^verbatim>\<open>Waf_Handle\<close> (internal/appsec/waf): objects of the WAF in C memory, encoding, decoding and freeing;
    handles, contexts and the lock that counts them.  \<^verbatim>\<open>Appsec_Waf\<close> (internal/appsec/waf.go): registration of the
    WAF and its HTTP and gRPC listeners.
  \<^item> \<^verbatim>\<open>Opentracer\<close> (ddtrace/opentracer, ddtrace/internal): the OpenTracing bridge and the global tracer.
  \<^item> \<^verbatim>\<open>Dsn\<close> (contrib/database/sql/internal): data source names and their tags.  \<^verbatim>\<open>Container_Id\<close>
    (internal/container.go): the container id.

  \<^bold>\<open>What is shown.\<close>  Every reachable state of the tracer sends each span at most once and only when it
  is finished, keeps the buffers consistent, and flushes a trace when its last span finishes; a
  finished span is frozen; the drain loop ends.  Injecting and extracting a context is the identity
  on what is propagated.  A sampling rate keeps exactly its share of the ids.  Both writers account
  for every trace they accept, the log writer prints well-formed lines, the payload reads as one
  msgpack array, from which the traces are decoded as they were.  The concentrator counts each span once in the group and bucket it belongs to.  SQL
  comments cannot be closed by their content.  The configuration has its order of precedence and clamps the
  header of trace tags; requests report the drop counters once.  The AppSec limiter keeps its bound in all
  interleavings, aggregated log errors are never forgotten, listeners unregister exactly.  The
  profiler keeps its batches in order and loses none but the evicted ones; difference profiles add up.  The C
  memory of the WAF is freed once, objects stay within the limits and decode to what was encoded, a handle outlives
  its contexts.  The tags of a data source name show its parts but not its password.  Where a
  comment of the source and the code differ, or the code misses its purpose, a theorem states what the
  code does.

  \<^bold>\<open>Fuel and bounds.\<close>  \<open>worker_drain\<close> and \<open>read_all\<close> take fuel; one more than the length of the channel,
  or of the stream, is proved to be enough.  The walk of the mock tracer to a root span takes fuel because
  it may not end.  All other loops are total functions with a measure or
  structural recursion.  Counters are words of their width; where a theorem needs that a counter does
  not wrap, it says so.

  \<^bold>\<open>Arguments of the model.\<close>  Time, random numbers and the environment; the token bucket of
  golang.org/x/time/rate; the SQL obfuscator of datadog-agent; the msgp encoder; the sketches of
  ddsketch; JSON decoding of rules and rates; the shortest decimal of a float64; the network and the
  answers of the agent; the repository of remote configuration; google/pprof, gostackparse and what the Go
  runtime reports to the profiler; libddwaf, encoding/json and net/url.Parse.

  \<^bold>\<open>Not modelled.\<close>  The C allocation profiler (cgo);
  the other integrations under contrib (wrappers of
  third-party packages); the size estimates of the generated msgpack code; starting and
  stopping goroutines, whose interleavings the step relations cover.
\<close>

end
